(* ===== verification/Orion_Prelude.thy ===== *)
theory Orion_Prelude
  imports Main "HOL-Library.Word"
begin

text \<open>
  Shared vocabulary of the development: bytes and nil-able byte slices, Go errors as values,
  the result type of fallible operations with its bind, Go maps as association lists in
  iteration order, lexicographic comparison of byte strings, decimal printing, and the generic
  lemmas on lists that several components use.

  Collections: \<open>go_simps\<close> holds the equations that evaluate the result monad and slices,
  \<open>go_elims\<close> the inversion facts for a successful run.
\<close>

named_theorems go_simps \<open>evaluation of results, slices and Go maps\<close>
named_theorems go_elims \<open>inversion of successful results\<close>

section \<open>Bytes and slices\<close>

type_synonym byte = "8 word"
type_synonym bytes = "byte list"

text \<open>A Go value of type \<^verbatim>\<open>[]byte\<close>: \<open>None\<close> is nil, \<open>Some b\<close> a slice with content \<open>b\<close>.\<close>

type_synonym slice = "bytes option"

primrec content :: "slice \<Rightarrow> bytes" where
  "content None = []"
| "content (Some b) = b"

definition slen :: "slice \<Rightarrow> nat" where
  "slen s = length (content s)"

text \<open>\<^verbatim>\<open>bytes.Equal\<close> treats nil and the empty slice as equal.\<close>

definition slice_eq :: "slice \<Rightarrow> slice \<Rightarrow> bool" where
  "slice_eq a b = (content a = content b)"

definition bytes_of_string :: "string \<Rightarrow> bytes" where
  "bytes_of_string s = map of_char s"

definition string_of_bytes :: "bytes \<Rightarrow> string" where
  "string_of_bytes bs = map (\<lambda>b. char_of (unat b)) bs"

text \<open>\<^verbatim>\<open>bytes.Compare(a, b) < 0\<close>: lexicographic order of byte strings.\<close>

fun bytes_less :: "bytes \<Rightarrow> bytes \<Rightarrow> bool" where
  "bytes_less [] [] = False"
| "bytes_less [] (y # ys) = True"
| "bytes_less (x # xs) [] = False"
| "bytes_less (x # xs) (y # ys) = (x < y \<or> x = y \<and> bytes_less xs ys)"

section \<open>Errors and results\<close>

text \<open>
  Every \<^verbatim>\<open>error\<close> the modelled code can return, and the two ways a model run can stop without
  a Go value: \<open>Panic\<close> (a Go panic) and \<open>OutOfFuel\<close> (a bounded loop that did not end).
\<close>

datatype go_error =
    Err string
  | NotFoundErr string
  | DBNotFoundErr string
  | PermissionErr string
  | TimeoutErr string
  | DuplicateTxIDError string
  | ClosedError string
  | NotLeaderError nat string
  | BadRequestError string
  | ServerRestrictionError string
  | LdbErrNotFound
  | Panic string
  | OutOfFuel

type_synonym 'a res = "go_error + 'a"

definition rbind :: "'a res \<Rightarrow> ('a \<Rightarrow> 'b res) \<Rightarrow> 'b res" where
  "rbind m f = (case m of Inl e \<Rightarrow> Inl e | Inr x \<Rightarrow> f x)"

lemma rbind_simps [simp, go_simps]:
  "rbind (Inl e) f = Inl e"
  "rbind (Inr x) f = f x"
  by (simp_all add: rbind_def)

lemma rbind_Inr_iff [go_elims]:
  "rbind m f = Inr y \<longleftrightarrow> (\<exists>x. m = Inr x \<and> f x = Inr y)"
  by (cases m) auto

lemma rbind_InrE:
  assumes "rbind m f = Inr y"
  obtains x where "m = Inr x" and "f x = Inr y"
  using assms by (auto simp: rbind_Inr_iff)

lemma rbind_cong [fundef_cong]:
  "m = m' \<Longrightarrow> (\<And>x. m' = Inr x \<Longrightarrow> f x = f' x) \<Longrightarrow> rbind m f = rbind m' f'"
  by (cases m') auto

lemma rbind_assoc: "rbind (rbind m f) g = rbind m (\<lambda>x. rbind (f x) g)"
  by (cases m) auto

lemma rbind_right_unit [simp, go_simps]: "rbind m Inr = m"
  by (simp add: rbind_def split: sum.splits)

text \<open>
  Operations on mutable state return the state next to their result, so that what was written
  before an error stays written.
\<close>

text \<open>A slice that a serialisation keeps: empty bytes fields come back nil.\<close>

definition norm_slice :: "slice \<Rightarrow> bool" where
  "norm_slice x \<longleftrightarrow> x \<noteq> Some []"

lemma slen_simps [simp, go_simps]: "slen None = 0" "slen (Some b) = length b"
  by (simp_all add: slen_def)

definition sbind :: "'s \<times> 'a res \<Rightarrow> ('s \<Rightarrow> 'a \<Rightarrow> 's \<times> 'b res) \<Rightarrow> 's \<times> 'b res" where
  "sbind m f = (case m of (s, Inl e) \<Rightarrow> (s, Inl e) | (s, Inr x) \<Rightarrow> f s x)"

lemma sbind_simps [simp, go_simps]:
  "sbind (s, Inl e) f = (s, Inl e)"
  "sbind (s, Inr x) f = f s x"
  by (simp_all add: sbind_def)

lemma sbind_cong [fundef_cong]:
  "m = m' \<Longrightarrow> (\<And>s x. m' = (s, Inr x) \<Longrightarrow> f s x = f' s x) \<Longrightarrow> sbind m f = sbind m' f'"
  by (auto simp: sbind_def split: sum.splits prod.splits)

lemma sbind_assoc: "sbind (sbind m f) g = sbind m (\<lambda>s x. sbind (f s x) g)"
  by (auto simp: sbind_def split: sum.splits prod.splits)

lemma sbind_if: "sbind (if c then a else b) f = (if c then sbind a f else sbind b f)"
  by simp

lemma sbind_Inr_iff [go_elims]:
  "sbind m f = (s', Inr y) \<longleftrightarrow> (\<exists>s x. m = (s, Inr x) \<and> f s x = (s', Inr y))"
  by (auto simp: sbind_def split: sum.splits prod.splits)

text \<open>A computation that only reads the state.\<close>

definition sread :: "'s \<Rightarrow> 'a res \<Rightarrow> 's \<times> 'a res" where
  "sread s m = (s, m)"

lemma sread_simp [simp, go_simps]: "sread s m = (s, m)"
  by (simp add: sread_def)

definition is_panic :: "go_error \<Rightarrow> bool" where
  "is_panic e = (case e of Panic _ \<Rightarrow> True | OutOfFuel \<Rightarrow> True | _ \<Rightarrow> False)"

section \<open>Printing\<close>

text \<open>Decimal printing of an unsigned number, as \<^verbatim>\<open>%d\<close> does.\<close>

fun dec :: "nat \<Rightarrow> string" where
  "dec n = (if n < 10 then [char_of (48 + n)] else dec (n div 10) @ [char_of (48 + n mod 10)])"

declare dec.simps [simp del]

lemma digit_inj: "a < 10 \<Longrightarrow> b < 10 \<Longrightarrow> char_of (48 + a) = (char_of (48 + b) :: char) \<longleftrightarrow> a = (b :: nat)"
  by (simp add: char_of_eq_iff of_char_mod_256 take_bit_eq_mod)

lemma dec_nonempty [simp]: "dec n \<noteq> []" "[] \<noteq> dec n"
  by (subst dec.simps, simp)+

lemma dec_inj: "dec m = dec n \<Longrightarrow> m = n"
proof (induction m arbitrary: n rule: dec.induct)
  case (1 m)
  show ?case
  proof (cases "m < 10")
    case True
    then have "[char_of (48 + m)] = dec n"
      using "1.prems" by (simp add: dec.simps[of m])
    then show ?thesis
      using True by (cases "n < 10") (simp_all add: dec.simps[of n] digit_inj)
  next
    case m: False
    then have eq: "dec (m div 10) @ [char_of (48 + m mod 10)] = dec n"
      using "1.prems" by (simp add: dec.simps[of m])
    then have n: "\<not> n < 10"
      by (auto simp: dec.simps[of n])
    then have "dec (m div 10) = dec (n div 10)" "m mod 10 = n mod 10"
      using eq by (simp_all add: dec.simps[of n] digit_inj)
    then show ?thesis
      using "1.IH"[OF m] by (metis div_mult_mod_eq)
  qed
qed

lemma dec_digits: "c \<in> set (dec n) \<Longrightarrow> \<exists>d < 10. c = char_of (48 + d :: nat)"
proof (induction n rule: dec.induct)
  case (1 n)
  show ?case
  proof (cases "n < 10")
    case True
    then show ?thesis
      using "1.prems" by (auto simp: dec.simps[of n])
  next
    case False
    then have "c \<in> set (dec (n div 10)) \<or> c = char_of (48 + n mod 10)"
      using "1.prems" by (auto simp: dec.simps[of n])
    then show ?thesis
    proof
      assume "c = char_of (48 + n mod 10)"
      moreover have "n mod 10 < 10"
        by simp
      ultimately show ?thesis
        by blast
    qed (rule "1.IH"[OF False])
  qed
qed

lemma dec_no_colon: "CHR '':'' \<notin> set (dec n)"
proof
  assume "CHR '':'' \<in> set (dec n)"
  then obtain d :: nat where d: "d < 10" "CHR '':'' = char_of (48 + d)"
    using dec_digits by blast
  then have "of_char (CHR '':'') = (48 + d) mod 256"
    by (metis of_char_of)
  then show False
    using d(1) by simp
qed

text \<open>A separator that one part does not contain splits a string in one way only.\<close>

lemma split_at_last:
  assumes "xs @ c # ys = xs' @ c # ys'" "c \<notin> set ys" "c \<notin> set ys'"
  shows "xs = xs' \<and> ys = ys'"
proof -
  have "takeWhile (\<lambda>x. x \<noteq> c) (rev ys @ c # rev xs) = rev ys" "takeWhile (\<lambda>x. x \<noteq> c) (rev ys' @ c # rev xs') = rev ys'"
    using assms(2,3) by (subst takeWhile_append2; auto)+
  moreover have "rev ys @ c # rev xs = rev ys' @ c # rev xs'"
    using arg_cong[OF assms(1), of rev] by simp
  ultimately show ?thesis
    using assms(1) by (metis append_same_eq rev_is_rev_conv)
qed

definition dec_int :: "int \<Rightarrow> string" where
  "dec_int i = (if i < 0 then ''-'' @ dec (nat (- i)) else dec (nat i))"

fun go_error_string :: "go_error \<Rightarrow> string" where
  "go_error_string (Err m) = m"
| "go_error_string (NotFoundErr m) = m"
| "go_error_string (DBNotFoundErr n) = ''database '' @ n @ '' does not exist''"
| "go_error_string (PermissionErr m) = m"
| "go_error_string (TimeoutErr m) = m"
| "go_error_string (DuplicateTxIDError t) = ''the transaction has a duplicate txID ['' @ t @ '']''"
| "go_error_string (ClosedError m) = m"
| "go_error_string (NotLeaderError i hp) =
     ''not a leader, leader is RaftID: '' @ dec i @ '', with HostPort: '' @ hp"
| "go_error_string (BadRequestError m) = m"
| "go_error_string (ServerRestrictionError m) = m"
| "go_error_string LdbErrNotFound = ''leveldb: not found''"
| "go_error_string (Panic m) = m"
| "go_error_string OutOfFuel = ''''"

text \<open>
  \<^verbatim>\<open>errors.WithMessage\<close> and \<^verbatim>\<open>errors.Wrap\<close>: the wrapped error keeps its text, not its dynamic
  type. A panic is not a returned error and passes through.
\<close>

definition wrap_error :: "string \<Rightarrow> go_error \<Rightarrow> go_error" where
  "wrap_error msg e = (if is_panic e then e else Err (msg @ '': '' @ go_error_string e))"

definition wrap :: "string \<Rightarrow> 'a res \<Rightarrow> 'a res" where
  "wrap msg m = (case m of Inl e \<Rightarrow> Inl (wrap_error msg e) | Inr x \<Rightarrow> Inr x)"

lemma wrap_simps [simp, go_simps]:
  "wrap msg (Inr x) = Inr x"
  "wrap msg (Inl e) = Inl (wrap_error msg e)"
  by (simp_all add: wrap_def)

lemma wrap_Inr_iff [simp, go_elims]: "wrap msg m = Inr x \<longleftrightarrow> m = Inr x"
  by (cases m) auto

section \<open>Go maps\<close>

text \<open>
  A Go map is an association list with distinct keys. Its order is the order in which
  \<^verbatim>\<open>range\<close> visits the entries, which Go leaves open: a statement about a map holds for every
  list with the same entries.
\<close>

type_synonym ('k, 'v) gomap = "('k \<times> 'v) list"

definition wf_gomap :: "('k, 'v) gomap \<Rightarrow> bool" where
  "wf_gomap m = distinct (map fst m)"

definition has_key :: "('k, 'v) gomap \<Rightarrow> 'k \<Rightarrow> bool" where
  "has_key m k = (map_of m k \<noteq> None)"

text \<open>\<^verbatim>\<open>m[k]\<close> for a map with boolean values: false for a missing key.\<close>

definition lookup_bool :: "('k, bool) gomap \<Rightarrow> 'k \<Rightarrow> bool" where
  "lookup_bool m k = (map_of m k = Some True)"

definition gomap_put :: "('k, 'v) gomap \<Rightarrow> 'k \<Rightarrow> 'v \<Rightarrow> ('k, 'v) gomap" where
  "gomap_put m k v = (k, v) # filter (\<lambda>e. fst e \<noteq> k) m"

definition gomap_delete :: "('k, 'v) gomap \<Rightarrow> 'k \<Rightarrow> ('k, 'v) gomap" where
  "gomap_delete m k = filter (\<lambda>e. fst e \<noteq> k) m"

lemma map_of_filter_neq: "map_of (filter (\<lambda>e. fst e \<noteq> k) m) x = (if x = k then None else map_of m x)"
  by (induction m) auto

lemma map_of_gomap_put [simp]: "map_of (gomap_put m k v) = (map_of m)(k \<mapsto> v)"
  by (rule ext) (simp add: gomap_put_def map_of_filter_neq)

lemma map_of_gomap_delete [simp]: "map_of (gomap_delete m k) = (map_of m)(k := None)"
  by (rule ext) (simp add: gomap_delete_def map_of_filter_neq)

lemma wf_gomap_put [simp]: "wf_gomap m \<Longrightarrow> wf_gomap (gomap_put m k v)"
  unfolding wf_gomap_def gomap_put_def by (induction m) auto

lemma wf_gomap_delete [simp]: "wf_gomap m \<Longrightarrow> wf_gomap (gomap_delete m k)"
  unfolding wf_gomap_def gomap_delete_def by (induction m) auto

lemma has_key_iff: "has_key m k \<longleftrightarrow> k \<in> fst ` set m"
  by (simp add: has_key_def map_of_eq_None_iff)

section \<open>Byte strings in order\<close>

lemma bytes_less_irrefl [simp]: "\<not> bytes_less xs xs"
  by (induction xs) auto

lemma bytes_less_total: "bytes_less xs ys \<or> xs = ys \<or> bytes_less ys xs"
  by (induction xs ys rule: bytes_less.induct) auto

lemma bytes_less_asym: "bytes_less xs ys \<Longrightarrow> \<not> bytes_less ys xs"
  by (induction xs ys rule: bytes_less.induct) auto

lemma bytes_less_trans: "bytes_less xs ys \<Longrightarrow> bytes_less ys zs \<Longrightarrow> bytes_less xs zs"
proof (induction xs ys arbitrary: zs rule: bytes_less.induct)
  case (2 y ys)
  then show ?case by (cases zs) auto
next
  case (4 x xs y ys)
  then show ?case by (cases zs) auto
qed auto

lemma bytes_less_append: "bytes_less (ps @ xs) (ps @ ys) = bytes_less xs ys"
  by (induction ps) auto

lemma slice_eq_refl [simp]: "slice_eq a a"
  by (simp add: slice_eq_def)

end
