(* ===== verification/Crypto_Hash.thy ===== *)
theory Crypto_Hash
  imports Orion_Prelude
begin

text \<open>
  \<^verbatim>\<open>pkg/crypto/hash.go\<close>. The digest function is a parameter \<open>h\<close> of every definition that
  hashes. \<^verbatim>\<open>digest.Write\<close> never returns an error (the contract of Go's \<^verbatim>\<open>hash.Hash\<close>), so the
  hashing functions are total. Statements on tamper evidence end in a \<open>collision\<close>: two
  different inputs with the same digest, written down explicitly.
\<close>

type_synonym digest = "bytes \<Rightarrow> bytes"

definition ComputeSHA256Hash :: "digest \<Rightarrow> bytes \<Rightarrow> slice" where
  "ComputeSHA256Hash h msgBytes = Some (h msgBytes)"

definition ConcatenateHashes :: "digest \<Rightarrow> slice \<Rightarrow> slice \<Rightarrow> slice" where
  "ConcatenateHashes h h1 h2 =
     (if slen h1 = 0 then h2
      else if slen h2 = 0 then h1
      else if bytes_less (content h1) (content h2)
        then Some (h (content h1 @ content h2))
        else Some (h (content h2 @ content h1)))"

text \<open>The bytes \<open>ConcatenateHashes\<close> digests when neither argument is empty.\<close>

definition concat_preimage :: "slice \<Rightarrow> slice \<Rightarrow> bytes" where
  "concat_preimage a b =
     (if bytes_less (content a) (content b) then content a @ content b else content b @ content a)"

definition collision :: "digest \<Rightarrow> bytes \<Rightarrow> bytes \<Rightarrow> bool" where
  "collision h x y = (x \<noteq> y \<and> h x = h y)"

lemma content_ComputeSHA256Hash [simp]: "content (ComputeSHA256Hash h b) = h b"
  by (simp add: ComputeSHA256Hash_def)

lemma ConcatenateHashes_None [simp]:
  "ConcatenateHashes h a None = (if slen a = 0 then None else a)"
  "ConcatenateHashes h None b = b"
  by (simp_all add: ConcatenateHashes_def slen_def)

lemma ConcatenateHashes_comm:
  "content (ConcatenateHashes h a b) = content (ConcatenateHashes h b a)"
proof (cases "slen a = 0 \<or> slen b = 0")
  case True
  then show ?thesis by (auto simp: ConcatenateHashes_def slen_def)
next
  case False
  then show ?thesis
    using bytes_less_total [of "content a" "content b"] bytes_less_asym [of "content a" "content b"]
    by (auto simp: ConcatenateHashes_def)
qed

text \<open>The interface a digest function offers its clients: a fixed, non-zero output length.\<close>

locale fixed_digest =
  fixes h :: digest and n :: nat
  assumes len: "length (h x) = n"
    and pos: "0 < n"
begin

lemma slen_hash [simp]: "slen (Some (h x)) = n"
  by (simp add: slen_def len)

lemma slen_Concatenate:
  "slen a = n \<Longrightarrow> slen b = n \<Longrightarrow> slen (ConcatenateHashes h a b) = n"
  using pos by (simp add: ConcatenateHashes_def slen_def len)

lemma length_concat_preimage:
  "slen a = n \<Longrightarrow> slen b = n \<Longrightarrow> length (concat_preimage a b) = 2 * n"
  by (simp add: concat_preimage_def slen_def)

lemma Concatenate_digest:
  "slen a = n \<Longrightarrow> slen b = n \<Longrightarrow> ConcatenateHashes h a b = Some (h (concat_preimage a b))"
  using pos by (simp add: ConcatenateHashes_def concat_preimage_def)

text \<open>
  Two pairs of digests that combine to the same digest are the same unordered pair, or the two
  combined inputs are a collision.
\<close>

lemma concat_preimage_inj:
  assumes "slen a = n" "slen b = n" "slen c = n" "slen d = n"
    and "concat_preimage a b = concat_preimage c d"
  shows "content a = content c \<and> content b = content d \<or> content a = content d \<and> content b = content c"
  using assms by (auto simp: concat_preimage_def slen_def split: if_splits)

lemma Concatenate_binding:
  assumes "slen a = n" "slen b = n" "slen c = n" "slen d = n"
    and "content (ConcatenateHashes h a b) = content (ConcatenateHashes h c d)"
  shows "content a = content c \<and> content b = content d \<or> content a = content d \<and> content b = content c
    \<or> collision h (concat_preimage a b) (concat_preimage c d)"
  using assms concat_preimage_inj [of a b c d] by (auto simp: Concatenate_digest collision_def)

end

text \<open>
  A one-byte checksum: the digest at which the concrete instances of the theorems are computed
  (SHA-256 itself is in theory \<open>Sha256\<close>).
\<close>

definition checksum :: digest where
  "checksum bs = [sum_list bs + word_of_nat (length bs)]"

interpretation checksum: fixed_digest checksum 1
  by unfold_locales (simp_all add: checksum_def)

end
