(* ===== verification/Sha256.thy ===== *)
theory Sha256
  imports Crypto_Hash
begin

unbundle bit_operations_syntax

text \<open>
  The digest behind \<^verbatim>\<open>crypto.SHA256\<close> (FIPS 180-4), as an executable function on bytes. It
  instantiates the digest interface \<open>fixed_digest\<close> with 32-byte outputs, so everything proved
  for a fixed-length digest holds for the one the server runs with.
\<close>

text \<open>
  The constants of the standard are the first 32 bits of the fractional parts of roots of the
  first primes; they are computed here by integer roots, bit by bit from the highest.
\<close>

definition is_prime :: "nat \<Rightarrow> bool" where
  "is_prime p \<longleftrightarrow> 1 < p \<and> list_all (\<lambda>d. p mod d \<noteq> 0) [2..<p]"

definition first_primes :: "nat \<Rightarrow> nat list" where
  "first_primes n = take n (filter is_prime [2..<5 * n])"

fun int_root :: "nat \<Rightarrow> nat \<Rightarrow> nat \<Rightarrow> nat \<Rightarrow> nat" where
  "int_root e x 0 r = r"
| "int_root e x (Suc k) r = int_root e x k (if (r + 2 ^ k) ^ e \<le> x then r + 2 ^ k else r)"

definition root_fraction :: "nat \<Rightarrow> nat \<Rightarrow> 32 word" where
  "root_fraction e p = word_of_nat (int_root e (p * 2 ^ (32 * e)) 40 0)"

definition sha_K :: "32 word list" where
  "sha_K = map (root_fraction 3) (first_primes 64)"

definition sha_Ch :: "32 word \<Rightarrow> 32 word \<Rightarrow> 32 word \<Rightarrow> 32 word" where
  "sha_Ch x y z = (x AND y) XOR (NOT x AND z)"

definition sha_Maj :: "32 word \<Rightarrow> 32 word \<Rightarrow> 32 word \<Rightarrow> 32 word" where
  "sha_Maj x y z = (x AND y) XOR (x AND z) XOR (y AND z)"

definition sha_S0 :: "32 word \<Rightarrow> 32 word" where
  "sha_S0 x = word_rotr 2 x XOR word_rotr 13 x XOR word_rotr 22 x"

definition sha_S1 :: "32 word \<Rightarrow> 32 word" where
  "sha_S1 x = word_rotr 6 x XOR word_rotr 11 x XOR word_rotr 25 x"

definition sha_s0 :: "32 word \<Rightarrow> 32 word" where
  "sha_s0 x = word_rotr 7 x XOR word_rotr 18 x XOR drop_bit 3 x"

definition sha_s1 :: "32 word \<Rightarrow> 32 word" where
  "sha_s1 x = word_rotr 17 x XOR word_rotr 19 x XOR drop_bit 10 x"

text \<open>The message schedule, newest word first: 16 words extended by \<open>k\<close> more.\<close>

fun sha_schedule :: "nat \<Rightarrow> 32 word list \<Rightarrow> 32 word list" where
  "sha_schedule 0 ws = ws"
| "sha_schedule (Suc k) ws =
     sha_schedule k ((sha_s1 (ws ! 1) + ws ! 6 + sha_s0 (ws ! 14) + ws ! 15) # ws)"

definition sha_round :: "32 word \<times> 32 word \<Rightarrow> 32 word list \<Rightarrow> 32 word list" where
  "sha_round kw st =
     (let t1 = st ! 7 + sha_S1 (st ! 4) + sha_Ch (st ! 4) (st ! 5) (st ! 6) + fst kw + snd kw;
          t2 = sha_S0 (st ! 0) + sha_Maj (st ! 0) (st ! 1) (st ! 2)
      in [t1 + t2, st ! 0, st ! 1, st ! 2, st ! 3 + t1, st ! 4, st ! 5, st ! 6])"

definition be_word :: "bytes \<Rightarrow> 32 word" where
  "be_word bs = fold (\<lambda>b acc. push_bit 8 acc OR ucast b) bs 0"

fun chunks :: "nat \<Rightarrow> nat \<Rightarrow> 'a list \<Rightarrow> 'a list list" where
  "chunks 0 n xs = []"
| "chunks (Suc k) n xs = take n xs # chunks k n (drop n xs)"

definition sha_block :: "32 word list \<Rightarrow> bytes \<Rightarrow> 32 word list" where
  "sha_block st blk =
     (let ws = rev (sha_schedule 48 (rev (map be_word (chunks 16 4 blk))))
      in map2 (+) st (fold sha_round (zip sha_K ws) st))"

definition sha_pad :: "bytes \<Rightarrow> bytes" where
  "sha_pad m =
     (let l = length m; z = (55 + 64 - l mod 64) mod 64
      in m @ [0x80] @ replicate z 0 @ map (\<lambda>i. word_of_nat ((8 * l) div 256 ^ (7 - i))) [0..<8])"

definition sha_init :: "32 word list" where
  "sha_init = map (root_fraction 2) (first_primes 8)"

definition word_bytes :: "32 word \<Rightarrow> bytes" where
  "word_bytes w = [ucast (drop_bit 24 w), ucast (drop_bit 16 w), ucast (drop_bit 8 w), ucast w]"

definition sha256 :: digest where
  "sha256 m = (let p = sha_pad m
     in concat (map word_bytes (fold (\<lambda>blk st. sha_block st blk) (chunks (length p div 64) 64 p) sha_init)))"

lemma length_sha_rounds: "length st = 8 \<Longrightarrow> length (fold sha_round kws st) = 8"
  by (induction kws arbitrary: st) (auto simp: sha_round_def Let_def)

lemma length_sha_fold: "length st = 8 \<Longrightarrow> length (fold (\<lambda>blk st. sha_block st blk) bs st) = 8"
  by (induction bs arbitrary: st) (auto simp: sha_block_def length_sha_rounds Let_def)

lemma length_sha_init: "length sha_init = 8"
proof -
  have "length (first_primes 8) = 8"
    by code_simp
  then show ?thesis
    by (simp add: sha_init_def)
qed

lemma length_concat_word_bytes: "length (concat (map word_bytes ws)) = 4 * length ws"
  by (induction ws) (auto simp: word_bytes_def)

interpretation sha: fixed_digest sha256 32
  by unfold_locales (simp_all add: sha256_def Let_def length_concat_word_bytes length_sha_fold length_sha_init)

end
