(* ===== verification/MTree.thy ===== *)
theory MTree
  imports Crypto_Hash
begin

text \<open>
  \<^verbatim>\<open>internal/mtree\<close>: the Merkle tree over the transactions of a block. A \<open>Node\<close> is the Go
  struct; its \<^verbatim>\<open>sibling\<close> pointer, which would make the structure cyclic, is kept as the hash
  of the node it points to, the only thing the code reads through it
  (\<^verbatim>\<open>n.Sibling().Hash()\<close>). A nil pointer is \<open>None\<close>.

  Shown: a proof exists exactly for the indices of the leaves; folding a proof gives the root
  hash (completeness); a folded forgery gives an explicit digest collision (soundness).
\<close>

section \<open>The model\<close>

datatype Node = Node (sibling: "slice option") (left: "Node option") (right: "Node option")
  (hash: slice) (startIndex: int) (endIndex: int)

definition Left :: "Node option \<Rightarrow> Node option" where
  "Left n = (case n of None \<Rightarrow> None | Some m \<Rightarrow> left m)"

definition Right :: "Node option \<Rightarrow> Node option" where
  "Right n = (case n of None \<Rightarrow> None | Some m \<Rightarrow> right m)"

definition Hash :: "Node option \<Rightarrow> slice" where
  "Hash n = (case n of None \<Rightarrow> None | Some m \<Rightarrow> hash m)"

definition SiblingHash :: "Node option \<Rightarrow> slice" where
  "SiblingHash n = (case n of None \<Rightarrow> None | Some m \<Rightarrow> (case sibling m of None \<Rightarrow> None | Some s \<Rightarrow> s))"

definition set_sibling :: "Node \<Rightarrow> slice \<Rightarrow> Node" where
  "set_sibling n s = Node (Some s) (left n) (right n) (hash n) (startIndex n) (endIndex n)"

definition calcHash :: "digest \<Rightarrow> Node \<Rightarrow> Node" where
  "calcHash h n =
     Node (sibling n) (left n) (right n)
       (ConcatenateHashes h (Hash (Left (Some n))) (Hash (Right (Some n))))
       (startIndex n) (endIndex n)"

text \<open>The loop of \<^verbatim>\<open>buildNextTreeLevel\<close>: one parent per pair, the last node alone if odd.\<close>

fun nextLevel :: "digest \<Rightarrow> Node list \<Rightarrow> Node list" where
  "nextLevel h [] = []"
| "nextLevel h [a] =
     [calcHash h (Node None (Some a) None None (startIndex a) (endIndex a))]"
| "nextLevel h (a # b # rest) =
     calcHash h (Node None (Some (set_sibling a (hash b))) (Some (set_sibling b (hash a))) None
       (startIndex a) (endIndex b))
     # nextLevel h rest"

lemma length_nextLevel: "length (nextLevel h ns) = (length ns + 1) div 2"
  by (induction h ns rule: nextLevel.induct) auto

function buildNextTreeLevel :: "digest \<Rightarrow> Node list \<Rightarrow> Node option" where
  "buildNextTreeLevel h srcNodes =
     (let dstNodes = nextLevel h srcNodes in
      if length dstNodes = 1 then Some (hd dstNodes)
      else if length dstNodes = 0 then None
      else buildNextTreeLevel h dstNodes)"
  by pat_completeness auto
termination
  by (relation "measure (\<lambda>(h, ns). length ns)") (auto simp: length_nextLevel)

declare buildNextTreeLevel.simps [simp del]

definition leafNode :: "nat \<Rightarrow> slice \<Rightarrow> Node" where
  "leafNode i hs = Node None None None hs (int i) (int i)"

definition prepareAndBuildTree :: "digest \<Rightarrow> slice list \<Rightarrow> Node option" where
  "prepareAndBuildTree h hashes = buildNextTreeLevel h (map (\<lambda>(i, hs). leafNode i hs) (enumerate 0 hashes))"

definition notPartErr :: "int \<Rightarrow> Node \<Rightarrow> 'a res" where
  "notPartErr i n = Inl (NotFoundErr (''node with index '' @ dec_int i @ '' is not part of merkle tree (''
     @ dec_int (startIndex n) @ '', '' @ dec_int (endIndex n) @ '')''))"

lemma size_child:
  "left n = Some l \<Longrightarrow> size l < size n"
  "right n = Some r \<Longrightarrow> size r < size n"
  by (cases n; auto)+

text \<open>\<^verbatim>\<open>findPath\<close>: the nodes from the leaf up to the receiver.\<close>

function findPath :: "Node option \<Rightarrow> int \<Rightarrow> Node list res" where
  "findPath None leafIndex = Inl (Err ''no paths exist in nil tree'')"
| "findPath (Some n) leafIndex =
     (case left n of
        None \<Rightarrow>
          if endIndex n = startIndex n \<and> endIndex n = leafIndex then Inr [n] else notPartErr leafIndex n
      | Some l \<Rightarrow>
          if startIndex n > leafIndex \<or> endIndex n < leafIndex then notPartErr leafIndex n
          else rbind (if endIndex l \<ge> leafIndex then findPath (Some l) leafIndex
                      else findPath (right n) leafIndex)
                 (\<lambda>subPath. Inr (subPath @ [n])))"
  by pat_completeness auto
termination
  by (relation "measure (\<lambda>(n, i). case n of None \<Rightarrow> 0 | Some m \<Rightarrow> Suc (size m))")
     (auto split: option.splits dest: size_child)

text \<open>The loop of \<^verbatim>\<open>computeProofFromPath\<close> appends a sibling hash only if it is not nil.\<close>

definition nonNil :: "slice list \<Rightarrow> slice list" where
  "nonNil ss = filter (\<lambda>s. s \<noteq> None) ss"

definition computeProofFromPath :: "Node list \<Rightarrow> slice list" where
  "computeProofFromPath path =
     (case path of [] \<Rightarrow> []
      | p # _ \<Rightarrow> Hash (Some p) #
          nonNil (map (\<lambda>n. SiblingHash (Some n)) (take (length path - 1) path)))"

definition Proof :: "Node option \<Rightarrow> int \<Rightarrow> slice list res" where
  "Proof n leafIndex = rbind (findPath n leafIndex) (\<lambda>path. Inr (computeProofFromPath path))"

text \<open>
  The check of a transaction proof that \<^verbatim>\<open>docs/proofs/Merkle-tree.md\<close> describes and the tests of
  \<^verbatim>\<open>internal/mtree\<close> run: the first hash is the leaf, the others are folded onto it.
\<close>

fun foldProof :: "digest \<Rightarrow> slice \<Rightarrow> slice list \<Rightarrow> slice" where
  "foldProof h cur [] = cur"
| "foldProof h cur (p # ps) = foldProof h (ConcatenateHashes h cur p) ps"

section \<open>Well-formed trees\<close>

fun wfTree :: "digest \<Rightarrow> Node \<Rightarrow> bool" where
  "wfTree h (Node sib None r hs s e) = (r = None \<and> s = e)"
| "wfTree h (Node sib (Some l) None hs s e) =
     (wfTree h l \<and> sibling l = None \<and> hs = hash l \<and> s = startIndex l \<and> e = endIndex l)"
| "wfTree h (Node sib (Some l) (Some r) hs s e) =
     (wfTree h l \<and> wfTree h r \<and> sibling l = Some (hash r) \<and> sibling r = Some (hash l)
      \<and> hs = ConcatenateHashes h (hash l) (hash r)
      \<and> s = startIndex l \<and> e = endIndex r \<and> startIndex r = endIndex l + 1)"

fun leaves :: "Node \<Rightarrow> slice list" where
  "leaves (Node sib None r hs s e) = [hs]"
| "leaves (Node sib (Some l) None hs s e) = leaves l"
| "leaves (Node sib (Some l) (Some r) hs s e) = leaves l @ leaves r"

text \<open>A level of the tree: well-formed nodes without siblings yet, covering \<open>k, k+1, \<dots>\<close>.\<close>

fun wfLevel :: "digest \<Rightarrow> int \<Rightarrow> Node list \<Rightarrow> bool" where
  "wfLevel h k [] = True"
| "wfLevel h k (n # ns) = (wfTree h n \<and> sibling n = None \<and> startIndex n = k \<and> wfLevel h (endIndex n + 1) ns)"

lemma set_sibling_simps [simp]:
  "sibling (set_sibling n s) = Some s"
  "hash (set_sibling n s) = hash n"
  "startIndex (set_sibling n s) = startIndex n"
  "endIndex (set_sibling n s) = endIndex n"
  by (simp_all add: set_sibling_def)

lemma wfTree_set_sibling [simp]: "wfTree h (set_sibling n s) = wfTree h n"
  unfolding set_sibling_def by (cases "(h, n)" rule: wfTree.cases) auto

lemma leaves_set_sibling [simp]: "leaves (set_sibling n s) = leaves n"
  unfolding set_sibling_def by (cases n rule: leaves.cases) auto

lemma calcHash_Node [simp]:
  "calcHash h (Node sib l r hs s e) = Node sib l r (ConcatenateHashes h (Hash l) (Hash r)) s e"
  by (simp add: calcHash_def Left_def Right_def)

lemma Hash_simps [simp]: "Hash None = None" "Hash (Some n) = hash n"
  by (simp_all add: Hash_def)

lemma length_leaves: "wfTree h n \<Longrightarrow> int (length (leaves n)) = endIndex n - startIndex n + 1"
  by (induction h n rule: wfTree.induct) auto

lemma leaves_nonempty: "leaves n \<noteq> []"
  by (induction n rule: leaves.induct) auto

lemma concat_leaves_nextLevel: "concat (map leaves (nextLevel h ns)) = concat (map leaves ns)"
  by (induction h ns rule: nextLevel.induct) auto

section \<open>The tree built from a list of leaf hashes\<close>

lemma foldProof_append: "foldProof h c (ps @ qs) = foldProof h (foldProof h c ps) qs"
  by (induction ps arbitrary: c) auto

lemma computeProof_snoc:
  assumes "p \<noteq> []"
  shows "computeProofFromPath (p @ [n]) =
    computeProofFromPath p @ nonNil [SiblingHash (Some (last p))]"
proof -
  obtain q m where p: "p = q @ [m]" using assms by (metis rev_exhaust)
  show ?thesis unfolding p computeProofFromPath_def nonNil_def by (cases q) auto
qed

lemma computeProof_hd: "p \<noteq> [] \<Longrightarrow> computeProofFromPath p = hash (hd p) # tl (computeProofFromPath p)"
  by (cases p) (auto simp: computeProofFromPath_def)

definition proves :: "digest \<Rightarrow> Node \<Rightarrow> int \<Rightarrow> Node list \<Rightarrow> bool" where
  "proves h t i path = (path \<noteq> [] \<and> last path = t
     \<and> hash (hd path) = leaves t ! nat (i - startIndex t)
     \<and> foldProof h (hash (hd path)) (tl (computeProofFromPath path)) = hash t)"

text \<open>Extending a path by the parent node appends the sibling hash and folds it in.\<close>

lemma proves_step:
  assumes "proves h c i path" and "hash p = foldProof h (hash c) (nonNil [SiblingHash (Some c)])"
    and "leaves p ! nat (i - startIndex p) = leaves c ! nat (i - startIndex c)"
  shows "proves h p i (path @ [p])"
proof -
  have ne: "path \<noteq> []" and lc: "last path = c" using assms(1) by (auto simp: proves_def)
  have "tl (computeProofFromPath (path @ [p])) =
      tl (computeProofFromPath path) @ nonNil [SiblingHash (Some c)]"
    using computeProof_snoc [OF ne, of p] computeProof_hd [OF ne] lc by (metis tl_append2 list.discI)
  with assms ne show ?thesis by (auto simp: proves_def foldProof_append)
qed

lemma findPath_out_of_range:
  "wfTree h t \<Longrightarrow> i < startIndex t \<or> endIndex t < i \<Longrightarrow> findPath (Some t) i = notPartErr i t"
  by (cases "(h, t)" rule: wfTree.cases) auto

lemma wfLevel_leafNodes:
  "wfLevel h (int k) (map (\<lambda>(i, hs). leafNode i hs) (enumerate k hashes))
   \<and> concat (map leaves (map (\<lambda>(i, hs). leafNode i hs) (enumerate k hashes))) = hashes"
proof (induction hashes arbitrary: k)
  case (Cons x xs)
  from Cons.IH [of "Suc k"] show ?case by (simp add: leafNode_def add.commute)
qed simp

text \<open>The byte strings digested at the inner nodes of a tree, and along a folded proof.\<close>

fun preimages :: "Node \<Rightarrow> bytes list" where
  "preimages (Node sib None r hs s e) = []"
| "preimages (Node sib (Some l) None hs s e) = preimages l"
| "preimages (Node sib (Some l) (Some r) hs s e) =
     concat_preimage (hash l) (hash r) # preimages l @ preimages r"

fun proofPreimages :: "digest \<Rightarrow> slice \<Rightarrow> slice list \<Rightarrow> bytes list" where
  "proofPreimages h cur [] = []"
| "proofPreimages h cur (p # ps) = concat_preimage cur p # proofPreimages h (ConcatenateHashes h cur p) ps"

lemma proofPreimages_append:
  "proofPreimages h c (ps @ qs) = proofPreimages h c ps @ proofPreimages h (foldProof h c ps) qs"
  by (induction ps arbitrary: c) auto

text \<open>
  \<open>startsIn h c X L Y\<close>: the hash \<open>c\<close> is one of the leaf hashes \<open>L\<close>, or the digest of one of the
  inner inputs \<open>Y\<close>, or one of the inputs \<open>X\<close> along the proof collides with an inner input or has
  a leaf hash as its digest.
\<close>

definition startsIn :: "digest \<Rightarrow> slice \<Rightarrow> bytes set \<Rightarrow> slice set \<Rightarrow> bytes set \<Rightarrow> bool" where
  "startsIn h c X L Y =
     ((\<exists>l \<in> L. content c = content l) \<or> (\<exists>y \<in> Y. content c = h y)
      \<or> (\<exists>x \<in> X. (\<exists>y \<in> Y. collision h x y) \<or> (\<exists>l \<in> L. h x = content l)))"

lemma startsIn_mono:
  "startsIn h c X L Y \<Longrightarrow> X \<subseteq> X' \<Longrightarrow> L \<subseteq> L' \<Longrightarrow> Y \<subseteq> Y' \<Longrightarrow> startsIn h c X' L' Y'"
  unfolding startsIn_def by blast

context fixed_digest
begin

lemma hash_nonempty [simp]: "h x \<noteq> []"
  using len [of x] pos by auto

lemma slen_hash_wf: "wfTree h t \<Longrightarrow> \<forall>l \<in> set (leaves t). slen l = n \<Longrightarrow> slen (hash t) = n"
proof (induction t rule: leaves.induct)
  case (3 sib l r hs s e)
  then have "slen (hash l) = n" "slen (hash r) = n" by auto
  then have "slen (ConcatenateHashes h (hash l) (hash r)) = n" by (rule slen_Concatenate)
  with 3 show ?case by simp
qed auto

lemma wfLevel_nextLevel:
  "wfLevel h k ns \<Longrightarrow> \<forall>l \<in> set (concat (map leaves ns)). slen l = n \<Longrightarrow> wfLevel h k (nextLevel h ns)"
proof (induction ns arbitrary: k rule: induct_list012)
  case (2 a)
  then show ?case using pos slen_hash_wf [of a] by auto
qed auto

lemma buildNextTreeLevel_wf:
  assumes "wfLevel h k ns" and "\<forall>l \<in> set (concat (map leaves ns)). slen l = n" and "ns \<noteq> []"
  shows "\<exists>r. buildNextTreeLevel h ns = Some r \<and> wfTree h r \<and> startIndex r = k
    \<and> leaves r = concat (map leaves ns)"
  using assms
proof (induction "length ns" arbitrary: ns rule: less_induct)
  case less
  let ?d = "nextLevel h ns"
  have d: "wfLevel h k ?d" "concat (map leaves ?d) = concat (map leaves ns)"
    using wfLevel_nextLevel less.prems by (simp_all add: concat_leaves_nextLevel)
  have lend: "length ?d = (length ns + 1) div 2" by (rule length_nextLevel)
  show ?case
  proof (cases "length ?d = 1")
    case True
    then obtain r where "?d = [r]" by (cases ?d) auto
    with d show ?thesis by (auto simp: buildNextTreeLevel.simps [of h ns] Let_def)
  next
    case False
    with lend less.prems(3) have "length ?d < length ns" "?d \<noteq> []" by (cases ns; auto)+
    with less.hyps [of ?d] d less.prems False show ?thesis
      by (auto simp: buildNextTreeLevel.simps [of h ns] Let_def)
  qed
qed

lemma Concatenate_comm_len:
  "slen a = n \<Longrightarrow> slen b = n \<Longrightarrow> ConcatenateHashes h a b = ConcatenateHashes h b a"
  using ConcatenateHashes_comm [of h a b] by (simp add: Concatenate_digest)

lemma SiblingHash_of: "sibling c = Some s \<Longrightarrow> slen s = n \<Longrightarrow>
    nonNil [SiblingHash (Some c)] = [s]"
  using pos by (cases s) (auto simp: SiblingHash_def slen_def nonNil_def)

lemma findPath_wf:
  assumes "wfTree h t" and "\<forall>l \<in> set (leaves t). slen l = n"
    and "startIndex t \<le> i" and "i \<le> endIndex t"
  shows "\<exists>path. findPath (Some t) i = Inr path \<and> proves h t i path"
  using assms
proof (induction t rule: leaves.induct)
  case (1 sib r hs s e)
  then show ?case by (auto simp: proves_def computeProofFromPath_def nonNil_def)
next
  case (2 sib l hs s e)
  let ?t = "Node sib (Some l) None hs s e"
  from 2 obtain path where path: "findPath (Some l) i = Inr path" "proves h l i path" by auto
  then have "proves h ?t i (path @ [?t])"
    using 2 by (intro proves_step) (auto simp: SiblingHash_def nonNil_def)
  with path 2 show ?case by auto
next
  case (3 sib l r hs s e)
  let ?t = "Node sib (Some l) (Some r) hs s e"
  have len_lr: "slen (hash l) = n" "slen (hash r) = n" using 3 slen_hash_wf by auto
  have wl: "int (length (leaves l)) = endIndex l - startIndex l + 1"
    using 3 length_leaves [of h l] by auto
  show ?case
  proof (cases "i \<le> endIndex l")
    case True
    with 3 obtain path where path: "findPath (Some l) i = Inr path" "proves h l i path" by auto
    have "nat (i - startIndex l) < length (leaves l)" using True 3 wl by auto
    then have "proves h ?t i (path @ [?t])"
      using 3 path(2) len_lr by (intro proves_step) (auto simp: SiblingHash_of nth_append)
    with path 3 True show ?thesis by auto
  next
    case False
    with 3 obtain path where path: "findPath (Some r) i = Inr path" "proves h r i path" by auto
    have idx: "nat (i - startIndex l) = length (leaves l) + nat (i - startIndex r)"
      using False 3 wl by auto
    then have "proves h ?t i (path @ [?t])"
      using 3 path(2) len_lr Concatenate_comm_len
      by (intro proves_step) (auto simp: SiblingHash_of nth_append)
    with path 3 False show ?thesis by auto
  qed
qed

lemma slen_foldProof: "slen c = n \<Longrightarrow> \<forall>p \<in> set ps. slen p = n \<Longrightarrow> slen (foldProof h c ps) = n"
  by (induction ps arbitrary: c) (auto simp: slen_Concatenate)

lemma hash_cases:
  "wfTree h t \<Longrightarrow> \<forall>l \<in> set (leaves t). slen l = n \<Longrightarrow>
    (\<exists>l \<in> set (leaves t). hash t = l) \<or> (\<exists>y \<in> set (preimages t). hash t = Some (h y))"
proof (induction t rule: leaves.induct)
  case (3 sib l r hs s e)
  then have "slen (hash l) = n" "slen (hash r) = n" using slen_hash_wf by auto
  with 3 show ?case by (auto simp: Concatenate_digest)
qed auto

text \<open>What a folded proof that reaches the hash of \<open>t\<close> says about its starting hash.\<close>

lemma foldProof_sound:
  assumes "wfTree h t" and "\<forall>l \<in> set (leaves t). slen l = n"
    and "slen c = n" and "\<forall>p \<in> set ps. slen p = n"
    and "content (foldProof h c ps) = content (hash t)"
  shows "startsIn h c (set (proofPreimages h c ps)) (set (leaves t)) (set (preimages t))"
  using assms
proof (induction t arbitrary: ps rule: leaves.induct)
  case (1 sib r hs s e)
  then show ?case
  proof (cases ps rule: rev_cases)
    case (snoc qs p)
    with 1 have "slen (foldProof h c qs) = n" using slen_foldProof by simp
    with 1 snoc show ?thesis
      by (auto simp: startsIn_def foldProof_append proofPreimages_append Concatenate_digest)
  qed (auto simp: startsIn_def)
next
  case (2 sib l hs s e)
  then show ?case by auto
next
  case (3 sib l r hs s e)
  have ll: "slen (hash l) = n" "slen (hash r) = n" using 3 slen_hash_wf by auto
  show ?case
  proof (cases ps rule: rev_cases)
    case Nil
    with 3 ll show ?thesis by (auto simp: startsIn_def Concatenate_digest)
  next
    case (snoc qs p)
    let ?f = "foldProof h c qs"
    have lq: "\<forall>p \<in> set qs. slen p = n" and lf: "slen ?f = n" "slen p = n"
      using 3 snoc slen_foldProof by auto
    have sub: "set (proofPreimages h c qs) \<subseteq> set (proofPreimages h c ps)"
      using snoc by (auto simp: proofPreimages_append)
    have wl: "wfTree h l" "\<forall>x \<in> set (leaves l). slen x = n"
      and wr: "wfTree h r" "\<forall>x \<in> set (leaves r). slen x = n" using 3 by auto
    have "content (ConcatenateHashes h ?f p) = content (ConcatenateHashes h (hash l) (hash r))"
      using 3 snoc by (simp add: foldProof_append)
    then consider "content ?f = content (hash l)" | "content ?f = content (hash r)"
      | "collision h (concat_preimage ?f p) (concat_preimage (hash l) (hash r))"
      using Concatenate_binding [OF lf ll] by blast
    then show ?thesis
    proof cases
      case 1
      from "3.IH"(1) [OF wl \<open>slen c = n\<close> lq 1] sub show ?thesis by (rule startsIn_mono) auto
    next
      case 2
      from "3.IH"(2) [OF wr \<open>slen c = n\<close> lq 2] sub show ?thesis by (rule startsIn_mono) auto
    next
      case 3
      with snoc show ?thesis by (auto simp: startsIn_def proofPreimages_append)
    qed
  qed
qed

lemma preimage_lengths:
  "wfTree h t \<Longrightarrow> \<forall>l \<in> set (leaves t). slen l = n \<Longrightarrow> y \<in> set (preimages t) \<Longrightarrow> length y = 2 * n"
proof (induction t rule: leaves.induct)
  case (3 sib l r hs s e)
  then have "slen (hash l) = n" "slen (hash r) = n" using slen_hash_wf by auto
  with 3 show ?case by (auto simp: length_concat_preimage)
qed auto

lemma proofPreimage_lengths:
  "slen c = n \<Longrightarrow> \<forall>p \<in> set ps. slen p = n \<Longrightarrow> x \<in> set (proofPreimages h c ps) \<Longrightarrow> length x = 2 * n"
proof (induction ps arbitrary: c)
  case (Cons p ps)
  then have "slen (ConcatenateHashes h c p) = n" by (simp add: slen_Concatenate)
  with Cons show ?case using length_concat_preimage [of c p] by auto
qed simp

lemma prepareAndBuildTree_wf:
  assumes "hashes \<noteq> []" and "\<forall>l \<in> set hashes. slen l = n"
  shows "\<exists>r. prepareAndBuildTree h hashes = Some r \<and> wfTree h r \<and> startIndex r = 0
    \<and> endIndex r = int (length hashes) - 1 \<and> leaves r = hashes"
proof -
  define ns where "ns = map (\<lambda>(i, hs). leafNode i hs) (enumerate 0 hashes)"
  have ns: "wfLevel h 0 ns" "concat (map leaves ns) = hashes" "ns \<noteq> []"
    using wfLevel_leafNodes [of h 0 hashes] assms(1) by (auto simp: ns_def)
  then obtain r where r: "buildNextTreeLevel h ns = Some r" "wfTree h r" "startIndex r = 0" "leaves r = hashes"
    using buildNextTreeLevel_wf [OF ns(1)] assms(2) by auto
  then have "prepareAndBuildTree h hashes = Some r" by (simp add: prepareAndBuildTree_def ns_def)
  with r length_leaves [OF r(2)] show ?thesis by auto
qed

end

section \<open>Properties of transaction proofs\<close>

text \<open>
  C1: For every transaction index of a block, the tree built over the transaction hashes yields a
  proof whose first element is that transaction's hash and which folds to the root hash.
\<close>

theorem txProof_complete:
  assumes "fixed_digest h n" and "\<forall>l \<in> set hashes. slen l = n" and "i < length hashes"
  shows "\<exists>sibs. Proof (prepareAndBuildTree h hashes) (int i) = Inr (hashes ! i # sibs)
    \<and> foldProof h (hashes ! i) sibs = Hash (prepareAndBuildTree h hashes)"
proof -
  have "hashes \<noteq> []" using assms(3) by auto
  then obtain r where r: "prepareAndBuildTree h hashes = Some r" "wfTree h r" "startIndex r = 0"
      "endIndex r = int (length hashes) - 1" "leaves r = hashes"
    using fixed_digest.prepareAndBuildTree_wf [OF assms(1) _ assms(2)] by blast
  with assms fixed_digest.findPath_wf [OF assms(1), of r "int i"]
  obtain path where path: "findPath (Some r) (int i) = Inr path" "proves h r (int i) path" by auto
  then have "computeProofFromPath path = hashes ! i # tl (computeProofFromPath path)"
    using computeProof_hd [of path] r by (auto simp: proves_def)
  with path r show ?thesis
    by (intro exI [of _ "tl (computeProofFromPath path)"]) (auto simp: Proof_def proves_def)
qed

theorem txProof_complete_witness:
  "fixed_digest checksum 1 \<and>
   (\<exists>sibs. Proof (prepareAndBuildTree checksum [Some [1], Some [2], Some [3]]) (int 2)
       = Inr ([Some [1], Some [2], Some [3]] ! 2 # sibs)
     \<and> foldProof checksum ([Some [1], Some [2], Some [3]] ! 2) sibs
       = Hash (prepareAndBuildTree checksum [Some [1], Some [2], Some [3]]))"
proof
  show d: "fixed_digest checksum 1" by (rule checksum.fixed_digest_axioms)
  show "\<exists>sibs. Proof (prepareAndBuildTree checksum [Some [1], Some [2], Some [3]]) (int 2)
       = Inr ([Some [1], Some [2], Some [3]] ! 2 # sibs)
     \<and> foldProof checksum ([Some [1], Some [2], Some [3]] ! 2) sibs
       = Hash (prepareAndBuildTree checksum [Some [1], Some [2], Some [3]])"
    by (rule txProof_complete [OF d]) (simp_all add: slen_def)
qed

text \<open>
  C2: Outside the range of the block's transactions no proof exists: the tree answers with a
  \<open>NotFoundErr\<close>, and a tree over no transactions with an error.
\<close>

theorem txProof_not_found:
  assumes "fixed_digest h n" and "\<forall>l \<in> set hashes. slen l = n"
    and "i < 0 \<or> int (length hashes) \<le> i"
  shows "(hashes \<noteq> [] \<longrightarrow> (\<exists>m. Proof (prepareAndBuildTree h hashes) i = Inl (NotFoundErr m)))
    \<and> (hashes = [] \<longrightarrow> Proof (prepareAndBuildTree h hashes) i = Inl (Err ''no paths exist in nil tree''))"
proof (cases "hashes = []")
  case True
  then show ?thesis by (simp add: prepareAndBuildTree_def buildNextTreeLevel.simps Proof_def)
next
  case False
  then obtain r where r: "prepareAndBuildTree h hashes = Some r" "wfTree h r" "startIndex r = 0"
      "endIndex r = int (length hashes) - 1"
    using fixed_digest.prepareAndBuildTree_wf [OF assms(1) _ assms(2)] by blast
  then have "findPath (Some r) i = notPartErr i r"
    using assms(3) by (intro findPath_out_of_range [OF r(2)]) auto
  with r False show ?thesis by (auto simp: Proof_def notPartErr_def simp del: findPath.simps)
qed

theorem txProof_not_found_witness:
  "(\<exists>m. Proof (prepareAndBuildTree checksum [Some [1], Some [2]]) 2 = Inl (NotFoundErr m))"
  using txProof_not_found [OF checksum.fixed_digest_axioms, of "[Some [1], Some [2]]" 2]
  by (simp add: slen_def)

text \<open>
  C3: A transaction proof is tamper evident. Let the bytes \<open>q\<close> be presented with a list of hashes of
  digest length such that folding the hashes onto the digest of \<open>q\<close> gives the root hash of the tree
  built over the digests of the block's payloads. Then \<open>q\<close> is one of these payloads, or two different
  byte strings with the same digest are in hand: one is \<open>q\<close> or was digested while folding, the other is
  a payload or was digested while the tree was built. The lengths are assumed to rule out one case:
  neither \<open>q\<close> nor a payload is exactly as long as two digests, since the tree does not separate leaves
  from inner nodes and such bytes could be the contents of an inner node.
\<close>

theorem txProof_sound:
  assumes dig: "fixed_digest h n" and ne: "payloads \<noteq> []"
    and lens: "\<forall>p \<in> set (q # payloads). length p \<noteq> 2 * n" and sibs: "\<forall>s \<in> set sibs. slen s = n"
    and tree: "prepareAndBuildTree h (map (\<lambda>p. Some (h p)) payloads) = Some r"
    and root: "slice_eq (foldProof h (Some (h q)) sibs) (hash r)"
  shows "q \<in> set payloads
    \<or> (\<exists>x \<in> set (q # proofPreimages h (Some (h q)) sibs).
         \<exists>y \<in> set (payloads @ preimages r). collision h x y)"
proof -
  let ?hs = "map (\<lambda>p. Some (h p)) payloads"
  let ?X = "set (proofPreimages h (Some (h q)) sibs)"
  have lh: "\<forall>l \<in> set ?hs. slen l = n" and lq: "slen (Some (h q)) = n"
    using fixed_digest.slen_hash [OF dig] by auto
  from fixed_digest.prepareAndBuildTree_wf [OF dig _ lh] ne tree
  have r: "wfTree h r" "leaves r = ?hs" by auto
  have ly: "length y = 2 * n" if "y \<in> set (preimages r)" for y
    using fixed_digest.preimage_lengths [OF dig r(1) _ that] lh r(2) by simp
  have lx: "length x = 2 * n" if "x \<in> ?X" for x
    using fixed_digest.proofPreimage_lengths [OF dig lq sibs that] .
  have "startsIn h (Some (h q)) ?X (set ?hs) (set (preimages r))"
    using fixed_digest.foldProof_sound [OF dig r(1) _ lq sibs] lh r(2) root by (simp add: slice_eq_def)
  then consider p where "p \<in> set payloads" "h q = h p" | y where "y \<in> set (preimages r)" "h q = h y"
    | x y where "x \<in> ?X" "y \<in> set (preimages r)" "collision h x y"
    | x p where "x \<in> ?X" "p \<in> set payloads" "h x = h p"
    unfolding startsIn_def by auto
  then show ?thesis
  proof cases
    case (1 p)
    then show ?thesis by (cases "q = p") (auto simp: collision_def)
  next
    case (2 y)
    with lens ly have "q \<noteq> y" by auto
    with 2 show ?thesis by (auto simp: collision_def)
  next
    case (4 x p)
    with lens lx have "x \<noteq> p" by auto
    with 4 show ?thesis by (auto simp: collision_def)
  qed auto
qed

theorem txProof_sound_witness:
  "\<exists>r. prepareAndBuildTree checksum (map (\<lambda>p. Some (checksum p)) [[1], [2, 3, 4]]) = Some r
    \<and> slice_eq (foldProof checksum (Some (checksum [1])) [Some (checksum [2, 3, 4])]) (hash r)
    \<and> ([1] \<in> set [[1], [2, 3, 4]]
      \<or> (\<exists>x \<in> set ([1] # proofPreimages checksum (Some (checksum [1])) [Some (checksum [2, 3, 4])]).
           \<exists>y \<in> set ([[1], [2, 3, 4]] @ preimages r). collision checksum x y))"
proof -
  let ?ps = "[[1], [2, 3, 4]] :: bytes list"
  obtain r where r: "prepareAndBuildTree checksum (map (\<lambda>p. Some (checksum p)) ?ps) = Some r"
      "slice_eq (foldProof checksum (Some (checksum [1])) [Some (checksum [2, 3, 4])]) (hash r)"
    by (simp add: prepareAndBuildTree_def buildNextTreeLevel.simps leafNode_def checksum_def)
  show ?thesis
    using r txProof_sound [OF checksum.fixed_digest_axioms _ _ _ r] by (auto simp: slen_def checksum_def)
qed

end
