(* ===== verification/Trie_Node.thy ===== *)
theory Trie_Node
  imports State_Proof "HOL-Library.Sublist"
begin

text \<open>
  The nodes of the Merkle-Patricia trie (\<^verbatim>\<open>internal/mptrie/node.go\<close>) and the store interface the
  trie is written against (\<^verbatim>\<open>internal/mptrie/mptrie.go\<close>, interface \<open>Store\<close>). A store is a value
  of type \<^typ>\<open>'s\<close>; its operations are the fields of a record. The locale \<open>trie_store\<close> holds what
  the trie relies on: a node or value that was put is read back until it is overwritten.
\<close>

section \<open>Nodes\<close>

datatype TrieNode =
    BranchNode (Children: "slice list") (BValuePtr: slice) (BDeleted: bool)
  | ExtensionNode (EKey: bytes) (EChild: slice)
  | ValueNode (VKey: bytes) (VValuePtr: slice) (VDeleted: bool)
  | EmptyNode

fun node_bytes :: "TrieNode \<Rightarrow> slice list res" where
  "node_bytes (BranchNode cs vp d) =
     Inr (cs @ (if slen vp > 0 then [vp] else []) @ (if d then [KeyDeleteMarkerBytes] else []))"
| "node_bytes (ExtensionNode k c) =
     Inr ((if length k > 0 then [Some k] else []) @ (if slen c > 0 then [c] else []))"
| "node_bytes (ValueNode k vp d) =
     Inr ((if length k > 0 then [Some k] else []) @ (if slen vp > 0 then [vp] else [])
          @ (if d then [KeyDeleteMarkerBytes] else []))"
| "node_bytes EmptyNode = Inl (Panic ''can't hash empty node'')"

fun node_hash :: "digest \<Rightarrow> TrieNode \<Rightarrow> slice res" where
  "node_hash h EmptyNode = Inl (Panic ''can't Hash empty node'')"
| "node_hash h n = rbind (node_bytes n) (\<lambda>bs. Inr (CalcHash h bs))"

text \<open>The methods of \<open>TrieNodeWithValue\<close>, which branch and value nodes implement.\<close>

fun getValuePtr :: "TrieNode \<Rightarrow> slice" where
  "getValuePtr (BranchNode cs vp d) = vp"
| "getValuePtr (ValueNode k vp d) = vp"
| "getValuePtr _ = None"

fun node_isDeleted :: "TrieNode \<Rightarrow> bool" where
  "node_isDeleted (BranchNode cs vp d) = d"
| "node_isDeleted (ValueNode k vp d) = d"
| "node_isDeleted _ = False"

section \<open>Nibbles\<close>

fun convertByteToHex :: "bytes \<Rightarrow> bytes" where
  "convertByteToHex [] = []"
| "convertByteToHex (v # b) = drop_bit 4 v # and v 15 # convertByteToHex b"

fun findCommonPrefix :: "bytes \<Rightarrow> bytes \<Rightarrow> bytes" where
  "findCommonPrefix (x # xs) (y # ys) = (if x \<noteq> y then [] else x # findCommonPrefix xs ys)"
| "findCommonPrefix _ _ = []"

text \<open>Indexing the children of a branch, with Go's bounds check.\<close>

definition getChild :: "slice list \<Rightarrow> byte \<Rightarrow> slice res" where
  "getChild cs i = (if unat i < length cs then Inr (cs ! unat i) else Inl (Panic ''index out of range''))"

definition setChild :: "slice list \<Rightarrow> byte \<Rightarrow> slice \<Rightarrow> slice list res" where
  "setChild cs i p = (if unat i < length cs then Inr (cs[unat i := p]) else Inl (Panic ''index out of range''))"

section \<open>The store interface\<close>

record 's StoreOps =
  GetNode :: "'s \<Rightarrow> slice \<Rightarrow> TrieNode res"
  GetValue :: "'s \<Rightarrow> slice \<Rightarrow> slice res"
  PutNode :: "'s \<Rightarrow> slice \<Rightarrow> TrieNode \<Rightarrow> 's \<times> unit res"
  PutValue :: "'s \<Rightarrow> slice \<Rightarrow> slice \<Rightarrow> 's \<times> unit res"
  PersistNode :: "'s \<Rightarrow> slice \<Rightarrow> 's \<times> bool res"
  PersistValue :: "'s \<Rightarrow> slice \<Rightarrow> 's \<times> bool res"
  Height :: "'s \<Rightarrow> 64 word res"
  CommitChanges :: "'s \<Rightarrow> 64 word \<Rightarrow> 's \<times> unit res"
  RollbackChanges :: "'s \<Rightarrow> 's \<times> unit res"
  IsDisabled :: "'s \<Rightarrow> bool"
  SetDisabled :: "'s \<Rightarrow> bool \<Rightarrow> 's"

text \<open>
  Nodes survive the serialisation of a store when no slice in them is empty without being nil.
\<close>

fun norm_node :: "TrieNode \<Rightarrow> bool" where
  "norm_node (BranchNode cs vp d) \<longleftrightarrow> length cs = 16 \<and> list_all norm_slice cs \<and> norm_slice vp"
| "norm_node (ExtensionNode k c) \<longleftrightarrow> norm_slice c"
| "norm_node (ValueNode k vp d) \<longleftrightarrow> norm_slice vp"
| "norm_node EmptyNode \<longleftrightarrow> False"

locale trie_store =
  fixes ops :: "'s StoreOps"
  assumes put_node_ok: "norm_node n \<Longrightarrow> \<exists>s'. PutNode ops s p n = (s', Inr ())"
    and get_put_node: "norm_node n \<Longrightarrow> PutNode ops s p n = (s', Inr ()) \<Longrightarrow>
          GetNode ops s' q = (if content q = content p then Inr n else GetNode ops s q)"
    and get_value_put_node: "PutNode ops s p n = (s', Inr ()) \<Longrightarrow> GetValue ops s' q = GetValue ops s q"
    and put_value_ok: "\<exists>s'. PutValue ops s p v = (s', Inr ())"
    and get_put_value: "PutValue ops s p v = (s', Inr ()) \<Longrightarrow>
          GetValue ops s' q = (if content q = content p then Inr v else GetValue ops s q)"
    and get_node_put_value: "PutValue ops s p v = (s', Inr ()) \<Longrightarrow> GetNode ops s' q = GetNode ops s q"

section \<open>Facts on nibbles and prefixes\<close>

lemma findCommonPrefix_prefix:
  "prefix (findCommonPrefix xs ys) xs" "prefix (findCommonPrefix xs ys) ys"
  by (induction xs ys rule: findCommonPrefix.induct) auto

lemma findCommonPrefix_split:
  obtains xs' ys' where "xs = findCommonPrefix xs ys @ xs'" "ys = findCommonPrefix xs ys @ ys'"
    "xs' \<noteq> [] \<Longrightarrow> ys' \<noteq> [] \<Longrightarrow> hd xs' \<noteq> hd ys'"
proof -
  have "\<exists>xs' ys'. xs = findCommonPrefix xs ys @ xs' \<and> ys = findCommonPrefix xs ys @ ys'
        \<and> (xs' \<noteq> [] \<longrightarrow> ys' \<noteq> [] \<longrightarrow> hd xs' \<noteq> hd ys')"
    by (induction xs ys rule: findCommonPrefix.induct) auto
  then show thesis
    using that by blast
qed

lemma length_convertByteToHex [simp]: "length (convertByteToHex b) = 2 * length b"
  by (induction b) auto

lemma and_15: "and v 15 = take_bit 4 (v :: byte)"
  by (simp add: take_bit_eq_mask mask_eq_exp_minus_1)

lemma nibble_bound:
  fixes v :: byte
  shows "unat (drop_bit 4 v) < 16" "unat (and v 15) < 16"
proof -
  have "unat v < 256"
    using unsigned_less[of v, where 'a = nat] by simp
  then show "unat (drop_bit 4 v) < 16"
    by (simp add: drop_bit_eq_div unat_div)
  show "unat (and v 15) < 16"
    by (simp add: and_15 take_bit_eq_mod unat_mod)
qed

definition nibbles :: "bytes \<Rightarrow> bool" where
  "nibbles k \<longleftrightarrow> (\<forall>x \<in> set k. unat x < 16)"

lemma nibbles_simps [simp]:
  "nibbles []" "nibbles (x # k) \<longleftrightarrow> unat x < 16 \<and> nibbles k"
  "nibbles (k @ l) \<longleftrightarrow> nibbles k \<and> nibbles l"
  by (auto simp: nibbles_def)

lemma nibbles_convertByteToHex [simp]: "nibbles (convertByteToHex b)"
  by (induction b) (auto simp: nibble_bound)

lemma byte_of_nibbles:
  fixes v :: byte
  shows "v = or (push_bit 4 (drop_bit 4 v)) (and v 15)"
  by (rule bit_word_eqI) (auto simp: and_15 bit_simps not_less)

lemma convertByteToHex_inj: "convertByteToHex a = convertByteToHex b \<Longrightarrow> a = b"
proof (induction a arbitrary: b)
  case Nil
  then show ?case by (cases b) auto
next
  case (Cons v a)
  then obtain w b' where b: "b = w # b'"
    by (cases b) auto
  with Cons.prems have "drop_bit 4 v = drop_bit 4 w" "and v 15 = and w 15"
      "convertByteToHex a = convertByteToHex b'"
    by auto
  then show ?case
    using Cons.IH byte_of_nibbles[of v] byte_of_nibbles[of w] b by metis
qed

end
