(* ===== verification/MPTrie.thy ===== *)
theory MPTrie
  imports Trie_Node
begin

text \<open>
  The operations of \<^verbatim>\<open>internal/mptrie/mptrie.go\<close> and \<^verbatim>\<open>proof.go\<close>: reading, updating and deleting
  a key, the path to a key, proofs, and persisting the nodes of the current root. The trie object
  is its root node and its store. Recursions that follow pointers through the store take fuel;
  running out of it stands for a recursion deeper than the key allows, and the refinement shows it
  never happens on a trie the operations built. A node the code mutates in place is only reachable
  from the root pointer, which every operation overwrites, so nodes are passed by value.
\<close>

record 's MPTrie =
  root :: "TrieNode option"
  store :: 's

definition saveNode :: "'s StoreOps \<Rightarrow> digest \<Rightarrow> 's \<Rightarrow> TrieNode \<Rightarrow> 's \<times> slice res" where
  "saveNode ops h s node =
     sbind (sread s (node_hash h node)) (\<lambda>s nodePtr.
     sbind (PutNode ops s nodePtr node) (\<lambda>s _. (s, Inr nodePtr)))"

definition saveResult :: "'s StoreOps \<Rightarrow> digest \<Rightarrow> 's \<Rightarrow> TrieNode \<Rightarrow> 's \<times> (TrieNode \<times> slice) res" where
  "saveResult ops h s newNode =
     sbind (saveNode ops h s newNode) (\<lambda>s newNodePtr. (s, Inr (newNode, newNodePtr)))"

definition emptyChildren :: "slice list" where
  "emptyChildren = replicate 16 None"

section \<open>Updates\<close>

type_synonym 's updater = "'s \<Rightarrow> TrieNode \<Rightarrow> bytes \<Rightarrow> slice \<Rightarrow> bool \<Rightarrow> 's \<times> (TrieNode \<times> slice) res"

definition updateBranchNode ::
  "'s StoreOps \<Rightarrow> digest \<Rightarrow> 's updater \<Rightarrow> 's \<Rightarrow> slice list \<Rightarrow> slice \<Rightarrow> bool \<Rightarrow> bytes \<Rightarrow> slice \<Rightarrow> bool
   \<Rightarrow> 's \<times> (TrieNode \<times> slice) res" where
  "updateBranchNode ops h upd s cs vp d hexKey valuePtr isDeleted =
     (case hexKey of
        [] \<Rightarrow> saveResult ops h s (BranchNode cs valuePtr isDeleted)
      | k # rest \<Rightarrow>
          sbind (sread s (getChild cs k)) (\<lambda>s childPtr.
          sbind (case childPtr of None \<Rightarrow> (s, Inr EmptyNode) | Some _ \<Rightarrow> sread s (GetNode ops s childPtr))
            (\<lambda>s childNode.
          sbind (upd s childNode rest valuePtr isDeleted) (\<lambda>s (_, updateChildNodePtr).
          sbind (sread s (setChild cs k updateChildNodePtr)) (\<lambda>s cs'.
          saveResult ops h s (BranchNode cs' vp d))))))"

definition updateEmptyNode ::
  "'s StoreOps \<Rightarrow> digest \<Rightarrow> 's \<Rightarrow> bytes \<Rightarrow> slice \<Rightarrow> 's \<times> (TrieNode \<times> slice) res" where
  "updateEmptyNode ops h s hexKey valuePtr = saveResult ops h s (ValueNode hexKey valuePtr False)"

definition splitPathToValueNode ::
  "'s StoreOps \<Rightarrow> digest \<Rightarrow> 's \<Rightarrow> bytes \<Rightarrow> slice \<Rightarrow> slice \<Rightarrow> bytes \<Rightarrow> 's \<times> TrieNode res" where
  "splitPathToValueNode ops h s keyLeft newValuePtr orgValuePtr commonPrefix =
     sbind (saveNode ops h s (ValueNode (tl keyLeft) orgValuePtr False)) (\<lambda>s newValueNodePtr.
     sbind (sread s (setChild emptyChildren (hd keyLeft) newValueNodePtr)) (\<lambda>s cs.
     if length commonPrefix > 0
     then sbind (saveNode ops h s (BranchNode cs newValuePtr False)) (\<lambda>s newBranchNodePtr.
            (s, Inr (ExtensionNode commonPrefix newBranchNodePtr)))
     else (s, Inr (BranchNode cs newValuePtr False))))"

definition updateValueNode ::
  "'s StoreOps \<Rightarrow> digest \<Rightarrow> 's \<Rightarrow> bytes \<Rightarrow> slice \<Rightarrow> bool \<Rightarrow> bytes \<Rightarrow> slice \<Rightarrow> bool
   \<Rightarrow> 's \<times> (TrieNode \<times> slice) res" where
  "updateValueNode ops h s key vp d hexKey valuePtr isDeleted =
     (let commonPrefix = findCommonPrefix hexKey key;
          nodeKeyLeft = drop (length commonPrefix) key;
          valueKeyLeft = drop (length commonPrefix) hexKey in
      if length valueKeyLeft = 0 \<and> length nodeKeyLeft = 0
      then saveResult ops h s (ValueNode key valuePtr isDeleted)
      else if isDeleted then (s, Inl (Err ''can't delete non existing node''))
      else if length valueKeyLeft = 0 \<and> length nodeKeyLeft > 0
      then sbind (splitPathToValueNode ops h s nodeKeyLeft valuePtr vp commonPrefix) (saveResult ops h)
      else if length nodeKeyLeft = 0 \<and> length valueKeyLeft > 0
      then sbind (splitPathToValueNode ops h s valueKeyLeft vp valuePtr commonPrefix) (saveResult ops h)
      else
        sbind (saveNode ops h s (ValueNode (tl nodeKeyLeft) vp False)) (\<lambda>s newValueNodePtr1.
        sbind (saveNode ops h s (ValueNode (tl valueKeyLeft) valuePtr False)) (\<lambda>s newValueNodePtr2.
        sbind (sread s (setChild emptyChildren (hd nodeKeyLeft) newValueNodePtr1)) (\<lambda>s cs1.
        sbind (sread s (setChild cs1 (hd valueKeyLeft) newValueNodePtr2)) (\<lambda>s cs2.
        if length commonPrefix > 0
        then sbind (saveNode ops h s (BranchNode cs2 None False)) (\<lambda>s newBranchNodePtr.
               saveResult ops h s (ExtensionNode commonPrefix newBranchNodePtr))
        else saveResult ops h s (BranchNode cs2 None False))))))"

text \<open>
  In the case where the extension's key is a proper prefix of the key, the code does not check the
  error of the child's update: the child pointer becomes nil and the extension is saved.
\<close>

definition updateExtensionNode ::
  "'s StoreOps \<Rightarrow> digest \<Rightarrow> 's updater \<Rightarrow> 's \<Rightarrow> bytes \<Rightarrow> slice \<Rightarrow> bytes \<Rightarrow> slice \<Rightarrow> bool
   \<Rightarrow> 's \<times> (TrieNode \<times> slice) res" where
  "updateExtensionNode ops h upd s key child hexKey valuePtr isDeleted =
     (let commonPrefix = findCommonPrefix hexKey key;
          nodeKeyLeft = drop (length commonPrefix) key;
          valueKeyLeft = drop (length commonPrefix) hexKey in
      if length valueKeyLeft = 0 \<and> length nodeKeyLeft = 0
      then sbind (sread s (GetNode ops s child)) (\<lambda>s branchNode.
           sbind (upd s branchNode valueKeyLeft valuePtr isDeleted) (\<lambda>s (_, childPtr).
           saveResult ops h s (ExtensionNode key childPtr)))
      else if length valueKeyLeft = 0 \<and> length nodeKeyLeft > 0
      then sbind (if length nodeKeyLeft > 1
                  then saveNode ops h s (ExtensionNode (tl nodeKeyLeft) child)
                  else (s, Inr child)) (\<lambda>s ptr.
           sbind (sread s (setChild emptyChildren (hd nodeKeyLeft) ptr)) (\<lambda>s cs.
           if length commonPrefix > 0
           then sbind (saveNode ops h s (BranchNode cs valuePtr False)) (\<lambda>s newBranchNodePtr.
                  saveResult ops h s (ExtensionNode commonPrefix newBranchNodePtr))
           else saveResult ops h s (BranchNode cs valuePtr False)))
      else if length nodeKeyLeft = 0 \<and> length valueKeyLeft > 0
      then sbind (sread s (GetNode ops s child)) (\<lambda>s childNode.
           case upd s childNode (drop (length commonPrefix) hexKey) valuePtr isDeleted of
             (s, Inr (_, newChildPtr)) \<Rightarrow> saveResult ops h s (ExtensionNode key newChildPtr)
           | (s, Inl e) \<Rightarrow>
               if is_panic e \<or> e = OutOfFuel then (s, Inl e)
               else saveResult ops h s (ExtensionNode key None))
      else
        sbind (saveNode ops h s (ValueNode (tl valueKeyLeft) valuePtr False)) (\<lambda>s newValueNodePtr.
        sbind (sread s (setChild emptyChildren (hd valueKeyLeft) newValueNodePtr)) (\<lambda>s cs1.
        sbind (if length nodeKeyLeft = 1 then (s, Inr child)
               else saveNode ops h s (ExtensionNode (tl nodeKeyLeft) child)) (\<lambda>s secondChildPtr.
        sbind (sread s (setChild cs1 (hd nodeKeyLeft) secondChildPtr)) (\<lambda>s cs2.
        if length commonPrefix > 0
        then sbind (saveNode ops h s (BranchNode cs2 None False)) (\<lambda>s newBranchNodePtr.
               saveResult ops h s (ExtensionNode commonPrefix newBranchNodePtr))
        else saveResult ops h s (BranchNode cs2 None False))))))"

fun trie_update :: "'s StoreOps \<Rightarrow> digest \<Rightarrow> nat \<Rightarrow> 's updater" where
  "trie_update ops h 0 s node hexKey valuePtr isDeleted = (s, Inl OutOfFuel)"
| "trie_update ops h (Suc fuel) s node hexKey valuePtr isDeleted =
     (case node of
        BranchNode cs vp d \<Rightarrow>
          updateBranchNode ops h (trie_update ops h fuel) s cs vp d hexKey valuePtr isDeleted
      | ExtensionNode key child \<Rightarrow>
          updateExtensionNode ops h (trie_update ops h fuel) s key child hexKey valuePtr isDeleted
      | ValueNode key vp d \<Rightarrow> updateValueNode ops h s key vp d hexKey valuePtr isDeleted
      | EmptyNode \<Rightarrow> updateEmptyNode ops h s hexKey valuePtr)"

text \<open>The recursion started at the root, which has to be a branch.\<close>

definition updateRoot ::
  "'s StoreOps \<Rightarrow> digest \<Rightarrow> 's MPTrie \<Rightarrow> bytes \<Rightarrow> slice \<Rightarrow> bool \<Rightarrow> 's MPTrie \<times> unit res" where
  "updateRoot ops h t hexKey valuePtr isDeleted =
     (case root t of
        Some (BranchNode cs vp d) \<Rightarrow>
          (case updateBranchNode ops h (trie_update ops h (Suc (length hexKey))) (store t) cs vp d
                  hexKey valuePtr isDeleted of
             (s, Inl e) \<Rightarrow> (\<lparr>root = None, store = s\<rparr>, Inl e)
           | (s, Inr (node, _)) \<Rightarrow> (\<lparr>root = Some node, store = s\<rparr>, Inr ()))
      | _ \<Rightarrow> (t, Inl (Panic ''interface conversion: root is not a branch node'')))"

definition MPTrie_Update ::
  "'s StoreOps \<Rightarrow> digest \<Rightarrow> 's MPTrie \<Rightarrow> bytes \<Rightarrow> slice \<Rightarrow> 's MPTrie \<times> unit res" where
  "MPTrie_Update ops h t key value =
     (if length key = 0 then (t, Inl (Err ''can't update element with empty key''))
      else let valuePtr = CalculateKeyValueHash h (Some key) value in
        sbind (updateRoot ops h t (convertByteToHex key) valuePtr False) (\<lambda>t _.
        case PutValue ops (store t) valuePtr value of (s, r) \<Rightarrow> (t\<lparr>store := s\<rparr>, r)))"

section \<open>Lookups\<close>

fun getPathLoop ::
  "'s StoreOps \<Rightarrow> 's \<Rightarrow> nat \<Rightarrow> TrieNode list \<Rightarrow> TrieNode \<Rightarrow> bytes \<Rightarrow> (TrieNode list \<times> TrieNode option) res" where
  "getPathLoop ops s 0 res node hexKey = Inl OutOfFuel"
| "getPathLoop ops s (Suc fuel) res node hexKey =
     (let res = res @ [node] in
      case hexKey of
        [] \<Rightarrow>
          (case node of
             ExtensionNode _ _ \<Rightarrow>
               Inl (Err ''impossible state - path can't end at extension node, it means extension node with nil key'')
           | EmptyNode \<Rightarrow> Inl (Panic ''interface conversion'')
           | _ \<Rightarrow> Inr (res, Some node))
      | k # rest \<Rightarrow>
          (case node of
             BranchNode cs _ _ \<Rightarrow>
               rbind (getChild cs k) (\<lambda>childPtr.
               if childPtr = None then Inr (res, None)
               else rbind (GetNode ops s childPtr) (\<lambda>node. getPathLoop ops s fuel res node rest))
           | ExtensionNode nodeHexKey childPtr \<Rightarrow>
               if length nodeHexKey > length hexKey then Inr (res, None)
               else let commonKey = findCommonPrefix hexKey nodeHexKey in
                 if length commonKey < length nodeHexKey then Inr (res, None)
                 else if childPtr = None
                 then Inl (Err ''impossible state - extension node can't exist without following branch node'')
                 else rbind (GetNode ops s childPtr) (\<lambda>node.
                        getPathLoop ops s fuel res node (drop (length commonKey) hexKey))
           | ValueNode nodeHexKey _ _ \<Rightarrow>
               if hexKey = nodeHexKey then Inr (res, Some node) else Inr (res, None)
           | EmptyNode \<Rightarrow> Inl (Err ''Unknown trie node type'')))"

definition getPath :: "'s StoreOps \<Rightarrow> 's MPTrie \<Rightarrow> bytes \<Rightarrow> (TrieNode list \<times> TrieNode option) res" where
  "getPath ops t hexKey =
     (case root t of
        None \<Rightarrow> Inl (if hexKey = [] then Panic ''interface conversion'' else Err ''Unknown trie node type'')
      | Some node \<Rightarrow> getPathLoop ops (store t) (Suc (length hexKey)) [] node hexKey)"

definition getNode :: "'s StoreOps \<Rightarrow> 's MPTrie \<Rightarrow> bytes \<Rightarrow> TrieNode option res" where
  "getNode ops t hexKey = rbind (getPath ops t hexKey) (\<lambda>(_, node). Inr node)"

definition MPTrie_Get :: "'s StoreOps \<Rightarrow> 's MPTrie \<Rightarrow> bytes \<Rightarrow> slice res" where
  "MPTrie_Get ops t key =
     rbind (getNode ops t (convertByteToHex key)) (\<lambda>node.
     case node of
       None \<Rightarrow> Inr None
     | Some n \<Rightarrow> if node_isDeleted n then Inr None else GetValue ops (store t) (getValuePtr n))"

definition MPTrie_Delete :: "'s StoreOps \<Rightarrow> digest \<Rightarrow> 's MPTrie \<Rightarrow> bytes \<Rightarrow> 's MPTrie \<times> slice res" where
  "MPTrie_Delete ops h t key =
     (if length key = 0 then (t, Inl (Err ''can't delete element with empty key''))
      else let hexKey = convertByteToHex key in
        sbind (sread t (getNode ops t hexKey)) (\<lambda>t node.
        case node of
          None \<Rightarrow> (t, Inr None)
        | Some n \<Rightarrow>
            sbind (sread t (GetValue ops (store t) (getValuePtr n))) (\<lambda>t value.
            sbind (updateRoot ops h t hexKey (getValuePtr n) True) (\<lambda>t _. (t, Inr value)))))"

section \<open>Construction, root hash, proofs\<close>

definition NewTrie :: "'s StoreOps \<Rightarrow> digest \<Rightarrow> slice \<Rightarrow> 's \<Rightarrow> 's \<times> 's MPTrie res" where
  "NewTrie ops h rootHash s =
     (case rootHash of
        None \<Rightarrow>
          sbind (saveNode ops h s (BranchNode emptyChildren None False)) (\<lambda>s _.
            (s, Inr \<lparr>root = Some (BranchNode emptyChildren None False), store = s\<rparr>))
      | Some _ \<Rightarrow>
          sbind (sread s (GetNode ops s rootHash)) (\<lambda>s node. (s, Inr \<lparr>root = Some node, store = s\<rparr>)))"

definition MPTrie_Hash :: "digest \<Rightarrow> 's MPTrie option \<Rightarrow> slice res" where
  "MPTrie_Hash h t =
     (case t of
        None \<Rightarrow> Inr None
      | Some t \<Rightarrow> (case root t of None \<Rightarrow> Inl (Panic ''nil pointer dereference'') | Some n \<Rightarrow> node_hash h n))"

fun nodesBytes :: "TrieNode list \<Rightarrow> proof_path res" where
  "nodesBytes [] = Inr []"
| "nodesBytes (n # ns) = rbind (node_bytes n) (\<lambda>bs. rbind (nodesBytes ns) (\<lambda>p. Inr (bs # p)))"

definition GetProof :: "'s StoreOps \<Rightarrow> 's MPTrie \<Rightarrow> bytes \<Rightarrow> bool \<Rightarrow> proof_path option res" where
  "GetProof ops t key isDeleted =
     rbind (getPath ops t (convertByteToHex key)) (\<lambda>(path, node).
     case node of
       None \<Rightarrow> Inr None
     | Some n \<Rightarrow>
         if node_isDeleted n \<noteq> isDeleted then Inr None
         else rbind (nodesBytes (rev path)) (\<lambda>p. Inr (Some p)))"

section \<open>Persisting the trie\<close>

definition persistNode :: "'s StoreOps \<Rightarrow> 's \<Rightarrow> slice \<Rightarrow> 's \<times> bool res" where
  "persistNode ops s nodePtr = sbind (PersistNode ops s nodePtr) (\<lambda>s isChanged. (s, Inr isChanged))"

fun persistChildren :: "('s \<Rightarrow> slice \<Rightarrow> 's \<times> unit res) \<Rightarrow> 's \<Rightarrow> slice list \<Rightarrow> 's \<times> unit res" where
  "persistChildren f s [] = (s, Inr ())"
| "persistChildren f s (None # cs) = persistChildren f s cs"
| "persistChildren f s (Some p # cs) = sbind (f s (Some p)) (\<lambda>s _. persistChildren f s cs)"

fun persistSubtrie :: "'s StoreOps \<Rightarrow> nat \<Rightarrow> 's \<Rightarrow> slice \<Rightarrow> 's \<times> unit res" where
  "persistSubtrie ops 0 s nodePtr = (s, Inl OutOfFuel)"
| "persistSubtrie ops (Suc fuel) s nodePtr =
     sbind (persistNode ops s nodePtr) (\<lambda>s wasChanged.
     if \<not> wasChanged then (s, Inr ())
     else
       sbind (sread s (GetNode ops s nodePtr)) (\<lambda>s node.
       case node of
         BranchNode cs vp d \<Rightarrow>
           sbind (persistChildren (persistSubtrie ops fuel) s cs) (\<lambda>s _.
           case vp of
             None \<Rightarrow> (s, Inr ())
           | Some _ \<Rightarrow> sbind (PersistValue ops s vp) (\<lambda>s _. (s, Inr ())))
       | ExtensionNode key child \<Rightarrow> persistSubtrie ops fuel s child
       | ValueNode key vp d \<Rightarrow> sbind (PersistValue ops s vp) (\<lambda>s _. (s, Inr ()))
       | EmptyNode \<Rightarrow> (s, Inl (Err ''unrecognized node type in trie''))))"

definition MPTrie_Commit :: "'s StoreOps \<Rightarrow> digest \<Rightarrow> nat \<Rightarrow> 's MPTrie \<Rightarrow> 64 word \<Rightarrow> 's MPTrie \<times> unit res" where
  "MPTrie_Commit ops h fuel t blockNum =
     (case MPTrie_Hash h (Some t) of
        Inl e \<Rightarrow> (t, Inl e)
      | Inr rootHash \<Rightarrow>
          (case sbind (persistSubtrie ops fuel (store t) rootHash) (\<lambda>s _. CommitChanges ops s blockNum) of
             (s, r) \<Rightarrow> (t\<lparr>store := s\<rparr>, r)))"

end
