(* ===== verification/Pure_Trie.thy ===== *)
theory Pure_Trie
  imports Trie_Node
begin

text \<open>
  The trie as a tree: the value that the nodes of \<^verbatim>\<open>internal/mptrie\<close> represent once pointers are
  followed, with the update and the lookup written on it. This is the specification the pointer
  operations are shown to implement; here it is shown to behave as a finite map from nibble keys
  to value pointers with a deletion flag.
\<close>

datatype ptrie =
    PEmpty
  | PBranch "ptrie list" slice bool
  | PExt bytes ptrie
  | PVal bytes slice bool

fun is_branch :: "ptrie \<Rightarrow> bool" where
  "is_branch (PBranch ts vp d) = True"
| "is_branch _ = False"

definition mkExt :: "bytes \<Rightarrow> ptrie \<Rightarrow> ptrie" where
  "mkExt k c = (if k = [] then c else PExt k c)"

definition pchildren :: "ptrie list" where
  "pchildren = replicate 16 PEmpty"

definition split_val :: "bytes \<Rightarrow> slice \<Rightarrow> bytes \<Rightarrow> slice \<Rightarrow> ptrie" where
  "split_val key vp hexKey v =
     (let cp = findCommonPrefix hexKey key;
          nl = drop (length cp) key; vl = drop (length cp) hexKey in
      mkExt cp
        (if vl = [] then PBranch (pchildren[unat (hd nl) := PVal (tl nl) vp False]) v False
         else if nl = [] then PBranch (pchildren[unat (hd vl) := PVal (tl vl) v False]) vp False
         else PBranch (pchildren[unat (hd nl) := PVal (tl nl) vp False,
                                 unat (hd vl) := PVal (tl vl) v False]) None False))"

definition split_ext :: "bytes \<Rightarrow> ptrie \<Rightarrow> bytes \<Rightarrow> slice \<Rightarrow> ptrie" where
  "split_ext key c hexKey v =
     (let cp = findCommonPrefix hexKey key;
          nl = drop (length cp) key; vl = drop (length cp) hexKey in
      mkExt cp
        (if vl = [] then PBranch (pchildren[unat (hd nl) := mkExt (tl nl) c]) v False
         else PBranch (pchildren[unat (hd vl) := PVal (tl vl) v False,
                                 unat (hd nl) := mkExt (tl nl) c]) None False))"

lemma psize_child: "i < length ts \<Longrightarrow> size (ts ! i) < Suc (size_list size ts)"
  using size_list_estimation'[OF nth_mem, of i ts "size (ts ! i)" size] by simp

function pupdate :: "ptrie \<Rightarrow> bytes \<Rightarrow> slice \<Rightarrow> bool \<Rightarrow> ptrie res" where
  "pupdate PEmpty k v d = Inr (PVal k v False)"
| "pupdate (PBranch ts vp d0) k v d =
     (case k of
        [] \<Rightarrow> Inr (PBranch ts v d)
      | x # xs \<Rightarrow>
          if unat x < length ts
          then rbind (pupdate (ts ! unat x) xs v d) (\<lambda>u. Inr (PBranch (ts[unat x := u]) vp d0))
          else Inl (Panic ''index out of range''))"
| "pupdate (PVal key vp d0) k v d =
     (if k = key then Inr (PVal key v d)
      else if d then Inl (Err ''can't delete non existing node'')
      else Inr (split_val key vp k v))"
| "pupdate (PExt key c) k v d =
     (if prefix key k then rbind (pupdate c (drop (length key) k) v d) (\<lambda>u. Inr (PExt key u))
      else Inr (split_ext key c k v))"
  by pat_completeness auto
termination
  by (relation "measure (\<lambda>(t, k, v, d). size t)") (auto simp: psize_child)

text \<open>The entry of a key: its value pointer and its deletion flag.\<close>

function pentry :: "ptrie \<Rightarrow> bytes \<Rightarrow> (slice \<times> bool) option" where
  "pentry PEmpty k = None"
| "pentry (PBranch ts vp d) k =
     (case k of
        [] \<Rightarrow> if slen vp = 0 then None else Some (vp, d)
      | x # xs \<Rightarrow> if unat x < length ts then pentry (ts ! unat x) xs else None)"
| "pentry (PExt key c) k = (if prefix key k then pentry c (drop (length key) k) else None)"
| "pentry (PVal key vp d) k = (if k = key then Some (vp, d) else None)"
  by pat_completeness auto
termination
  by (relation "measure (\<lambda>(t, k). size t)") (auto simp: psize_child)

text \<open>Shape of the tries the operations build.\<close>

fun pwf :: "ptrie \<Rightarrow> bool" where
  "pwf PEmpty = True"
| "pwf (PBranch ts vp d) = (length ts = 16 \<and> list_all pwf ts \<and> norm_slice vp)"
| "pwf (PExt key c) = (key \<noteq> [] \<and> nibbles key \<and> is_branch c \<and> pwf c)"
| "pwf (PVal key vp d) = (nibbles key \<and> slen vp > 0)"

text \<open>All keys have the same length; then no branch carries a value.\<close>

fun plen :: "nat \<Rightarrow> ptrie \<Rightarrow> bool" where
  "plen L PEmpty = True"
| "plen L (PBranch ts vp d) = (0 < L \<and> vp = None \<and> \<not> d \<and> list_all (plen (L - 1)) ts)"
| "plen L (PExt key c) = (length key < L \<and> plen (L - length key) c)"
| "plen L (PVal key vp d) = (length key = L)"

section \<open>Preservation of the shape\<close>

lemma list_all_update: "list_all P xs \<Longrightarrow> P x \<Longrightarrow> list_all P (xs[i := x])"
  by (metis (full_types) in_set_conv_nth length_list_update list_all_iff nth_list_update_eq
      nth_list_update_neq)

lemma list_all_pchildren [simp]: "list_all P pchildren \<longleftrightarrow> P PEmpty"
  by (simp add: pchildren_def list_all_iff)

lemma length_pchildren [simp]: "length pchildren = 16"
  by (simp add: pchildren_def)

lemma nth_pchildren [simp]: "i < 16 \<Longrightarrow> pchildren ! i = PEmpty"
  by (simp add: pchildren_def)

lemma pwf_mkExt: "pwf (mkExt k c) \<longleftrightarrow> (if k = [] then pwf c else nibbles k \<and> is_branch c \<and> pwf c)"
  by (simp add: mkExt_def)

lemma slen_norm: "slen v > 0 \<Longrightarrow> norm_slice v"
  by (cases v) (auto simp: norm_slice_def)

lemma findCommonPrefix_drop:
  obtains xs' ys' where "xs = findCommonPrefix xs ys @ xs'" "ys = findCommonPrefix xs ys @ ys'"
    "drop (length (findCommonPrefix xs ys)) xs = xs'" "drop (length (findCommonPrefix xs ys)) ys = ys'"
    "xs' \<noteq> [] \<Longrightarrow> ys' \<noteq> [] \<Longrightarrow> hd xs' \<noteq> hd ys'"
  by (rule findCommonPrefix_split[of xs ys]) (metis append_eq_conv_conj)

lemma pwf_split_val:
  assumes "nibbles key" "nibbles k" "k \<noteq> key" "slen vp > 0" "slen v > 0"
  shows "pwf (split_val key vp k v)"
proof (rule findCommonPrefix_drop[of k key])
  fix vl nl
  assume a: "k = findCommonPrefix k key @ vl" "key = findCommonPrefix k key @ nl"
    "drop (length (findCommonPrefix k key)) k = vl" "drop (length (findCommonPrefix k key)) key = nl"
  then have "nibbles (findCommonPrefix k key)" "nibbles vl" "nibbles nl"
    using assms(1,2) by (metis nibbles_simps(3))+
  then show ?thesis
    using a assms(4,5)
    by (cases vl; cases nl)
       (auto simp: split_val_def Let_def pwf_mkExt list_all_update slen_norm norm_slice_def)
qed

lemma pwf_split_ext:
  assumes "nibbles key" "nibbles k" "\<not> prefix key k" "is_branch c" "pwf c" "slen v > 0"
  shows "pwf (split_ext key c k v)"
proof (rule findCommonPrefix_drop[of k key])
  fix vl nl
  assume a: "k = findCommonPrefix k key @ vl" "key = findCommonPrefix k key @ nl"
    "drop (length (findCommonPrefix k key)) k = vl" "drop (length (findCommonPrefix k key)) key = nl"
  then have "nibbles (findCommonPrefix k key)" "nibbles vl" "nibbles nl"
    using assms(1,2) by (metis nibbles_simps(3))+
  moreover have "nl \<noteq> []"
    using a assms(3) by (metis append_Nil2 prefixI)
  ultimately show ?thesis
    using a assms(4-6)
    by (cases vl; cases nl)
       (auto simp: split_ext_def Let_def pwf_mkExt list_all_update slen_norm norm_slice_def)
qed

lemma is_branch_pupdate: "is_branch t \<Longrightarrow> pupdate t k v d = Inr t' \<Longrightarrow> is_branch t'"
  by (cases t) (auto split: list.splits if_splits simp: rbind_Inr_iff)

lemma pwf_pupdate:
  assumes "pwf t" "nibbles k" "slen v > 0" "pupdate t k v d = Inr t'"
  shows "pwf t'"
  using assms
proof (induction t k v d arbitrary: t' rule: pupdate.induct)
  case (2 ts vp d0 k v d)
  show ?case
  proof (cases k)
    case Nil
    then show ?thesis
      using 2(2-5) by (auto simp: slen_norm)
  next
    case (Cons x xs)
    then obtain u where u: "pupdate (ts ! unat x) xs v d = Inr u" "t' = PBranch (ts[unat x := u]) vp d0"
      and x: "unat x < length ts"
      using 2(5) by (auto simp: rbind_Inr_iff split: if_splits)
    have "pwf (ts ! unat x)"
      using 2(2) x by (simp add: list_all_length)
    then have "pwf u"
      using 2(1)[OF Cons x _ _ _ u(1)] 2(3,4) Cons by simp
    then show ?thesis
      using 2(2) u(2) by (simp add: list_all_update)
  qed
next
  case (3 key vp d0 k v d)
  then show ?case
    by (auto simp: pwf_split_val split: if_splits)
next
  case (4 key c k v d)
  show ?case
  proof (cases "prefix key k")
    case True
    then obtain u where u: "pupdate c (drop (length key) k) v d = Inr u" "t' = PExt key u"
      using 4(5) by (auto simp: rbind_Inr_iff)
    have "nibbles (drop (length key) k)"
      using 4(3) True by (auto simp: prefix_def)
    then have "pwf u"
      using 4(1)[OF True _ _ _ u(1)] 4(2,4) by simp
    then show ?thesis
      using 4(2) u is_branch_pupdate by auto
  next
    case False
    then show ?thesis
      using 4(2-5) by (auto simp: pwf_split_ext)
  qed
qed auto

section \<open>Uniform key length\<close>

lemma plen_mkExt: "plen L (mkExt k c) \<longleftrightarrow> (if k = [] then plen L c else length k < L \<and> plen (L - length k) c)"
  by (simp add: mkExt_def)

lemma plen_split_val:
  assumes "length key = L" "length k = L" "k \<noteq> key"
  shows "plen L (split_val key vp k v)"
proof (rule findCommonPrefix_drop[of k key])
  fix vl nl
  assume a: "k = findCommonPrefix k key @ vl" "key = findCommonPrefix k key @ nl"
    "drop (length (findCommonPrefix k key)) k = vl" "drop (length (findCommonPrefix k key)) key = nl"
  then have "length (findCommonPrefix k key) + length vl = L" "length (findCommonPrefix k key) + length nl = L"
    using assms(1,2) by (metis length_append)+
  moreover from this have "vl \<noteq> []" "nl \<noteq> []"
    using a assms(3) by auto
  ultimately show ?thesis
    using a by (auto simp: split_val_def Let_def plen_mkExt list_all_update)
qed

lemma plen_split_ext:
  assumes "length key < L" "plen (L - length key) c" "length k = L" "\<not> prefix key k"
  shows "plen L (split_ext key c k v)"
proof (rule findCommonPrefix_drop[of k key])
  fix vl nl
  let ?cp = "findCommonPrefix k key"
  assume a: "k = ?cp @ vl" "key = ?cp @ nl" "drop (length ?cp) k = vl" "drop (length ?cp) key = nl"
  then have len: "L = length ?cp + length vl" "length key = length ?cp + length nl"
    using assms(3) by (metis length_append)+
  then have vl: "length nl < length vl"
    using assms(1) by simp
  obtain y ys where y: "nl = y # ys"
    using a assms(4) by (metis append_Nil2 prefixI neq_Nil_conv)
  have "plen (L - length ?cp - 1) (mkExt ys c)"
    using assms(2) len vl y by (auto simp: plen_mkExt)
  then have "list_all (plen (L - length ?cp - 1))
      (pchildren[unat (hd vl) := PVal (tl vl) v False, unat y := mkExt ys c])"
    using len by (intro list_all_update) auto
  moreover have "vl \<noteq> []" "length ?cp < L"
    using vl len by auto
  ultimately have "plen L (mkExt ?cp
      (PBranch (pchildren[unat (hd vl) := PVal (tl vl) v False, unat y := mkExt ys c]) None False))"
    by (auto simp: plen_mkExt)
  then show ?thesis
    using \<open>vl \<noteq> []\<close> by (simp only: split_ext_def Let_def a(3,4) y list.sel if_False)
qed

lemma plen_pupdate:
  assumes "plen L t" "length k = L" "pupdate t k v d = Inr t'"
  shows "plen L t'"
  using assms
proof (induction t k v d arbitrary: L t' rule: pupdate.induct)
  case (2 ts vp d0 k v d)
  then obtain x xs where k: "k = x # xs"
    by (cases k) auto
  then obtain u where u: "pupdate (ts ! unat x) xs v d = Inr u" "t' = PBranch (ts[unat x := u]) vp d0"
    and x: "unat x < length ts"
    using 2(4) by (auto simp: rbind_Inr_iff split: if_splits)
  have "plen (L - 1) (ts ! unat x)"
    using 2(2) x by (simp add: list_all_length)
  then have "plen (L - 1) u"
    using 2(1)[OF k x _ _ u(1)] 2(3) k by simp
  then show ?case
    using 2(2) u(2) by (simp add: list_all_update)
next
  case (3 key vp d0 k v d)
  then show ?case
    by (auto simp: plen_split_val split: if_splits)
next
  case (4 key c k v d)
  show ?case
  proof (cases "prefix key k")
    case True
    then obtain u where u: "pupdate c (drop (length key) k) v d = Inr u" "t' = PExt key u"
      using 4(4) by (auto simp: rbind_Inr_iff)
    have "plen (L - length key) u"
      using 4(1)[OF True _ _ u(1)] 4(2,3) by simp
    then show ?thesis
      using 4(2) u by auto
  next
    case False
    then show ?thesis
      using 4(2-4) by (auto simp: plen_split_ext)
  qed
qed auto

section \<open>The trie as a map\<close>

lemma pentry_mkExt:
  "pentry (mkExt k c) k2 = (if prefix k k2 then pentry c (drop (length k) k2) else None)"
  by (simp add: mkExt_def)

lemma nibble_neq: "unat (x :: byte) = unat y \<longleftrightarrow> x = y"
  by (simp add: word_unat_eq_iff)

lemma pentry_split_val:
  assumes "nibbles key" "nibbles k" "k \<noteq> key" "slen vp > 0" "slen v > 0"
  shows "pentry (split_val key vp k v) k2 =
    (if k2 = k then Some (v, False) else if k2 = key then Some (vp, False) else None)"
proof (rule findCommonPrefix_drop[of k key])
  fix vl nl
  let ?cp = "findCommonPrefix k key"
  assume a: "k = ?cp @ vl" "key = ?cp @ nl" "drop (length ?cp) k = vl" "drop (length ?cp) key = nl"
    and neq: "vl \<noteq> [] \<Longrightarrow> nl \<noteq> [] \<Longrightarrow> hd vl \<noteq> hd nl"
  have n: "nibbles vl" "nibbles nl"
    using a assms(1,2) by (metis nibbles_simps(3))+
  show ?thesis
  proof (cases "prefix ?cp k2")
    case True
    then obtain r where r: "k2 = ?cp @ r"
      by (auto simp: prefix_def)
    then have "k2 = k \<longleftrightarrow> r = vl" "k2 = key \<longleftrightarrow> r = nl"
      using a by (metis same_append_eq)+
    moreover have "vl \<noteq> nl"
      using a assms(3) by metis
    moreover have "drop (length ?cp) k2 = r"
      using r by (metis append_eq_conv_conj)
    ultimately show ?thesis
      using a n neq True assms(4,5)
      by (cases vl; cases nl; cases r)
         (auto simp: split_val_def Let_def pentry_mkExt nth_list_update nibble_neq)
  next
    case False
    then have "k2 \<noteq> k" "k2 \<noteq> key"
      using a by (metis prefixI)+
    then show ?thesis
      using a False by (simp add: split_val_def Let_def pentry_mkExt)
  qed
qed

lemma pentry_split_ext:
  assumes "nibbles key" "nibbles k" "\<not> prefix key k" "slen v > 0"
  shows "pentry (split_ext key c k v) k2 = (if k2 = k then Some (v, False) else pentry (PExt key c) k2)"
proof (rule findCommonPrefix_drop[of k key])
  fix vl nl
  let ?cp = "findCommonPrefix k key"
  assume a: "k = ?cp @ vl" "key = ?cp @ nl" "drop (length ?cp) k = vl" "drop (length ?cp) key = nl"
    and neq: "vl \<noteq> [] \<Longrightarrow> nl \<noteq> [] \<Longrightarrow> hd vl \<noteq> hd nl"
  have n: "nibbles vl" "nibbles nl"
    using a assms(1,2) by (metis nibbles_simps(3))+
  have nl: "nl \<noteq> []"
    using a assms(3) by (metis append_Nil2 prefixI)
  show ?thesis
  proof (cases "prefix ?cp k2")
    case True
    then obtain r where r: "k2 = ?cp @ r"
      by (auto simp: prefix_def)
    then have "k2 = k \<longleftrightarrow> r = vl" "prefix key k2 \<longleftrightarrow> prefix nl r"
      using a by (metis same_append_eq same_prefix_prefix)+
    moreover have "drop (length ?cp) k2 = r"
      using r by (metis append_eq_conv_conj)
    moreover have "drop (length key) k2 = drop (length nl) r"
      using a(2) r by (metis append_eq_conv_conj drop_drop add.commute length_append)
    ultimately show ?thesis
      using a n neq nl True assms(4)
      by (cases vl; cases nl; cases r)
         (auto simp: split_ext_def Let_def pentry_mkExt nth_list_update nibble_neq)
  next
    case False
    then have "k2 \<noteq> k" "\<not> prefix key k2"
      using a by (metis prefixI, metis append_prefixD)
    then show ?thesis
      using a False by (simp add: split_ext_def Let_def pentry_mkExt)
  qed
qed

text \<open>
  An update sets the entry of its key. Every other entry stays, except that an insertion may turn
  the flag of a deleted entry off: the code does not copy the flag when it splits a value node.
\<close>

definition keeps :: "bool \<Rightarrow> (slice \<times> bool) option \<Rightarrow> (slice \<times> bool) option \<Rightarrow> bool" where
  "keeps d e e' \<longleftrightarrow> e' = e \<or> \<not> d \<and> (\<exists>vp. e = Some (vp, True) \<and> e' = Some (vp, False))"

lemma keeps_refl [simp]: "keeps d e e"
  by (simp add: keeps_def)

lemma pentry_pupdate:
  assumes "pwf t" "nibbles k" "slen v > 0" "pupdate t k v d = Inr t'" "d \<longrightarrow> pentry t k \<noteq> None"
  shows "pentry t' k = Some (v, d)" and "k2 \<noteq> k \<Longrightarrow> keeps d (pentry t k2) (pentry t' k2)"
  using assms
proof (induction t k v d arbitrary: t' k2 rule: pupdate.induct)
  case (2 ts vp d0 k v d)
  {
    case 1
    show ?case
    proof (cases k)
      case Nil
      then show ?thesis
        using 1 by auto
    next
      case (Cons x xs)
      then obtain u where u: "pupdate (ts ! unat x) xs v d = Inr u" "t' = PBranch (ts[unat x := u]) vp d0"
        and x: "unat x < length ts"
        using 1(4) by (auto simp: rbind_Inr_iff split: if_splits)
      have "pwf (ts ! unat x)"
        using 1(1) x by (simp add: list_all_length)
      then have "pentry u xs = Some (v, d)"
        using 2(1)[OF Cons x _ _ _ u(1)] 1 Cons x by simp
      then show ?thesis
        using u Cons x by simp
    qed
  next
    case 2
    show ?case
    proof (cases k)
      case Nil
      then show ?thesis
        using 2 by (auto split: list.splits)
    next
      case (Cons x xs)
      then obtain u where u: "pupdate (ts ! unat x) xs v d = Inr u" "t' = PBranch (ts[unat x := u]) vp d0"
        and x: "unat x < length ts"
        using 2(5) by (auto simp: rbind_Inr_iff split: if_splits)
      have "pwf (ts ! unat x)"
        using 2(2) x by (simp add: list_all_length)
      then have "keeps d (pentry (ts ! unat x) ys) (pentry u ys)" if "ys \<noteq> xs" for ys
        using "2.IH"(2)[OF Cons x that _ _ _ u(1)] 2 Cons x by simp
      then show ?thesis
        using u Cons x 2(1) by (auto simp: nth_list_update nibble_neq split: list.splits)
    qed
  }
next
  case (3 key vp d0 k v d)
  {
    case 1
    then show ?case
      by (auto simp: pentry_split_val split: if_splits)
  next
    case 2
    then show ?case
      by (auto simp: pentry_split_val keeps_def split: if_splits)
  }
next
  case (4 key c k v d)
  {
    case 1
    show ?case
    proof (cases "prefix key k")
      case True
      then obtain u where u: "pupdate c (drop (length key) k) v d = Inr u" "t' = PExt key u"
        using 1(4) by (auto simp: rbind_Inr_iff)
      have "nibbles (drop (length key) k)"
        using 1(2) True by (auto simp: prefix_def)
      then show ?thesis
        using "4.IH"(1)[OF True _ _ _ u(1)] 1 True u(2) by simp
    next
      case False
      then show ?thesis
        using 1 by (auto simp: pentry_split_ext)
    qed
  next
    case 2
    show ?case
    proof (cases "prefix key k")
      case True
      then obtain u where u: "pupdate c (drop (length key) k) v d = Inr u" "t' = PExt key u"
        using 2(5) by (auto simp: rbind_Inr_iff)
      have "nibbles (drop (length key) k)"
        using 2(3) True by (auto simp: prefix_def)
      then have "keeps d (pentry c r) (pentry u r)" if "r \<noteq> drop (length key) k" for r
        using "4.IH"(2)[OF True that _ _ _ u(1)] 2 True by simp
      then show ?thesis
        using u(2) 2(1) True by (auto simp: prefix_def) blast
    next
      case False
      then show ?thesis
        using 2 by (auto simp: pentry_split_ext)
    qed
  }
qed auto

lemma pupdate_ok:
  assumes "pwf t" "nibbles k" "d \<longrightarrow> pentry t k \<noteq> None"
  shows "\<exists>t'. pupdate t k v d = Inr t'"
  using assms
proof (induction t k v d rule: pupdate.induct)
  case (2 ts vp d0 k v d)
  show ?case
  proof (cases k)
    case (Cons x xs)
    then have x: "unat x < length ts"
      using 2 by simp
    then have "pwf (ts ! unat x)"
      using 2(2) by (simp add: list_all_length)
    then obtain u where "pupdate (ts ! unat x) xs v d = Inr u"
      using 2(1)[OF Cons x] 2(3,4) Cons x by auto
    then show ?thesis
      using Cons x by simp
  qed simp
next
  case (4 key c k v d)
  show ?case
  proof (cases "prefix key k")
    case True
    then have "nibbles (drop (length key) k)"
      using 4(3) by (auto simp: prefix_def)
    then obtain u where "pupdate c (drop (length key) k) v d = Inr u"
      using 4(1)[OF True] 4(2,4) True by auto
    then show ?thesis
      using True by simp
  qed simp
qed (auto split: if_splits)

end
