(* ===== verification/MPTrie_Refine.thy ===== *)
theory MPTrie_Refine
  imports MPTrie Pure_Trie
begin

text \<open>
  The pointer operations of the trie implement the tree operations. A tree is represented by its
  root node when every node of it can be read from the store under its own hash. The hash is
  any digest of a fixed non-zero length; the nodes of the tree after the operation are assumed to
  have different hashes, a finite and explicit form of collision freedom.
\<close>

section \<open>Nodes of a tree\<close>

definition node_ptr :: "digest \<Rightarrow> TrieNode \<Rightarrow> slice" where
  "node_ptr h n = (case node_hash h n of Inl _ \<Rightarrow> None | Inr p \<Rightarrow> p)"

primrec pnode :: "digest \<Rightarrow> ptrie \<Rightarrow> TrieNode" where
  "pnode h PEmpty = EmptyNode"
| "pnode h (PBranch ts vp d) = BranchNode (map (\<lambda>t. node_ptr h (pnode h t)) ts) vp d"
| "pnode h (PExt key c) = ExtensionNode key (node_ptr h (pnode h c))"
| "pnode h (PVal key vp d) = ValueNode key vp d"

primrec nodes_of :: "digest \<Rightarrow> ptrie \<Rightarrow> TrieNode set" where
  "nodes_of h PEmpty = {}"
| "nodes_of h (PBranch ts vp d) =
     insert (pnode h (PBranch ts vp d)) (\<Union> (set (map (nodes_of h) ts)))"
| "nodes_of h (PExt key c) = insert (pnode h (PExt key c)) (nodes_of h c)"
| "nodes_of h (PVal key vp d) = {pnode h (PVal key vp d)}"

definition pptr :: "digest \<Rightarrow> ptrie \<Rightarrow> slice" where
  "pptr h t = node_ptr h (pnode h t)"

lemma pptr_Empty [simp]: "node_ptr h EmptyNode = None" "pptr h PEmpty = None"
  by (simp_all add: pptr_def node_ptr_def)

lemma pnode_simps [simp]:
  "pnode h (PBranch ts vp d) = BranchNode (map (pptr h) ts) vp d"
  "pnode h (PExt key c) = ExtensionNode key (pptr h c)"
  by (simp_all add: pptr_def)

declare pnode.simps(2,3) [simp del]

lemma pnode_pchildren [simp]: "map (pptr h) pchildren = emptyChildren"
  by (simp add: pchildren_def emptyChildren_def)

lemma pnode_in_nodes: "t \<noteq> PEmpty \<Longrightarrow> pnode h t \<in> nodes_of h t"
  by (cases t) auto

lemma pnode_Empty_iff [simp]: "pnode h t = EmptyNode \<longleftrightarrow> t = PEmpty"
  by (cases t) auto

lemma nodes_of_nth: "i < length ts \<Longrightarrow> nodes_of h (ts ! i) \<subseteq> nodes_of h (PBranch ts vp d)"
  by (auto intro: nth_mem)

lemma nodes_of_child: "t \<in> set ts \<Longrightarrow> nodes_of h t \<subseteq> nodes_of h (PBranch ts vp d)"
  by auto

lemma nodes_of_mkExt: "nodes_of h c \<subseteq> nodes_of h (mkExt k c)"
  by (auto simp: mkExt_def)

context fixed_digest
begin

lemma node_hash_Some: "m \<noteq> EmptyNode \<Longrightarrow> \<exists>b. node_hash h m = Inr (Some b) \<and> length b = n"
  by (cases m) (auto simp: CalcHash_def ComputeSHA256Hash_def len)

end

section \<open>Reading and saving\<close>

definition stored :: "'s StoreOps \<Rightarrow> digest \<Rightarrow> 's \<Rightarrow> TrieNode \<Rightarrow> bool" where
  "stored ops h s m \<longleftrightarrow> GetNode ops s (node_ptr h m) = Inr m"

text \<open>A later store: it still has the nodes of \<open>N\<close>, and the same values.\<close>

definition extends :: "'s StoreOps \<Rightarrow> digest \<Rightarrow> TrieNode set \<Rightarrow> 's \<Rightarrow> 's \<Rightarrow> bool" where
  "extends ops h N s s' \<longleftrightarrow>
     (\<forall>m \<in> N. stored ops h s m \<longrightarrow> stored ops h s' m) \<and> (\<forall>q. GetValue ops s' q = GetValue ops s q)"

lemma extends_refl [simp]: "extends ops h N s s"
  by (simp add: extends_def)

lemma extends_trans: "extends ops h N s s' \<Longrightarrow> extends ops h N s' s'' \<Longrightarrow> extends ops h N s s''"
  by (simp add: extends_def)

lemma extends_stored:
  "extends ops h N s s' \<Longrightarrow> \<forall>m \<in> A. stored ops h s m \<Longrightarrow> A \<subseteq> N \<Longrightarrow> \<forall>m \<in> A. stored ops h s' m"
  by (auto simp: extends_def)

text \<open>A family of nodes on which the hash is injective.\<close>

definition no_clash :: "digest \<Rightarrow> TrieNode set \<Rightarrow> bool" where
  "no_clash h N \<longleftrightarrow> EmptyNode \<notin> N \<and> inj_on (node_ptr h) N"

text \<open>The result of a saving operation: the tree \<open>t\<close> is in the store.\<close>

definition saved :: "'s StoreOps \<Rightarrow> digest \<Rightarrow> TrieNode set \<Rightarrow> 's \<Rightarrow> ptrie \<Rightarrow> 's \<Rightarrow> bool" where
  "saved ops h N s t s' \<longleftrightarrow> extends ops h N s s' \<and> (\<forall>m \<in> nodes_of h t. stored ops h s' m)"

lemma saved_extends: "saved ops h N s t s' \<Longrightarrow> extends ops h N s s'"
  by (simp add: saved_def)

lemma saved_trans: "extends ops h N s s' \<Longrightarrow> saved ops h N s' t s'' \<Longrightarrow> saved ops h N s t s''"
  by (auto simp: saved_def intro: extends_trans)

lemma saved_stored: "saved ops h N s t s' \<Longrightarrow> \<forall>m \<in> nodes_of h t. stored ops h s' m"
  by (simp add: saved_def)

locale hashed_trie = trie_store ops + fixed_digest h n for ops :: "'s StoreOps" and h n
begin

lemma node_ptr_Some: "m \<noteq> EmptyNode \<Longrightarrow> \<exists>b. node_ptr h m = Some b \<and> length b = n"
  using node_hash_Some[of m] by (auto simp: node_ptr_def)

lemma pptr_norm: "norm_slice (pptr h t)"
  using node_ptr_Some[of "pnode h t"] pos
  by (cases "t = PEmpty") (auto simp: pptr_def norm_slice_def)

lemma pptr_not_None: "t \<noteq> PEmpty \<Longrightarrow> \<exists>b. pptr h t = Some b"
  using node_ptr_Some[of "pnode h t"] by (auto simp: pptr_def)

lemma norm_pnode: "pwf t \<Longrightarrow> t \<noteq> PEmpty \<Longrightarrow> norm_node (pnode h t)"
  using slen_norm by (cases t) (auto simp: pptr_norm list_all_iff)

lemma saveNode_spec:
  assumes "no_clash h N" "m \<in> N" "norm_node m"
  shows "\<exists>s'. saveNode ops h s m = (s', Inr (node_ptr h m)) \<and> extends ops h N s s' \<and> stored ops h s' m"
proof -
  have m: "m \<noteq> EmptyNode"
    using assms by (auto simp: no_clash_def)
  obtain b where b: "node_hash h m = Inr (Some b)"
    using node_hash_Some[OF m] by auto
  then have p: "node_ptr h m = Some b"
    by (simp add: node_ptr_def)
  obtain s' where s': "PutNode ops s (Some b) m = (s', Inr ())"
    using put_node_ok[OF assms(3)] by blast
  have get: "GetNode ops s' q = (if content q = b then Inr m else GetNode ops s q)" for q
    using get_put_node[OF assms(3) s', of q] by simp
  have "stored ops h s' m' " if "m' \<in> N" "stored ops h s m'" for m'
  proof (cases "content (node_ptr h m') = b")
    case True
    have "m' \<noteq> EmptyNode"
      using that(1) assms(1) by (auto simp: no_clash_def)
    then have "node_ptr h m' = node_ptr h m"
      using node_ptr_Some[of m'] True p by auto
    then have "m' = m"
      using assms(1,2) that(1) by (auto simp: no_clash_def inj_on_def)
    then show ?thesis
      using get[of "Some b"] p by (simp add: stored_def)
  next
    case False
    then show ?thesis
      using that(2) get by (simp add: stored_def)
  qed
  moreover have "stored ops h s' m"
    using get[of "Some b"] p by (simp add: stored_def)
  ultimately show ?thesis
    using b p s' get_value_put_node[OF s'] by (auto simp: saveNode_def extends_def)
qed

text \<open>Saving the root of a tree whose other nodes are stored.\<close>

lemma save_root:
  assumes "no_clash h N" "nodes_of h t \<subseteq> N" "pwf t" "t \<noteq> PEmpty"
    "\<forall>m \<in> nodes_of h t - {pnode h t}. stored ops h s m"
  shows "\<exists>s'. saveNode ops h s (pnode h t) = (s', Inr (pptr h t)) \<and> saved ops h N s t s'"
proof -
  have "pnode h t \<in> N"
    using pnode_in_nodes[OF assms(4)] assms(2) by auto
  then obtain s' where s': "saveNode ops h s (pnode h t) = (s', Inr (pptr h t))"
      "extends ops h N s s'" "stored ops h s' (pnode h t)"
    using saveNode_spec[OF assms(1)] norm_pnode[OF assms(3,4)] by (auto simp: pptr_def)
  then have "\<forall>m \<in> nodes_of h t. stored ops h s' m"
    using assms(2,5) by (auto simp: extends_def)
  then show ?thesis
    using s' by (auto simp: saved_def)
qed

lemma save_result:
  assumes "no_clash h N" "nodes_of h t \<subseteq> N" "pwf t" "t \<noteq> PEmpty"
    "\<forall>m \<in> nodes_of h t - {pnode h t}. stored ops h s m"
  shows "\<exists>s'. saveResult ops h s (pnode h t) = (s', Inr (pnode h t, pptr h t)) \<and> saved ops h N s t s'"
  using save_root[OF assms] by (auto simp: saveResult_def)

text \<open>The branch below an optional extension, as every split ends.\<close>

lemma save_mkExt:
  assumes "no_clash h N" "nodes_of h (mkExt cp b) \<subseteq> N" "pwf (mkExt cp b)" "is_branch b"
    "\<forall>m \<in> nodes_of h b - {pnode h b}. stored ops h s m"
  shows "\<exists>s'. (if length cp > 0
      then sbind (saveNode ops h s (pnode h b)) (\<lambda>s p. saveResult ops h s (ExtensionNode cp p))
      else saveResult ops h s (pnode h b)) = (s', Inr (pnode h (mkExt cp b), pptr h (mkExt cp b)))
    \<and> saved ops h N s (mkExt cp b) s'"
proof (cases cp)
  case Nil
  then show ?thesis
    using assms save_result[of N b s] by (cases b) (auto simp: mkExt_def)
next
  case (Cons x xs)
  have b: "b \<noteq> PEmpty" "pwf b" "nodes_of h b \<subseteq> N"
    using assms Cons by (auto simp: mkExt_def)
  obtain s1 where s1: "saveNode ops h s (pnode h b) = (s1, Inr (pptr h b))" "saved ops h N s b s1"
    using save_root[OF assms(1) b(3,2,1) assms(5)] by blast
  have e: "mkExt cp b = PExt cp b"
    using Cons by (simp add: mkExt_def)
  have "\<forall>m \<in> nodes_of h (PExt cp b) - {pnode h (PExt cp b)}. stored ops h s1 m"
    using s1(2) by (auto simp: saved_def)
  then obtain s2 where s2: "saveResult ops h s1 (pnode h (PExt cp b)) =
      (s2, Inr (pnode h (PExt cp b), pptr h (PExt cp b)))" "saved ops h N s1 (PExt cp b) s2"
    using save_result[OF assms(1), of "PExt cp b" s1] assms(2,3) unfolding e by blast
  then show ?thesis
    using s1 Cons e extends_trans[of ops h N s s1 s2] by (auto simp: saved_def)
qed

text \<open>New branches with one or two children.\<close>

lemma nodes_of_branch1:
  assumes "i < 16"
  shows "nodes_of h (PBranch (pchildren[i := a]) v d) =
    insert (pnode h (PBranch (pchildren[i := a]) v d)) (nodes_of h a)"
proof -
  have "set (pchildren[i := a]) \<subseteq> insert a {PEmpty}"
    using set_update_subset_insert[of pchildren i a] by (auto simp: pchildren_def)
  moreover have "a \<in> set (pchildren[i := a])"
    using assms by (simp add: set_update_memI)
  ultimately show ?thesis
    by auto
qed

lemma nodes_of_branch2:
  assumes "i < 16" "j < 16" "i \<noteq> j"
  shows "nodes_of h (PBranch (pchildren[i := a, j := b]) v d) =
    insert (pnode h (PBranch (pchildren[i := a, j := b]) v d)) (nodes_of h a \<union> nodes_of h b)"
proof -
  have "set (pchildren[i := a, j := b]) \<subseteq> {a, b, PEmpty}"
    using set_update_subset_insert[of pchildren i a]
      set_update_subset_insert[of "pchildren[i := a]" j b]
    by (auto simp: pchildren_def)
  moreover have "b \<in> set (pchildren[i := a, j := b])"
    using assms by (simp add: set_update_memI)
  moreover have "a \<in> set (pchildren[i := a, j := b])"
    using assms by (subst list_update_swap) (simp_all add: set_update_memI)
  ultimately show ?thesis
    by auto
qed

lemma setChild_empty [simp]:
  "unat i < 16 \<Longrightarrow> setChild emptyChildren i p = Inr (emptyChildren[unat i := p])"
  "unat j < 16 \<Longrightarrow> setChild (emptyChildren[k := q]) j p = Inr (emptyChildren[k := q, unat j := p])"
  by (simp_all add: setChild_def emptyChildren_def)

lemma split_branch:
  fixes i :: byte
  assumes "no_clash h N" "nodes_of h (mkExt cp (PBranch (pchildren[unat i := a]) v False)) \<subseteq> N"
    "pwf (mkExt cp (PBranch (pchildren[unat i := a]) v False))" "unat i < 16"
    "\<forall>m \<in> nodes_of h a. stored ops h s m"
  shows "\<exists>s'. (if length cp > 0
      then sbind (saveNode ops h s (BranchNode (emptyChildren[unat i := pptr h a]) v False))
             (\<lambda>s p. saveResult ops h s (ExtensionNode cp p))
      else saveResult ops h s (BranchNode (emptyChildren[unat i := pptr h a]) v False)) =
        (s', Inr (pnode h (mkExt cp (PBranch (pchildren[unat i := a]) v False)),
                  pptr h (mkExt cp (PBranch (pchildren[unat i := a]) v False))))
    \<and> saved ops h N s (mkExt cp (PBranch (pchildren[unat i := a]) v False)) s'"
proof -
  have "\<forall>m \<in> nodes_of h (PBranch (pchildren[unat i := a]) v False)
          - {pnode h (PBranch (pchildren[unat i := a]) v False)}. stored ops h s m"
    unfolding nodes_of_branch1[OF assms(4)] using assms(5) by blast
  note save = save_mkExt[OF assms(1-3) _ this]
  have pn: "pnode h (PBranch (pchildren[unat i := a]) v False) =
      BranchNode (emptyChildren[unat i := pptr h a]) v False"
    by (simp add: map_update)
  show ?thesis
    by (rule save[unfolded pn]) simp
qed

lemma split_branch2:
  fixes i j :: byte
  assumes "no_clash h N"
    "nodes_of h (mkExt cp (PBranch (pchildren[unat i := a, unat j := b]) None False)) \<subseteq> N"
    "pwf (mkExt cp (PBranch (pchildren[unat i := a, unat j := b]) None False))"
    "unat i < 16" "unat j < 16" "i \<noteq> j"
    "\<forall>m \<in> nodes_of h a. stored ops h s m" "\<forall>m \<in> nodes_of h b. stored ops h s m"
  shows "\<exists>s'. (if length cp > 0
      then sbind (saveNode ops h s (BranchNode (emptyChildren[unat i := pptr h a, unat j := pptr h b]) None False))
             (\<lambda>s p. saveResult ops h s (ExtensionNode cp p))
      else saveResult ops h s (BranchNode (emptyChildren[unat i := pptr h a, unat j := pptr h b]) None False)) =
        (s', Inr (pnode h (mkExt cp (PBranch (pchildren[unat i := a, unat j := b]) None False)),
                  pptr h (mkExt cp (PBranch (pchildren[unat i := a, unat j := b]) None False))))
    \<and> saved ops h N s (mkExt cp (PBranch (pchildren[unat i := a, unat j := b]) None False)) s'"
proof -
  have "\<forall>m \<in> nodes_of h (PBranch (pchildren[unat i := a, unat j := b]) None False)
          - {pnode h (PBranch (pchildren[unat i := a, unat j := b]) None False)}. stored ops h s m"
    using nodes_of_branch2[of "unat i" "unat j" a b None False] assms(4-8) unfolding nibble_neq by blast
  note save = save_mkExt[OF assms(1-3) _ this]
  have pn: "pnode h (PBranch (pchildren[unat i := a, unat j := b]) None False) =
      BranchNode (emptyChildren[unat i := pptr h a, unat j := pptr h b]) None False"
    by (simp add: map_update)
  show ?thesis
    by (rule save[unfolded pn]) simp
qed

text \<open>Saving a leaf, or the rest of a split extension.\<close>

lemma save_leaf:
  assumes "no_clash h N" "ValueNode key vp d \<in> N" "slen vp > 0"
  shows "\<exists>s'. saveNode ops h s (ValueNode key vp d) = (s', Inr (pptr h (PVal key vp d)))
    \<and> saved ops h N s (PVal key vp d) s'"
  using saveNode_spec[OF assms(1,2), of s] slen_norm[OF assms(3)]
  by (auto simp: saved_def pptr_def)

lemma save_rest:
  assumes "no_clash h N" "nodes_of h (mkExt key c) \<subseteq> N" "pwf (mkExt key c)" "is_branch c"
    "\<forall>m \<in> nodes_of h c. stored ops h s m"
  shows "\<exists>s'. (if key \<noteq> [] then saveNode ops h s (ExtensionNode key (pptr h c)) else (s, Inr (pptr h c))) =
      (s', Inr (pptr h (mkExt key c))) \<and> saved ops h N s (mkExt key c) s'"
proof (cases "key = []")
  case True
  then show ?thesis
    using assms by (auto simp: mkExt_def saved_def)
next
  case False
  then have "mkExt key c = PExt key c"
    by (simp add: mkExt_def)
  then show ?thesis
    using save_root[OF assms(1), of "PExt key c" s] assms False by auto
qed

section \<open>Updates\<close>

lemma findCommonPrefix_same [simp]: "findCommonPrefix k k = k"
  by (induction k) auto

lemma findCommonPrefix_of_prefix: "prefix key k \<Longrightarrow> findCommonPrefix k key = key"
proof -
  have "findCommonPrefix (key @ r) key = key" for r
    by (induction key) auto
  then show "prefix key k \<Longrightarrow> findCommonPrefix k key = key"
    by (auto simp: prefix_def)
qed

lemma splitPath_refines:
  assumes "no_clash h N" "nodes_of h t' \<subseteq> N" "pwf t'" "unat x < 16" "slen ov > 0"
    and t': "t' = mkExt cp (PBranch (pchildren[unat x := PVal xs ov False]) nv False)"
  shows "\<exists>s'. sbind (splitPathToValueNode ops h s (x # xs) nv ov cp) (saveResult ops h) =
      (s', Inr (pnode h t', pptr h t')) \<and> saved ops h N s t' s'"
proof -
  let ?a = "PVal xs ov False"
  have "nodes_of h ?a \<subseteq> nodes_of h (PBranch (pchildren[unat x := ?a]) nv False)"
    unfolding nodes_of_branch1[OF assms(4)] by blast
  then have N: "ValueNode xs ov False \<in> N"
    using assms(2) nodes_of_mkExt unfolding t' by fastforce
  obtain s1 where s1: "saveNode ops h s (ValueNode xs ov False) = (s1, Inr (pptr h ?a))"
      "saved ops h N s ?a s1"
    using save_leaf[OF assms(1) N assms(5)] by auto
  from split_branch[OF assms(1) assms(2)[unfolded t'] assms(3)[unfolded t'] assms(4)
      saved_stored[OF s1(2)], folded t']
  obtain s2 where s2: "(if length cp > 0
      then sbind (saveNode ops h s1 (BranchNode (emptyChildren[unat x := pptr h ?a]) nv False))
             (\<lambda>s p. saveResult ops h s (ExtensionNode cp p))
      else saveResult ops h s1 (BranchNode (emptyChildren[unat x := pptr h ?a]) nv False)) =
        (s2, Inr (pnode h t', pptr h t'))" "saved ops h N s1 t' s2"
    by blast
  have "sbind (splitPathToValueNode ops h s (x # xs) nv ov cp) (saveResult ops h) =
      (s2, Inr (pnode h t', pptr h t'))"
    using s1(1) s2(1) assms(4) by (simp add: splitPathToValueNode_def sbind_assoc sbind_if split: if_splits)
  then show ?thesis
    using saved_trans[OF saved_extends[OF s1(2)] s2(2)] by blast
qed

lemma updateValueNode_refines:
  assumes "no_clash h N" "nodes_of h t' \<subseteq> N" "pwf (PVal key vp d0)" "nibbles k" "slen v > 0"
    "pupdate (PVal key vp d0) k v d = Inr t'"
  shows "\<exists>s'. updateValueNode ops h s key vp d0 k v d = (s', Inr (pnode h t', pptr h t'))
    \<and> saved ops h N s t' s'"
proof (cases "k = key")
  case True
  then show ?thesis
    using assms save_result[of N t' s] by (auto simp: updateValueNode_def Let_def)
next
  case False
  then have d: "\<not> d" and t': "t' = split_val key vp k v"
    using assms(6) by (auto split: if_splits)
  have wf: "pwf t'"
    using pwf_pupdate[OF assms(3,4,5,6)] .
  show ?thesis
  proof (rule findCommonPrefix_drop[of k key])
    fix vl nl
    let ?cp = "findCommonPrefix k key"
    assume a: "k = ?cp @ vl" "key = ?cp @ nl" "drop (length ?cp) k = vl" "drop (length ?cp) key = nl"
      and neq: "vl \<noteq> [] \<Longrightarrow> nl \<noteq> [] \<Longrightarrow> hd vl \<noteq> hd nl"
    have nib: "nibbles vl" "nibbles nl"
      using a assms(3,4) by (metis nibbles_simps(3) pwf.simps(4))+
    note unf = updateValueNode_def Let_def a(3,4)
    consider (up) x xs where "vl = []" "nl = x # xs" | (down) y ys where "vl = y # ys" "nl = []"
      | (fork) x xs y ys where "vl = y # ys" "nl = x # xs"
      using a False by (cases vl; cases nl) auto
    then show ?thesis
    proof cases
      case up
      have "t' = mkExt ?cp (PBranch (pchildren[unat x := PVal xs vp False]) v False)"
        unfolding t' split_val_def Let_def a(3,4) up by simp
      from splitPath_refines[OF assms(1,2) wf _ _ this] show ?thesis
        unfolding unf up using d nib up assms(3) by simp
    next
      case down
      have "t' = mkExt ?cp (PBranch (pchildren[unat y := PVal ys v False]) vp False)"
        unfolding t' split_val_def Let_def a(3,4) down by simp
      from splitPath_refines[OF assms(1,2) wf _ _ this] show ?thesis
        unfolding unf down using d nib down assms(5) by simp
    next
      case fork
      let ?a = "PVal xs vp False" and ?b = "PVal ys v False"
      have e: "t' = mkExt ?cp (PBranch (pchildren[unat x := ?a, unat y := ?b]) None False)"
        unfolding t' split_val_def Let_def a(3,4) fork by simp
      have xy: "unat x < 16" "unat y < 16" "x \<noteq> y"
        using nib fork neq by auto
      then have sub: "nodes_of h ?a \<union> nodes_of h ?b \<subseteq> N"
        using assms(2) nodes_of_branch2[of "unat x" "unat y" ?a ?b None False] nodes_of_mkExt[of h _ ?cp]
        unfolding e nibble_neq by blast
      obtain s1 where s1: "saveNode ops h s (ValueNode xs vp False) = (s1, Inr (pptr h ?a))"
          "saved ops h N s ?a s1"
        using save_leaf[OF assms(1), of xs vp False s] sub assms(3) by auto
      obtain s2 where s2: "saveNode ops h s1 (ValueNode ys v False) = (s2, Inr (pptr h ?b))"
          "saved ops h N s1 ?b s2"
        using save_leaf[OF assms(1), of ys v False s1] sub assms(5) by auto
      have "\<forall>m \<in> nodes_of h ?a. stored ops h s2 m" "\<forall>m \<in> nodes_of h ?b. stored ops h s2 m"
        using s1(2) s2(2) sub by (auto simp: saved_def extends_def)
      from split_branch2[OF assms(1) assms(2)[unfolded e] wf[unfolded e] xy this, folded e]
      obtain s3 where s3: "(if length ?cp > 0
          then sbind (saveNode ops h s2
                       (BranchNode (emptyChildren[unat x := pptr h ?a, unat y := pptr h ?b]) None False))
                 (\<lambda>s p. saveResult ops h s (ExtensionNode ?cp p))
          else saveResult ops h s2
                 (BranchNode (emptyChildren[unat x := pptr h ?a, unat y := pptr h ?b]) None False)) =
            (s3, Inr (pnode h t', pptr h t'))" "saved ops h N s2 t' s3"
        by blast
      have "updateValueNode ops h s key vp d0 k v d = (s3, Inr (pnode h t', pptr h t'))"
        unfolding unf fork using d xy s1(1) s2(1) s3(1) by simp
      moreover have "saved ops h N s t' s3"
        using saved_trans[OF saved_extends[OF s1(2)] saved_trans[OF saved_extends[OF s2(2)] s3(2)]] .
      ultimately show ?thesis
        by blast
    qed
  qed
qed

lemma updateExtensionNode_split:
  assumes "no_clash h N" "nodes_of h t' \<subseteq> N" "pwf (PExt key c)" "nibbles k" "slen v > 0"
    "\<not> prefix key k" "t' = split_ext key c k v" "\<forall>m \<in> nodes_of h c. stored ops h s m"
  shows "\<exists>s'. updateExtensionNode ops h upd s key (pptr h c) k v d = (s', Inr (pnode h t', pptr h t'))
    \<and> saved ops h N s t' s'"
proof (rule findCommonPrefix_drop[of k key])
  fix vl nl
  let ?cp = "findCommonPrefix k key"
  assume a: "k = ?cp @ vl" "key = ?cp @ nl" "drop (length ?cp) k = vl" "drop (length ?cp) key = nl"
    and neq: "vl \<noteq> [] \<Longrightarrow> nl \<noteq> [] \<Longrightarrow> hd vl \<noteq> hd nl"
  have nib: "nibbles vl" "nibbles nl"
    using a assms(3,4) by (metis nibbles_simps(3) pwf.simps(3))+
  obtain x xs where nl: "nl = x # xs"
    using a assms(6) by (metis append_Nil2 prefixI neq_Nil_conv)
  have wf: "pwf t'" "is_branch c"
    using pwf_split_ext[OF _ assms(4,6) _ _ assms(5)] assms(3,7) by auto
  let ?b = "mkExt xs c"
  have b: "pwf ?b"
    using assms(3) nib nl by (simp add: pwf_mkExt)
  note unf = updateExtensionNode_def Let_def a(3,4) nl
  show ?thesis
  proof (cases vl)
    case Nil
    have e: "t' = mkExt ?cp (PBranch (pchildren[unat x := ?b]) v False)"
      unfolding assms(7) split_ext_def Let_def a(3,4) nl Nil by simp
    have x: "unat x < 16"
      using nib nl by simp
    have "nodes_of h ?b \<subseteq> nodes_of h (PBranch (pchildren[unat x := ?b]) v False)"
      unfolding nodes_of_branch1[OF x] by blast
    then have sub: "nodes_of h ?b \<subseteq> N"
      using assms(2) nodes_of_mkExt unfolding e by blast
    obtain s1 where s1: "(if xs \<noteq> [] then saveNode ops h s (ExtensionNode xs (pptr h c))
        else (s, Inr (pptr h c))) = (s1, Inr (pptr h ?b))" "saved ops h N s ?b s1"
      using save_rest[OF assms(1) sub b wf(2) assms(8)] by blast
    from split_branch[OF assms(1) assms(2)[unfolded e] wf(1)[unfolded e] x
        saved_stored[OF s1(2)], folded e]
    obtain s2 where s2: "(if length ?cp > 0
        then sbind (saveNode ops h s1 (BranchNode (emptyChildren[unat x := pptr h ?b]) v False))
               (\<lambda>s p. saveResult ops h s (ExtensionNode ?cp p))
        else saveResult ops h s1 (BranchNode (emptyChildren[unat x := pptr h ?b]) v False)) =
          (s2, Inr (pnode h t', pptr h t'))" "saved ops h N s1 t' s2"
      by blast
    have "updateExtensionNode ops h upd s key (pptr h c) k v d = (s2, Inr (pnode h t', pptr h t'))"
      unfolding unf Nil using s1(1) s2(1) x by (simp split: if_splits)
    then show ?thesis
      using saved_trans[OF saved_extends[OF s1(2)] s2(2)] by blast
  next
    case (Cons y ys)
    let ?a = "PVal ys v False"
    have e: "t' = mkExt ?cp (PBranch (pchildren[unat y := ?a, unat x := ?b]) None False)"
      unfolding assms(7) split_ext_def Let_def a(3,4) nl Cons by simp
    have xy: "unat y < 16" "unat x < 16" "y \<noteq> x"
      using nib nl Cons neq by auto
    then have sub: "nodes_of h ?a \<subseteq> N" "nodes_of h ?b \<subseteq> N"
      using assms(2) nodes_of_branch2[of "unat y" "unat x" ?a ?b None False] nodes_of_mkExt[of h _ ?cp]
      unfolding e nibble_neq by blast+
    obtain s1 where s1: "saveNode ops h s (ValueNode ys v False) = (s1, Inr (pptr h ?a))"
        "saved ops h N s ?a s1"
      using save_leaf[OF assms(1), of ys v False s] sub assms(5) by auto
    have "nodes_of h c \<subseteq> N"
      using sub(2) nodes_of_mkExt by blast
    then have "\<forall>m \<in> nodes_of h c. stored ops h s1 m"
      using extends_stored[OF saved_extends[OF s1(2)] assms(8)] by blast
    then obtain s2 where s2: "(if xs \<noteq> [] then saveNode ops h s1 (ExtensionNode xs (pptr h c))
        else (s1, Inr (pptr h c))) = (s2, Inr (pptr h ?b))" "saved ops h N s1 ?b s2"
      using save_rest[OF assms(1) sub(2) b wf(2)] by blast
    have "\<forall>m \<in> nodes_of h ?a. stored ops h s2 m"
      using extends_stored[OF saved_extends[OF s2(2)] saved_stored[OF s1(2)] sub(1)] .
    from split_branch2[OF assms(1) assms(2)[unfolded e] wf(1)[unfolded e] xy this
        saved_stored[OF s2(2)], folded e]
    obtain s3 where s3: "(if length ?cp > 0
        then sbind (saveNode ops h s2
                     (BranchNode (emptyChildren[unat y := pptr h ?a, unat x := pptr h ?b]) None False))
               (\<lambda>s p. saveResult ops h s (ExtensionNode ?cp p))
        else saveResult ops h s2
               (BranchNode (emptyChildren[unat y := pptr h ?a, unat x := pptr h ?b]) None False)) =
          (s3, Inr (pnode h t', pptr h t'))" "saved ops h N s2 t' s3"
      by blast
    have "updateExtensionNode ops h upd s key (pptr h c) k v d = (s3, Inr (pnode h t', pptr h t'))"
      unfolding unf Cons using s1(1) s2(1) s3(1) xy by (simp split: if_splits)
    then show ?thesis
      using saved_trans[OF saved_extends[OF s1(2)] saved_trans[OF saved_extends[OF s2(2)] s3(2)]]
      by blast
  qed
qed

text \<open>An updater implements the tree update on the trees and keys in its reach.\<close>

definition implements :: "TrieNode set \<Rightarrow> 's updater \<Rightarrow> nat \<Rightarrow> bool" where
  "implements N upd bound \<longleftrightarrow>
     (\<forall>s t k v d t'. pwf t \<longrightarrow> nibbles k \<longrightarrow> length k < bound \<longrightarrow> slen v > 0 \<longrightarrow>
        pupdate t k v d = Inr t' \<longrightarrow> nodes_of h t' \<subseteq> N \<longrightarrow>
        (\<forall>m \<in> nodes_of h t. stored ops h s m) \<longrightarrow>
        (\<exists>s'. upd s (pnode h t) k v d = (s', Inr (pnode h t', pptr h t')) \<and> saved ops h N s t' s'))"

lemma implementsD:
  assumes "implements N upd b" "pwf t" "nibbles k" "length k < b" "slen v > 0"
    "pupdate t k v d = Inr t'" "nodes_of h t' \<subseteq> N" "\<forall>m \<in> nodes_of h t. stored ops h s m"
  shows "\<exists>s'. upd s (pnode h t) k v d = (s', Inr (pnode h t', pptr h t')) \<and> saved ops h N s t' s'"
  using assms unfolding implements_def by blast

lemma get_child_node:
  assumes "\<forall>m \<in> nodes_of h t. stored ops h s m" "t \<noteq> PEmpty"
  shows "GetNode ops s (pptr h t) = Inr (pnode h t)"
  using assms pnode_in_nodes[OF assms(2)] by (auto simp: stored_def pptr_def)

lemma updateBranchNode_refines:
  assumes "implements N upd b" "length k \<le> b" "no_clash h N"
    "pwf (PBranch ts vp d0)" "nibbles k" "slen v > 0"
    "pupdate (PBranch ts vp d0) k v d = Inr t'" "nodes_of h t' \<subseteq> N"
    "\<forall>m \<in> nodes_of h (PBranch ts vp d0). stored ops h s m"
  shows "\<exists>s'. updateBranchNode ops h upd s (map (pptr h) ts) vp d0 k v d =
      (s', Inr (pnode h t', pptr h t')) \<and> saved ops h N s t' s'"
proof (cases k)
  case Nil
  then have t': "t' = PBranch ts v d"
    using assms(7) by simp
  have "\<forall>m \<in> nodes_of h t' - {pnode h t'}. stored ops h s m"
    using assms(9) unfolding t' by auto
  then show ?thesis
    using save_result[OF assms(3,8) pwf_pupdate[OF assms(4-7)]] Nil
    unfolding t' by (simp add: updateBranchNode_def)
next
  case (Cons x xs)
  then obtain u where u: "pupdate (ts ! unat x) xs v d = Inr u" "t' = PBranch (ts[unat x := u]) vp d0"
    and x: "unat x < length ts"
    using assms(7) by (auto simp: rbind_Inr_iff split: if_splits)
  let ?c = "ts ! unat x"
  have c: "pwf ?c" "\<forall>m \<in> nodes_of h ?c. stored ops h s m"
    using assms(4,9) x nodes_of_nth[OF x] by (auto simp: list_all_length)
  have "u \<in> set (ts[unat x := u])"
    using x by (simp add: set_update_memI)
  then have sub: "nodes_of h u \<subseteq> N"
    using assms(8) nodes_of_child unfolding u by blast
  obtain s1 where s1: "upd s (pnode h ?c) xs v d = (s1, Inr (pnode h u, pptr h u))" "saved ops h N s u s1"
    using implementsD[OF assms(1) c(1) _ _ assms(6) u(1) sub c(2)] assms(2,5) Cons by auto
  have "\<forall>m \<in> nodes_of h t' - {pnode h t'}. stored ops h s1 m"
  proof
    fix m assume m: "m \<in> nodes_of h t' - {pnode h t'}"
    then obtain w where "w \<in> set (ts[unat x := u])" "m \<in> nodes_of h w"
      unfolding u by auto
    then consider "m \<in> nodes_of h u" | "w \<in> set ts" "m \<in> nodes_of h w"
      using set_update_subset_insert[of ts "unat x" u] by auto
    then show "stored ops h s1 m"
    proof cases
      case 1
      then show ?thesis
        using saved_stored[OF s1(2)] by blast
    next
      case 2
      then have "stored ops h s m"
        using assms(9) by auto
      then show ?thesis
        using saved_extends[OF s1(2)] m assms(8) unfolding extends_def by blast
    qed
  qed
  from save_result[OF assms(3,8) pwf_pupdate[OF assms(4-7)] _ this]
  obtain s2 where s2: "saveResult ops h s1 (BranchNode ((map (pptr h) ts)[unat x := pptr h u]) vp d0) =
      (s2, Inr (pnode h t', pptr h t'))" "saved ops h N s1 t' s2"
    unfolding u by (auto simp: map_update)
  have "(case pptr h ?c of None \<Rightarrow> (s, Inr EmptyNode) | Some _ \<Rightarrow> sread s (GetNode ops s (pptr h ?c))) =
      (s, Inr (pnode h ?c))"
    using get_child_node[OF c(2)] pptr_not_None[of ?c] by (cases "?c = PEmpty") auto
  then have "updateBranchNode ops h upd s (map (pptr h) ts) vp d0 k v d = (s2, Inr (pnode h t', pptr h t'))"
    using Cons x s1(1) s2(1) by (simp add: updateBranchNode_def getChild_def setChild_def)
  then show ?thesis
    using saved_trans[OF saved_extends[OF s1(2)] s2(2)] by blast
qed

lemma updateExtensionNode_refines:
  assumes "implements N upd b" "length k \<le> b" "no_clash h N"
    "pwf (PExt key c)" "nibbles k" "slen v > 0"
    "pupdate (PExt key c) k v d = Inr t'" "nodes_of h t' \<subseteq> N"
    "\<forall>m \<in> nodes_of h (PExt key c). stored ops h s m"
  shows "\<exists>s'. updateExtensionNode ops h upd s key (pptr h c) k v d =
      (s', Inr (pnode h t', pptr h t')) \<and> saved ops h N s t' s'"
proof (cases "prefix key k")
  case True
  then obtain r where r: "k = key @ r"
    by (auto simp: prefix_def)
  then obtain u where u: "pupdate c r v d = Inr u" "t' = PExt key u"
    using assms(7) by (auto simp: rbind_Inr_iff)
  have c: "pwf c" "\<forall>m \<in> nodes_of h c. stored ops h s m" "c \<noteq> PEmpty" "nibbles r" "length r < b"
    using assms(2,4,5,9) r by (cases key; auto)+
  have sub: "nodes_of h u \<subseteq> N"
    using assms(8) u by auto
  obtain s1 where s1: "upd s (pnode h c) r v d = (s1, Inr (pnode h u, pptr h u))" "saved ops h N s u s1"
    using implementsD[OF assms(1) c(1,4,5) assms(6) u(1) sub c(2)] by blast
  have "\<forall>m \<in> nodes_of h t' - {pnode h t'}. stored ops h s1 m"
    using saved_stored[OF s1(2)] unfolding u by auto
  from save_result[OF assms(3,8) pwf_pupdate[OF assms(4-7)] _ this]
  obtain s2 where s2: "saveResult ops h s1 (ExtensionNode key (pptr h u)) =
      (s2, Inr (pnode h t', pptr h t'))" "saved ops h N s1 t' s2"
    unfolding u by auto
  have "updateExtensionNode ops h upd s key (pptr h c) k v d = (s2, Inr (pnode h t', pptr h t'))"
    using s1(1) s2(1) get_child_node[OF c(2,3)] r findCommonPrefix_of_prefix[OF True]
    by (cases "r = []") (simp_all add: updateExtensionNode_def Let_def)
  then show ?thesis
    using saved_trans[OF saved_extends[OF s1(2)] s2(2)] by blast
next
  case False
  then show ?thesis
    using updateExtensionNode_split[OF assms(3,8,4,5,6) False] assms(7,9) by auto
qed

lemma trie_update_implements:
  assumes "no_clash h N"
  shows "implements N (trie_update ops h fuel) fuel"
proof (induction fuel)
  case 0
  then show ?case
    by (simp add: implements_def)
next
  case (Suc fuel)
  show ?case
    unfolding implements_def
  proof (intro allI impI)
    fix s t k v d t'
    assume a: "pwf t" "nibbles k" "length k < Suc fuel" "0 < slen v" "pupdate t k v d = Inr t'"
      "nodes_of h t' \<subseteq> N" "\<forall>m \<in> nodes_of h t. stored ops h s m"
    show "\<exists>s'. trie_update ops h (Suc fuel) s (pnode h t) k v d = (s', Inr (pnode h t', pptr h t'))
        \<and> saved ops h N s t' s'"
    proof (cases t)
      case PEmpty
      then show ?thesis
        using a save_result[OF assms a(6) pwf_pupdate[OF a(1,2,4,5)], of s]
        by (auto simp: updateEmptyNode_def)
    next
      case (PBranch ts vp d0)
      then show ?thesis
        using updateBranchNode_refines[OF Suc.IH _ assms, of k ts vp d0 v d t' s] a by simp
    next
      case (PExt key c)
      then show ?thesis
        using updateExtensionNode_refines[OF Suc.IH _ assms, of k key c v d t' s] a by simp
    next
      case (PVal key vp d0)
      then show ?thesis
        using updateValueNode_refines[OF assms a(6), of key vp d0 k v d s] a by simp
    qed
  qed
qed

end

end
