(* ===== verification/MPTrie_Map.thy ===== *)
theory MPTrie_Map
  imports MPTrie_Refine
begin

text \<open>
  The trie as a map from keys of one length to values with a deletion flag. \<open>trie_rep\<close> relates a
  trie object to the tree it represents and to that map; reading, updating, deleting and proving
  are shown to act on the map. The server only uses keys of one length (digests of database name
  and key), which is what makes the end of a path unambiguous.
\<close>

section \<open>Paths\<close>

function ppath :: "ptrie \<Rightarrow> bytes \<Rightarrow> ptrie list \<times> ptrie option" where
  "ppath PEmpty k = ([], None)"
| "ppath (PBranch ts vp d) k =
     (case k of
        [] \<Rightarrow> ([PBranch ts vp d], Some (PBranch ts vp d))
      | x # xs \<Rightarrow>
          if unat x < length ts
          then (PBranch ts vp d # fst (ppath (ts ! unat x) xs), snd (ppath (ts ! unat x) xs))
          else ([], None))"
| "ppath (PExt key c) k =
     (if prefix key k
      then (PExt key c # fst (ppath c (drop (length key) k)), snd (ppath c (drop (length key) k)))
      else ([PExt key c], None))"
| "ppath (PVal key vp d) k = ([PVal key vp d], if k = key then Some (PVal key vp d) else None)"
  by pat_completeness auto
termination
  by (relation "measure (\<lambda>(t, k). size t)") (auto simp: psize_child)

text \<open>With one key length, a path that ends ends at the value node of the key.\<close>

lemma ppath_entry:
  assumes "plen L t" "length k = L" "pentry t k = Some (vp, d)"
  shows "\<exists>key. snd (ppath t k) = Some (PVal key vp d)"
  using assms
proof (induction t k arbitrary: L rule: pentry.induct)
  case (2 ts vp d k)
  then obtain x xs where k: "k = x # xs"
    by (cases k) auto
  then have x: "unat x < length ts"
    using 2(4) by (auto split: if_splits)
  have "plen (L - 1) (ts ! unat x)"
    using 2(2) x by (simp add: list_all_length)
  then show ?case
    using 2(1)[OF k x] 2(3,4) k x by simp
next
  case (3 key c k)
  then have p: "prefix key k"
    by (auto split: if_splits)
  then show ?case
    using 3(1)[OF p, of "L - length key"] 3(2-4) by simp
qed (auto split: if_splits)

lemma ppath_no_entry:
  assumes "plen L t" "length k = L" "pentry t k = None"
  shows "snd (ppath t k) = None"
  using assms
proof (induction t k arbitrary: L rule: pentry.induct)
  case (2 ts vp d k)
  then obtain x xs where k: "k = x # xs"
    by (cases k) auto
  show ?case
  proof (cases "unat x < length ts")
    case True
    then have "plen (L - 1) (ts ! unat x)"
      using 2(2) by (simp add: list_all_length)
    then show ?thesis
      using 2(1)[OF k True] 2(3,4) k True by simp
  next
    case False
    then show ?thesis
      using k by simp
  qed
next
  case (3 key c k)
  show ?case
  proof (cases "prefix key k")
    case True
    then show ?thesis
      using 3(1)[OF True, of "L - length key"] 3(2-4) by simp
  next
    case False
    then show ?thesis
      by simp
  qed
qed (auto split: if_splits)

lemma length_findCommonPrefix: "length (findCommonPrefix k key) = length key \<longleftrightarrow> prefix key k"
proof
  assume len: "length (findCommonPrefix k key) = length key"
  have "take (length (findCommonPrefix k key)) key = findCommonPrefix k key"
    using findCommonPrefix_prefix(2)[of k key] by (metis append_eq_conv_conj prefix_def)
  then have "findCommonPrefix k key = key"
    using len by simp
  then show "prefix key k"
    using findCommonPrefix_prefix(1)[of k key] by simp
next
  assume "prefix key k"
  then obtain r where "k = key @ r"
    by (auto simp: prefix_def)
  moreover have "findCommonPrefix (key @ r) key = key" for r
    by (induction key) auto
  ultimately show "length (findCommonPrefix k key) = length key"
    by simp
qed

context hashed_trie
begin

lemma getPathLoop_refines:
  assumes "pwf t" "plen L t" "length k = L" "nibbles k" "t \<noteq> PEmpty" "length k < fuel"
    "\<forall>m \<in> nodes_of h t. stored ops h s m"
  shows "getPathLoop ops s fuel res (pnode h t) k =
    Inr (res @ map (pnode h) (fst (ppath t k)), map_option (pnode h) (snd (ppath t k)))"
  using assms
proof (induction fuel arbitrary: t L k res)
  case (Suc fuel)
  show ?case
  proof (cases t)
    case (PBranch ts vp d)
    then obtain x xs where k: "k = x # xs"
      using Suc.prems by (cases k) auto
    have x: "unat x < length ts"
      using Suc.prems PBranch k by simp
    let ?c = "ts ! unat x"
    have c: "pwf ?c" "plen (L - 1) ?c" "\<forall>m \<in> nodes_of h ?c. stored ops h s m"
      using Suc.prems PBranch x by (auto simp: list_all_length)
    show ?thesis
    proof (cases "?c = PEmpty")
      case True
      then show ?thesis
        using PBranch k x by (simp add: getChild_def)
    next
      case False
      then have "getPathLoop ops s fuel (res @ [pnode h t]) (pnode h ?c) xs =
          Inr ((res @ [pnode h t]) @ map (pnode h) (fst (ppath ?c xs)), map_option (pnode h) (snd (ppath ?c xs)))"
        using Suc.IH[OF c(1,2)] c(3) Suc.prems k by simp
      then show ?thesis
        using PBranch k x get_child_node[OF c(3) False] pptr_not_None[OF False]
        by (auto simp: getChild_def)
    qed
  next
    case (PExt key c)
    have c: "pwf c" "plen (L - length key) c" "\<forall>m \<in> nodes_of h c. stored ops h s m" "c \<noteq> PEmpty"
      "length key < length k" "key \<noteq> []"
      using Suc.prems PExt by auto
    obtain x xs where k: "k = x # xs"
      using c(5) by (cases k) auto
    show ?thesis
    proof (cases "prefix key k")
      case True
      then have r: "nibbles (drop (length key) k)"
        using Suc.prems(4) by (auto simp: prefix_def)
      have "getPathLoop ops s fuel (res @ [pnode h t]) (pnode h c) (drop (length key) k) =
          Inr ((res @ [pnode h t]) @ map (pnode h) (fst (ppath c (drop (length key) k))),
               map_option (pnode h) (snd (ppath c (drop (length key) k))))"
        using Suc.IH[OF c(1,2) _ r c(4) _ c(3)] Suc.prems(3,6) c(5,6) by (cases key) auto
      then show ?thesis
        using PExt True k c get_child_node[OF c(3,4)] pptr_not_None[OF c(4)]
          length_findCommonPrefix[of k key]
        by (auto simp: Let_def)
    next
      case False
      then have "length (findCommonPrefix k key) < length key"
        using length_findCommonPrefix[of k key] prefix_length_le[OF findCommonPrefix_prefix(2)[of k key]]
        by simp
      then show ?thesis
        using PExt False k c by (simp add: Let_def)
    qed
  next
    case (PVal key vp d)
    then show ?thesis
      using Suc.prems by (cases k) (auto simp: Let_def)
  qed (use Suc.prems in simp)
qed simp

end

section \<open>The represented map\<close>

type_synonym kvmap = "bytes \<rightharpoonup> slice \<times> bool"

definition trie_rep :: "'s StoreOps \<Rightarrow> digest \<Rightarrow> nat \<Rightarrow> 's MPTrie \<Rightarrow> ptrie \<Rightarrow> kvmap \<Rightarrow> bool" where
  "trie_rep ops h L t T M \<longleftrightarrow>
     root t = Some (pnode h T) \<and> 0 < L \<and> is_branch T \<and> pwf T \<and> plen (2 * L) T
     \<and> (\<forall>m \<in> nodes_of h T. stored ops h (store t) m)
     \<and> dom M \<subseteq> {k. length k = L}
     \<and> (\<forall>k. length k = L \<longrightarrow>
          pentry T (convertByteToHex k) =
            map_option (\<lambda>(v, d). (CalculateKeyValueHash h (Some k) v, d)) (M k))
     \<and> (\<forall>k v d. M k = Some (v, d) \<longrightarrow>
          GetValue ops (store t) (CalculateKeyValueHash h (Some k) v) = Inr v)"

text \<open>What a write of one key may do to the other keys: a deleted key may become visible again.\<close>

definition others_kept :: "kvmap \<Rightarrow> bytes \<Rightarrow> kvmap \<Rightarrow> bool" where
  "others_kept M key M' \<longleftrightarrow>
     (\<forall>k. k \<noteq> key \<longrightarrow> M' k = M k \<or> (\<exists>v. M k = Some (v, True) \<and> M' k = Some (v, False)))"

text \<open>The tree that an operation on \<open>T\<close> produces has no two nodes with one hash.\<close>

definition update_safe :: "digest \<Rightarrow> ptrie \<Rightarrow> bytes \<Rightarrow> slice \<Rightarrow> bool \<Rightarrow> bool" where
  "update_safe h T key valuePtr d \<longleftrightarrow>
     (case pupdate T (convertByteToHex key) valuePtr d of
        Inl _ \<Rightarrow> True | Inr T' \<Rightarrow> no_clash h (nodes_of h T'))"

text \<open>No stored value is hidden by the value being written under the same value pointer.\<close>

definition value_safe :: "digest \<Rightarrow> kvmap \<Rightarrow> bytes \<Rightarrow> slice \<Rightarrow> bool" where
  "value_safe h M key value \<longleftrightarrow>
     (\<forall>k v d. M k = Some (v, d) \<longrightarrow>
        CalculateKeyValueHash h (Some k) v = CalculateKeyValueHash h (Some key) value \<longrightarrow> v = value)"

definition visible :: "(slice \<times> bool) option \<Rightarrow> slice" where
  "visible e = (case e of Some (v, False) \<Rightarrow> v | _ \<Rightarrow> None)"

text \<open>The map after a write of \<open>key\<close> that turned the tree into \<open>T'\<close>.\<close>

definition write_map :: "ptrie \<Rightarrow> kvmap \<Rightarrow> bytes \<Rightarrow> slice \<Rightarrow> bool \<Rightarrow> kvmap" where
  "write_map T' M key v d =
     (\<lambda>k. if k = key then Some (v, d)
          else map_option (\<lambda>(w, e). (w, e \<and> (\<exists>p. pentry T' (convertByteToHex k) = Some (p, True)))) (M k))"

lemma Children_branch: "is_branch T \<Longrightarrow> \<exists>ts vp d. T = PBranch ts vp d"
  by (cases T) auto

context hashed_trie
begin

lemma slen_KVH [simp]: "0 < slen (CalculateKeyValueHash h k v)"
  using pos by (simp add: CalculateKeyValueHash_def ComputeSHA256Hash_def len)

lemma updateRoot_refines:
  assumes "trie_rep ops h L t T M" "length key = L" "slen vp > 0" "update_safe h T key vp d"
    "d \<longrightarrow> pentry T (convertByteToHex key) \<noteq> None"
  obtains T' s' where "pupdate T (convertByteToHex key) vp d = Inr T'"
    "updateRoot ops h t (convertByteToHex key) vp d = (\<lparr>root = Some (pnode h T'), store = s'\<rparr>, Inr ())"
    "saved ops h (nodes_of h T') (store t) T' s'"
proof -
  let ?k = "convertByteToHex key"
  have T: "root t = Some (pnode h T)" "is_branch T" "pwf T"
      "\<forall>m \<in> nodes_of h T. stored ops h (store t) m"
    using assms(1) by (auto simp: trie_rep_def)
  obtain ts vp0 d0 where b: "T = PBranch ts vp0 d0"
    using Children_branch[OF T(2)] by blast
  obtain T' where T': "pupdate T ?k vp d = Inr T'"
    using pupdate_ok[OF T(3) _ assms(5)] by auto
  have nc: "no_clash h (nodes_of h T')"
    using assms(4) T' by (simp add: update_safe_def)
  obtain s' where s': "updateBranchNode ops h (trie_update ops h (Suc (length ?k))) (store t)
        (map (pptr h) ts) vp0 d0 ?k vp d = (s', Inr (pnode h T', pptr h T'))"
      "saved ops h (nodes_of h T') (store t) T' s'"
    using updateBranchNode_refines[OF trie_update_implements[OF nc] _ nc, of ?k "Suc (length ?k)" ts vp0 d0 vp d T'
        "store t"] T T' assms(3) b by auto
  then have "updateRoot ops h t ?k vp d = (\<lparr>root = Some (pnode h T'), store = s'\<rparr>, Inr ())"
    using T(1) b by (simp add: updateRoot_def)
  then show thesis
    using that T' s'(2) by blast
qed

lemma trie_rep_entry:
  assumes "trie_rep ops h L t T M" "length k = L"
  shows "pentry T (convertByteToHex k) =
    map_option (\<lambda>(v, d). (CalculateKeyValueHash h (Some k) v, d)) (M k)"
  using assms by (simp add: trie_rep_def)

lemma trie_rep_len: "trie_rep ops h L t T M \<Longrightarrow> plen (2 * L) T"
  by (simp add: trie_rep_def)

lemma getPath_refines:
  assumes "trie_rep ops h L t T M" "length key = L"
  shows "getPath ops t (convertByteToHex key) =
    Inr (map (pnode h) (fst (ppath T (convertByteToHex key))),
         map_option (pnode h) (snd (ppath T (convertByteToHex key))))"
proof -
  have T: "root t = Some (pnode h T)" "is_branch T" "pwf T" "plen (2 * L) T"
      "\<forall>m \<in> nodes_of h T. stored ops h (store t) m"
    using assms(1) by (auto simp: trie_rep_def)
  then have "T \<noteq> PEmpty"
    by auto
  then show ?thesis
    using getPathLoop_refines[OF T(3,4) _ _ _ _ T(5), of "convertByteToHex key"
        "Suc (length (convertByteToHex key))" "[]"] T(1) assms(2)
    by (simp add: getPath_def)
qed

lemma getNode_refines:
  assumes "trie_rep ops h L t T M" "length key = L"
  shows "case M key of
      None \<Rightarrow> getNode ops t (convertByteToHex key) = Inr None
    | Some (v, d) \<Rightarrow> \<exists>k. getNode ops t (convertByteToHex key) =
        Inr (Some (ValueNode k (CalculateKeyValueHash h (Some key) v) d))"
proof (cases "M key")
  case None
  have "snd (ppath T (convertByteToHex key)) = None"
    using ppath_no_entry[of "2 * L" T] trie_rep_entry[OF assms] assms None
    by (simp add: trie_rep_def)
  then show ?thesis
    using getPath_refines[OF assms] None by (simp add: getNode_def)
next
  case (Some e)
  obtain v d where e: "e = (v, d)"
    by (cases e)
  obtain k where "snd (ppath T (convertByteToHex key)) =
      Some (PVal k (CalculateKeyValueHash h (Some key) v) d)"
    using ppath_entry[OF trie_rep_len[OF assms(1)], of "convertByteToHex key"
        "CalculateKeyValueHash h (Some key) v" d] trie_rep_entry[OF assms] assms(2) Some e
    by auto
  then show ?thesis
    using getPath_refines[OF assms] Some e by (auto simp: getNode_def)
qed

lemma Get_refines:
  assumes "trie_rep ops h L t T M" "length key = L"
  shows "MPTrie_Get ops t key = Inr (visible (M key))"
proof -
  have "GetValue ops (store t) (CalculateKeyValueHash h (Some key) v) = Inr v" if "M key = Some (v, d)" for v d
    using assms that by (auto simp: trie_rep_def)
  then show ?thesis
    using getNode_refines[OF assms]
    by (auto simp: MPTrie_Get_def visible_def split: option.splits prod.splits bool.splits)
qed

text \<open>A write moves the representation to the updated tree and a map that fits it.\<close>

lemma trie_rep_updated:
  assumes "trie_rep ops h L t T M" "length key = L"
    "pupdate T (convertByteToHex key) (CalculateKeyValueHash h (Some key) v) d = Inr T'"
    "d \<longrightarrow> pentry T (convertByteToHex key) \<noteq> None"
    "\<forall>m \<in> nodes_of h T'. stored ops h s' m"
    "\<forall>k w e. M k = Some (w, e) \<longrightarrow> GetValue ops s' (CalculateKeyValueHash h (Some k) w) = Inr w"
    "GetValue ops s' (CalculateKeyValueHash h (Some key) v) = Inr v"
  shows "trie_rep ops h L \<lparr>root = Some (pnode h T'), store = s'\<rparr> T' (write_map T' M key v d)"
    and "write_map T' M key v d key = Some (v, d)" and "others_kept M key (write_map T' M key v d)"
    and "d \<Longrightarrow> write_map T' M key v d = M(key \<mapsto> (v, d))"
proof -
  let ?K = convertByteToHex and ?H = "\<lambda>k v. CalculateKeyValueHash h (Some k) v"
  let ?M = "write_map T' M key v d"
  have T: "is_branch T" "pwf T" "plen (2 * L) T" "0 < L" "dom M \<subseteq> {k. length k = L}"
    using assms(1) by (auto simp: trie_rep_def)
  have T': "pwf T'" "is_branch T'" "plen (2 * L) T'"
    using pwf_pupdate[OF T(2) _ _ assms(3)] is_branch_pupdate[OF T(1) assms(3)]
      plen_pupdate[OF T(3) _ assms(3)] assms(2) by auto
  have here: "pentry T' (?K key) = Some (?H key v, d)"
    using pentry_pupdate(1)[OF T(2) _ _ assms(3,4)] by simp
  have there: "keeps d (pentry T (?K k)) (pentry T' (?K k))" if "k \<noteq> key" for k
  proof -
    have "?K k \<noteq> ?K key"
      using that convertByteToHex_inj by blast
    then show ?thesis
      using pentry_pupdate(2)[OF T(2) _ _ assms(3,4)] by simp
  qed
  have entry: "pentry T' (?K k) = map_option (\<lambda>(v, d). (?H k v, d)) (?M k)" if "length k = L" for k
  proof (cases "k = key")
    case True
    then show ?thesis
      using here by (simp add: write_map_def)
  next
    case False
    then show ?thesis
      using there[OF False] trie_rep_entry[OF assms(1) that]
      by (cases "M k") (auto simp: write_map_def keeps_def)
  qed
  show "trie_rep ops h L \<lparr>root = Some (pnode h T'), store = s'\<rparr> T' ?M"
    unfolding trie_rep_def
  proof (intro conjI allI impI)
    show "GetValue ops (store \<lparr>root = Some (pnode h T'), store = s'\<rparr>) (?H k w) = Inr w"
      if "?M k = Some (w, e)" for k w e
      using that assms(6,7) by (auto simp: write_map_def split: if_splits)
    show "dom ?M \<subseteq> {k. length k = L}"
    proof
      fix k assume "k \<in> dom ?M"
      then have "k = key \<or> k \<in> dom M"
        by (auto simp: write_map_def split: if_splits)
      then show "k \<in> {k. length k = L}"
        using T(5) assms(2) by blast
    qed
  qed (use T T' assms(5) entry in simp_all)
  show "?M key = Some (v, d)"
    by (simp add: write_map_def)
  show "others_kept M key ?M"
    unfolding others_kept_def
  proof (intro allI impI)
    fix k assume "k \<noteq> key"
    then show "?M k = M k \<or> (\<exists>v. M k = Some (v, True) \<and> ?M k = Some (v, False))"
      by (cases "M k") (auto simp: write_map_def)
  qed
  show "?M = M(key \<mapsto> (v, d))" if "d"
  proof
    fix k
    show "?M k = (M(key \<mapsto> (v, d))) k"
    proof (cases "k = key \<or> M k = None")
      case True
      then show ?thesis
        by (auto simp: write_map_def)
    next
      case False
      then obtain e where e: "M k = Some e" "k \<noteq> key"
        by auto
      then have "length k = L"
        using T(5) by auto
      then show ?thesis
        using there[OF e(2)] that trie_rep_entry[OF assms(1), of k] e
        by (cases e) (auto simp: write_map_def keeps_def)
    qed
  qed
qed

lemma Update_refines:
  assumes "trie_rep ops h L t T M" "length key = L"
    "update_safe h T key (CalculateKeyValueHash h (Some key) value) False" "value_safe h M key value"
  shows "\<exists>t' T' M'. MPTrie_Update ops h t key value = (t', Inr ())
    \<and> pupdate T (convertByteToHex key) (CalculateKeyValueHash h (Some key) value) False = Inr T'
    \<and> trie_rep ops h L t' T' M' \<and> M' key = Some (value, False) \<and> others_kept M key M'"
proof -
  let ?vp = "CalculateKeyValueHash h (Some key) value"
  obtain T' s1 where T': "pupdate T (convertByteToHex key) ?vp False = Inr T'"
    and up: "updateRoot ops h t (convertByteToHex key) ?vp False =
      (\<lparr>root = Some (pnode h T'), store = s1\<rparr>, Inr ())"
    and sv: "saved ops h (nodes_of h T') (store t) T' s1"
    using updateRoot_refines[OF assms(1,2) _ assms(3)] by auto
  obtain s2 where s2: "PutValue ops s1 ?vp value = (s2, Inr ())"
    using put_value_ok by blast
  have nodes: "\<forall>m \<in> nodes_of h T'. stored ops h s2 m"
    using saved_stored[OF sv] get_node_put_value[OF s2] by (simp add: stored_def)
  have old: "\<forall>k w e. M k = Some (w, e) \<longrightarrow> GetValue ops s2 (CalculateKeyValueHash h (Some k) w) = Inr w"
  proof (intro allI impI)
    fix k w e assume M: "M k = Some (w, e)"
    have "GetValue ops s1 (CalculateKeyValueHash h (Some k) w) = Inr w"
      using assms(1) M saved_extends[OF sv] by (auto simp: trie_rep_def extends_def)
    moreover have "CalculateKeyValueHash h (Some k) w = ?vp" if "content (CalculateKeyValueHash h (Some k) w) = content ?vp"
      using that by (simp add: CalculateKeyValueHash_def ComputeSHA256Hash_def)
    ultimately show "GetValue ops s2 (CalculateKeyValueHash h (Some k) w) = Inr w"
      using get_put_value[OF s2, of "CalculateKeyValueHash h (Some k) w"] assms(4) M
      by (auto simp: value_safe_def)
  qed
  have new: "GetValue ops s2 ?vp = Inr value"
    using get_put_value[OF s2, of ?vp] by simp
  have "key \<noteq> []"
    using assms(1,2) by (auto simp: trie_rep_def)
  then have "MPTrie_Update ops h t key value = (\<lparr>root = Some (pnode h T'), store = s2\<rparr>, Inr ())"
    using up s2 by (simp add: MPTrie_Update_def Let_def)
  then show ?thesis
    using T' trie_rep_updated(1-3)[OF assms(1,2) T' _ nodes old new] by blast
qed

lemma Delete_refines:
  assumes "trie_rep ops h L t T M" "length key = L" "M key = Some (v, d)"
    "update_safe h T key (CalculateKeyValueHash h (Some key) v) True"
  shows "\<exists>t' T'. MPTrie_Delete ops h t key = (t', Inr v)
    \<and> pupdate T (convertByteToHex key) (CalculateKeyValueHash h (Some key) v) True = Inr T'
    \<and> trie_rep ops h L t' T' (M(key \<mapsto> (v, True)))"
proof -
  let ?vp = "CalculateKeyValueHash h (Some key) v"
  have entry: "True \<longrightarrow> pentry T (convertByteToHex key) \<noteq> None"
    using trie_rep_entry[OF assms(1,2)] assms(3) by simp
  obtain T' s1 where T': "pupdate T (convertByteToHex key) ?vp True = Inr T'"
    and up: "updateRoot ops h t (convertByteToHex key) ?vp True =
      (\<lparr>root = Some (pnode h T'), store = s1\<rparr>, Inr ())"
    and sv: "saved ops h (nodes_of h T') (store t) T' s1"
    using updateRoot_refines[OF assms(1,2) _ assms(4) entry] by auto
  have val: "\<forall>k w e. M k = Some (w, e) \<longrightarrow> GetValue ops s1 (CalculateKeyValueHash h (Some k) w) = Inr w"
    using assms(1) saved_extends[OF sv] by (auto simp: trie_rep_def extends_def)
  then have new: "GetValue ops s1 ?vp = Inr v"
    using assms(3) by blast
  have "GetValue ops (store t) ?vp = Inr v"
    using assms(1,3) by (auto simp: trie_rep_def)
  moreover have "key \<noteq> []"
    using assms(1,2) by (auto simp: trie_rep_def)
  ultimately have del: "MPTrie_Delete ops h t key = (\<lparr>root = Some (pnode h T'), store = s1\<rparr>, Inr v)"
    using getNode_refines[OF assms(1,2)] assms(3) up by (auto simp: MPTrie_Delete_def Let_def)
  show ?thesis
    using del T' trie_rep_updated(1,4)[OF assms(1,2) T' entry saved_stored[OF sv] val new] by simp
qed

lemma Delete_absent:
  assumes "trie_rep ops h L t T M" "length key = L" "M key = None"
  shows "MPTrie_Delete ops h t key = (t, Inr None)"
proof -
  have "key \<noteq> []"
    using assms(1,2) by (auto simp: trie_rep_def)
  then show ?thesis
    using getNode_refines[OF assms(1,2)] assms(3) by (simp add: MPTrie_Delete_def Let_def)
qed

lemma NewTrie_rep:
  assumes "0 < L"
  shows "\<exists>s' t. NewTrie ops h None s = (s', Inr t) \<and> store t = s'
    \<and> trie_rep ops h L t (PBranch pchildren None False) Map.empty"
proof -
  let ?T = "PBranch pchildren None False"
  have "pnode h ?T = BranchNode emptyChildren None False" "nodes_of h ?T = {pnode h ?T}" "pwf ?T"
    by (auto simp: norm_slice_def) (auto simp: pchildren_def)
  moreover have "no_clash h {pnode h ?T}"
    by (simp add: no_clash_def)
  ultimately obtain s' where s': "saveNode ops h s (BranchNode emptyChildren None False) = (s', Inr (pptr h ?T))"
      "saved ops h {pnode h ?T} s ?T s'"
    using save_root[of "{pnode h ?T}" ?T s] by auto
  have "pentry ?T k = None" if "length k = 2 * L" for k
    using that assms by (cases k) (auto simp: pchildren_def)
  then have "trie_rep ops h L \<lparr>root = Some (BranchNode emptyChildren None False), store = s'\<rparr> ?T Map.empty"
    using assms saved_stored[OF s'(2)] by (auto simp: trie_rep_def norm_slice_def)
  then show ?thesis
    using s'(1) by (auto simp: NewTrie_def)
qed

end

section \<open>Proofs\<close>

lemma verifyLoop_append:
  "verifyLoop h x (p @ q) = (case verifyLoop h x p of None \<Rightarrow> None | Some y \<Rightarrow> verifyLoop h y q)"
  by (induction h x p rule: verifyLoop.induct) auto

lemma hashFound_iff: "hashFound x hs \<longleftrightarrow> (\<exists>y \<in> set hs. content y = content x)"
  by (induction hs) (auto simp: slice_eq_def)

lemma nodesBytes_append:
  "nodesBytes (a @ b) = rbind (nodesBytes a) (\<lambda>p. rbind (nodesBytes b) (\<lambda>q. Inr (p @ q)))"
  by (induction a) (auto simp: rbind_assoc rbind_def split: sum.splits)

lemma node_bytes_pnode: "t \<noteq> PEmpty \<Longrightarrow> \<exists>bs. node_bytes (pnode h t) = Inr bs \<and> pptr h t = CalcHash h bs"
  by (cases t) (auto simp: pptr_def node_ptr_def)

context hashed_trie
begin

lemma ppath_proof:
  assumes "pwf t" "plen L t" "length k = L" "pentry t k = Some (vp, d)"
  shows "\<exists>p key. nodesBytes (rev (map (pnode h) (fst (ppath t k)))) =
      Inr (((if key = [] then [] else [Some key]) @ [vp] @ (if d then [KeyDeleteMarkerBytes] else [])) # p)
    \<and> snd (ppath t k) = Some (PVal key vp d)
    \<and> verifyLoop h vp (((if key = [] then [] else [Some key]) @ [vp]
          @ (if d then [KeyDeleteMarkerBytes] else [])) # p) = Some (pptr h t)"
  using assms
proof (induction t k arbitrary: L rule: pentry.induct)
  case (2 ts vp0 d0 k)
  then obtain x xs where k: "k = x # xs"
    by (cases k) auto
  then have x: "unat x < length ts"
    using 2(5) by (auto split: if_splits)
  let ?c = "ts ! unat x"
  have c: "pwf ?c" "plen (L - 1) ?c" "length xs = L - 1" "pentry ?c xs = Some (vp, d)"
    using 2(2-5) k x by (auto simp: list_all_length)
  then have ne: "?c \<noteq> PEmpty"
    by auto
  let ?l = "\<lambda>key. (if key = [] then [] else [Some key]) @ [vp] @ (if d then [KeyDeleteMarkerBytes] else [])"
  obtain p key where p: "nodesBytes (rev (map (pnode h) (fst (ppath ?c xs)))) = Inr (?l key # p)"
      "snd (ppath ?c xs) = Some (PVal key vp d)" "verifyLoop h vp (?l key # p) = Some (pptr h ?c)"
    using 2(1)[OF k x c] by blast
  obtain bs where bs: "node_bytes (pnode h (PBranch ts vp0 d0)) = Inr bs" "pptr h (PBranch ts vp0 d0) = CalcHash h bs"
    using node_bytes_pnode by blast
  have "pptr h ?c \<in> set bs"
    using bs(1) x by (auto simp: nth_mem)
  then have "verifyLoop h vp (?l key # p @ [bs]) = Some (pptr h (PBranch ts vp0 d0))"
    using p(3) bs(2) verifyLoop_append[of h vp "?l key # p" "[bs]"] by (auto simp: hashFound_iff)
  moreover have "nodesBytes (rev (map (pnode h) (fst (ppath (PBranch ts vp0 d0) k)))) = Inr (?l key # p @ [bs])"
    using p(1) bs(1) k x by (simp add: nodesBytes_append)
  moreover have "snd (ppath (PBranch ts vp0 d0) k) = Some (PVal key vp d)"
    using p(2) k x by simp
  ultimately show ?case
    by blast
next
  case (3 ekey c k)
  then have pre: "prefix ekey k"
    by (auto split: if_splits)
  let ?r = "drop (length ekey) k"
  have c: "pwf c" "plen (L - length ekey) c" "length ?r = L - length ekey" "pentry c ?r = Some (vp, d)"
    using 3(2-5) pre by auto
  then have ne: "c \<noteq> PEmpty"
    by auto
  let ?l = "\<lambda>key. (if key = [] then [] else [Some key]) @ [vp] @ (if d then [KeyDeleteMarkerBytes] else [])"
  obtain p key where p: "nodesBytes (rev (map (pnode h) (fst (ppath c ?r)))) = Inr (?l key # p)"
      "snd (ppath c ?r) = Some (PVal key vp d)" "verifyLoop h vp (?l key # p) = Some (pptr h c)"
    using 3(1)[OF pre c] by blast
  obtain bs where bs: "node_bytes (pnode h (PExt ekey c)) = Inr bs" "pptr h (PExt ekey c) = CalcHash h bs"
    using node_bytes_pnode by blast
  have "pptr h c \<in> set bs"
    using bs(1) node_ptr_Some[of "pnode h c"] ne pos by (auto simp: pptr_def)
  then have "verifyLoop h vp (?l key # p @ [bs]) = Some (pptr h (PExt ekey c))"
    using p(3) bs(2) verifyLoop_append[of h vp "?l key # p" "[bs]"] by (auto simp: hashFound_iff)
  moreover have "nodesBytes (rev (map (pnode h) (fst (ppath (PExt ekey c) k)))) = Inr (?l key # p @ [bs])"
    using p(1) bs(1) pre by (simp add: nodesBytes_append)
  moreover have "snd (ppath (PExt ekey c) k) = Some (PVal key vp d)"
    using p(2) pre by simp
  ultimately show ?case
    by blast
next
  case (4 key vp0 d0 k)
  then have "k = key" "vp0 = vp" "d0 = d"
    by (auto split: if_splits)
  then show ?case
    using 4(1) by (auto simp: hashFound_iff pptr_def node_ptr_def)
qed simp

end

end
