(* ===== verification/Base64.thy ===== *)
theory Base64
  imports Orion_Prelude
begin

text \<open>
  Go's \<^verbatim>\<open>base64.StdEncoding.EncodeToString\<close>, which several stores use to turn hashes into map keys
  and database keys. It is shown to be injective, so distinct hashes get distinct keys.
\<close>

definition b64_alphabet :: string where
  "b64_alphabet = ''ABCDEFGHIJKLMNOPQRSTUVWXYZabcdefghijklmnopqrstuvwxyz0123456789+/''"

definition b64_char :: "nat \<Rightarrow> char" where
  "b64_char n = b64_alphabet ! n"

fun EncodeToString :: "bytes \<Rightarrow> string" where
  "EncodeToString [] = []"
| "EncodeToString [a] =
     [b64_char (unat a div 4), b64_char (unat a mod 4 * 16), CHR ''='', CHR ''='']"
| "EncodeToString [a, b] =
     [b64_char (unat a div 4), b64_char (unat a mod 4 * 16 + unat b div 16),
      b64_char (unat b mod 16 * 4), CHR ''='']"
| "EncodeToString (a # b # c # rest) =
     b64_char (unat a div 4) # b64_char (unat a mod 4 * 16 + unat b div 16)
     # b64_char (unat b mod 16 * 4 + unat c div 64) # b64_char (unat c mod 64)
     # EncodeToString rest"

lemma length_b64_alphabet: "length b64_alphabet = 64"
  by (simp add: b64_alphabet_def)

lemma distinct_b64_alphabet: "distinct b64_alphabet"
  by code_simp

lemma pad_not_in_alphabet: "CHR ''='' \<notin> set b64_alphabet"
  by code_simp

lemma b64_char_inj: "m < 64 \<Longrightarrow> n < 64 \<Longrightarrow> b64_char m = b64_char n \<longleftrightarrow> m = n"
  using distinct_b64_alphabet by (simp add: b64_char_def nth_eq_iff_index_eq length_b64_alphabet)

lemma b64_char_not_pad: "m < 64 \<Longrightarrow> b64_char m \<noteq> CHR ''=''" "m < 64 \<Longrightarrow> CHR ''='' \<noteq> b64_char m"
  using pad_not_in_alphabet nth_mem[of m b64_alphabet]
  unfolding b64_char_def length_b64_alphabet by metis+

lemma byte_bound: "unat (a :: byte) < 256"
  using unsigned_less[of a, where 'a = nat] by simp

lemma sextets:
  fixes a b c :: byte
  shows "unat a div 4 < 64" "unat a mod 4 * 16 < 64" "unat a mod 4 * 16 + unat b div 16 < 64"
    "unat b mod 16 * 4 < 64" "unat b mod 16 * 4 + unat c div 64 < 64" "unat c mod 64 < 64"
proof -
  have "unat b div 16 < 16" "unat c div 64 < 4" "unat a div 4 < 64"
    using byte_bound[of a] byte_bound[of b] byte_bound[of c] by auto
  moreover have "unat a mod 4 < 4" "unat b mod 16 < 16"
    by auto
  ultimately show "unat a div 4 < 64" "unat a mod 4 * 16 < 64" "unat a mod 4 * 16 + unat b div 16 < 64"
    "unat b mod 16 * 4 < 64" "unat b mod 16 * 4 + unat c div 64 < 64" "unat c mod 64 < 64"
    by linarith+
qed

lemma split_sum:
  fixes q r q' r' m :: nat
  assumes "q * m + r = q' * m + r'" "r < m" "r' < m"
  shows "q = q' \<and> r = r'"
proof -
  have "(q * m + r) div m = q" "(q' * m + r') div m = q'" "(q * m + r) mod m = r" "(q' * m + r') mod m = r'"
    using assms(2,3) by auto
  then show ?thesis
    using assms(1) by auto
qed

lemma byte_from_divmod:
  fixes a a' :: byte
  assumes "unat a div m = unat a' div m" "unat a mod m = unat a' mod m"
  shows "a = a'"
  by (metis assms div_mult_mod_eq word_unat_eq_iff)

lemma first_byte:
  fixes a a' :: byte
  assumes "unat a div 4 = unat a' div 4" "unat a mod 4 * 16 + x = unat a' mod 4 * 16 + x'" "x < 16" "x' < 16"
  shows "a = a' \<and> x = x'"
  using split_sum[OF assms(2-4)] byte_from_divmod[OF assms(1)] by simp

lemma second_byte:
  fixes b b' :: byte
  assumes "unat b div 16 = unat b' div 16" "unat b mod 16 * 4 + x = unat b' mod 16 * 4 + x'" "x < 4" "x' < 4"
  shows "b = b' \<and> x = x'"
  using split_sum[OF assms(2-4)] byte_from_divmod[OF assms(1)] by simp

lemma high_bounds: "unat (b :: byte) div 16 < 16" "unat (c :: byte) div 64 < 4"
  using byte_bound[of b] byte_bound[of c] by auto

lemma block3_inj:
  fixes a b c a' b' c' :: byte
  assumes "unat a div 4 = unat a' div 4"
    "unat a mod 4 * 16 + unat b div 16 = unat a' mod 4 * 16 + unat b' div 16"
    "unat b mod 16 * 4 + unat c div 64 = unat b' mod 16 * 4 + unat c' div 64"
    "unat c mod 64 = unat c' mod 64"
  shows "a = a' \<and> b = b' \<and> c = c'"
  using first_byte[OF assms(1,2) high_bounds(1) high_bounds(1)]
    second_byte[OF _ assms(3) high_bounds(2) high_bounds(2)] byte_from_divmod[OF _ assms(4)]
  by auto

lemmas b64_simps = b64_char_inj b64_char_not_pad sextets

lemma EncodeToString_inj: "EncodeToString x = EncodeToString y \<Longrightarrow> x = y"
proof (induction x arbitrary: y rule: EncodeToString.induct)
  case 1
  then show ?case
    by (cases y rule: EncodeToString.cases) auto
next
  case (2 a)
  then obtain a' where "y = [a']"
    by (cases y rule: EncodeToString.cases) (auto simp: b64_simps)
  then show ?case
    using 2 first_byte[of a a' 0 0] by (simp add: b64_simps)
next
  case (3 a b)
  then obtain a' b' where "y = [a', b']"
    by (cases y rule: EncodeToString.cases) (auto simp: b64_simps)
  then show ?case
    using 3 first_byte[of a a', OF _ _ high_bounds(1)[of b] high_bounds(1)[of b']]
      second_byte[of b b' 0 0]
    by (simp add: b64_simps)
next
  case (4 a b c rest)
  then obtain a' b' c' rest' where y: "y = a' # b' # c' # rest'"
    by (cases y rule: EncodeToString.cases) (auto simp: b64_simps)
  with 4 have "EncodeToString rest = EncodeToString rest'"
    by simp
  then show ?case
    using 4(1)[of rest'] 4(2) y block3_inj[of a a' b b' c c'] by (simp add: b64_simps)
qed

end
