(* ===== verification/LevelDB.thy ===== *)
theory LevelDB
  imports Orion_Prelude
begin

text \<open>
  The interface of the key-value files the server keeps its data in (\<^verbatim>\<open>goleveldb\<close>, which is not
  part of the repository): reading a key, writing a batch, and listing a key range. A file is a
  value of type \<^typ>\<open>'d\<close>; the operations are the fields of the record \<open>ldb\<close> that every
  definition using a file takes as an argument. The locale \<open>leveldb\<close> states the documented
  behaviour the server relies on: a batch is applied entirely or not at all, in its order, and a
  range scan lists the keys of the half-open range in byte order.
\<close>

datatype batch_op = BPut bytes bytes | BDelete bytes

type_synonym batch = "batch_op list"

record 'd ldb =
  ldb_Get :: "'d \<Rightarrow> bytes \<Rightarrow> bytes res"
  ldb_Write :: "'d \<Rightarrow> batch \<Rightarrow> 'd \<times> unit res"
  ldb_Range :: "'d \<Rightarrow> bytes \<Rightarrow> bytes \<Rightarrow> (bytes \<times> bytes) list"

text \<open>The content of a file as a partial map, and the effect of a batch on it.\<close>

fun apply_op :: "batch_op \<Rightarrow> (bytes \<rightharpoonup> bytes) \<Rightarrow> (bytes \<rightharpoonup> bytes)" where
  "apply_op (BPut k v) m = m(k \<mapsto> v)"
| "apply_op (BDelete k) m = m(k := None)"

definition apply_batch :: "batch \<Rightarrow> (bytes \<rightharpoonup> bytes) \<Rightarrow> (bytes \<rightharpoonup> bytes)" where
  "apply_batch b m = fold apply_op b m"

lemma apply_batch_simps [simp]:
  "apply_batch [] m = m"
  "apply_batch (x # b) m = apply_batch b (apply_op x m)"
  "apply_batch (b @ c) m = apply_batch c (apply_batch b m)"
  by (simp_all add: apply_batch_def)

fun op_key :: "batch_op \<Rightarrow> bytes" where
  "op_key (BPut k v) = k"
| "op_key (BDelete k) = k"

lemma apply_op_other: "op_key x \<noteq> k \<Longrightarrow> apply_op x m k = m k"
  by (cases x) auto

lemma apply_batch_other: "k \<notin> op_key ` set b \<Longrightarrow> apply_batch b m k = m k"
  by (induction b arbitrary: m) (auto simp: apply_op_other)

lemma apply_batch_distinct:
  assumes "distinct (map op_key b)" "x \<in> set b"
  shows "apply_batch b m (op_key x) = apply_op x m (op_key x)"
  using assms
proof (induction b arbitrary: m)
  case (Cons y b)
  show ?case
  proof (cases "x = y")
    case True
    then have "op_key x \<notin> op_key ` set b"
      using Cons.prems by auto
    then show ?thesis
      using True by (simp add: apply_batch_other)
  next
    case False
    then have "x \<in> set b" and "op_key y \<noteq> op_key x"
      using Cons.prems by auto
    then have "apply_batch b (apply_op y m) (op_key x) = apply_op x (apply_op y m) (op_key x)"
      using Cons by simp
    also have "\<dots> = apply_op x m (op_key x)"
      by (cases x) (simp_all add: apply_op_other)
    finally show ?thesis
      by simp
  qed
qed simp

definition in_range :: "bytes \<Rightarrow> bytes \<Rightarrow> bytes \<Rightarrow> bool" where
  "in_range startKey endKey k \<longleftrightarrow> \<not> bytes_less k startKey \<and> (endKey = [] \<or> bytes_less k endKey)"

section \<open>The contract\<close>

locale leveldb =
  fixes db :: "'d ldb"
    and view :: "'d \<Rightarrow> (bytes \<rightharpoonup> bytes)"
  assumes get_view: "ldb_Get db d k = (case view d k of None \<Rightarrow> Inl LdbErrNotFound | Some v \<Rightarrow> Inr v)"
    and write_ok: "ldb_Write db d b = (d', Inr ()) \<Longrightarrow> view d' = apply_batch b (view d)"
    and write_err: "ldb_Write db d b = (d', Inl e) \<Longrightarrow> view d' = view d"
    and range_view: "set (ldb_Range db d a z) = {(k, v). view d k = Some v \<and> in_range a z k}"
    and range_sorted: "sorted_wrt (\<lambda>x y. bytes_less (fst x) (fst y)) (ldb_Range db d a z)"
begin

lemma get_None_iff: "ldb_Get db d k = Inl LdbErrNotFound \<longleftrightarrow> view d k = None"
  by (simp add: get_view split: option.splits)

lemma get_Inr_iff: "ldb_Get db d k = Inr v \<longleftrightarrow> view d k = Some v"
  by (simp add: get_view split: option.splits)

lemma get_error: "ldb_Get db d k = Inl e \<Longrightarrow> e = LdbErrNotFound"
  by (simp add: get_view split: option.splits)

text \<open>A write that succeeds is read back; keys it does not name keep their value.\<close>

lemma write_get_put:
  assumes "ldb_Write db d b = (d', Inr ())" "distinct (map op_key b)" "BPut k v \<in> set b"
  shows "ldb_Get db d' k = Inr v"
proof -
  have "view d' k = Some v"
    using write_ok[OF assms(1)] apply_batch_distinct[OF assms(2,3), of "view d"] by simp
  then show ?thesis
    by (simp add: get_view)
qed

lemma write_get_other:
  assumes "ldb_Write db d b = (d', Inr ())" "k \<notin> op_key ` set b"
  shows "ldb_Get db d' k = ldb_Get db d k"
  using write_ok[OF assms(1)] apply_batch_other[OF assms(2), of "view d"] by (simp add: get_view)

end

end
