(* ===== verification/Trie_Store.thy ===== *)
theory Trie_Store
  imports MPTrie_Map Base64 LevelDB
begin

text \<open>
  The trie store of \<^verbatim>\<open>internal/mptrie/store\<close>: nodes and values live in memory until the nodes and
  values reachable from the current root are marked and written to the trie's file in one batch.
  The serialisation of nodes (\<^verbatim>\<open>golang/protobuf\<close>) and the file are parameters; the locale
  \<open>trie_files\<close> states what the store relies on. The store is shown to meet the contract
  \<open>trie_store\<close> that the trie is proved against.
\<close>

section \<open>The model\<close>

record node_codec =
  MarshalNode :: "TrieNode \<Rightarrow> bytes res"
  UnmarshalBranch :: "bytes \<Rightarrow> TrieNode res"
  UnmarshalExtension :: "bytes \<Rightarrow> TrieNode res"
  UnmarshalValue :: "bytes \<Rightarrow> TrieNode res"

record 'd Store =
  disabled :: bool
  trieDataDB :: 'd
  inMemoryNodes :: "(string, bytes) gomap"
  inMemoryValues :: "(string, slice) gomap"
  nodesToPersist :: "(string, bytes) gomap"
  valuesToPersist :: "(string, slice) gomap"

definition trieNodesNs :: bytes where "trieNodesNs = [0]"
definition trieValueNs :: bytes where "trieValueNs = [1]"
definition lastBlockNs :: bytes where "lastBlockNs = [2]"

definition ptr_key :: "slice \<Rightarrow> string" where
  "ptr_key p = EncodeToString (content p)"

text \<open>Opening the file of an existing store, and a store that is disabled.\<close>

definition openExistingStore :: "bool \<Rightarrow> 'd \<Rightarrow> 'd Store" where
  "openExistingStore dis d =
     \<lparr>disabled = dis, trieDataDB = d, inMemoryNodes = [], inMemoryValues = [],
      nodesToPersist = [], valuesToPersist = []\<rparr>"

definition storedNodeBytes :: "'d ldb \<Rightarrow> 'd Store \<Rightarrow> string \<Rightarrow> bytes res" where
  "storedNodeBytes db s key =
     (case map_of (inMemoryNodes s) key of
        Some b \<Rightarrow> Inr b
      | None \<Rightarrow>
          (case map_of (nodesToPersist s) key of
             Some b \<Rightarrow> Inr b
           | None \<Rightarrow> ldb_Get db (trieDataDB s) (trieNodesNs @ bytes_of_string key)))"

definition decodeNode :: "node_codec \<Rightarrow> bytes \<Rightarrow> TrieNode res" where
  "decodeNode c nodeBytes =
     (case nodeBytes of
        [] \<Rightarrow> Inl (Panic ''index out of range'')
      | nodeTypePrefix # body \<Rightarrow>
          if nodeTypePrefix = 1 then
            rbind (UnmarshalBranch c body) (\<lambda>n.
              case n of
                BranchNode cs vp d \<Rightarrow>
                  Inr (BranchNode (map (\<lambda>x. if x \<noteq> None \<and> slen x = 0 then None else x) cs) vp d)
              | _ \<Rightarrow> Inr n)
          else if nodeTypePrefix = 2 then UnmarshalExtension c body
          else if nodeTypePrefix = 3 then UnmarshalValue c body
          else Inl (Err ''unknown node type''))"

definition Store_GetNode :: "node_codec \<Rightarrow> 'd ldb \<Rightarrow> 'd Store \<Rightarrow> slice \<Rightarrow> TrieNode res" where
  "Store_GetNode c db s nodePtr = rbind (storedNodeBytes db s (ptr_key nodePtr)) (decodeNode c)"

definition Store_GetValue :: "'d ldb \<Rightarrow> 'd Store \<Rightarrow> slice \<Rightarrow> slice res" where
  "Store_GetValue db s valuePtr =
     (let key = ptr_key valuePtr in
      case map_of (inMemoryValues s) key of
        Some v \<Rightarrow> Inr v
      | None \<Rightarrow>
          (case map_of (valuesToPersist s) key of
             Some v \<Rightarrow> Inr v
           | None \<Rightarrow>
               rbind (ldb_Get db (trieDataDB s) (trieValueNs @ bytes_of_string key)) (\<lambda>b. Inr (Some b))))"

definition encodeNode :: "node_codec \<Rightarrow> TrieNode \<Rightarrow> bytes res" where
  "encodeNode c node =
     (case node of
        BranchNode _ _ _ \<Rightarrow> rbind (MarshalNode c node) (\<lambda>b. Inr (1 # b))
      | ExtensionNode _ _ \<Rightarrow> rbind (MarshalNode c node) (\<lambda>b. Inr (2 # b))
      | ValueNode _ _ _ \<Rightarrow> rbind (MarshalNode c node) (\<lambda>b. Inr (3 # b))
      | EmptyNode \<Rightarrow> Inr [])"

definition Store_PutNode :: "node_codec \<Rightarrow> 'd Store \<Rightarrow> slice \<Rightarrow> TrieNode \<Rightarrow> 'd Store \<times> unit res" where
  "Store_PutNode c s nodePtr node =
     (case encodeNode c node of
        Inl e \<Rightarrow> (s, Inl e)
      | Inr b \<Rightarrow> (s\<lparr>inMemoryNodes := gomap_put (inMemoryNodes s) (ptr_key nodePtr) b\<rparr>, Inr ()))"

definition Store_PutValue :: "'d Store \<Rightarrow> slice \<Rightarrow> slice \<Rightarrow> 'd Store \<times> unit res" where
  "Store_PutValue s valuePtr v =
     (s\<lparr>inMemoryValues := gomap_put (inMemoryValues s) (ptr_key valuePtr) v\<rparr>, Inr ())"

definition Store_PersistNode :: "'d Store \<Rightarrow> slice \<Rightarrow> 'd Store \<times> bool res" where
  "Store_PersistNode s nodePtr =
     (let key = ptr_key nodePtr in
      case map_of (inMemoryNodes s) key of
        Some b \<Rightarrow> (s\<lparr>nodesToPersist := gomap_put (nodesToPersist s) key b\<rparr>, Inr True)
      | None \<Rightarrow> (s, Inr False))"

definition Store_PersistValue :: "'d Store \<Rightarrow> slice \<Rightarrow> 'd Store \<times> bool res" where
  "Store_PersistValue s valuePtr =
     (let key = ptr_key valuePtr in
      case map_of (inMemoryValues s) key of
        Some v \<Rightarrow> (s\<lparr>valuesToPersist := gomap_put (valuesToPersist s) key v\<rparr>, Inr True)
      | None \<Rightarrow> (s, Inr False))"

text \<open>\<^verbatim>\<open>binary.LittleEndian\<close> on 64-bit integers; decoding reads the first eight bytes.\<close>

definition le_PutUint64 :: "64 word \<Rightarrow> bytes" where
  "le_PutUint64 n = map (\<lambda>i. ucast (drop_bit (8 * i) n)) [0..<8]"

definition le_Uint64 :: "bytes \<Rightarrow> 64 word res" where
  "le_Uint64 b =
     (if length b < 8 then Inl (Panic ''index out of range'')
      else Inr (foldr (\<lambda>i acc. or (push_bit (8 * i) (ucast (b ! i))) acc) [0..<8] 0))"

definition Store_Height :: "'d ldb \<Rightarrow> 'd Store \<Rightarrow> 64 word res" where
  "Store_Height db s = rbind (ldb_Get db (trieDataDB s) lastBlockNs) le_Uint64"

definition commitBatch :: "'d Store \<Rightarrow> 64 word \<Rightarrow> batch" where
  "commitBatch s blockNum =
     BPut lastBlockNs (le_PutUint64 blockNum)
     # map (\<lambda>(k, v). BPut (trieValueNs @ bytes_of_string k) (content v)) (valuesToPersist s)
     @ map (\<lambda>(k, n). BPut (trieNodesNs @ bytes_of_string k) n) (nodesToPersist s)"

definition clearMaps :: "'d Store \<Rightarrow> 'd Store" where
  "clearMaps s = s\<lparr>nodesToPersist := [], valuesToPersist := [], inMemoryNodes := [], inMemoryValues := []\<rparr>"

definition Store_CommitChanges :: "'d ldb \<Rightarrow> 'd Store \<Rightarrow> 64 word \<Rightarrow> 'd Store \<times> unit res" where
  "Store_CommitChanges db s blockNum =
     (case ldb_Write db (trieDataDB s) (commitBatch s blockNum) of
        (d, Inl e) \<Rightarrow> (s\<lparr>trieDataDB := d\<rparr>, Inl e)
      | (d, Inr _) \<Rightarrow> (clearMaps (s\<lparr>trieDataDB := d\<rparr>), Inr ()))"

definition Store_RollbackChanges :: "'d Store \<Rightarrow> 'd Store \<times> unit res" where
  "Store_RollbackChanges s = (clearMaps s, Inr ())"

definition store_ops :: "node_codec \<Rightarrow> 'd ldb \<Rightarrow> 'd Store StoreOps" where
  "store_ops c db =
     \<lparr>GetNode = Store_GetNode c db, GetValue = Store_GetValue db, PutNode = Store_PutNode c,
      PutValue = Store_PutValue, PersistNode = Store_PersistNode, PersistValue = Store_PersistValue,
      Height = Store_Height db, CommitChanges = Store_CommitChanges db,
      RollbackChanges = Store_RollbackChanges, IsDisabled = disabled,
      SetDisabled = (\<lambda>s b. s\<lparr>disabled := b\<rparr>)\<rparr>"

lemma store_ops_simps [simp]:
  "GetNode (store_ops c db) = Store_GetNode c db"
  "GetValue (store_ops c db) = Store_GetValue db"
  "PutNode (store_ops c db) = Store_PutNode c"
  "PutValue (store_ops c db) = Store_PutValue"
  "PersistNode (store_ops c db) = Store_PersistNode"
  "PersistValue (store_ops c db) = Store_PersistValue"
  "Height (store_ops c db) = Store_Height db"
  "CommitChanges (store_ops c db) = Store_CommitChanges db"
  "RollbackChanges (store_ops c db) = Store_RollbackChanges"
  by (simp_all add: store_ops_def)

section \<open>What the store relies on\<close>

text \<open>
  The documented behaviour of the serialisation: a message decodes to its fields, except that an
  unset element of a repeated bytes field may come back empty.
\<close>

locale node_serialization =
  fixes c :: node_codec
  assumes branch_rt: "norm_slice vp \<Longrightarrow> \<exists>b cs'. MarshalNode c (BranchNode cs vp d) = Inr b
        \<and> UnmarshalBranch c b = Inr (BranchNode cs' vp d) \<and> map content cs' = map content cs"
    and extension_rt: "norm_slice p \<Longrightarrow> \<exists>b. MarshalNode c (ExtensionNode k p) = Inr b
        \<and> UnmarshalExtension c b = Inr (ExtensionNode k p)"
    and value_rt: "norm_slice vp \<Longrightarrow> \<exists>b. MarshalNode c (ValueNode k vp d) = Inr b
        \<and> UnmarshalValue c b = Inr (ValueNode k vp d)"
begin

lemma normalised_children:
  "list_all norm_slice cs \<Longrightarrow> map content cs' = map content cs \<Longrightarrow>
   map (\<lambda>x. if x \<noteq> None \<and> slen x = 0 then None else x) cs' = cs"
proof (induction cs arbitrary: cs')
  case (Cons x cs)
  then obtain y ys where y: "cs' = y # ys" "content y = content x" "map content ys = map content cs"
    by (cases cs') auto
  then show ?case
    using Cons by (cases x; cases y) (auto simp: norm_slice_def)
qed simp

lemma decode_encode:
  assumes "norm_node n"
  shows "\<exists>b. encodeNode c n = Inr b \<and> decodeNode c b = Inr n"
proof (cases n)
  case (BranchNode cs vp d)
  then obtain b cs' where "MarshalNode c (BranchNode cs vp d) = Inr b"
      "UnmarshalBranch c b = Inr (BranchNode cs' vp d)" "map content cs' = map content cs"
    using branch_rt[of vp cs d] assms by auto
  then show ?thesis
    using BranchNode assms normalised_children[of cs cs'] by (simp add: encodeNode_def decodeNode_def)
next
  case (ExtensionNode k p)
  then show ?thesis
    using extension_rt[of p k] assms by (auto simp: encodeNode_def decodeNode_def)
next
  case (ValueNode k vp d)
  then show ?thesis
    using value_rt[of vp k d] assms by (auto simp: encodeNode_def decodeNode_def)
qed (use assms in simp)

end

lemma ptr_key_inj: "ptr_key p = ptr_key q \<longleftrightarrow> content p = content q"
  by (auto simp: ptr_key_def dest: EncodeToString_inj)

sublocale node_serialization \<subseteq> trie_store "store_ops c db"
proof
  show "\<exists>s'. PutNode (store_ops c db) s p n = (s', Inr ())" if "norm_node n" for n s p
    using decode_encode[OF that] by (auto simp: Store_PutNode_def)
  show "GetNode (store_ops c db) s' q = (if content q = content p then Inr n else GetNode (store_ops c db) s q)"
    if "norm_node n" "PutNode (store_ops c db) s p n = (s', Inr ())" for n s p s' q
  proof -
    from decode_encode[OF that(1)] obtain b where b: "encodeNode c n = Inr b" "decodeNode c b = Inr n"
      by auto
    then have "s' = s\<lparr>inMemoryNodes := gomap_put (inMemoryNodes s) (ptr_key p) b\<rparr>"
      using that(2) by (auto simp: Store_PutNode_def)
    then show ?thesis
      using b(2) by (auto simp: Store_GetNode_def storedNodeBytes_def ptr_key_inj split: option.splits)
  qed
  show "GetValue (store_ops c db) s' q = GetValue (store_ops c db) s q"
    if "PutNode (store_ops c db) s p n = (s', Inr ())" for s p n s' q
    using that by (auto simp: Store_PutNode_def Store_GetValue_def Let_def split: sum.splits option.splits)
  show "\<exists>s'. PutValue (store_ops c db) s p v = (s', Inr ())" for s p v
    by (simp add: Store_PutValue_def)
  show "GetValue (store_ops c db) s' q = (if content q = content p then Inr v else GetValue (store_ops c db) s q)"
    if "PutValue (store_ops c db) s p v = (s', Inr ())" for s p v s' q
    using that by (auto simp: Store_PutValue_def Store_GetValue_def ptr_key_inj Let_def split: option.splits)
  show "GetNode (store_ops c db) s' q = GetNode (store_ops c db) s q"
    if "PutValue (store_ops c db) s p v = (s', Inr ())" for s p v s' q
    using that by (auto simp: Store_PutValue_def Store_GetNode_def storedNodeBytes_def split: option.splits)
qed

end
