(* ===== verification/Mem_DB.thy ===== *)
theory Mem_DB
  imports LevelDB "HOL-Library.RBT" "HOL-Library.List_Lexorder"
begin

text \<open>
  An executable key-value file that meets the contract \<open>leveldb\<close>: a balanced search tree over
  byte strings. The concrete runs of the development use it wherever the server opens a file.
\<close>

type_synonym memdb = "(bytes, bytes) RBT.rbt"

fun mem_op :: "batch_op \<Rightarrow> memdb \<Rightarrow> memdb" where
  "mem_op (BPut k v) d = RBT.insert k v d"
| "mem_op (BDelete k) d = RBT.delete k d"

definition mem_Get :: "memdb \<Rightarrow> bytes \<Rightarrow> bytes res" where
  "mem_Get d k = (case RBT.lookup d k of None \<Rightarrow> Inl LdbErrNotFound | Some v \<Rightarrow> Inr v)"

definition mem_Write :: "memdb \<Rightarrow> batch \<Rightarrow> memdb \<times> unit res" where
  "mem_Write d b = (fold mem_op b d, Inr ())"

definition mem_Range :: "memdb \<Rightarrow> bytes \<Rightarrow> bytes \<Rightarrow> (bytes \<times> bytes) list" where
  "mem_Range d a z = filter (\<lambda>(k, v). in_range a z k) (RBT.entries d)"

definition mem_ldb :: "memdb ldb" where
  "mem_ldb = \<lparr>ldb_Get = mem_Get, ldb_Write = mem_Write, ldb_Range = mem_Range\<rparr>"

lemma mem_ldb_simps [simp]:
  "ldb_Get mem_ldb = mem_Get"
  "ldb_Write mem_ldb = mem_Write"
  "ldb_Range mem_ldb = mem_Range"
  by (simp_all add: mem_ldb_def)

lemma bytes_less_iff: "bytes_less a b \<longleftrightarrow> a < b"
  by (induction a b rule: bytes_less.induct) auto

lemma lookup_mem_op [simp]: "RBT.lookup (mem_op x d) = apply_op x (RBT.lookup d)"
  by (cases x) auto

lemma lookup_mem_fold: "RBT.lookup (fold mem_op b d) = apply_batch b (RBT.lookup d)"
  by (induction b arbitrary: d) auto

lemma entries_sorted: "sorted_wrt (\<lambda>x y. fst x < fst y) (RBT.entries d)"
proof -
  have "sorted_wrt (<) (map fst (RBT.entries d))"
    using RBT.sorted_entries[of d] RBT.distinct_entries[of d] by (simp add: strict_sorted_iff)
  then show ?thesis
    by (simp add: sorted_wrt_map)
qed

lemma in_set_entries: "(k, v) \<in> set (RBT.entries d) \<longleftrightarrow> RBT.lookup d k = Some v"
  using RBT.distinct_entries[of d] RBT.map_of_entries[of d] by (metis map_of_eq_Some_iff)

interpretation mem: leveldb mem_ldb RBT.lookup
proof
  show "ldb_Get mem_ldb d k =
      (case RBT.lookup d k of None \<Rightarrow> Inl LdbErrNotFound | Some v \<Rightarrow> Inr v)" for d k
    by (simp add: mem_Get_def)
  show "RBT.lookup d' = apply_batch b (RBT.lookup d)"
    if "ldb_Write mem_ldb d b = (d', Inr ())" for d b d'
    using that by (auto simp: mem_Write_def lookup_mem_fold)
  show "RBT.lookup d' = RBT.lookup d" if "ldb_Write mem_ldb d b = (d', Inl e)" for d b d' e
    using that by (simp add: mem_Write_def)
  show "set (ldb_Range mem_ldb d a z) = {(k, v). RBT.lookup d k = Some v \<and> in_range a z k}" for d a z
    by (auto simp: mem_Range_def in_set_entries)
  show "sorted_wrt (\<lambda>x y. bytes_less (fst x) (fst y)) (ldb_Range mem_ldb d a z)" for d a z
    using entries_sorted[of d] by (simp add: mem_Range_def bytes_less_iff sorted_wrt_filter)
qed

end
