(* ===== verification/Varint.thy ===== *)
theory Varint
  imports Orion_Prelude
begin

text \<open>
  Base-128 varints: the format of lengths in serialised messages and of Go's \<^verbatim>\<open>binary.PutUvarint\<close>
  and \<^verbatim>\<open>binary.ReadUvarint\<close>, with their round trips.
\<close>

fun varint :: "nat \<Rightarrow> bytes" where
  "varint n = (if n < 128 then [of_nat n] else of_nat (n mod 128 + 128) # varint (n div 128))"

fun unvarint :: "bytes \<Rightarrow> (nat \<times> bytes) option" where
  "unvarint [] = None"
| "unvarint (b # bs) =
     (if unat b < 128 then Some (unat b, bs)
      else (case unvarint bs of
              None \<Rightarrow> None
            | Some (n, r) \<Rightarrow> Some (unat b - 128 + 128 * n, r)))"

declare varint.simps [simp del]

lemma unat_of_nat_byte: "n < 256 \<Longrightarrow> unat (of_nat n :: byte) = n"
  by (simp add: unat_of_nat)

lemma unvarint_varint: "unvarint (varint n @ r) = Some (n, r)"
proof (induction n rule: varint.induct)
  case (1 n)
  show ?case
  proof (cases "n < 128")
    case True
    then show ?thesis
      by (simp add: varint.simps[of n] unat_of_nat_byte)
  next
    case False
    have "n mod 128 + 128 < 256"
      using mod_less_divisor[of 128 n] by linarith
    then have "unat (of_nat (n mod 128 + 128) :: byte) = n mod 128 + 128"
      by (rule unat_of_nat_byte)
    then show ?thesis
      using 1[OF False] False by (simp add: varint.simps[of n] del: of_nat_add of_nat_numeral)
  qed
qed

section \<open>Go's 64-bit varints\<close>

definition MaxVarintLen64 :: nat where "MaxVarintLen64 = 10"

text \<open>\<^verbatim>\<open>PutUvarint\<close> into a zeroed buffer of \<open>MaxVarintLen64\<close> bytes.\<close>

definition PutUvarint :: "64 word \<Rightarrow> bytes" where
  "PutUvarint x = varint (unat x) @ replicate (MaxVarintLen64 - length (varint (unat x))) 0"

text \<open>
  \<^verbatim>\<open>ReadUvarint\<close> at byte \<open>i\<close> with the value read so far; the shifted groups have disjoint bits, so
  the bitwise or of the source is a sum.
\<close>

fun readUvarint :: "nat \<Rightarrow> nat \<Rightarrow> bytes \<Rightarrow> 64 word res" where
  "readUvarint i x [] = Inl (Err ''EOF'')"
| "readUvarint i x (b # bs) =
     (if i \<ge> MaxVarintLen64 then Inl (Err ''binary: varint overflows a 64-bit integer'')
      else if unat b < 128 then
        (if i = 9 \<and> unat b > 1 then Inl (Err ''binary: varint overflows a 64-bit integer'')
         else Inr (of_nat (x + unat b * 128 ^ i)))
      else readUvarint (Suc i) (x + (unat b - 128) * 128 ^ i) bs)"

definition ReadUvarint :: "bytes \<Rightarrow> 64 word res" where
  "ReadUvarint bs = readUvarint 0 0 bs"

lemma readUvarint_varint:
  "i \<le> 9 \<Longrightarrow> n < 2 ^ (64 - 7 * i) \<Longrightarrow> readUvarint i x (varint n @ r) = Inr (of_nat (x + n * 128 ^ i))"
proof (induction n arbitrary: i x rule: varint.induct)
  case (1 n)
  show ?case
  proof (cases "n < 128")
    case True
    then have "unat (of_nat n :: byte) = n"
      by (intro unat_of_nat_byte) simp
    moreover have "\<not> (i = 9 \<and> 1 < n)"
    proof
      assume "i = 9 \<and> 1 < n"
      then show False
        using 1(3) by simp
    qed
    moreover have "varint n = [of_nat n]"
      using True by (simp add: varint.simps[of n])
    ultimately show ?thesis
      using True 1(2) by (simp add: MaxVarintLen64_def)
  next
    case False
    have i: "i < 9"
    proof (rule ccontr)
      assume "\<not> i < 9"
      then have "i = 9"
        using 1(2) by simp
      then show False
        using 1(3) False by simp
    qed
    have b: "unat (of_nat (n mod 128 + 128) :: byte) = n mod 128 + 128"
      using mod_less_divisor[of 128 n] by (intro unat_of_nat_byte) linarith
    have "(2 :: nat) ^ (64 - 7 * i) = 2 ^ (64 - 7 * Suc i) * 128"
    proof -
      have "64 - 7 * i = (64 - 7 * Suc i) + 7"
        using i by simp
      then show ?thesis
        by (simp only: power_add) simp
    qed
    then have "n div 128 < 2 ^ (64 - 7 * Suc i)"
      using 1(3) by (simp add: less_mult_imp_div_less)
    then have ih: "readUvarint (Suc i) (x + n mod 128 * 128 ^ i) (varint (n div 128) @ r) =
        Inr (of_nat (x + n mod 128 * 128 ^ i + n div 128 * 128 ^ Suc i))"
      using 1(1)[OF False] i by simp
    have eq: "x + n mod 128 * 128 ^ i + n div 128 * 128 ^ Suc i = x + n * 128 ^ i"
    proof -
      have "n * 128 ^ i = (n div 128 * 128 + n mod 128) * 128 ^ i"
        by (simp only: div_mult_mod_eq)
      then show ?thesis
        by (simp only: distrib_right power_Suc mult.assoc add.assoc add.commute[of "n mod 128 * 128 ^ i"])
    qed
    have "varint n = of_nat (n mod 128 + 128) # varint (n div 128)"
      using False by (simp add: varint.simps[of n] del: of_nat_add of_nat_numeral)
    moreover have "\<not> i \<ge> MaxVarintLen64"
      using i by (simp add: MaxVarintLen64_def)
    ultimately show ?thesis
      using b ih[unfolded eq] by (simp del: of_nat_add of_nat_numeral of_nat_mult of_nat_power)
  qed
qed

lemma ReadUvarint_PutUvarint: "ReadUvarint (PutUvarint x) = Inr x"
proof -
  have "unat x < 2 ^ 64"
    using unsigned_less[of x, where 'a = nat] by simp
  then show ?thesis
    using readUvarint_varint[of 0 "unat x" 0] by (simp add: ReadUvarint_def PutUvarint_def)
qed

section \<open>Lengths and prefixes\<close>

lemma length_varint: "0 < k \<Longrightarrow> n < 128 ^ k \<Longrightarrow> length (varint n) \<le> k"
proof (induction k arbitrary: n)
  case (Suc k)
  show ?case
  proof (cases "n < 128")
    case True
    then show ?thesis
      by (simp add: varint.simps[of n])
  next
    case False
    then have "0 < k"
      using Suc.prems(2) by (cases k) auto
    moreover have "n div 128 < 128 ^ k"
      using Suc.prems(2) by (simp add: less_mult_imp_div_less mult.commute)
    ultimately show ?thesis
      using Suc.IH[of "n div 128"] False by (simp add: varint.simps[of n])
  qed
qed simp

lemma length_varint_word: "length (varint (unat (n :: 64 word))) \<le> MaxVarintLen64"
proof -
  have "unat n < 2 ^ 64"
    using unsigned_less[of n, where 'a = nat] by simp
  then have "unat n < 128 ^ 10"
    by simp
  then show ?thesis
    unfolding MaxVarintLen64_def by (intro length_varint) simp_all
qed

lemma varint_nonempty [simp]: "varint n \<noteq> []"
  by (simp add: varint.simps[of n])

lemma unvarint_prefix: "m < length (varint n) \<Longrightarrow> unvarint (take m (varint n)) = None"
proof (induction n arbitrary: m rule: varint.induct)
  case (1 n)
  show ?case
  proof (cases "n < 128")
    case True
    then show ?thesis
      using "1.prems" by (simp add: varint.simps[of n])
  next
    case False
    have v: "varint n = of_nat (n mod 128 + 128) # varint (n div 128)"
      using False by (simp add: varint.simps[of n] del: of_nat_add of_nat_numeral)
    have b: "unat (of_nat (n mod 128 + 128) :: byte) = n mod 128 + 128"
      using mod_less_divisor[of 128 n] by (intro unat_of_nat_byte) linarith
    show ?thesis
    proof (cases m)
      case (Suc k)
      then have "unvarint (take k (varint (n div 128))) = None"
        using "1.prems" v by (intro "1.IH"[OF False]) simp
      then show ?thesis
        using Suc b by (simp add: v del: of_nat_add of_nat_numeral)
    qed simp
  qed
qed

end
