(* ===== verification/Pb_Wire.thy ===== *)
theory Pb_Wire
  imports Varint
begin

text \<open>
  The protocol-buffer wire format for messages of bytes, string, bool and integer fields: encoding
  of a field list, parsing, and the accessors with proto3 defaults. The executable serialisations
  of the development are built from it.
\<close>

section \<open>Fields\<close>

datatype pb_field = PBytes nat bytes | PVarint nat nat

fun enc_field :: "pb_field \<Rightarrow> bytes" where
  "enc_field (PBytes k b) = of_nat (8 * k + 2) # varint (length b) @ b"
| "enc_field (PVarint k n) = of_nat (8 * k) # varint n"

fun field_no :: "pb_field \<Rightarrow> nat" where
  "field_no (PBytes k b) = k"
| "field_no (PVarint k n) = k"

fun parse_fields :: "nat \<Rightarrow> bytes \<Rightarrow> pb_field list option" where
  "parse_fields fuel [] = Some []"
| "parse_fields 0 (t # bs) = None"
| "parse_fields (Suc fuel) (t # bs) =
     (case unvarint bs of
        None \<Rightarrow> None
      | Some (n, r) \<Rightarrow>
          if unat t mod 8 = 2 then
            (if length r < n then None
             else map_option ((#) (PBytes (unat t div 8) (take n r))) (parse_fields fuel (drop n r)))
          else if unat t mod 8 = 0 then
            map_option ((#) (PVarint (unat t div 8) n)) (parse_fields fuel r)
          else None)"

lemma parse_enc:
  "\<forall>f \<in> set fs. field_no f < 16 \<Longrightarrow> length fs \<le> fuel \<Longrightarrow>
   parse_fields fuel (concat (map enc_field fs)) = Some fs"
proof (induction fs arbitrary: fuel)
  case (Cons f fs)
  then obtain fuel' where fuel: "fuel = Suc fuel'"
    by (cases fuel) auto
  have f: "field_no f < 16"
    using Cons by simp
  show ?case
  proof (cases f)
    case (PBytes k b)
    then have t: "unat (of_nat (8 * k + 2) :: byte) = 8 * k + 2"
      using f by (intro unat_of_nat_byte) simp
    have "(8 * k + 2) mod 8 = 2" "(8 * k + 2) div 8 = k"
      by presburger+
    then show ?thesis
      using Cons fuel PBytes t by (simp add: unvarint_varint del: of_nat_add of_nat_mult of_nat_numeral)
  next
    case (PVarint k n)
    then have t: "unat (of_nat (8 * k) :: byte) = 8 * k"
      using f by (intro unat_of_nat_byte) simp
    show ?thesis
      using Cons fuel PVarint t by (simp add: unvarint_varint del: of_nat_add of_nat_mult of_nat_numeral)
  qed
qed (cases fuel; simp)

lemma length_enc_fields: "length fs \<le> length (concat (map enc_field fs))"
proof (induction fs)
  case (Cons f fs)
  then show ?case
    by (cases f) auto
qed simp

section \<open>Accessors\<close>

definition opt_bytes :: "nat \<Rightarrow> slice \<Rightarrow> pb_field list" where
  "opt_bytes k x = (if slen x > 0 then [PBytes k (content x)] else [])"

definition opt_bool :: "nat \<Rightarrow> bool \<Rightarrow> pb_field list" where
  "opt_bool k d = (if d then [PVarint k 1] else [])"

definition rep_bytes :: "nat \<Rightarrow> pb_field list \<Rightarrow> bytes list" where
  "rep_bytes k fs = concat (map (\<lambda>f. case f of PBytes j b \<Rightarrow> if j = k then [b] else [] | _ \<Rightarrow> []) fs)"

definition get_bytes :: "nat \<Rightarrow> pb_field list \<Rightarrow> slice" where
  "get_bytes k fs = (case rep_bytes k fs of [] \<Rightarrow> None | bs \<Rightarrow> if last bs = [] then None else Some (last bs))"

definition get_bool :: "nat \<Rightarrow> pb_field list \<Rightarrow> bool" where
  "get_bool k fs = list_ex (\<lambda>f. case f of PVarint j n \<Rightarrow> j = k \<and> n \<noteq> 0 | _ \<Rightarrow> False) fs"

definition get_varint :: "nat \<Rightarrow> pb_field list \<Rightarrow> nat" where
  "get_varint k fs =
     (let ns = concat (map (\<lambda>f. case f of PVarint j n \<Rightarrow> if j = k then [n] else [] | _ \<Rightarrow> []) fs) in
      if ns = [] then 0 else last ns)"

definition pb_encode :: "pb_field list \<Rightarrow> bytes" where
  "pb_encode fs = concat (map enc_field fs)"

definition pb_decode :: "bytes \<Rightarrow> pb_field list res" where
  "pb_decode b = (case parse_fields (length b) b of None \<Rightarrow> Inl (Err ''proto: cannot parse'') | Some fs \<Rightarrow> Inr fs)"

lemma pb_decode_encode: "\<forall>f \<in> set fs. field_no f < 16 \<Longrightarrow> pb_decode (pb_encode fs) = Inr fs"
  using parse_enc[OF _ length_enc_fields, of fs] by (simp add: pb_decode_def pb_encode_def)

lemma rep_bytes_simps [simp]:
  "rep_bytes k [] = []"
  "rep_bytes k (fs @ gs) = rep_bytes k fs @ rep_bytes k gs"
  "rep_bytes k (opt_bytes j x) = (if j = k \<and> slen x > 0 then [content x] else [])"
  "rep_bytes k (opt_bool j d) = []"
  "rep_bytes k (map (\<lambda>x. PBytes j (content x)) cs) = (if j = k then map content cs else [])"
  by (auto simp: rep_bytes_def opt_bytes_def opt_bool_def) (induction cs; simp)+

lemma get_bool_simps [simp]:
  "get_bool k [] = False"
  "get_bool k (fs @ gs) = (get_bool k fs \<or> get_bool k gs)"
  "get_bool k (opt_bytes j x) = False"
  "get_bool k (opt_bool j d) = (j = k \<and> d)"
  "get_bool k (map (\<lambda>x. PBytes j (content x)) cs) = False"
  by (auto simp: get_bool_def opt_bytes_def opt_bool_def list_ex_iff)

lemma get_bytes_opt:
  "norm_slice x \<Longrightarrow> rep_bytes k fs = (if slen x > 0 then [content x] else []) \<Longrightarrow> get_bytes k fs = x"
  by (cases x) (auto simp: get_bytes_def norm_slice_def)

lemma get_key_opt:
  "rep_bytes k fs = (if length x > 0 then [x] else []) \<Longrightarrow> content (get_bytes k fs) = x"
  by (auto simp: get_bytes_def)

end
