(* ===== verification/Proto_Wire.thy ===== *)
theory Proto_Wire
  imports Trie_Store Mem_DB Pb_Wire
begin

text \<open>
  An executable serialisation in the protocol-buffer wire format (varints, length-delimited bytes
  fields) for the node messages of \<^verbatim>\<open>internal/mptrie/trie.proto\<close>. It meets the contract
  \<open>node_serialization\<close>, so concrete runs of the trie can store nodes.
\<close>

section \<open>Node messages\<close>

fun node_fields :: "TrieNode \<Rightarrow> pb_field list" where
  "node_fields (BranchNode cs vp d) = map (\<lambda>x. PBytes 1 (content x)) cs @ opt_bytes 2 vp @ opt_bool 3 d"
| "node_fields (ExtensionNode k p) = opt_bytes 1 (Some k) @ opt_bytes 2 p"
| "node_fields (ValueNode k vp d) = opt_bytes 1 (Some k) @ opt_bytes 2 vp @ opt_bool 3 d"
| "node_fields EmptyNode = []"

definition with_fields :: "(pb_field list \<Rightarrow> TrieNode) \<Rightarrow> bytes \<Rightarrow> TrieNode res" where
  "with_fields f b = rbind (pb_decode b) (\<lambda>fs. Inr (f fs))"

definition pb_marshal :: "TrieNode \<Rightarrow> bytes" where
  "pb_marshal n = pb_encode (node_fields n)"

definition pb_codec :: node_codec where
  "pb_codec =
     \<lparr>MarshalNode = (\<lambda>n. Inr (pb_marshal n)),
      UnmarshalBranch = with_fields (\<lambda>fs. BranchNode (map Some (rep_bytes 1 fs)) (get_bytes 2 fs) (get_bool 3 fs)),
      UnmarshalExtension = with_fields (\<lambda>fs. ExtensionNode (content (get_bytes 1 fs)) (get_bytes 2 fs)),
      UnmarshalValue = with_fields (\<lambda>fs. ValueNode (content (get_bytes 1 fs)) (get_bytes 2 fs) (get_bool 3 fs))\<rparr>"

lemma field_nos: "f \<in> set (node_fields n) \<Longrightarrow> field_no f < 16"
  by (cases n) (auto simp: opt_bytes_def opt_bool_def split: if_splits)

lemma with_fields_marshal: "with_fields g (pb_marshal n) = Inr (g (node_fields n))"
  using pb_decode_encode[of "node_fields n"] field_nos by (auto simp: with_fields_def pb_marshal_def)

interpretation pb: node_serialization pb_codec
proof
  show "\<exists>b cs'. MarshalNode pb_codec (BranchNode cs vp d) = Inr b
      \<and> UnmarshalBranch pb_codec b = Inr (BranchNode cs' vp d) \<and> map content cs' = map content cs"
    if "norm_slice vp" for vp cs d
    using that by (simp add: pb_codec_def with_fields_marshal get_bytes_opt comp_def)
  show "\<exists>b. MarshalNode pb_codec (ExtensionNode k p) = Inr b
      \<and> UnmarshalExtension pb_codec b = Inr (ExtensionNode k p)" if "norm_slice p" for p k
    using that by (simp add: pb_codec_def with_fields_marshal get_bytes_opt get_key_opt)
  show "\<exists>b. MarshalNode pb_codec (ValueNode k vp d) = Inr b
      \<and> UnmarshalValue pb_codec b = Inr (ValueNode k vp d)" if "norm_slice vp" for vp k d
    using that by (simp add: pb_codec_def with_fields_marshal get_bytes_opt get_key_opt)
qed

end
