(* ===== verification/Trie_Properties.thy ===== *)
theory Trie_Properties
  imports Proto_Wire
begin

text \<open>
  The correctness of the state trie on the store of \<^verbatim>\<open>internal/mptrie/store\<close>: what reading, writing,
  deleting and proving a key do to the map of keys the trie holds, for every digest of fixed
  length and every serialisation that meets its contract; and three behaviours of the code that a
  user would not expect.
\<close>

locale trie_on_store = node_serialization c + fixed_digest h n for c h n

sublocale trie_on_store \<subseteq> hashed_trie "store_ops c db" h n
  by unfold_locales

context trie_on_store
begin

lemma hashed: "hashed_trie (store_ops c db) h n"
  by unfold_locales

end

lemma trie_hashed:
  "node_serialization c \<Longrightarrow> fixed_digest h n \<Longrightarrow> hashed_trie (store_ops c db) h n"
  by (rule trie_on_store.hashed) (simp add: trie_on_store_def)

section \<open>Proofs of the trie\<close>

context hashed_trie
begin

lemma GetProof_refines:
  assumes "trie_rep ops h L t T M" "length key = L" "M key = Some (v, d)"
  shows "\<exists>k p. GetProof ops t key d =
      Inr (Some (((if k = [] then [] else [Some k]) @ [CalculateKeyValueHash h (Some key) v]
            @ (if d then [KeyDeleteMarkerBytes] else [])) # p))
    \<and> GetProof ops t key (\<not> d) = Inr None
    \<and> MPTrie_Hash h (Some t) = Inr (pptr h T)
    \<and> verifyLoop h (CalculateKeyValueHash h (Some key) v)
        (((if k = [] then [] else [Some k]) @ [CalculateKeyValueHash h (Some key) v]
          @ (if d then [KeyDeleteMarkerBytes] else [])) # p) = Some (pptr h T)"
proof -
  let ?vp = "CalculateKeyValueHash h (Some key) v"
  have T: "root t = Some (pnode h T)" "is_branch T" "pwf T" "plen (2 * L) T"
    using assms(1) by (auto simp: trie_rep_def)
  have e: "pentry T (convertByteToHex key) = Some (?vp, d)"
    using trie_rep_entry[OF assms(1,2)] assms(3) by simp
  have "length (convertByteToHex key) = 2 * L"
    using assms(2) by simp
  from ppath_proof[OF T(3,4) this e] obtain p k where p:
    "nodesBytes (rev (map (pnode h) (fst (ppath T (convertByteToHex key))))) =
      Inr (((if k = [] then [] else [Some k]) @ [?vp] @ (if d then [KeyDeleteMarkerBytes] else [])) # p)"
    "snd (ppath T (convertByteToHex key)) = Some (PVal k ?vp d)"
    "verifyLoop h ?vp (((if k = [] then [] else [Some k]) @ [?vp]
      @ (if d then [KeyDeleteMarkerBytes] else [])) # p) = Some (pptr h T)"
    by blast
  have "MPTrie_Hash h (Some t) = Inr (pptr h T)"
    using T(1,2) by (cases T) (auto simp: MPTrie_Hash_def pptr_def node_ptr_def)
  moreover have "GetProof ops t key d =
      Inr (Some (((if k = [] then [] else [Some k]) @ [?vp] @ (if d then [KeyDeleteMarkerBytes] else [])) # p))"
    "GetProof ops t key (\<not> d) = Inr None"
    using getPath_refines[OF assms(1,2)] p(1,2) by (auto simp: GetProof_def simp del: if_split)
  ultimately show ?thesis
    using p(3) by blast
qed

lemma GetProof_verifies:
  assumes "trie_rep ops h L t T M" "length key = L" "M key = Some (v, d)"
  shows "\<exists>p. GetProof ops t key d = Inr (Some p) \<and> GetProof ops t key (\<not> d) = Inr None
    \<and> MPTrie_Hash h (Some t) = Inr (pptr h T)
    \<and> Verify h p (CalculateKeyValueHash h (Some key) v) (pptr h T) d = Inr True"
proof -
  let ?el = "\<lambda>k. (if k = [] then [] else [Some k]) @ [CalculateKeyValueHash h (Some key) v]
            @ (if d then [KeyDeleteMarkerBytes] else [])"
  obtain k p where p: "GetProof ops t key d = Inr (Some (?el k # p))"
    "GetProof ops t key (\<not> d) = Inr None" "MPTrie_Hash h (Some t) = Inr (pptr h T)"
    "verifyLoop h (CalculateKeyValueHash h (Some key) v) (?el k # p) = Some (pptr h T)"
    using GetProof_refines[OF assms] by blast
  have "\<not> (d \<and> \<not> hashFound KeyDeleteMarkerBytes (?el k))"
    by (auto simp: hashFound_iff)
  then have "Verify h (?el k # p) (CalculateKeyValueHash h (Some key) v) (pptr h T) d = Inr True"
    unfolding Verify_def list.case p(4) option.case if_not_P slice_eq_def by simp
  then show ?thesis
    using p(1-3) by blast
qed

end

section \<open>A concrete trie\<close>

text \<open>An empty store in memory, and the trie after writing the value 7 under the one-byte key 0x12.\<close>


definition tree1 :: ptrie where
  "tree1 = PBranch (pchildren[1 := PVal [2] (CalculateKeyValueHash checksum (Some [0x12]) (Some [7])) False])
     None False"

lemma tree1_update:
  "pupdate (PBranch pchildren None False) (convertByteToHex [0x12])
     (CalculateKeyValueHash checksum (Some [0x12]) (Some [7])) False = Inr tree1"
  by code_simp

lemma tree1_safe:
  "update_safe checksum (PBranch pchildren None False) [0x12]
     (CalculateKeyValueHash checksum (Some [0x12]) (Some [7])) False"
  by code_simp

lemmas concrete_trie = trie_hashed[OF pb.node_serialization_axioms checksum.fixed_digest_axioms]

lemma empty_trie_exists: "\<exists>t. trie_rep (store_ops pb_codec mem_ldb) checksum 1 t (PBranch pchildren None False) Map.empty"
  using hashed_trie.NewTrie_rep[OF concrete_trie, of 1 mem_ldb] by auto

lemma trie1_exists:
  "\<exists>t. trie_rep (store_ops pb_codec mem_ldb) checksum 1 t tree1 [[0x12] \<mapsto> (Some [7], False)]"
proof -
  obtain t where t: "trie_rep (store_ops pb_codec mem_ldb) checksum 1 t (PBranch pchildren None False) Map.empty"
    using empty_trie_exists by blast
  have "value_safe checksum Map.empty [0x12] (Some [7])"
    by (simp add: value_safe_def)
  then obtain t' M' where M': "trie_rep (store_ops pb_codec mem_ldb) checksum 1 t' tree1 M'"
      "M' [0x12] = Some (Some [7], False)" "others_kept Map.empty [0x12] M'"
    using hashed_trie.Update_refines[OF concrete_trie t _ tree1_safe] tree1_update by auto
  moreover have "M' = [[0x12] \<mapsto> (Some [7], False)]"
    using M'(2,3) by (auto simp: others_kept_def)
  ultimately show ?thesis
    by blast
qed

section \<open>Properties\<close>

text \<open>
  C4. Writing a key of the trie's key length succeeds and the trie then holds the new value under
  that key, visible; every other key keeps its value, and its deletion flag is kept or cleared.
  Hash collisions among the nodes of the resulting trie and between the value pointers are ruled
  out explicitly.
\<close>

theorem trie_update_correct:
  assumes "node_serialization c" "fixed_digest h n"
    and "trie_rep (store_ops c db) h L t T M" "length key = L"
    and "update_safe h T key (CalculateKeyValueHash h (Some key) value) False" "value_safe h M key value"
  shows "\<exists>t' T' M'. MPTrie_Update (store_ops c db) h t key value = (t', Inr ())
    \<and> trie_rep (store_ops c db) h L t' T' M' \<and> M' key = Some (value, False) \<and> others_kept M key M'"
  using hashed_trie.Update_refines[OF trie_hashed[OF assms(1,2)] assms(3-6)] by blast

theorem trie_update_correct_witness:
  "\<exists>t t' T' M'. MPTrie_Update (store_ops pb_codec mem_ldb) checksum t [0x12] (Some [7]) = (t', Inr ())
    \<and> trie_rep (store_ops pb_codec mem_ldb) checksum 1 t' T' M' \<and> M' [0x12] = Some (Some [7], False)"
proof -
  obtain t where t: "trie_rep (store_ops pb_codec mem_ldb) checksum 1 t (PBranch pchildren None False) Map.empty"
    using empty_trie_exists by blast
  have "value_safe checksum Map.empty [0x12] (Some [7])"
    by (simp add: value_safe_def)
  from trie_update_correct[OF pb.node_serialization_axioms checksum.fixed_digest_axioms t _ tree1_safe this]
  show ?thesis
    by auto
qed

text \<open>
  C5. Reading a key of the trie's key length returns its value, or nil when the key is absent or
  deleted.
\<close>

theorem trie_get_correct:
  assumes "node_serialization c" "fixed_digest h n"
    and "trie_rep (store_ops c db) h L t T M" "length key = L"
  shows "MPTrie_Get (store_ops c db) t key = Inr (visible (M key))"
  using hashed_trie.Get_refines[OF trie_hashed[OF assms(1,2)] assms(3,4)] .

theorem trie_get_correct_witness:
  "\<exists>t T M. trie_rep (store_ops pb_codec mem_ldb) checksum 1 t T M
    \<and> MPTrie_Get (store_ops pb_codec mem_ldb) t [0x12] = Inr (Some [7])"
proof -
  obtain t where t: "trie_rep (store_ops pb_codec mem_ldb) checksum 1 t tree1 [[0x12] \<mapsto> (Some [7], False)]"
    using trie1_exists by blast
  from trie_get_correct[OF pb.node_serialization_axioms checksum.fixed_digest_axioms t, of "[0x12]"]
  show ?thesis
    using t by (auto simp: visible_def)
qed

text \<open>
  C6. Deleting a key the trie holds returns its value, marks it deleted, and changes no other key;
  deleting an absent key changes nothing.
\<close>

theorem trie_delete_correct:
  assumes "node_serialization c" "fixed_digest h n"
    and "trie_rep (store_ops c db) h L t T M" "length key = L"
    and "\<forall>v d. M key = Some (v, d) \<longrightarrow> update_safe h T key (CalculateKeyValueHash h (Some key) v) True"
  shows "case M key of
      None \<Rightarrow> MPTrie_Delete (store_ops c db) h t key = (t, Inr None)
    | Some (v, d) \<Rightarrow> \<exists>t' T'. MPTrie_Delete (store_ops c db) h t key = (t', Inr v)
        \<and> trie_rep (store_ops c db) h L t' T' (M(key \<mapsto> (v, True)))"
proof (cases "M key")
  case None
  then show ?thesis
    using hashed_trie.Delete_absent[OF trie_hashed[OF assms(1,2)] assms(3,4)] by simp
next
  case (Some e)
  obtain v d where e: "e = (v, d)"
    by (cases e)
  then have safe: "update_safe h T key (CalculateKeyValueHash h (Some key) v) True"
    using assms(5) Some by blast
  show ?thesis
    using hashed_trie.Delete_refines[OF trie_hashed[OF assms(1,2)] assms(3,4) _ safe] Some e by auto
qed

theorem trie_delete_correct_witness:
  "\<exists>t t' T' M. MPTrie_Delete (store_ops pb_codec mem_ldb) checksum t [0x12] = (t', Inr (Some [7]))
    \<and> trie_rep (store_ops pb_codec mem_ldb) checksum 1 t' T' (M([0x12] \<mapsto> (Some [7], True)))"
proof -
  obtain t where t: "trie_rep (store_ops pb_codec mem_ldb) checksum 1 t tree1 [[0x12] \<mapsto> (Some [7], False)]"
    using trie1_exists by blast
  have "update_safe checksum tree1 [0x12] (CalculateKeyValueHash checksum (Some [0x12]) (Some [7])) True"
    by code_simp
  then show ?thesis
    using trie_delete_correct[OF pb.node_serialization_axioms checksum.fixed_digest_axioms t, of "[0x12]"]
    by auto
qed

text \<open>
  C7. For every key the trie holds, live or deleted, the proof it hands out is accepted by the
  client's check against the trie's root hash with the matching deletion flag, and no proof is
  handed out for the other flag.
\<close>

theorem trie_proof_complete:
  assumes "node_serialization c" "fixed_digest h n"
    and "trie_rep (store_ops c db) h L t T M" "length key = L" "M key = Some (v, d)"
  shows "\<exists>p r. GetProof (store_ops c db) t key d = Inr (Some p) \<and> MPTrie_Hash h (Some t) = Inr r
    \<and> Verify h p (CalculateKeyValueHash h (Some key) v) r d = Inr True
    \<and> GetProof (store_ops c db) t key (\<not> d) = Inr None"
  using hashed_trie.GetProof_verifies[OF trie_hashed[OF assms(1,2)] assms(3-5)] by blast

theorem trie_proof_complete_witness:
  "\<exists>t p r. GetProof (store_ops pb_codec mem_ldb) t [0x12] False = Inr (Some p)
    \<and> Verify checksum p (CalculateKeyValueHash checksum (Some [0x12]) (Some [7])) r False = Inr True"
proof -
  obtain t where t: "trie_rep (store_ops pb_codec mem_ldb) checksum 1 t tree1 [[0x12] \<mapsto> (Some [7], False)]"
    using trie1_exists by blast
  from trie_proof_complete[OF pb.node_serialization_axioms checksum.fixed_digest_axioms t, of "[0x12]" "Some [7]" False]
  show ?thesis
    by auto
qed

text \<open>
  C8. The deletion flag of a proof is not bound by the root hash. Whenever a proof of a live value
  checks and the first element of the proof has a slice containing the byte 1 (the nibble key of
  the value node, for almost every key), splitting that slice around the byte gives a proof of
  the deletion of the same value that checks against the same root.
\<close>

theorem deletion_proof_forgeable:
  assumes "Verify h ((pre @ [Some (a @ [1] @ b)] @ post) # rest) valueHash rootHash False = Inr True"
    and "hashFound valueHash (pre @ post)"
  shows "Verify h ((pre @ [Some a, Some [1], Some b] @ post) # rest) valueHash rootHash True = Inr True"
proof -
  have "CalcHash h (pre @ [Some a, Some [1], Some b] @ post) = CalcHash h (pre @ [Some (a @ [1] @ b)] @ post)"
    by (simp add: CalcHash_def)
  moreover have "hashFound KeyDeleteMarkerBytes (pre @ [Some a, Some [1], Some b] @ post)"
    "hashFound valueHash (pre @ [Some a, Some [1], Some b] @ post)"
    "hashFound valueHash (pre @ [Some (a @ [1] @ b)] @ post)"
    using assms(2) by (auto simp: hashFound_iff KeyDeleteMarkerBytes_def)
  ultimately show ?thesis
    using assms(1) by (simp add: Verify_def split: option.splits)
qed

theorem deletion_proof_forgeable_witness:
  "Verify checksum [[Some [2], Some [1], Some [3], Some [9]]] (Some [9])
     (CalcHash checksum [Some [2, 1, 3], Some [9]]) True = Inr True"
  using deletion_proof_forgeable[of checksum "[]" "[2]" "[3]" "[Some [9]]" "[]" "Some [9]"
      "CalcHash checksum [Some [2, 1, 3], Some [9]]"]
  by (simp add: Verify_def slice_eq_def)

text \<open>
  A deleted key can come back. When the trie holds one key, deleted, and a second key with the
  same first nibble is written, reading the first key returns its old value again: the split of
  the value node does not copy the deletion flag.
\<close>

theorem deleted_key_returns:
  assumes "node_serialization c" "fixed_digest h n"
    and "trie_rep (store_ops c db) h L t (PBranch (pchildren[unat x := PVal r vp True]) None False) M"
    and "convertByteToHex k1 = x # r" "convertByteToHex k2 = x # r2" "r \<noteq> r2" "length k1 = L" "length k2 = L"
    and "update_safe h (PBranch (pchildren[unat x := PVal r vp True]) None False) k2
           (CalculateKeyValueHash h (Some k2) value) False" "value_safe h M k2 value"
  shows "\<exists>v t'. M k1 = Some (v, True) \<and> MPTrie_Get (store_ops c db) t k1 = Inr None
    \<and> MPTrie_Update (store_ops c db) h t k2 value = (t', Inr ())
    \<and> MPTrie_Get (store_ops c db) t' k1 = Inr v"
proof -
  let ?T = "PBranch (pchildren[unat x := PVal r vp True]) None False"
  note H = trie_hashed[OF assms(1,2)]
  have x: "unat x < 16" "nibbles r" "nibbles r2"
    using nibbles_convertByteToHex[of k1] nibbles_convertByteToHex[of k2] assms(4,5) by auto
  have vp: "0 < slen vp"
    using assms(3) x(1) by (auto simp: trie_rep_def list_all_length nth_list_update)
  have "pentry ?T (convertByteToHex k1) = Some (vp, True)"
    using x assms(4) by simp
  then have "map_option (\<lambda>(v, d). (CalculateKeyValueHash h (Some k1) v, d)) (M k1) = Some (vp, True)"
    unfolding hashed_trie.trie_rep_entry[OF H assms(3,7)] .
  then obtain v where v: "M k1 = Some (v, True)" "vp = CalculateKeyValueHash h (Some k1) v"
    by auto
  have get: "MPTrie_Get (store_ops c db) t k1 = Inr None"
    using hashed_trie.Get_refines[OF H assms(3,7)] v by (simp add: visible_def)
  obtain t' T' M' where u: "MPTrie_Update (store_ops c db) h t k2 value = (t', Inr ())"
      "pupdate ?T (convertByteToHex k2) (CalculateKeyValueHash h (Some k2) value) False = Inr T'"
      "trie_rep (store_ops c db) h L t' T' M'" "others_kept M k2 M'"
    using hashed_trie.Update_refines[OF H assms(3,8-10)] by blast
  have T': "T' = PBranch (pchildren[unat x := split_val r vp r2 (CalculateKeyValueHash h (Some k2) value)]) None False"
    using u(2) assms(5,6) x by auto
  have "pentry T' (convertByteToHex k1) = Some (vp, False)"
    unfolding T' assms(4)
    using x assms(6) vp pentry_split_val[of r r2 vp "CalculateKeyValueHash h (Some k2) value" r]
      hashed_trie.slen_KVH[OF H] by simp
  then have "map_option (\<lambda>(v, d). (CalculateKeyValueHash h (Some k1) v, d)) (M' k1) = Some (vp, False)"
    unfolding hashed_trie.trie_rep_entry[OF H u(3) assms(7)] .
  moreover have "k1 \<noteq> k2"
    using assms(4-6) by auto
  ultimately have "M' k1 = Some (v, False)"
    using u(4) v(1) unfolding others_kept_def by fastforce
  then show ?thesis
    using hashed_trie.Get_refines[OF H u(3) assms(7)] u(1) get v by (auto simp: visible_def)
qed

theorem deleted_key_returns_witness:
  "\<exists>t t'. MPTrie_Get (store_ops pb_codec mem_ldb) t [0x12] = Inr None
    \<and> MPTrie_Update (store_ops pb_codec mem_ldb) checksum t [0x13] (Some [8]) = (t', Inr ())
    \<and> MPTrie_Get (store_ops pb_codec mem_ldb) t' [0x12] = Inr (Some [7])"
proof -
  let ?vp = "CalculateKeyValueHash checksum (Some [0x12]) (Some [7])"
  let ?T = "PBranch (pchildren[unat (1 :: byte) := PVal [2] ?vp True]) None False"
  obtain t where t: "trie_rep (store_ops pb_codec mem_ldb) checksum 1 t tree1 [[0x12] \<mapsto> (Some [7], False)]"
    using trie1_exists by blast
  have safe: "update_safe checksum tree1 [0x12] ?vp True"
    by code_simp
  have "pupdate tree1 (convertByteToHex [0x12]) ?vp True = Inr ?T"
    by code_simp
  then obtain t1 where t1: "trie_rep (store_ops pb_codec mem_ldb) checksum 1 t1 ?T [[0x12] \<mapsto> (Some [7], True)]"
    using hashed_trie.Delete_refines[OF concrete_trie t _ _ safe] by auto
  have "CalculateKeyValueHash checksum (Some [0x12]) (Some [7]) \<noteq> CalculateKeyValueHash checksum (Some [0x13]) (Some [8])"
    by code_simp
  then have vs: "value_safe checksum [[0x12] \<mapsto> (Some [7], True)] [0x13] (Some [8])"
    by (auto simp: value_safe_def split: if_splits)
  have us: "update_safe checksum ?T [0x13] (CalculateKeyValueHash checksum (Some [0x13]) (Some [8])) False"
    by code_simp
  have "convertByteToHex [0x12] = 1 # [2]" "convertByteToHex [0x13] = 1 # [3]"
    by code_simp+
  from deleted_key_returns[OF pb.node_serialization_axioms checksum.fixed_digest_axioms t1 this _ _ _ us vs]
  show ?thesis
    by auto
qed

text \<open>A run of the trie that writes the given keys and values from an empty store.\<close>

fun run_updates :: "memdb Store MPTrie \<Rightarrow> (bytes \<times> slice) list \<Rightarrow> memdb Store MPTrie res" where
  "run_updates t [] = Inr t"
| "run_updates t ((k, v) # kvs) =
     (case MPTrie_Update (store_ops pb_codec mem_ldb) checksum t k v of
        (t', Inr _) \<Rightarrow> run_updates t' kvs
      | (_, Inl e) \<Rightarrow> Inl e)"

text \<open>
  With keys of different lengths the lookup is wrong: after writing 0x1234 and 0x1356 and
  nothing else, reading the key 0x12, a proper prefix of the first, returns the value of 0x1234:
  the path stops when the key is used up without comparing it with the key of the value node.
\<close>

theorem prefix_key_reads_other_value:
  "rbind (snd (NewTrie (store_ops pb_codec mem_ldb) checksum None (openExistingStore False RBT.empty)))
     (\<lambda>t. rbind (run_updates t [([0x12, 0x34], Some [7]), ([0x13, 0x56], Some [8])])
     (\<lambda>t. MPTrie_Get (store_ops pb_codec mem_ldb) t [0x12])) = Inr (Some [7])"
  by code_simp

end
