(* ===== verification/Types.thy ===== *)
theory Types
  imports Orion_Prelude
begin

text \<open>
  The messages of \<^verbatim>\<open>protos/block_and_transaction.proto\<close> and \<^verbatim>\<open>protos/configuration.proto\<close> as the
  server's Go structs have them. A pointer that the code tests for nil is an option; a map is an
  association list in iteration order; an enum field is an integer, because a decoded message may
  hold any number there.
\<close>

section \<open>Versions, access control, metadata\<close>

record Version =
  BlockNum :: "64 word"
  TxNum :: "64 word"

record AccessControl =
  ReadUsers :: "(string, bool) gomap"
  ReadWriteUsers :: "(string, bool) gomap"
  SignPolicyForWrite :: int

definition AccessControl_ANY :: int where "AccessControl_ANY = 0"
definition AccessControl_ALL :: int where "AccessControl_ALL = 1"

record Metadata =
  MVersion :: "Version option"
  MAccessControl :: "AccessControl option"

definition GetAccessControl :: "Metadata option \<Rightarrow> AccessControl option" where
  "GetAccessControl m = (case m of None \<Rightarrow> None | Some md \<Rightarrow> MAccessControl md)"

definition Metadata_GetVersion :: "Metadata option \<Rightarrow> Version option" where
  "Metadata_GetVersion m = (case m of None \<Rightarrow> None | Some md \<Rightarrow> MVersion md)"

section \<open>Transactions\<close>

record DataRead =
  RKey :: string
  RVersion :: "Version option"

record DataWrite =
  WKey :: string
  WValue :: slice
  WAcl :: "AccessControl option"

record DataDelete =
  DKey :: string

record DBOperation =
  DbName :: string
  DataReads :: "DataRead list"
  DataWrites :: "DataWrite option list"
  DataDeletes :: "DataDelete option list"

record DataTx =
  MustSignUserIds :: "string list"
  DTxId :: string
  DbOperations :: "DBOperation list"

record DataTxEnvelope =
  DPayload :: DataTx
  Signatures :: "(string, slice) gomap"

record Privilege =
  DbPermission :: "(string, int) gomap"
  Admin :: bool

definition Privilege_Read :: int where "Privilege_Read = 0"
definition Privilege_ReadWrite :: int where "Privilege_ReadWrite = 1"

record User =
  UId :: string
  UCertificate :: slice
  UPrivilege :: "Privilege option"

record UserRead =
  URUserId :: string
  URVersion :: "Version option"

record UserWrite =
  UWUser :: "User option"
  UWAcl :: "AccessControl option"

record UserDelete =
  UDUserId :: string

record UserAdministrationTx =
  UTUserId :: string
  UTxId :: string
  UserReads :: "UserRead list"
  UserWrites :: "UserWrite option list"
  UserDeletes :: "UserDelete option list"

record UserAdministrationTxEnvelope =
  UPayload :: UserAdministrationTx
  USignature :: slice

record DBIndex =
  AttributeAndType :: "(string, int) gomap"

record DBAdministrationTx =
  DAUserId :: string
  DATxId :: string
  CreateDbs :: "string list"
  DeleteDbs :: "string list"
  DbsIndex :: "(string, DBIndex option) gomap"

record DBAdministrationTxEnvelope =
  DAPayload :: DBAdministrationTx
  DASignature :: slice

section \<open>Cluster configuration\<close>

record NodeConfig =
  NId :: string
  NAddress :: string
  NPort :: "32 word"
  NCertificate :: slice

record AdminEntry =
  AId :: string
  ACertificate :: slice

record CAConfig =
  Roots :: "bytes list"
  Intermediates :: "bytes list"

record PeerConfig =
  NodeId :: string
  RaftId :: "64 word"
  PeerHost :: string
  PeerPort :: "32 word"

record RaftConfig =
  TickInterval :: string
  ElectionTicks :: "32 word"
  HeartbeatTicks :: "32 word"
  MaxInflightBlocks :: "32 word"
  SnapshotIntervalSize :: "64 word"
  MaxRaftId :: "64 word"

record ConsensusConfig =
  Algorithm :: string
  Members :: "PeerConfig option list"
  Observers :: "PeerConfig option list"
  RaftConf :: "RaftConfig option"

record LedgerConfig =
  StateMerklePatriciaTrieDisabled :: bool

record ClusterConfig =
  Nodes :: "NodeConfig option list"
  Admins :: "AdminEntry option list"
  CertAuthConfig :: "CAConfig option"
  ConsensusConf :: "ConsensusConfig option"
  LedgerConf :: "LedgerConfig option"

record ConfigTx =
  CUserId :: string
  CTxId :: string
  ReadOldConfigVersion :: "Version option"
  NewConfig :: "ClusterConfig option"

record ConfigTxEnvelope =
  CPayload :: ConfigTx
  CSignature :: slice

section \<open>Blocks\<close>

datatype Flag =
    VALID
  | INVALID_MVCC_CONFLICT_WITHIN_BLOCK
  | INVALID_MVCC_CONFLICT_WITH_COMMITTED_STATE
  | INVALID_DATABASE_DOES_NOT_EXIST
  | INVALID_NO_PERMISSION
  | INVALID_INCORRECT_ENTRIES
  | INVALID_UNAUTHORISED
  | INVALID_MISSING_SIGNATURE

record ValidationInfo =
  VFlag :: Flag
  ReasonIfInvalid :: string

record BlockHeaderBase =
  Number :: "64 word"
  PreviousBaseHeaderHash :: slice
  LastCommittedBlockHash :: slice
  LastCommittedBlockNum :: "64 word"

record BlockHeader =
  BaseHeader :: BlockHeaderBase
  SkipchainHashes :: "slice list"
  TxMerkleTreeRootHash :: slice
  StateMerkleTreeRootHash :: slice
  HValidationInfo :: "ValidationInfo list"

datatype Payload =
    Block_DataTxEnvelopes "DataTxEnvelope list"
  | Block_ConfigTxEnvelope ConfigTxEnvelope
  | Block_DbAdministrationTxEnvelope DBAdministrationTxEnvelope
  | Block_UserAdministrationTxEnvelope UserAdministrationTxEnvelope

record ConsensusMetadata =
  RaftTerm :: "64 word"
  RaftIndex :: "64 word"

record Block =
  Header :: BlockHeader
  BPayload :: "Payload option"
  BConsensusMetadata :: "ConsensusMetadata option"

abbreviation block_number :: "Block \<Rightarrow> 64 word" where
  "block_number b \<equiv> Number (BaseHeader (Header b))"

definition valid_info :: ValidationInfo where
  "valid_info = \<lparr>VFlag = VALID, ReasonIfInvalid = ''''\<rparr>"

definition invalid :: "Flag \<Rightarrow> string \<Rightarrow> ValidationInfo" where
  "invalid f r = \<lparr>VFlag = f, ReasonIfInvalid = r\<rparr>"

lemma flag_simps [simp]: "VFlag valid_info = VALID" "VFlag (invalid f r) = f"
  by (simp_all add: valid_info_def invalid_def)

text \<open>Sequencing of checks: a check that errors or does not say valid ends the sequence.\<close>

definition andThen :: "ValidationInfo res \<Rightarrow> ValidationInfo res \<Rightarrow> ValidationInfo res" where
  "andThen r next =
     (case r of Inl e \<Rightarrow> Inl e | Inr v \<Rightarrow> if VFlag v \<noteq> VALID then Inr v else next)"

lemma andThen_simps [simp, go_simps]:
  "andThen (Inl e) n = Inl e"
  "andThen (Inr valid_info) n = n"
  by (simp_all add: andThen_def)

text \<open>A result that says valid.\<close>

definition passes :: "ValidationInfo res \<Rightarrow> bool" where
  "passes r \<longleftrightarrow> (\<exists>v. r = Inr v \<and> VFlag v = VALID)"

lemma passes_simps [simp]:
  "\<not> passes (Inl e)" "passes (Inr v) \<longleftrightarrow> VFlag v = VALID"
  by (simp_all add: passes_def)

lemma passes_andThen [simp]: "passes (andThen r n) \<longleftrightarrow> passes r \<and> passes n"
  by (auto simp: andThen_def passes_def split: sum.splits)

lemma passes_rbind: "passes (rbind m f) \<longleftrightarrow> (\<exists>x. m = Inr x \<and> passes (f x))"
  by (cases m) auto

lemma passes_if: "passes (if c then a else b) \<longleftrightarrow> (if c then passes a else passes b)"
  by simp

text \<open>The error branch of a call: \<open>h\<close> sees a returned error, a panic passes through.\<close>

definition handle :: "'a res \<Rightarrow> (go_error \<Rightarrow> 'b res) \<Rightarrow> ('a \<Rightarrow> 'b res) \<Rightarrow> 'b res" where
  "handle m h k = (case m of Inl e \<Rightarrow> if is_panic e then Inl e else h e | Inr x \<Rightarrow> k x)"

lemma handle_simps [simp, go_simps]:
  "handle (Inl e) h k = (if is_panic e then Inl e else h e)"
  "handle (Inr x) h k = k x"
  by (simp_all add: handle_def)

definition is_notfound :: "go_error \<Rightarrow> bool" where
  "is_notfound e = (case e of NotFoundErr _ \<Rightarrow> True | _ \<Rightarrow> False)"

lemma is_notfound_not_panic: "is_notfound e \<Longrightarrow> \<not> is_panic e"
  by (cases e) (simp_all add: is_notfound_def is_panic_def)

text \<open>A loop over a list that returns at the first element that errors or is not valid.\<close>

fun checkAll :: "('a \<Rightarrow> ValidationInfo res) \<Rightarrow> 'a list \<Rightarrow> ValidationInfo res" where
  "checkAll f [] = Inr valid_info"
| "checkAll f (x # xs) = andThen (f x) (checkAll f xs)"

lemma passes_checkAll [simp]: "passes (checkAll f xs) \<longleftrightarrow> (\<forall>x \<in> set xs. passes (f x))"
  by (induction xs) auto

text \<open>A loop that keeps the elements for which a fallible test says true.\<close>

fun filterRes :: "('a \<Rightarrow> bool res) \<Rightarrow> 'a list \<Rightarrow> 'a list res" where
  "filterRes f [] = Inr []"
| "filterRes f (x # xs) =
     rbind (f x) (\<lambda>b. rbind (filterRes f xs) (\<lambda>ys. Inr (if b then x # ys else ys)))"

lemma filterRes_iff:
  "filterRes f xs = Inr ys \<longleftrightarrow> (\<forall>x \<in> set xs. \<exists>b. f x = Inr b) \<and> ys = filter (\<lambda>x. f x = Inr True) xs"
proof (induction xs arbitrary: ys)
  case (Cons x xs)
  then show ?case
    by (cases "f x") (auto simp: rbind_Inr_iff)
qed auto

text \<open>The entries of a list of pointers after the nil entries have been ruled out.\<close>

definition somes :: "'a option list \<Rightarrow> 'a list" where
  "somes xs = List.map_filter id xs"

lemma somes_simps [simp]:
  "somes [] = []" "somes (None # xs) = somes xs" "somes (Some x # xs) = x # somes xs"
  by (simp_all add: somes_def List.map_filter_def)

lemma set_somes [simp]: "x \<in> set (somes xs) \<longleftrightarrow> Some x \<in> set xs"
  by (induction xs) (auto simp: somes_def List.map_filter_def)

end
