(* ===== verification/Worldstate.thy ===== *)
theory Worldstate
  imports Types Varint Mem_DB "HOL-Library.Char_ord"
begin

text \<open>
  The world state: the interface of \<^verbatim>\<open>internal/worldstate/db.go\<close> and its implementation in
  \<^verbatim>\<open>internal/worldstate/leveldb\<close>. The interface is a record of query functions, which the validators
  and the identity queries take as an argument, so that they can be run against any answer the
  database may give. The implementation keeps one key-value file per database; the files, the
  serialisation of values and the file system are parameters.

  Shown: a committed write is read back with its value and metadata, a committed delete is absent,
  databases not named in a commit do not change, the height is the number of the last committed
  block, and database names stay free of the separators used elsewhere.
\<close>

section \<open>The interface\<close>

definition UsersDBName :: string where "UsersDBName = ''_users''"
definition DatabasesDBName :: string where "DatabasesDBName = ''_dbs''"
definition ConfigDBName :: string where "ConfigDBName = ''_config''"
definition MetadataDBName :: string where "MetadataDBName = ''_metadata''"
definition DefaultDBName :: string where "DefaultDBName = ''bdb''"
definition ConfigKey :: string where "ConfigKey = ''config''"

definition SystemDBs :: "string list" where
  "SystemDBs = [UsersDBName, DatabasesDBName, ConfigDBName, MetadataDBName]"

definition IsSystemDB :: "string \<Rightarrow> bool" where
  "IsSystemDB dbName \<longleftrightarrow> dbName = UsersDBName \<or> dbName = DatabasesDBName
     \<or> dbName = ConfigDBName \<or> dbName = MetadataDBName"

definition IsDefaultWorldStateDB :: "string \<Rightarrow> bool" where
  "IsDefaultWorldStateDB dbName \<longleftrightarrow> dbName = DefaultDBName"

record DB =
  Exist :: "string \<Rightarrow> bool"
  ListDBs :: "string list"
  DB_Get :: "string \<Rightarrow> string \<Rightarrow> (slice \<times> Metadata option) res"
  GetVersion :: "string \<Rightarrow> string \<Rightarrow> Version option res"
  GetACL :: "string \<Rightarrow> string \<Rightarrow> AccessControl option res"
  Has :: "string \<Rightarrow> string \<Rightarrow> bool res"
  GetConfig :: "(ClusterConfig \<times> Metadata option) res"
  GetIndexDefinition :: "string \<Rightarrow> (slice \<times> Metadata option) res"
  GetIterator :: "string \<Rightarrow> string \<Rightarrow> string \<Rightarrow> (bytes \<times> bytes) list res"
  DB_Height :: "64 word res"
  ValidDBName :: "string \<Rightarrow> bool"

record KVWithMetadata =
  KVKey :: string
  KVValue :: slice
  KVMetadata :: "Metadata option"

record DBUpdates =
  Writes :: "KVWithMetadata list"
  Deletes :: "string list"

section \<open>The implementation\<close>

text \<open>Serialisation of stored values (\<^verbatim>\<open>golang/protobuf\<close>).\<close>

record state_codec =
  MarshalValueWithMetadata :: "slice \<Rightarrow> Metadata option \<Rightarrow> bytes res"
  UnmarshalValueWithMetadata :: "bytes \<Rightarrow> (slice \<times> Metadata option) res"

text \<open>Opening, closing and removing the file of a database.\<close>

record 'd files =
  OpenFile :: "string \<Rightarrow> 'd res"
  CloseFile :: "'d \<Rightarrow> unit res"
  RemoveFile :: "string \<Rightarrow> unit res"

type_synonym 'd LevelDB = "(string, 'd) gomap"

definition lastCommittedBlockNumberKey :: bytes where
  "lastCommittedBlockNumberKey = bytes_of_string ''lastCommittedBlockNumber''"

definition preCreateDBs :: "string list" where
  "preCreateDBs = SystemDBs @ [DefaultDBName]"

definition allowedCharInDBName :: "char \<Rightarrow> bool" where
  "allowedCharInDBName c \<longleftrightarrow>
     (CHR ''0'' \<le> c \<and> c \<le> CHR ''9'') \<or> (CHR ''a'' \<le> c \<and> c \<le> CHR ''z'') \<or> (CHR ''A'' \<le> c \<and> c \<le> CHR ''Z'')
     \<or> c = CHR ''_'' \<or> c = CHR ''-'' \<or> c = CHR ''.''"

definition LevelDB_ValidDBName :: "string \<Rightarrow> bool" where
  "LevelDB_ValidDBName dbName \<longleftrightarrow> dbName \<noteq> [] \<and> list_all allowedCharInDBName dbName"

definition LevelDB_Exist :: "'d LevelDB \<Rightarrow> string \<Rightarrow> bool" where
  "LevelDB_Exist l dbName \<longleftrightarrow> map_of l dbName \<noteq> None"

definition LevelDB_ListDBs :: "'d LevelDB \<Rightarrow> string list" where
  "LevelDB_ListDBs l = filter (\<lambda>name. name \<notin> set preCreateDBs) (map fst l)"

definition LevelDB_Height :: "'d ldb \<Rightarrow> 'd LevelDB \<Rightarrow> 64 word res" where
  "LevelDB_Height ops l =
     (case map_of l MetadataDBName of
        None \<Rightarrow> Inl (Err ''unable to retrieve the state database height due to missing metadataDB'')
      | Some d \<Rightarrow>
          (case ldb_Get ops d lastCommittedBlockNumberKey of
             Inl LdbErrNotFound \<Rightarrow> Inr 0
           | Inl e \<Rightarrow> Inl (wrap_error ''error while retrieving the state database height'' e)
           | Inr b \<Rightarrow> wrap ''error while decoding the stored height'' (ReadUvarint b)))"

definition LevelDB_Get ::
  "'d ldb \<Rightarrow> state_codec \<Rightarrow> 'd LevelDB \<Rightarrow> string \<Rightarrow> string \<Rightarrow> (slice \<times> Metadata option) res" where
  "LevelDB_Get ops sc l dbName key =
     (case map_of l dbName of
        None \<Rightarrow> Inl (DBNotFoundErr dbName)
      | Some d \<Rightarrow>
          (case ldb_Get ops d (bytes_of_string key) of
             Inl LdbErrNotFound \<Rightarrow> Inr (None, None)
           | Inl e \<Rightarrow> Inl (wrap_error (''failed to retrieve leveldb key ['' @ key @ ''] from database '' @ dbName) e)
           | Inr dbval \<Rightarrow> UnmarshalValueWithMetadata sc dbval))"

definition LevelDB_GetVersion ::
  "'d ldb \<Rightarrow> state_codec \<Rightarrow> 'd LevelDB \<Rightarrow> string \<Rightarrow> string \<Rightarrow> Version option res" where
  "LevelDB_GetVersion ops sc l dbName key =
     rbind (LevelDB_Get ops sc l dbName key) (\<lambda>(_, metadata). Inr (Metadata_GetVersion metadata))"

definition LevelDB_GetACL ::
  "'d ldb \<Rightarrow> state_codec \<Rightarrow> 'd LevelDB \<Rightarrow> string \<Rightarrow> string \<Rightarrow> AccessControl option res" where
  "LevelDB_GetACL ops sc l dbName key =
     rbind (LevelDB_Get ops sc l dbName key) (\<lambda>(_, metadata). Inr (GetAccessControl metadata))"

definition LevelDB_Has :: "'d ldb \<Rightarrow> 'd LevelDB \<Rightarrow> string \<Rightarrow> string \<Rightarrow> bool res" where
  "LevelDB_Has ops l dbName key =
     (case map_of l dbName of
        None \<Rightarrow> Inl (Panic ''nil pointer dereference'')
      | Some d \<Rightarrow>
          (case ldb_Get ops d (bytes_of_string key) of
             Inl LdbErrNotFound \<Rightarrow> Inr False
           | Inl e \<Rightarrow> Inl e
           | Inr _ \<Rightarrow> Inr True))"

definition LevelDB_GetConfig ::
  "'d ldb \<Rightarrow> state_codec \<Rightarrow> (bytes \<Rightarrow> ClusterConfig res) \<Rightarrow> 'd LevelDB
   \<Rightarrow> (ClusterConfig \<times> Metadata option) res" where
  "LevelDB_GetConfig ops sc unmarshalConfig l =
     rbind (LevelDB_Get ops sc l ConfigDBName ConfigKey) (\<lambda>(configSerialized, metadata).
     rbind (wrap ''error while unmarshaling committed cluster configuration''
              (unmarshalConfig (content configSerialized))) (\<lambda>config.
     Inr (config, metadata)))"

definition LevelDB_GetIndexDefinition ::
  "'d ldb \<Rightarrow> state_codec \<Rightarrow> 'd LevelDB \<Rightarrow> string \<Rightarrow> (slice \<times> Metadata option) res" where
  "LevelDB_GetIndexDefinition ops sc l dbName = LevelDB_Get ops sc l DatabasesDBName dbName"

definition LevelDB_GetIterator ::
  "'d ldb \<Rightarrow> 'd LevelDB \<Rightarrow> string \<Rightarrow> string \<Rightarrow> string \<Rightarrow> (bytes \<times> bytes) list res" where
  "LevelDB_GetIterator ops l dbName startKey endKey =
     (case map_of l dbName of
        None \<Rightarrow> Inl (Err (''database '' @ dbName @ '' does not exist''))
      | Some d \<Rightarrow> Inr (ldb_Range ops d (bytes_of_string startKey) (bytes_of_string endKey)))"

definition LevelDB_DB ::
  "'d ldb \<Rightarrow> state_codec \<Rightarrow> (bytes \<Rightarrow> ClusterConfig res) \<Rightarrow> 'd LevelDB \<Rightarrow> DB" where
  "LevelDB_DB ops sc unmarshalConfig l =
     \<lparr>Exist = LevelDB_Exist l, ListDBs = LevelDB_ListDBs l, DB_Get = LevelDB_Get ops sc l,
      GetVersion = LevelDB_GetVersion ops sc l, GetACL = LevelDB_GetACL ops sc l,
      Has = LevelDB_Has ops l, GetConfig = LevelDB_GetConfig ops sc unmarshalConfig l,
      GetIndexDefinition = LevelDB_GetIndexDefinition ops sc l,
      GetIterator = LevelDB_GetIterator ops l, DB_Height = LevelDB_Height ops l,
      ValidDBName = LevelDB_ValidDBName\<rparr>"

text \<open>Creating and deleting databases.\<close>

definition ldb_create :: "'d files \<Rightarrow> 'd LevelDB \<Rightarrow> string \<Rightarrow> 'd LevelDB \<times> unit res" where
  "ldb_create fs l dbName =
     (if map_of l dbName \<noteq> None then (l, Inr ())
      else case OpenFile fs dbName of
             Inl e \<Rightarrow> (l, Inl (wrap_error (''failed to open leveldb file for database '' @ dbName) e))
           | Inr d \<Rightarrow> (gomap_put l dbName d, Inr ()))"

definition ldb_delete :: "'d files \<Rightarrow> 'd LevelDB \<Rightarrow> string \<Rightarrow> 'd LevelDB \<times> unit res" where
  "ldb_delete fs l dbName =
     (case map_of l dbName of
        None \<Rightarrow> (l, Inr ())
      | Some d \<Rightarrow>
          (case CloseFile fs d of
             Inl e \<Rightarrow> (l, Inl (wrap_error (''error while closing the database ['' @ dbName @ ''] before delete'') e))
           | Inr _ \<Rightarrow>
               (gomap_delete l dbName,
                wrap (''error while deleting database ['' @ dbName @ '']'') (RemoveFile fs dbName))))"

fun forEach :: "('s \<Rightarrow> 'a \<Rightarrow> 's \<times> unit res) \<Rightarrow> 's \<Rightarrow> 'a list \<Rightarrow> 's \<times> unit res" where
  "forEach f s [] = (s, Inr ())"
| "forEach f s (x # xs) = sbind (f s x) (\<lambda>s _. forEach f s xs)"

fun writeOps :: "state_codec \<Rightarrow> KVWithMetadata list \<Rightarrow> batch res" where
  "writeOps sc [] = Inr []"
| "writeOps sc (kv # kvs) =
     rbind (wrap ''failed to marshal the constructed dbValue''
              (MarshalValueWithMetadata sc (KVValue kv) (KVMetadata kv))) (\<lambda>dbval.
     rbind (writeOps sc kvs) (\<lambda>b. Inr (BPut (bytes_of_string (KVKey kv)) dbval # b)))"

definition commitToDB ::
  "'d ldb \<Rightarrow> state_codec \<Rightarrow> 'd files \<Rightarrow> 'd LevelDB \<Rightarrow> string \<Rightarrow> 'd \<Rightarrow> DBUpdates \<Rightarrow> 'd LevelDB \<times> unit res" where
  "commitToDB ops sc fs l dbName d updates =
     (case writeOps sc (Writes updates) of
        Inl e \<Rightarrow> (l, Inl e)
      | Inr ws \<Rightarrow>
          (case ldb_Write ops d (ws @ map (\<lambda>k. BDelete (bytes_of_string k)) (Deletes updates)) of
             (d', Inl e) \<Rightarrow>
               (gomap_put l dbName d', Inl (wrap_error (''error while writing an update batch to database ['' @ dbName @ '']'') e))
           | (d', Inr _) \<Rightarrow>
               let l = gomap_put l dbName d' in
               if dbName \<noteq> DatabasesDBName then (l, Inr ())
               else sbind (forEach (ldb_create fs) l (map KVKey (Writes updates))) (\<lambda>l _.
                    forEach (ldb_delete fs) l (Deletes updates))))"

fun commitAll ::
  "'d ldb \<Rightarrow> state_codec \<Rightarrow> 'd files \<Rightarrow> 'd LevelDB \<Rightarrow> (string, DBUpdates) gomap \<Rightarrow> 'd LevelDB \<times> unit res" where
  "commitAll ops sc fs l [] = (l, Inr ())"
| "commitAll ops sc fs l ((dbName, updates) # rest) =
     (case map_of l dbName of
        None \<Rightarrow> (l, Inl (Err (''database '' @ dbName @ '' does not exist'')))
      | Some d \<Rightarrow> sbind (commitToDB ops sc fs l dbName d updates) (\<lambda>l _. commitAll ops sc fs l rest))"

definition LevelDB_Commit ::
  "'d ldb \<Rightarrow> state_codec \<Rightarrow> 'd files \<Rightarrow> 'd LevelDB \<Rightarrow> (string, DBUpdates) gomap \<Rightarrow> 64 word
   \<Rightarrow> 'd LevelDB \<times> unit res" where
  "LevelDB_Commit ops sc fs l dbsUpdates blockNumber =
     sbind (commitAll ops sc fs l dbsUpdates) (\<lambda>l _.
     case map_of l MetadataDBName of
       None \<Rightarrow> (l, Inl (Err ''metadata database does not exist''))
     | Some d \<Rightarrow>
         (case ldb_Write ops d [BPut lastCommittedBlockNumberKey (PutUvarint blockNumber)] of
            (d', Inl e) \<Rightarrow>
              (gomap_put l MetadataDBName d',
               Inl (wrap_error ''error while storing the last committed block number to the metadataDB'' e))
          | (d', Inr _) \<Rightarrow> (gomap_put l MetadataDBName d', Inr ())))"

text \<open>A new instance creates the system databases and the default database.\<close>

definition openNewLevelDBInstance :: "'d files \<Rightarrow> 'd LevelDB \<times> unit res" where
  "openNewLevelDBInstance fs = forEach (ldb_create fs) [] preCreateDBs"

section \<open>What the world state relies on\<close>

text \<open>Access control lists and metadata that differ in map order only.\<close>

definition acl_eq :: "AccessControl \<Rightarrow> AccessControl \<Rightarrow> bool" where
  "acl_eq a b \<longleftrightarrow> map_of (ReadUsers a) = map_of (ReadUsers b)
     \<and> map_of (ReadWriteUsers a) = map_of (ReadWriteUsers b)
     \<and> SignPolicyForWrite a = SignPolicyForWrite b"

definition meta_eq :: "Metadata option \<Rightarrow> Metadata option \<Rightarrow> bool" where
  "meta_eq a b \<longleftrightarrow> rel_option (\<lambda>x y. MVersion x = MVersion y
     \<and> rel_option acl_eq (MAccessControl x) (MAccessControl y)) a b"

lemma meta_eq_version: "meta_eq a b \<Longrightarrow> Metadata_GetVersion a = Metadata_GetVersion b"
  by (cases a; cases b) (auto simp: meta_eq_def Metadata_GetVersion_def)

lemma meta_eq_refl [simp]: "meta_eq m m"
  by (cases m) (auto simp: meta_eq_def acl_eq_def option.rel_refl)

locale state_serialization =
  fixes sc :: state_codec
  assumes value_rt: "\<exists>b v' m'. MarshalValueWithMetadata sc v m = Inr b
        \<and> UnmarshalValueWithMetadata sc b = Inr (v', m') \<and> content v' = content v \<and> meta_eq m m'"

section \<open>Names\<close>

lemma ValidDBName_no_separator: "LevelDB_ValidDBName db \<Longrightarrow> CHR ''~'' \<notin> set db"
  by (auto simp: LevelDB_ValidDBName_def list_all_iff allowedCharInDBName_def less_eq_char_def)

lemma bytes_of_string_inj [simp]: "bytes_of_string a = bytes_of_string b \<longleftrightarrow> a = b"
proof
  assume "bytes_of_string a = bytes_of_string b"
  moreover have "inj (of_char :: char \<Rightarrow> byte)"
  proof (rule injI)
    fix c d :: char assume "(of_char c :: byte) = of_char d"
    then have "unat (of_char c :: byte) = unat (of_char d :: byte)"
      by simp
    moreover have "unat (of_char x :: byte) = of_char x" for x :: char
    proof -
      have "(of_char x :: byte) = of_nat (of_char x)"
        by (simp add: of_nat_of_char)
      moreover have "(of_char x :: nat) < 256"
        by (rule nat_of_char_less_256)
      ultimately show ?thesis
        by (metis unat_of_nat_byte)
    qed
    ultimately show "c = d"
      by simp
  qed
  ultimately show "a = b"
    by (simp add: bytes_of_string_def inj_map_eq_map)
qed simp

section \<open>Commit\<close>

definition update_batch :: "batch \<Rightarrow> DBUpdates \<Rightarrow> batch" where
  "update_batch ws u = ws @ map (\<lambda>k. BDelete (bytes_of_string k)) (Deletes u)"

lemma commitToDB_ok:
  assumes "commitToDB ops sc fs l db d u = (l', Inr ())" "db \<noteq> DatabasesDBName"
  shows "\<exists>ws d'. writeOps sc (Writes u) = Inr ws \<and> ldb_Write ops d (update_batch ws u) = (d', Inr ())
    \<and> l' = gomap_put l db d'"
  using assms by (auto simp: commitToDB_def update_batch_def Let_def split: sum.splits prod.splits)

lemma commitAll_ok:
  assumes "commitAll ops sc fs l ups = (l', Inr ())" "wf_gomap ups" "DatabasesDBName \<notin> fst ` set ups"
  shows "(x \<notin> fst ` set ups \<longrightarrow> map_of l' x = map_of l x)
    \<and> (\<forall>u. (x, u) \<in> set ups \<longrightarrow> (\<exists>d ws d'. map_of l x = Some d \<and> map_of l' x = Some d'
        \<and> writeOps sc (Writes u) = Inr ws \<and> ldb_Write ops d (update_batch ws u) = (d', Inr ())))"
  using assms
proof (induction ops sc fs l ups rule: commitAll.induct)
  case (2 ops sc fs l db u0 rest)
  obtain d where d: "map_of l db = Some d"
    using 2(2) by (auto split: option.splits)
  obtain l1 where l1: "commitToDB ops sc fs l db d u0 = (l1, Inr ())" "commitAll ops sc fs l1 rest = (l', Inr ())"
    using 2(2) d by (auto simp: sbind_Inr_iff)
  obtain ws d' where w: "writeOps sc (Writes u0) = Inr ws" "ldb_Write ops d (update_batch ws u0) = (d', Inr ())"
      "l1 = gomap_put l db d'"
    using commitToDB_ok[OF l1(1)] 2(4) by auto
  have ih: "wf_gomap rest" "DatabasesDBName \<notin> fst ` set rest" "db \<notin> fst ` set rest"
    using 2(3,4) by (auto simp: wf_gomap_def)
  note IH = 2(1)[OF d l1 ih(1,2)]
  show ?case
  proof (cases "x = db")
    case True
    then have "map_of l' x = Some d'" "\<forall>u. (x, u) \<in> set ((db, u0) # rest) \<longrightarrow> u = u0"
      using IH ih(3) w(3) by (auto simp: image_iff)
    then show ?thesis
      using True d w(1,2) by auto
  next
    case False
    then show ?thesis
      using IH w(3) by auto
  qed
qed auto

lemma writeOps_keys: "writeOps sc kvs = Inr ws \<Longrightarrow> map op_key ws = map (bytes_of_string \<circ> KVKey) kvs"
  by (induction sc kvs arbitrary: ws rule: writeOps.induct) (auto simp: rbind_Inr_iff)

lemma writeOps_mem:
  "writeOps sc kvs = Inr ws \<Longrightarrow> kv \<in> set kvs \<Longrightarrow>
   \<exists>b. MarshalValueWithMetadata sc (KVValue kv) (KVMetadata kv) = Inr b \<and> BPut (bytes_of_string (KVKey kv)) b \<in> set ws"
proof (induction kvs arbitrary: ws)
  case (Cons x kvs)
  obtain b ws' where b: "MarshalValueWithMetadata sc (KVValue x) (KVMetadata x) = Inr b"
      "writeOps sc kvs = Inr ws'" "ws = BPut (bytes_of_string (KVKey x)) b # ws'"
    using Cons.prems(1) by (auto simp: rbind_Inr_iff wrap_Inr_iff)
  then show ?case
    using Cons.IH[OF b(2)] Cons.prems(2) by (cases "kv = x") auto
qed simp

text \<open>The keys a commit touches in one database, and that no key occurs twice.\<close>

definition touched :: "DBUpdates \<Rightarrow> string list" where
  "touched u = map KVKey (Writes u) @ Deletes u"

lemma update_batch_keys:
  "writeOps sc (Writes u) = Inr ws \<Longrightarrow> map op_key (update_batch ws u) = map bytes_of_string (touched u)"
  using writeOps_keys[of sc "Writes u" ws] by (simp add: update_batch_def touched_def)

lemma distinct_bytes: "distinct (map bytes_of_string ks) \<longleftrightarrow> distinct ks"
  by (simp add: distinct_map inj_on_def)

lemma LevelDB_Commit_ok:
  assumes "LevelDB_Commit ops sc fs l ups n = (l', Inr ())"
  obtains l1 d d' where "commitAll ops sc fs l ups = (l1, Inr ())" "map_of l1 MetadataDBName = Some d"
    "ldb_Write ops d [BPut lastCommittedBlockNumberKey (PutUvarint n)] = (d', Inr ())"
    "l' = gomap_put l1 MetadataDBName d'"
  using assms unfolding LevelDB_Commit_def sbind_Inr_iff
  by (fastforce split: option.splits sum.splits prod.splits)

locale world_files = leveldb ops view + state_serialization sc
  for ops :: "'d ldb" and view sc
begin

lemma commit_db:
  assumes "LevelDB_Commit ops sc fs l ups n = (l', Inr ())" "wf_gomap ups"
    "DatabasesDBName \<notin> fst ` set ups" "MetadataDBName \<notin> fst ` set ups"
  shows "(x, u) \<in> set ups \<Longrightarrow> \<exists>d ws d'. map_of l x = Some d \<and> map_of l' x = Some d'
      \<and> writeOps sc (Writes u) = Inr ws \<and> ldb_Write ops d (update_batch ws u) = (d', Inr ())"
    and "x \<notin> fst ` set ups \<Longrightarrow> x \<noteq> MetadataDBName \<Longrightarrow> map_of l' x = map_of l x"
    and "\<exists>d d'. map_of l' MetadataDBName = Some d'
      \<and> ldb_Write ops d [BPut lastCommittedBlockNumberKey (PutUvarint n)] = (d', Inr ())"
proof -
  obtain l1 d d' where l1: "commitAll ops sc fs l ups = (l1, Inr ())" "map_of l1 MetadataDBName = Some d"
      "ldb_Write ops d [BPut lastCommittedBlockNumberKey (PutUvarint n)] = (d', Inr ())"
      "l' = gomap_put l1 MetadataDBName d'"
    using LevelDB_Commit_ok[OF assms(1)] by blast
  show "\<exists>d ws d'. map_of l x = Some d \<and> map_of l' x = Some d'
      \<and> writeOps sc (Writes u) = Inr ws \<and> ldb_Write ops d (update_batch ws u) = (d', Inr ())"
    if "(x, u) \<in> set ups"
    using commitAll_ok[OF l1(1) assms(2,3), of x] l1(4) that assms(4) by (auto simp: image_iff)
  show "map_of l' x = map_of l x" if "x \<notin> fst ` set ups" "x \<noteq> MetadataDBName"
    using commitAll_ok[OF l1(1) assms(2,3), of x] l1(4) that by simp
  show "\<exists>d d'. map_of l' MetadataDBName = Some d'
      \<and> ldb_Write ops d [BPut lastCommittedBlockNumberKey (PutUvarint n)] = (d', Inr ())"
    using l1 by auto
qed

lemma commit_write:
  assumes "LevelDB_Commit ops sc fs l ups n = (l', Inr ())" "wf_gomap ups"
    "DatabasesDBName \<notin> fst ` set ups" "MetadataDBName \<notin> fst ` set ups"
    "(x, u) \<in> set ups" "distinct (touched u)" "kv \<in> set (Writes u)"
  shows "\<exists>v m. LevelDB_Get ops sc l' x (KVKey kv) = Inr (v, m) \<and> content v = content (KVValue kv)
    \<and> meta_eq (KVMetadata kv) m"
proof -
  obtain d ws d' where d: "map_of l' x = Some d'" "writeOps sc (Writes u) = Inr ws"
      "ldb_Write ops d (update_batch ws u) = (d', Inr ())"
    using commit_db(1)[OF assms(1-5)] by blast
  obtain b where b: "MarshalValueWithMetadata sc (KVValue kv) (KVMetadata kv) = Inr b"
      "BPut (bytes_of_string (KVKey kv)) b \<in> set ws"
    using writeOps_mem[OF d(2) assms(7)] by blast
  have "distinct (map op_key (update_batch ws u))"
    using assms(6) unfolding update_batch_keys[OF d(2)] distinct_bytes .
  moreover have "BPut (bytes_of_string (KVKey kv)) b \<in> set (update_batch ws u)"
    using b(2) by (simp add: update_batch_def)
  ultimately have "ldb_Get ops d' (bytes_of_string (KVKey kv)) = Inr b"
    using write_get_put[OF d(3)] by blast
  then show ?thesis
    using d(1) b(1) value_rt[of "KVValue kv" "KVMetadata kv"] by (auto simp: LevelDB_Get_def)
qed

lemma commit_delete:
  assumes "LevelDB_Commit ops sc fs l ups n = (l', Inr ())" "wf_gomap ups"
    "DatabasesDBName \<notin> fst ` set ups" "MetadataDBName \<notin> fst ` set ups"
    "(x, u) \<in> set ups" "distinct (touched u)" "k \<in> set (Deletes u)"
  shows "LevelDB_Get ops sc l' x k = Inr (None, None)"
proof -
  obtain d ws d' where d: "map_of l' x = Some d'" "writeOps sc (Writes u) = Inr ws"
      "ldb_Write ops d (update_batch ws u) = (d', Inr ())"
    using commit_db(1)[OF assms(1-5)] by blast
  have "distinct (map op_key (update_batch ws u))"
    using assms(6) unfolding update_batch_keys[OF d(2)] distinct_bytes .
  moreover have "BDelete (bytes_of_string k) \<in> set (update_batch ws u)"
    using assms(7) by (simp add: update_batch_def)
  ultimately have "view d' (bytes_of_string k) = None"
    using write_ok[OF d(3)] apply_batch_distinct[of "update_batch ws u" "BDelete (bytes_of_string k)" "view d"] by simp
  then show ?thesis
    using d(1) by (simp add: LevelDB_Get_def get_view)
qed

lemma commit_other:
  assumes "LevelDB_Commit ops sc fs l ups n = (l', Inr ())" "wf_gomap ups"
    "DatabasesDBName \<notin> fst ` set ups" "MetadataDBName \<notin> fst ` set ups" "x \<noteq> MetadataDBName"
    "\<forall>u. (x, u) \<in> set ups \<longrightarrow> k \<notin> set (touched u)"
  shows "LevelDB_Get ops sc l' x k = LevelDB_Get ops sc l x k"
proof (cases "x \<in> fst ` set ups")
  case True
  then obtain u where u: "(x, u) \<in> set ups"
    by auto
  obtain d ws d' where d: "map_of l x = Some d" "map_of l' x = Some d'" "writeOps sc (Writes u) = Inr ws"
      "ldb_Write ops d (update_batch ws u) = (d', Inr ())"
    using commit_db(1)[OF assms(1-4) u] by blast
  have "op_key ` set (update_batch ws u) = bytes_of_string ` set (touched u)"
    by (metis list.set_map update_batch_keys[OF d(3)])
  then have "bytes_of_string k \<notin> op_key ` set (update_batch ws u)"
    using assms(6) u by auto
  then show ?thesis
    using d write_get_other[OF d(4)] by (simp add: LevelDB_Get_def)
next
  case False
  then show ?thesis
    using commit_db(2)[OF assms(1-4) _ assms(5)] by (simp add: LevelDB_Get_def)
qed

lemma commit_height:
  assumes "LevelDB_Commit ops sc fs l ups n = (l', Inr ())" "wf_gomap ups"
    "DatabasesDBName \<notin> fst ` set ups" "MetadataDBName \<notin> fst ` set ups"
  shows "LevelDB_Height ops l' = Inr n"
proof -
  obtain d d' where d: "map_of l' MetadataDBName = Some d'"
      "ldb_Write ops d [BPut lastCommittedBlockNumberKey (PutUvarint n)] = (d', Inr ())"
    using commit_db(3)[OF assms] by blast
  have "ldb_Get ops d' lastCommittedBlockNumberKey = Inr (PutUvarint n)"
    using write_get_put[OF d(2), of lastCommittedBlockNumberKey "PutUvarint n"] by simp
  then show ?thesis
    using d(1) by (simp add: LevelDB_Height_def ReadUvarint_PutUvarint)
qed

end

end
