(* ===== verification/State_Codec.thy ===== *)
theory State_Codec
  imports Worldstate Pb_Wire
begin

text \<open>
  An executable serialisation of stored values with their metadata, in the wire format of the
  messages \<open>ValueWithMetadata\<close>, \<open>Metadata\<close>, \<open>Version\<close> and \<open>AccessControl\<close>. It meets the contract
  \<open>state_serialization\<close>; together with the file of \<open>Mem_DB\<close> it runs the world state.
\<close>

definition submsg :: "nat \<Rightarrow> pb_field list \<Rightarrow> bytes option" where
  "submsg k fs = (case rep_bytes k fs of [] \<Rightarrow> None | bs \<Rightarrow> Some (last bs))"

definition decode_with :: "(pb_field list \<Rightarrow> 'a res) \<Rightarrow> bytes \<Rightarrow> 'a res" where
  "decode_with f b = rbind (pb_decode b) f"

lemma decode_with_encode:
  "\<forall>f \<in> set fs. field_no f < 16 \<Longrightarrow> decode_with g (pb_encode fs) = g fs"
  by (simp add: decode_with_def pb_decode_encode)

text \<open>An optional sub-message.\<close>

definition opt_msg :: "(bytes \<Rightarrow> 'a res) \<Rightarrow> bytes option \<Rightarrow> 'a option res" where
  "opt_msg f m = (case m of None \<Rightarrow> Inr None | Some b \<Rightarrow> rbind (f b) (\<lambda>x. Inr (Some x)))"

fun map_res :: "('a \<Rightarrow> 'b res) \<Rightarrow> 'a list \<Rightarrow> 'b list res" where
  "map_res f [] = Inr []"
| "map_res f (x # xs) = rbind (f x) (\<lambda>y. rbind (map_res f xs) (\<lambda>ys. Inr (y # ys)))"

lemma map_res_map: "(\<And>x. x \<in> set xs \<Longrightarrow> f (g x) = Inr x) \<Longrightarrow> map_res f (map g xs) = Inr xs"
  by (induction xs) auto

section \<open>Versions\<close>

definition version_fields :: "Version \<Rightarrow> pb_field list" where
  "version_fields v = [PVarint 1 (unat (BlockNum v)), PVarint 2 (unat (TxNum v))]"

definition decode_version :: "bytes \<Rightarrow> Version res" where
  "decode_version = decode_with (\<lambda>fs.
     Inr \<lparr>BlockNum = of_nat (get_varint 1 fs), TxNum = of_nat (get_varint 2 fs)\<rparr>)"

lemma version_rt: "decode_version (pb_encode (version_fields v)) = Inr v"
  unfolding decode_version_def version_fields_def
  by (subst decode_with_encode) (auto simp: get_varint_def)

section \<open>Access control\<close>

definition zigzag :: "int \<Rightarrow> nat" where
  "zigzag i = (if i \<ge> 0 then nat (2 * i) else nat (- 2 * i - 1))"

definition unzigzag :: "nat \<Rightarrow> int" where
  "unzigzag n = (if even n then int (n div 2) else - int ((n + 1) div 2))"

lemma zigzag_rt: "unzigzag (zigzag i) = i"
proof (cases "i \<ge> 0")
  case True
  then obtain k where "i = int k"
    using nonneg_int_cases by blast
  then show ?thesis
    by (simp add: zigzag_def unzigzag_def nat_mult_distrib)
next
  case False
  then obtain k where k: "i = - int (Suc k)"
    by (metis int_cases linorder_not_le of_nat_less_0_iff negative_eq_positive int_zle_neg le_cases negD not_le)
  have "zigzag i = 2 * k + 1"
    unfolding zigzag_def k by simp
  then show ?thesis
    unfolding unzigzag_def k by simp
qed

definition entry_fields :: "string \<times> bool \<Rightarrow> pb_field list" where
  "entry_fields e = [PBytes 1 (bytes_of_string (fst e)), PVarint 2 (if snd e then 1 else 0)]"

definition decode_entry :: "bytes \<Rightarrow> (string \<times> bool) res" where
  "decode_entry = decode_with (\<lambda>fs.
     Inr (string_of_bytes (case submsg 1 fs of None \<Rightarrow> [] | Some b \<Rightarrow> b), get_varint 2 fs \<noteq> 0))"

lemma unat_of_char_byte: "unat (of_char c :: byte) = of_char c"
proof -
  have "(of_char c :: byte) = of_nat (of_char c)"
    by (simp add: of_nat_of_char)
  then show ?thesis
    by (metis nat_of_char_less_256 unat_of_nat_byte)
qed

lemma string_rt [simp]: "string_of_bytes (bytes_of_string s) = s"
  by (induction s) (auto simp: string_of_bytes_def bytes_of_string_def unat_of_char_byte)

lemma entry_rt: "decode_entry (pb_encode (entry_fields e)) = Inr e"
  unfolding decode_entry_def entry_fields_def
  by (subst decode_with_encode) (cases e; auto simp: get_varint_def submsg_def rep_bytes_def)+

definition acl_fields :: "AccessControl \<Rightarrow> pb_field list" where
  "acl_fields a = map (\<lambda>e. PBytes 1 (pb_encode (entry_fields e))) (ReadUsers a)
     @ map (\<lambda>e. PBytes 2 (pb_encode (entry_fields e))) (ReadWriteUsers a)
     @ [PVarint 3 (zigzag (SignPolicyForWrite a))]"

definition decode_acl :: "bytes \<Rightarrow> AccessControl res" where
  "decode_acl = decode_with (\<lambda>fs.
     rbind (map_res decode_entry (rep_bytes 1 fs)) (\<lambda>r.
     rbind (map_res decode_entry (rep_bytes 2 fs)) (\<lambda>w.
     Inr \<lparr>ReadUsers = r, ReadWriteUsers = w, SignPolicyForWrite = unzigzag (get_varint 3 fs)\<rparr>)))"

lemma rep_bytes_map: "rep_bytes k (map (\<lambda>e. PBytes j (g e)) es) = (if j = k then map g es else [])"
  by (induction es) (auto simp: rep_bytes_def)

lemma get_varint_last: "get_varint k (fs @ [PVarint k n]) = n"
  by (simp add: get_varint_def)

lemma acl_rt: "decode_acl (pb_encode (acl_fields a)) = Inr a"
proof -
  have "rep_bytes 1 (acl_fields a) = map (\<lambda>e. pb_encode (entry_fields e)) (ReadUsers a)"
    "rep_bytes 2 (acl_fields a) = map (\<lambda>e. pb_encode (entry_fields e)) (ReadWriteUsers a)"
    by (simp_all add: acl_fields_def rep_bytes_map) (simp_all add: rep_bytes_def)
  moreover have "get_varint 3 (acl_fields a) = zigzag (SignPolicyForWrite a)"
    using get_varint_last[of 3 "map (\<lambda>e. PBytes 1 (pb_encode (entry_fields e))) (ReadUsers a)
      @ map (\<lambda>e. PBytes 2 (pb_encode (entry_fields e))) (ReadWriteUsers a)"]
    by (simp add: acl_fields_def)
  moreover have "\<forall>f \<in> set (acl_fields a). field_no f < 16"
    by (auto simp: acl_fields_def)
  ultimately show ?thesis
    unfolding decode_acl_def
    by (simp add: decode_with_encode map_res_map entry_rt zigzag_rt)
qed

section \<open>Metadata and values\<close>

definition opt_field :: "nat \<Rightarrow> ('a \<Rightarrow> pb_field list) \<Rightarrow> 'a option \<Rightarrow> pb_field list" where
  "opt_field k g x = (case x of None \<Rightarrow> [] | Some y \<Rightarrow> [PBytes k (pb_encode (g y))])"

lemma rep_bytes_opt_field:
  "rep_bytes k (opt_field j g x) =
     (if j = k then (case x of None \<Rightarrow> [] | Some y \<Rightarrow> [pb_encode (g y)]) else [])"
  by (auto simp: opt_field_def rep_bytes_def split: option.splits)

lemma field_no_opt_field: "f \<in> set (opt_field k g x) \<Longrightarrow> field_no f = k"
  by (auto simp: opt_field_def split: option.splits)

lemma opt_msg_rt:
  "(\<And>y. f (pb_encode (g y)) = Inr y) \<Longrightarrow>
   opt_msg f (case (case x of None \<Rightarrow> [] | Some y \<Rightarrow> [pb_encode (g y)]) of [] \<Rightarrow> None | bs \<Rightarrow> Some (last bs)) = Inr x"
  by (cases x) (auto simp: opt_msg_def)

definition meta_fields :: "Metadata \<Rightarrow> pb_field list" where
  "meta_fields m = opt_field 1 version_fields (MVersion m) @ opt_field 2 acl_fields (MAccessControl m)"

definition decode_meta :: "bytes \<Rightarrow> Metadata res" where
  "decode_meta = decode_with (\<lambda>fs.
     rbind (opt_msg decode_version (submsg 1 fs)) (\<lambda>v.
     rbind (opt_msg decode_acl (submsg 2 fs)) (\<lambda>a. Inr \<lparr>MVersion = v, MAccessControl = a\<rparr>)))"

lemma meta_rt: "decode_meta (pb_encode (meta_fields m)) = Inr m"
proof -
  have "\<forall>f \<in> set (meta_fields m). field_no f < 16"
    by (auto simp: meta_fields_def dest!: field_no_opt_field)
  then show ?thesis
    unfolding decode_meta_def
    by (simp add: decode_with_encode meta_fields_def submsg_def rep_bytes_opt_field opt_msg_rt version_rt acl_rt)
qed

definition pb_state_codec :: state_codec where
  "pb_state_codec =
     \<lparr>MarshalValueWithMetadata = (\<lambda>v m. Inr (pb_encode (opt_bytes 1 v @ opt_field 2 meta_fields m))),
      UnmarshalValueWithMetadata = decode_with (\<lambda>fs.
        rbind (opt_msg decode_meta (submsg 2 fs)) (\<lambda>m. Inr (get_bytes 1 fs, m)))\<rparr>"

interpretation pb_state: state_serialization pb_state_codec
proof
  fix v m
  have "\<forall>f \<in> set (opt_bytes 1 v @ opt_field 2 meta_fields m). field_no f < 16"
    by (auto simp: opt_bytes_def dest!: field_no_opt_field)
  moreover have "content (get_bytes 1 (opt_bytes 1 v @ opt_field 2 meta_fields m)) = content v"
    by (cases v) (auto simp: get_bytes_def rep_bytes_opt_field)
  ultimately show "\<exists>b v' m'. MarshalValueWithMetadata pb_state_codec v m = Inr b
      \<and> UnmarshalValueWithMetadata pb_state_codec b = Inr (v', m') \<and> content v' = content v \<and> meta_eq m m'"
    by (simp add: pb_state_codec_def decode_with_encode submsg_def rep_bytes_opt_field opt_msg_rt meta_rt)
qed

end
