(* ===== verification/Worldstate_Properties.thy ===== *)
theory Worldstate_Properties
  imports State_Codec
begin

text \<open>
  Properties of the world state database: reading after a commit, and the creation and deletion of
  databases, for every key-value file and serialisation that meet their contracts.
\<close>

section \<open>Creating and deleting databases\<close>

lemma forEach_create:
  "forEach (ldb_create fs) l names = (l', Inr ()) \<Longrightarrow> dom (map_of l') = dom (map_of l) \<union> set names"
proof (induction names arbitrary: l)
  case (Cons x names)
  then obtain l1 where l1: "ldb_create fs l x = (l1, Inr ())" "forEach (ldb_create fs) l1 names = (l', Inr ())"
    by (auto simp: sbind_Inr_iff)
  have "dom (map_of l1) = insert x (dom (map_of l))"
    using l1(1) by (auto simp: ldb_create_def split: if_splits sum.splits)
  then show ?case
    using Cons.IH[OF l1(2)] by auto
qed simp

lemma forEach_delete:
  "forEach (ldb_delete fs) l names = (l', Inr ()) \<Longrightarrow> dom (map_of l') = dom (map_of l) - set names"
proof (induction names arbitrary: l)
  case (Cons x names)
  then obtain l1 where l1: "ldb_delete fs l x = (l1, Inr ())" "forEach (ldb_delete fs) l1 names = (l', Inr ())"
    by (auto simp: sbind_Inr_iff)
  have "dom (map_of l1) = dom (map_of l) - {x}"
    using l1(1) by (auto simp: ldb_delete_def split: option.splits sum.splits if_splits)
  then show ?case
    using Cons.IH[OF l1(2)] by auto
qed simp

lemma commit_databases:
  assumes "LevelDB_Commit ops sc fs l [(DatabasesDBName, u)] n = (l', Inr ())"
  shows "dom (map_of l') = (dom (map_of l) \<union> KVKey ` set (Writes u)) - set (Deletes u)"
proof -
  obtain l1 dm dm' where c: "commitAll ops sc fs l [(DatabasesDBName, u)] = (l1, Inr ())"
      "map_of l1 MetadataDBName = Some dm" "l' = gomap_put l1 MetadataDBName dm'"
    using LevelDB_Commit_ok[OF assms] by blast
  then obtain d where d: "map_of l DatabasesDBName = Some d"
    by (auto split: option.splits)
  then have l1: "commitToDB ops sc fs l DatabasesDBName d u = (l1, Inr ())"
    using c(1) by (auto simp: sbind_Inr_iff)
  have l': "dom (map_of l') = dom (map_of l1)"
    using c(2,3) by auto
  obtain d' l2 where "forEach (ldb_create fs) (gomap_put l DatabasesDBName d') (map KVKey (Writes u)) = (l2, Inr ())"
      "forEach (ldb_delete fs) l2 (Deletes u) = (l1, Inr ())"
    using l1 by (auto simp: commitToDB_def Let_def sbind_Inr_iff split: sum.splits prod.splits)
  from forEach_create[OF this(1)] forEach_delete[OF this(2)] l' d show ?thesis
    by auto
qed

section \<open>A concrete world state\<close>

definition mem_files :: "memdb files" where
  "mem_files = \<lparr>OpenFile = (\<lambda>name. Inr RBT.empty), CloseFile = (\<lambda>d. Inr ()), RemoveFile = (\<lambda>name. Inr ())\<rparr>"

definition new_world :: "memdb LevelDB" where
  "new_world = fst (openNewLevelDBInstance mem_files)"

definition sample_update :: DBUpdates where
  "sample_update = \<lparr>Writes = [\<lparr>KVKey = ''k1'', KVValue = Some [7],
      KVMetadata = Some \<lparr>MVersion = Some \<lparr>BlockNum = 3, TxNum = 0\<rparr>, MAccessControl = None\<rparr>\<rparr>],
    Deletes = [''k2'']\<rparr>"

lemma mem_world: "world_files mem_ldb RBT.lookup pb_state_codec"
  by (simp add: world_files_def mem.leveldb_axioms pb_state.state_serialization_axioms)

section \<open>Properties\<close>

text \<open>
  C10. After a commit that does not change the list of databases, every written key is read back
  with its value and metadata, every deleted key is absent, every key the commit does not name is
  unchanged in every database, and the height is the number of the committed block.
\<close>

theorem worldstate_commit_correct:
  assumes "world_files ops view sc"
    and "LevelDB_Commit ops sc fs l ups n = (l', Inr ())" "wf_gomap ups"
    and "DatabasesDBName \<notin> fst ` set ups" "MetadataDBName \<notin> fst ` set ups"
    and "\<forall>(x, u) \<in> set ups. distinct (touched u)"
  shows "(\<forall>(x, u) \<in> set ups. \<forall>kv \<in> set (Writes u).
      \<exists>v m. LevelDB_Get ops sc l' x (KVKey kv) = Inr (v, m) \<and> content v = content (KVValue kv)
        \<and> meta_eq (KVMetadata kv) m)
    \<and> (\<forall>(x, u) \<in> set ups. \<forall>k \<in> set (Deletes u). LevelDB_Get ops sc l' x k = Inr (None, None))
    \<and> (\<forall>x k. x \<noteq> MetadataDBName \<longrightarrow> (\<forall>u. (x, u) \<in> set ups \<longrightarrow> k \<notin> set (touched u)) \<longrightarrow>
        LevelDB_Get ops sc l' x k = LevelDB_Get ops sc l x k)
    \<and> LevelDB_Height ops l' = Inr n"
  using world_files.commit_write[OF assms(1-5)] world_files.commit_delete[OF assms(1-5)]
    world_files.commit_other[OF assms(1-5)] world_files.commit_height[OF assms(1-5)] assms(6)
  by fast

theorem worldstate_commit_correct_witness:
  "\<exists>l' v m. LevelDB_Commit mem_ldb pb_state_codec mem_files new_world [(''bdb'', sample_update)] 3 = (l', Inr ())
    \<and> LevelDB_Get mem_ldb pb_state_codec l' ''bdb'' ''k1'' = Inr (v, m) \<and> content v = [7]
    \<and> LevelDB_Get mem_ldb pb_state_codec l' ''bdb'' ''k2'' = Inr (None, None)
    \<and> LevelDB_Height mem_ldb l' = Inr 3"
proof -
  have "snd (LevelDB_Commit mem_ldb pb_state_codec mem_files new_world [(''bdb'', sample_update)] 3) = Inr ()"
    by code_simp
  then obtain l' where l': "LevelDB_Commit mem_ldb pb_state_codec mem_files new_world [(''bdb'', sample_update)] 3 = (l', Inr ())"
    by (metis prod.collapse)
  from worldstate_commit_correct[OF mem_world l'] show ?thesis
    using l' by (auto simp: wf_gomap_def DatabasesDBName_def MetadataDBName_def sample_update_def touched_def)
qed

text \<open>
  C11. A commit to the list of databases creates exactly the databases it writes and removes
  exactly those it deletes.
\<close>

theorem worldstate_databases_correct:
  assumes "LevelDB_Commit ops sc fs l [(DatabasesDBName, u)] n = (l', Inr ())"
  shows "LevelDB_Exist l' x \<longleftrightarrow>
    (LevelDB_Exist l x \<or> x \<in> KVKey ` set (Writes u)) \<and> x \<notin> set (Deletes u)"
  using commit_databases[OF assms] by (auto simp: LevelDB_Exist_def)

theorem worldstate_databases_correct_witness:
  "\<exists>l'. LevelDB_Commit mem_ldb pb_state_codec mem_files new_world
      [(DatabasesDBName, \<lparr>Writes = [\<lparr>KVKey = ''db1'', KVValue = None, KVMetadata = None\<rparr>], Deletes = [''bdb'']\<rparr>)] 2
      = (l', Inr ())
    \<and> LevelDB_Exist l' ''db1'' \<and> \<not> LevelDB_Exist l' ''bdb''"
proof -
  let ?u = "\<lparr>Writes = [\<lparr>KVKey = ''db1'', KVValue = None, KVMetadata = None\<rparr>], Deletes = [''bdb'']\<rparr>"
  have "snd (LevelDB_Commit mem_ldb pb_state_codec mem_files new_world [(DatabasesDBName, ?u)] 2) = Inr ()"
    by code_simp
  then obtain l' where l': "LevelDB_Commit mem_ldb pb_state_codec mem_files new_world [(DatabasesDBName, ?u)] 2 = (l', Inr ())"
    by (metis prod.collapse)
  from worldstate_databases_correct[OF l'] show ?thesis
    using l' by auto
qed

end
