(* ===== verification/Identity.thy ===== *)
theory Identity
  imports Worldstate
begin

text \<open>
  Users and their privileges: the queries of \<^verbatim>\<open>internal/identity/querier.go\<close>, the signature check of
  \<^verbatim>\<open>pkg/cryptoservice/verifier.go\<close> and \<^verbatim>\<open>pkg/crypto/verifier.go\<close>, and the signature validation of
  \<^verbatim>\<open>internal/txvalidation/sig_validator.go\<close>. Certificates, their parsing and the cryptographic check
  are parameters, as is the serialisation of users and nodes.
\<close>

section \<open>Parameters\<close>

record id_codec =
  MarshalUser :: "User \<Rightarrow> bytes res"
  UnmarshalUser :: "bytes \<Rightarrow> User res"
  MarshalNodeConfig :: "NodeConfig \<Rightarrow> bytes res"
  UnmarshalNodeConfig :: "bytes \<Rightarrow> NodeConfig res"

record 'c x509 =
  ParseCertificate :: "bytes \<Rightarrow> 'c res"
  CheckSignature :: "'c \<Rightarrow> bytes \<Rightarrow> slice \<Rightarrow> unit res"
  IsCA :: "'c \<Rightarrow> bool"
  SerialNumber :: "'c \<Rightarrow> string"
  VerifyChain :: "'c list \<Rightarrow> 'c list \<Rightarrow> 'c \<Rightarrow> unit res"
  CheckSignatureFrom :: "'c \<Rightarrow> 'c \<Rightarrow> unit res"

section \<open>The querier\<close>

definition UserNamespace :: string where "UserNamespace = [CHR 0x00]"
definition NodeNamespace :: string where "NodeNamespace = [CHR 0x00]"

definition idNotFound :: "string \<Rightarrow> go_error" where
  "idNotFound ident = NotFoundErr (''the user ['' @ ident @ ''] does not exist'')"

definition DoesUserExist :: "DB \<Rightarrow> string \<Rightarrow> bool res" where
  "DoesUserExist db userID =
     wrap (''error while checking the existance of the userID ['' @ userID @ '']'')
       (Has db UsersDBName (UserNamespace @ userID))"

definition GetUser :: "DB \<Rightarrow> id_codec \<Rightarrow> string \<Rightarrow> (User \<times> Metadata option) res" where
  "GetUser db ic userID =
     rbind (wrap (''error while fetching userID ['' @ userID @ '']'')
              (DB_Get db UsersDBName (UserNamespace @ userID))) (\<lambda>(val, meta).
     case val of
       None \<Rightarrow> Inl (idNotFound userID)
     | Some b \<Rightarrow>
         rbind (wrap (''error while unmarshaling persisted value of userID ['' @ userID @ '']'')
                  (UnmarshalUser ic b)) (\<lambda>user. Inr (user, meta)))"

definition Querier_GetAccessControl :: "DB \<Rightarrow> id_codec \<Rightarrow> string \<Rightarrow> AccessControl option res" where
  "Querier_GetAccessControl db ic userID =
     rbind (GetUser db ic userID) (\<lambda>(_, metadata). Inr (GetAccessControl metadata))"

definition GetCertificate :: "DB \<Rightarrow> id_codec \<Rightarrow> 'c x509 \<Rightarrow> string \<Rightarrow> 'c res" where
  "GetCertificate db ic x userID =
     rbind (GetUser db ic userID) (\<lambda>(user, _). ParseCertificate x (content (UCertificate user)))"

definition GetUserVersion :: "DB \<Rightarrow> id_codec \<Rightarrow> string \<Rightarrow> Version option res" where
  "GetUserVersion db ic userID =
     rbind (GetUser db ic userID) (\<lambda>(_, metadata).
     case metadata of None \<Rightarrow> Inl (Panic ''nil pointer dereference'') | Some md \<Rightarrow> Inr (MVersion md))"

definition hasPrivilege :: "DB \<Rightarrow> id_codec \<Rightarrow> string \<Rightarrow> string \<Rightarrow> int \<Rightarrow> bool res" where
  "hasPrivilege db ic userID dbName privilege =
     rbind (GetUser db ic userID) (\<lambda>(user, _).
     case UPrivilege user of
       None \<Rightarrow> Inr False
     | Some p \<Rightarrow>
         if Admin p then Inr True
         else (case map_of (DbPermission p) dbName of
                 None \<Rightarrow> Inr False
               | Some a \<Rightarrow> Inr (a \<ge> privilege)))"

definition HasReadAccessOnDataDB :: "DB \<Rightarrow> id_codec \<Rightarrow> string \<Rightarrow> string \<Rightarrow> bool res" where
  "HasReadAccessOnDataDB db ic userID dbName = hasPrivilege db ic userID dbName Privilege_Read"

definition HasReadWriteAccess :: "DB \<Rightarrow> id_codec \<Rightarrow> string \<Rightarrow> string \<Rightarrow> bool res" where
  "HasReadWriteAccess db ic userID dbName = hasPrivilege db ic userID dbName Privilege_ReadWrite"

definition HasAdministrationPrivilege :: "DB \<Rightarrow> id_codec \<Rightarrow> string \<Rightarrow> bool res" where
  "HasAdministrationPrivilege db ic userID =
     rbind (GetUser db ic userID) (\<lambda>(user, _).
     Inr (case UPrivilege user of None \<Rightarrow> False | Some p \<Rightarrow> Admin p))"

definition HasReadAccessOnTargetUser :: "DB \<Rightarrow> id_codec \<Rightarrow> string \<Rightarrow> string \<Rightarrow> bool res" where
  "HasReadAccessOnTargetUser db ic srcUser targetUser =
     rbind (Querier_GetAccessControl db ic targetUser) (\<lambda>acl.
     Inr (case acl of
            None \<Rightarrow> True
          | Some a \<Rightarrow> lookup_bool (ReadUsers a) srcUser \<or> lookup_bool (ReadWriteUsers a) srcUser))"

definition HasReadWriteAccessOnTargetUser :: "DB \<Rightarrow> id_codec \<Rightarrow> string \<Rightarrow> string \<Rightarrow> bool res" where
  "HasReadWriteAccessOnTargetUser db ic srcUser targetUser =
     rbind (Querier_GetAccessControl db ic targetUser) (\<lambda>acl.
     Inr (case acl of None \<Rightarrow> True | Some a \<Rightarrow> lookup_bool (ReadWriteUsers a) srcUser))"

definition HasLedgerAccess :: "DB \<Rightarrow> string \<Rightarrow> bool res" where
  "HasLedgerAccess db userID = DoesUserExist db userID"

definition Querier_GetNode :: "DB \<Rightarrow> id_codec \<Rightarrow> string \<Rightarrow> (NodeConfig \<times> Metadata option) res" where
  "Querier_GetNode db ic nodeID =
     rbind (wrap (''error while fetching nodeID ['' @ nodeID @ '']'')
              (DB_Get db ConfigDBName (NodeNamespace @ nodeID))) (\<lambda>(val, meta).
     case val of
       None \<Rightarrow> Inl (idNotFound nodeID)
     | Some b \<Rightarrow>
         rbind (wrap (''error while unmarshaling persisted value of nodeID ['' @ nodeID @ '']'')
                  (UnmarshalNodeConfig ic b)) (\<lambda>node. Inr (node, meta)))"

definition GetNodeVersion :: "DB \<Rightarrow> id_codec \<Rightarrow> string \<Rightarrow> Version option res" where
  "GetNodeVersion db ic nodeID =
     rbind (Querier_GetNode db ic nodeID) (\<lambda>(_, metadata).
     case metadata of None \<Rightarrow> Inl (Panic ''nil pointer dereference'') | Some md \<Rightarrow> Inr (MVersion md))"

section \<open>Signatures\<close>

definition SignatureVerifier_Verify ::
  "DB \<Rightarrow> id_codec \<Rightarrow> 'c x509 \<Rightarrow> string \<Rightarrow> slice \<Rightarrow> bytes \<Rightarrow> unit res" where
  "SignatureVerifier_Verify db ic x userID signature body =
     rbind (GetCertificate db ic x userID) (\<lambda>cert. CheckSignature x cert body signature)"

text \<open>
  \<^verbatim>\<open>txSigValidator.validate\<close>: \<open>marshal\<close> is the JSON serialisation of the payload
  (\<^verbatim>\<open>pkg/marshal\<close> over \<^verbatim>\<open>protojson\<close>).
\<close>

definition sig_validate ::
  "DB \<Rightarrow> id_codec \<Rightarrow> 'c x509 \<Rightarrow> ('p \<Rightarrow> bytes res) \<Rightarrow> string \<Rightarrow> slice \<Rightarrow> 'p \<Rightarrow> ValidationInfo res" where
  "sig_validate db ic x marshal user signature txPayload =
     rbind (wrap ''failed to Marshal Tx'' (marshal txPayload)) (\<lambda>requestBytes.
     case SignatureVerifier_Verify db ic x user signature requestBytes of
       Inl e \<Rightarrow>
         if is_panic e then Inl e
         else Inr (invalid INVALID_UNAUTHORISED (''signature verification failed: '' @ go_error_string e))
     | Inr _ \<Rightarrow> Inr valid_info)"

section \<open>Facts\<close>

lemma sig_validate_passes:
  "passes (sig_validate db ic x marshal user sig p) \<longleftrightarrow>
   (\<exists>b. marshal p = Inr b \<and> SignatureVerifier_Verify db ic x user sig b = Inr ())"
proof (cases "marshal p")
  case (Inr b)
  then show ?thesis
    by (cases "SignatureVerifier_Verify db ic x user sig b") (auto simp: sig_validate_def)
qed (simp add: sig_validate_def)

lemma sig_verified_user:
  assumes "SignatureVerifier_Verify db ic x user sig b = Inr ()"
  shows "\<exists>u m c. GetUser db ic user = Inr (u, m) \<and> ParseCertificate x (content (UCertificate u)) = Inr c
    \<and> CheckSignature x c b sig = Inr ()"
  using assms by (auto simp: SignatureVerifier_Verify_def GetCertificate_def rbind_Inr_iff)

text \<open>What a privilege on a database means.\<close>

definition privileged :: "User \<Rightarrow> string \<Rightarrow> int \<Rightarrow> bool" where
  "privileged u dbName a \<longleftrightarrow>
     (\<exists>p. UPrivilege u = Some p \<and> (Admin p \<or> (\<exists>b. map_of (DbPermission p) dbName = Some b \<and> a \<le> b)))"

lemma hasPrivilege_iff:
  "hasPrivilege db ic userID dbName a = Inr True \<longleftrightarrow>
   (\<exists>u m. GetUser db ic userID = Inr (u, m) \<and> privileged u dbName a)"
proof (cases "GetUser db ic userID")
  case (Inr um)
  obtain u m where "um = (u, m)"
    by (cases um)
  then show ?thesis
    using Inr by (cases "UPrivilege u") (auto simp: hasPrivilege_def privileged_def split: option.splits)
qed (simp add: hasPrivilege_def)

lemma readWrite_implies_read:
  "HasReadWriteAccess db ic userID dbName = Inr True \<Longrightarrow> HasReadAccessOnDataDB db ic userID dbName = Inr True"
  unfolding HasReadWriteAccess_def HasReadAccessOnDataDB_def hasPrivilege_iff privileged_def
    Privilege_Read_def Privilege_ReadWrite_def
  by force

end
