(* ===== verification/Validate_Data.thy ===== *)
theory Validate_Data
  imports Identity
begin

text \<open>
  Validation of data transactions: \<^verbatim>\<open>internal/txvalidation/data_tx_validator.go\<close> and the pending
  operations of \<^verbatim>\<open>validator.go\<close>. The world state is queried through the interface record, so every
  statement holds for any answers it gives, errors included.
\<close>

section \<open>Pending operations of a block\<close>

record pendingOperations =
  pendingWrites :: "(string, bool) gomap"
  pendingDeletes :: "(string, bool) gomap"

definition newPendingOperations :: pendingOperations where
  "newPendingOperations = \<lparr>pendingWrites = [], pendingDeletes = []\<rparr>"

definition constructCompositeKey :: "string \<Rightarrow> string \<Rightarrow> string" where
  "constructCompositeKey dbName key = dbName @ ''~'' @ key"

definition addWrite :: "string \<Rightarrow> string \<Rightarrow> pendingOperations \<Rightarrow> pendingOperations" where
  "addWrite dbName key p =
     p\<lparr>pendingWrites := gomap_put (pendingWrites p) (constructCompositeKey dbName key) True\<rparr>"

definition addDelete :: "string \<Rightarrow> string \<Rightarrow> pendingOperations \<Rightarrow> pendingOperations" where
  "addDelete dbName key p =
     p\<lparr>pendingDeletes := gomap_put (pendingDeletes p) (constructCompositeKey dbName key) True\<rparr>"

definition existDelete :: "pendingOperations \<Rightarrow> string \<Rightarrow> string \<Rightarrow> bool" where
  "existDelete p dbName key = lookup_bool (pendingDeletes p) (constructCompositeKey dbName key)"

definition pending_exist :: "pendingOperations \<Rightarrow> string \<Rightarrow> string \<Rightarrow> bool" where
  "pending_exist p dbName key \<longleftrightarrow>
     lookup_bool (pendingWrites p) (constructCompositeKey dbName key)
     \<or> lookup_bool (pendingDeletes p) (constructCompositeKey dbName key)"

section \<open>Fields\<close>

fun joinStrings :: "string \<Rightarrow> string list \<Rightarrow> string" where
  "joinStrings sep [] = ''''"
| "joinStrings sep [x] = x"
| "joinStrings sep (x # y # xs) = x @ sep @ joinStrings sep (y # xs)"

definition validateDBName :: "DB \<Rightarrow> string \<Rightarrow> ValidationInfo res" where
  "validateDBName db dbName =
     (if \<not> ValidDBName db dbName then
        Inr (invalid INVALID_INCORRECT_ENTRIES (''the database name ['' @ dbName @ ''] is not valid''))
      else if \<not> Exist db dbName then
        Inr (invalid INVALID_DATABASE_DOES_NOT_EXIST (''the database ['' @ dbName @ ''] does not exist in the cluster''))
      else if IsSystemDB dbName then
        Inr (invalid INVALID_NO_PERMISSION (''the database ['' @ dbName @ ''] is a system database and no user can write to a '' @
          ''system database via data transaction. Use appropriate transaction type to modify the system database''))
      else Inr valid_info)"

text \<open>
  The users of an access control list that have to be looked up: those not known to exist from
  earlier entries. The result carries the users found to exist.
\<close>

definition userToCheck :: "string list \<Rightarrow> AccessControl \<Rightarrow> string list" where
  "userToCheck existingUser acl =
     remdups (filter (\<lambda>u. u \<notin> set existingUser) (map fst (ReadUsers acl))
              @ filter (\<lambda>u. u \<notin> set existingUser) (map fst (ReadWriteUsers acl)))"

definition checkAclUser :: "DB \<Rightarrow> string \<Rightarrow> string \<Rightarrow> ValidationInfo res" where
  "checkAclUser db key user =
     rbind (wrap ''error while validating access control definition'' (DoesUserExist db user)) (\<lambda>exist.
     if \<not> exist then
       Inr (invalid INVALID_INCORRECT_ENTRIES
              (''the user ['' @ user @ ''] defined in the access control for the key ['' @ key @ ''] does not exist''))
     else Inr valid_info)"

fun fieldsInDataWrites :: "DB \<Rightarrow> string list \<Rightarrow> DataWrite option list \<Rightarrow> ValidationInfo res" where
  "fieldsInDataWrites db existingUser [] = Inr valid_info"
| "fieldsInDataWrites db existingUser (None # ws) =
     Inr (invalid INVALID_INCORRECT_ENTRIES ''there is an empty entry in the write list'')"
| "fieldsInDataWrites db existingUser (Some w # ws) =
     (case WAcl w of
        None \<Rightarrow> fieldsInDataWrites db existingUser ws
      | Some acl \<Rightarrow>
          andThen (checkAll (checkAclUser db (WKey w)) (userToCheck existingUser acl))
                  (fieldsInDataWrites db (existingUser @ userToCheck existingUser acl) ws))"

definition validateFieldsInDataWrites :: "DB \<Rightarrow> DataWrite option list \<Rightarrow> ValidationInfo res" where
  "validateFieldsInDataWrites db ws = fieldsInDataWrites db [] ws"

definition validateFieldInDataDelete ::
  "DB \<Rightarrow> string \<Rightarrow> pendingOperations \<Rightarrow> DataDelete option \<Rightarrow> ValidationInfo res" where
  "validateFieldInDataDelete db dbName pendingOps d =
     (case d of
        None \<Rightarrow> Inr (invalid INVALID_INCORRECT_ENTRIES ''there is an empty entry in the delete list'')
      | Some d \<Rightarrow>
          if existDelete pendingOps dbName (DKey d) then
            Inr (invalid INVALID_MVCC_CONFLICT_WITHIN_BLOCK
                   (''the key ['' @ DKey d @ ''] is already deleted by some previous transaction in the block''))
          else
            rbind (wrap ''error while validating delete entries'' (DB_Get db dbName (DKey d))) (\<lambda>(val, metadata).
            if val = None \<and> metadata = None then
              Inr (invalid INVALID_INCORRECT_ENTRIES
                     (''the key ['' @ DKey d @ ''] does not exist in the database and hence, it cannot be deleted''))
            else Inr valid_info))"

definition validateFieldsInDataDeletes ::
  "DB \<Rightarrow> string \<Rightarrow> DataDelete option list \<Rightarrow> pendingOperations \<Rightarrow> ValidationInfo res" where
  "validateFieldsInDataDeletes db dbName dataDeletes pendingOps =
     checkAll (validateFieldInDataDelete db dbName pendingOps) dataDeletes"

fun uniqueWrites :: "string list \<Rightarrow> DataWrite list \<Rightarrow> ValidationInfo + string list" where
  "uniqueWrites seen [] = Inr seen"
| "uniqueWrites seen (w # ws) =
     (if WKey w \<in> set seen then
        Inl (invalid INVALID_INCORRECT_ENTRIES
               (''the key ['' @ WKey w @ ''] is duplicated in the write list. The keys in the write list must be unique''))
      else uniqueWrites (WKey w # seen) ws)"

fun uniqueDeletes :: "string list \<Rightarrow> string list \<Rightarrow> DataDelete list \<Rightarrow> ValidationInfo" where
  "uniqueDeletes writeKeys seen [] = valid_info"
| "uniqueDeletes writeKeys seen (d # ds) =
     (if DKey d \<in> set seen then
        invalid INVALID_INCORRECT_ENTRIES
          (''the key ['' @ DKey d @ ''] is duplicated in the delete list. The keys in the delete list must be unique'')
      else if DKey d \<in> set writeKeys then
        invalid INVALID_INCORRECT_ENTRIES
          (''the key ['' @ DKey d @ ''] is being updated as well as deleted. Only one operation per key is allowed within a transaction'')
      else uniqueDeletes writeKeys (DKey d # seen) ds)"

definition validateUniquenessInDataWritesAndDeletes ::
  "DataWrite list \<Rightarrow> DataDelete list \<Rightarrow> ValidationInfo" where
  "validateUniquenessInDataWritesAndDeletes dataWrites dataDeletes =
     (case uniqueWrites [] dataWrites of
        Inl v \<Rightarrow> v
      | Inr writeKeys \<Rightarrow> uniqueDeletes writeKeys [] dataDeletes)"

section \<open>Access control\<close>

definition validateACLOnDataRead :: "DB \<Rightarrow> string list \<Rightarrow> string \<Rightarrow> DataRead \<Rightarrow> ValidationInfo res" where
  "validateACLOnDataRead db userIDs dbName r =
     rbind (wrap (''error while validating ACL on the key ['' @ RKey r @ ''] in the reads'') (GetACL db dbName (RKey r))) (\<lambda>acl.
     case acl of
       None \<Rightarrow> Inr valid_info
     | Some a \<Rightarrow>
         if list_ex (\<lambda>u. lookup_bool (ReadUsers a) u \<or> lookup_bool (ReadWriteUsers a) u) userIDs
         then Inr valid_info
         else Inr (invalid INVALID_NO_PERMISSION
                (''none of the user in ['' @ joinStrings '','' userIDs @ ''] has a read permission on key ['' @ RKey r
                 @ ''] present in the database ['' @ dbName @ '']'')))"

definition validateACLOnDataReads :: "DB \<Rightarrow> string list \<Rightarrow> string \<Rightarrow> DataRead list \<Rightarrow> ValidationInfo res" where
  "validateACLOnDataReads db userIDs dbName reads = checkAll (validateACLOnDataRead db userIDs dbName) reads"

definition validateACLForWriteOrDelete :: "DB \<Rightarrow> string list \<Rightarrow> string \<Rightarrow> string \<Rightarrow> ValidationInfo res" where
  "validateACLForWriteOrDelete db userIDs dbName key =
     rbind (GetACL db dbName key) (\<lambda>acl.
     case acl of
       None \<Rightarrow> Inr valid_info
     | Some a \<Rightarrow>
         if ReadWriteUsers a = [] then
           Inr (invalid INVALID_NO_PERMISSION (''no user can write or delete the key ['' @ key @ '']''))
         else if SignPolicyForWrite a = AccessControl_ANY then
           (if list_ex (\<lambda>u. lookup_bool (ReadWriteUsers a) u) userIDs then Inr valid_info
            else Inr (invalid INVALID_NO_PERMISSION
                   (''none of the user in ['' @ joinStrings '','' userIDs @ ''] has a write/delete permission on key ['' @ key
                    @ ''] present in the database ['' @ dbName @ '']'')))
         else if SignPolicyForWrite a = AccessControl_ALL then
           (if list_all (\<lambda>(targetUserID, _). targetUserID \<in> set userIDs) (ReadWriteUsers a) then Inr valid_info
            else Inr (invalid INVALID_NO_PERMISSION
                   (''not all required users in ['' @ joinStrings '','' (sort (map fst (ReadWriteUsers a)))
                    @ ''] have signed the transaction to write/delete key ['' @ key
                    @ ''] present in the database ['' @ dbName @ '']'')))
         else Inr valid_info)"

definition validateACLOnDataWrites :: "DB \<Rightarrow> string list \<Rightarrow> string \<Rightarrow> DataWrite list \<Rightarrow> ValidationInfo res" where
  "validateACLOnDataWrites db userIDs dbName ws =
     checkAll (\<lambda>w. validateACLForWriteOrDelete db userIDs dbName (WKey w)) ws"

definition validateACLOnDataDeletes :: "DB \<Rightarrow> string list \<Rightarrow> string \<Rightarrow> DataDelete list \<Rightarrow> ValidationInfo res" where
  "validateACLOnDataDeletes db userIDs dbName ds =
     checkAll (\<lambda>d. validateACLForWriteOrDelete db userIDs dbName (DKey d)) ds"

section \<open>Versions\<close>

definition mvccRead :: "DB \<Rightarrow> string \<Rightarrow> pendingOperations \<Rightarrow> DataRead \<Rightarrow> ValidationInfo res" where
  "mvccRead db dbName pendingOps r =
     (if pending_exist pendingOps dbName (RKey r) then
        Inr (invalid INVALID_MVCC_CONFLICT_WITHIN_BLOCK
               (''mvcc conflict has occurred within the block for the key ['' @ RKey r @ ''] in database ['' @ dbName @ '']''))
      else
        rbind (GetVersion db dbName (RKey r)) (\<lambda>committedVersion.
        if RVersion r = committedVersion then Inr valid_info
        else Inr (invalid INVALID_MVCC_CONFLICT_WITH_COMMITTED_STATE
               (''mvcc conflict has occurred as the committed state for the key ['' @ RKey r @ ''] in database ['' @ dbName @ ''] changed''))))"

definition mvccModify :: "string \<Rightarrow> pendingOperations \<Rightarrow> string \<Rightarrow> ValidationInfo res" where
  "mvccModify dbName pendingOps key =
     (if pending_exist pendingOps dbName key then
        Inr (invalid INVALID_MVCC_CONFLICT_WITHIN_BLOCK
               (''mvcc conflict has occurred within the block for the key ['' @ key @ ''] in database ['' @ dbName
                @ '']. Within a block, a key can be modified only once''))
      else Inr valid_info)"

definition mvccValidation :: "DB \<Rightarrow> string \<Rightarrow> DBOperation \<Rightarrow> pendingOperations \<Rightarrow> ValidationInfo res" where
  "mvccValidation db dbName txOps pendingOps =
     andThen (checkAll (mvccRead db dbName pendingOps) (DataReads txOps))
    (andThen (checkAll (\<lambda>w. mvccModify dbName pendingOps (WKey w)) (somes (DataWrites txOps)))
             (checkAll (\<lambda>d. mvccModify dbName pendingOps (DKey d)) (somes (DataDeletes txOps))))"

section \<open>A transaction\<close>

definition validateOps :: "DB \<Rightarrow> string list \<Rightarrow> DBOperation \<Rightarrow> pendingOperations \<Rightarrow> ValidationInfo res" where
  "validateOps db userIDs txOps pendingOps =
     (let dbName = DbName txOps; ws = somes (DataWrites txOps); ds = somes (DataDeletes txOps) in
      andThen (validateFieldsInDataWrites db (DataWrites txOps))
     (andThen (validateFieldsInDataDeletes db dbName (DataDeletes txOps) pendingOps)
     (andThen (Inr (validateUniquenessInDataWritesAndDeletes ws ds))
     (andThen (validateACLOnDataReads db userIDs dbName (DataReads txOps))
     (andThen (validateACLOnDataWrites db userIDs dbName ws)
     (andThen (validateACLOnDataDeletes db userIDs dbName ds)
              (mvccValidation db dbName txOps pendingOps)))))))"

fun dupDbs :: "string list \<Rightarrow> DBOperation list \<Rightarrow> ValidationInfo" where
  "dupDbs seen [] = valid_info"
| "dupDbs seen (ops # rest) =
     (if DbName ops \<in> set seen then
        invalid INVALID_INCORRECT_ENTRIES
          (''the database ['' @ DbName ops @ ''] occurs more than once in the operations. The database present in the operations should be unique'')
      else dupDbs (DbName ops # seen) rest)"

definition validateDbOperation ::
  "DB \<Rightarrow> id_codec \<Rightarrow> string list \<Rightarrow> pendingOperations \<Rightarrow> DBOperation \<Rightarrow> ValidationInfo res" where
  "validateDbOperation db ic userIDsWithValidSign pendingOps ops =
     andThen (validateDBName db (DbName ops))
      (let users = sort userIDsWithValidSign in
       rbind (filterRes (\<lambda>userID. HasReadWriteAccess db ic userID (DbName ops)) users) (\<lambda>usersWithDBAccess.
       if usersWithDBAccess = [] then
         Inr (invalid INVALID_NO_PERMISSION
                (''none of the user in ['' @ joinStrings '', '' users @ ''] has read-write permission on the database ['' @ DbName ops @ '']''))
       else validateOps db usersWithDBAccess ops pendingOps))"

definition dataTx_validate ::
  "DB \<Rightarrow> id_codec \<Rightarrow> DataTxEnvelope \<Rightarrow> string list \<Rightarrow> pendingOperations \<Rightarrow> ValidationInfo res" where
  "dataTx_validate db ic txEnv userIDsWithValidSign pendingOps =
     andThen (Inr (dupDbs [] (DbOperations (DPayload txEnv))))
             (checkAll (validateDbOperation db ic userIDsWithValidSign pendingOps) (DbOperations (DPayload txEnv)))"

text \<open>\<^verbatim>\<open>validateSignatures\<close>: the users whose signature verifies, in iteration order of the map.\<close>

fun signatureLoop ::
  "DB \<Rightarrow> id_codec \<Rightarrow> 'c x509 \<Rightarrow> (DataTx \<Rightarrow> bytes res) \<Rightarrow> DataTx \<Rightarrow> (string \<times> slice) list \<Rightarrow> string list
   \<Rightarrow> (string list \<times> ValidationInfo) res" where
  "signatureLoop db ic x marshal tx [] users = Inr (users, valid_info)"
| "signatureLoop db ic x marshal tx ((userID, signature) # rest) users =
     rbind (sig_validate db ic x marshal userID signature tx) (\<lambda>valRes.
     if VFlag valRes \<noteq> VALID then
       (if userID \<in> set (MustSignUserIds tx) then
          Inr ([], invalid INVALID_UNAUTHORISED
                 (''signature of the must sign user ['' @ userID @ ''] is not valid (maybe the certificate got changed)''))
        else signatureLoop db ic x marshal tx rest users)
     else signatureLoop db ic x marshal tx rest (users @ [userID]))"

definition validateSignatures ::
  "DB \<Rightarrow> id_codec \<Rightarrow> 'c x509 \<Rightarrow> (DataTx \<Rightarrow> bytes res) \<Rightarrow> DataTxEnvelope \<Rightarrow> (string list \<times> ValidationInfo) res" where
  "validateSignatures db ic x marshal txEnv =
     signatureLoop db ic x marshal (DPayload txEnv) (Signatures txEnv) []"

section \<open>What a valid transaction is\<close>

text \<open>The conditions of validity, without loops, order or messages.\<close>

definition aclUsers :: "AccessControl \<Rightarrow> string set" where
  "aclUsers a = fst ` set (ReadUsers a) \<union> fst ` set (ReadWriteUsers a)"

definition writesOK :: "DB \<Rightarrow> DataWrite option list \<Rightarrow> bool" where
  "writesOK db ws \<longleftrightarrow> None \<notin> set ws
     \<and> (\<forall>w a. Some w \<in> set ws \<longrightarrow> WAcl w = Some a \<longrightarrow> (\<forall>u \<in> aclUsers a. DoesUserExist db u = Inr True))"

definition deletesOK :: "DB \<Rightarrow> string \<Rightarrow> pendingOperations \<Rightarrow> DataDelete option list \<Rightarrow> bool" where
  "deletesOK db dbName p ds \<longleftrightarrow> None \<notin> set ds
     \<and> (\<forall>d. Some d \<in> set ds \<longrightarrow> \<not> existDelete p dbName (DKey d)
          \<and> (\<exists>v m. DB_Get db dbName (DKey d) = Inr (v, m) \<and> \<not> (v = None \<and> m = None)))"

definition mayRead :: "DB \<Rightarrow> string set \<Rightarrow> string \<Rightarrow> string \<Rightarrow> bool" where
  "mayRead db users dbName key \<longleftrightarrow>
     (\<exists>acl. GetACL db dbName key = Inr acl \<and>
        (\<forall>a. acl = Some a \<longrightarrow>
          (\<exists>u \<in> users. lookup_bool (ReadUsers a) u \<or> lookup_bool (ReadWriteUsers a) u)))"

definition mayModify :: "DB \<Rightarrow> string set \<Rightarrow> string \<Rightarrow> string \<Rightarrow> bool" where
  "mayModify db users dbName key \<longleftrightarrow>
     (\<exists>acl. GetACL db dbName key = Inr acl \<and>
        (\<forall>a. acl = Some a \<longrightarrow>
          ReadWriteUsers a \<noteq> []
          \<and> (SignPolicyForWrite a = AccessControl_ANY \<longrightarrow> (\<exists>u \<in> users. lookup_bool (ReadWriteUsers a) u))
          \<and> (SignPolicyForWrite a = AccessControl_ALL \<longrightarrow> fst ` set (ReadWriteUsers a) \<subseteq> users)))"

definition operationOK :: "DB \<Rightarrow> string set \<Rightarrow> pendingOperations \<Rightarrow> DBOperation \<Rightarrow> bool" where
  "operationOK db users p ops \<longleftrightarrow>
     (let dbName = DbName ops; ws = somes (DataWrites ops); ds = somes (DataDeletes ops) in
      writesOK db (DataWrites ops) \<and> deletesOK db dbName p (DataDeletes ops)
      \<and> distinct (map WKey ws @ map DKey ds)
      \<and> (\<forall>r \<in> set (DataReads ops). mayRead db users dbName (RKey r)
           \<and> \<not> pending_exist p dbName (RKey r) \<and> GetVersion db dbName (RKey r) = Inr (RVersion r))
      \<and> (\<forall>k \<in> set (map WKey ws @ map DKey ds). mayModify db users dbName k \<and> \<not> pending_exist p dbName k))"

definition accessUsers :: "DB \<Rightarrow> id_codec \<Rightarrow> string set \<Rightarrow> string \<Rightarrow> string set" where
  "accessUsers db ic users dbName = {u \<in> users. HasReadWriteAccess db ic u dbName = Inr True}"

definition dataTxOK :: "DB \<Rightarrow> id_codec \<Rightarrow> DataTx \<Rightarrow> string set \<Rightarrow> pendingOperations \<Rightarrow> bool" where
  "dataTxOK db ic tx users p \<longleftrightarrow> distinct (map DbName (DbOperations tx))
     \<and> (\<forall>ops \<in> set (DbOperations tx).
          ValidDBName db (DbName ops) \<and> Exist db (DbName ops) \<and> \<not> IsSystemDB (DbName ops)
          \<and> (\<forall>u \<in> users. \<exists>b. HasReadWriteAccess db ic u (DbName ops) = Inr b)
          \<and> accessUsers db ic users (DbName ops) \<noteq> {}
          \<and> operationOK db (accessUsers db ic users (DbName ops)) p ops)"

section \<open>The checks decide validity\<close>

lemma checkAclUser_passes: "passes (checkAclUser db key u) \<longleftrightarrow> DoesUserExist db u = Inr True"
  by (cases "DoesUserExist db u") (auto simp: checkAclUser_def)

lemma set_userToCheck: "set (userToCheck ex a) = aclUsers a - set ex"
  by (auto simp: userToCheck_def aclUsers_def)

lemma fieldsInDataWrites_passes:
  assumes "\<forall>u \<in> set ex. DoesUserExist db u = Inr True"
  shows "passes (fieldsInDataWrites db ex ws) \<longleftrightarrow> writesOK db ws"
  using assms
proof (induction db ex ws rule: fieldsInDataWrites.induct)
  case (3 db ex w ws)
  show ?case
  proof (cases "WAcl w")
    case None
    then show ?thesis
      using 3(1)[OF None 3(3)] by (auto simp: writesOK_def)
  next
    case (Some a)
    show ?thesis
    proof (cases "\<forall>u \<in> aclUsers a. DoesUserExist db u = Inr True")
      case True
      then have "\<forall>u \<in> set (ex @ userToCheck ex a). DoesUserExist db u = Inr True"
        using 3(3) by (auto simp: set_userToCheck)
      from 3(2)[OF Some this] show ?thesis
        using True Some by (auto simp: writesOK_def checkAclUser_passes set_userToCheck)
    next
      case False
      then have "\<exists>u \<in> set (userToCheck ex a). DoesUserExist db u \<noteq> Inr True"
        using 3(3) by (auto simp: set_userToCheck)
      then show ?thesis
        using False Some by (auto simp: writesOK_def checkAclUser_passes)
    qed
  qed
qed (auto simp: writesOK_def)

lemma validateFieldsInDataWrites_passes: "passes (validateFieldsInDataWrites db ws) \<longleftrightarrow> writesOK db ws"
  by (simp add: validateFieldsInDataWrites_def fieldsInDataWrites_passes)

lemma validateFieldInDataDelete_passes:
  "passes (validateFieldInDataDelete db dbName p d) \<longleftrightarrow>
   (\<exists>x. d = Some x \<and> \<not> existDelete p dbName (DKey x)
      \<and> (\<exists>v m. DB_Get db dbName (DKey x) = Inr (v, m) \<and> \<not> (v = None \<and> m = None)))"
proof (cases d)
  case (Some x)
  then show ?thesis
    by (cases "DB_Get db dbName (DKey x)") (auto simp: validateFieldInDataDelete_def split: if_splits)
qed (simp add: validateFieldInDataDelete_def)

lemma validateFieldsInDataDeletes_passes:
  "passes (validateFieldsInDataDeletes db dbName ds p) \<longleftrightarrow> deletesOK db dbName p ds"
proof
  assume "passes (validateFieldsInDataDeletes db dbName ds p)"
  then show "deletesOK db dbName p ds"
    by (fastforce simp: validateFieldsInDataDeletes_def deletesOK_def validateFieldInDataDelete_passes)
next
  assume ok: "deletesOK db dbName p ds"
  show "passes (validateFieldsInDataDeletes db dbName ds p)"
    unfolding validateFieldsInDataDeletes_def passes_checkAll
  proof
    fix d assume d: "d \<in> set ds"
    then have "d \<noteq> None"
      using ok by (metis deletesOK_def)
    then obtain x where x: "d = Some x"
      by auto
    then show "passes (validateFieldInDataDelete db dbName p d)"
      using ok d by (auto simp: deletesOK_def validateFieldInDataDelete_passes)
  qed
qed

lemma uniqueWrites_ok:
  "(\<exists>ks. uniqueWrites seen ws = Inr ks) \<longleftrightarrow> WKey ` set ws \<inter> set seen = {} \<and> distinct (map WKey ws)"
  by (induction seen ws rule: uniqueWrites.induct) auto

lemma uniqueWrites_set: "uniqueWrites seen ws = Inr ks \<Longrightarrow> set ks = set seen \<union> WKey ` set ws"
  by (induction seen ws rule: uniqueWrites.induct) (auto split: if_splits)

lemma uniqueWrites_Inl: "uniqueWrites seen ws = Inl v \<Longrightarrow> VFlag v \<noteq> VALID"
  by (induction seen ws rule: uniqueWrites.induct) (auto split: if_splits)

lemma uniqueDeletes_valid:
  "VFlag (uniqueDeletes wk seen ds) = VALID \<longleftrightarrow>
   DKey ` set ds \<inter> (set seen \<union> set wk) = {} \<and> distinct (map DKey ds)"
  by (induction wk seen ds rule: uniqueDeletes.induct) auto

lemma validateUniqueness_passes:
  "VFlag (validateUniquenessInDataWritesAndDeletes ws ds) = VALID \<longleftrightarrow> distinct (map WKey ws @ map DKey ds)"
proof (cases "uniqueWrites [] ws")
  case (Inl v)
  then have "\<not> distinct (map WKey ws)"
    using uniqueWrites_ok[of "[]" ws] by simp
  then show ?thesis
    using Inl uniqueWrites_Inl[OF Inl] by (simp add: validateUniquenessInDataWritesAndDeletes_def)
next
  case (Inr ks)
  then have "distinct (map WKey ws)" "set ks = WKey ` set ws"
    using uniqueWrites_ok[of "[]" ws] uniqueWrites_set[OF Inr] by auto
  then show ?thesis
    using Inr by (auto simp: validateUniquenessInDataWritesAndDeletes_def uniqueDeletes_valid)
qed

lemma validateACLOnDataRead_passes:
  "passes (validateACLOnDataRead db users dbName r) \<longleftrightarrow> mayRead db (set users) dbName (RKey r)"
proof (cases "GetACL db dbName (RKey r)")
  case (Inr acl)
  then show ?thesis
    by (cases acl) (auto simp: validateACLOnDataRead_def mayRead_def list_ex_iff)
qed (simp add: validateACLOnDataRead_def mayRead_def)

lemma validateACLForWriteOrDelete_passes:
  "passes (validateACLForWriteOrDelete db users dbName key) \<longleftrightarrow> mayModify db (set users) dbName key"
proof (cases "GetACL db dbName key")
  case (Inr acl)
  then show ?thesis
    by (cases acl) (auto simp: validateACLForWriteOrDelete_def mayModify_def list_ex_iff list_all_iff
        AccessControl_ANY_def AccessControl_ALL_def)
qed (simp add: validateACLForWriteOrDelete_def mayModify_def)

lemma mvccRead_passes:
  "passes (mvccRead db dbName p r) \<longleftrightarrow>
   \<not> pending_exist p dbName (RKey r) \<and> GetVersion db dbName (RKey r) = Inr (RVersion r)"
  by (cases "GetVersion db dbName (RKey r)") (auto simp: mvccRead_def)

lemma mvccModify_passes: "passes (mvccModify dbName p key) \<longleftrightarrow> \<not> pending_exist p dbName key"
  by (simp add: mvccModify_def)

lemmas check_passes = validateFieldsInDataWrites_passes validateFieldsInDataDeletes_passes
  validateUniqueness_passes validateACLOnDataRead_passes validateACLForWriteOrDelete_passes
  mvccRead_passes mvccModify_passes

lemma validateOps_passes:
  "passes (validateOps db users ops p) \<longleftrightarrow> operationOK db (set users) p ops"
  unfolding validateOps_def operationOK_def Let_def validateACLOnDataReads_def validateACLOnDataWrites_def
    validateACLOnDataDeletes_def mvccValidation_def passes_andThen passes_checkAll passes_simps check_passes
  by auto

lemma dupDbs_valid:
  "VFlag (dupDbs seen ops) = VALID \<longleftrightarrow> DbName ` set ops \<inter> set seen = {} \<and> distinct (map DbName ops)"
  by (induction seen ops rule: dupDbs.induct) auto

lemma validateDBName_passes:
  "passes (validateDBName db n) \<longleftrightarrow> ValidDBName db n \<and> Exist db n \<and> \<not> IsSystemDB n"
  by (simp add: validateDBName_def)

lemma validateDbOperation_passes:
  "passes (validateDbOperation db ic users p ops) \<longleftrightarrow>
   ValidDBName db (DbName ops) \<and> Exist db (DbName ops) \<and> \<not> IsSystemDB (DbName ops)
   \<and> (\<forall>u \<in> set users. \<exists>b. HasReadWriteAccess db ic u (DbName ops) = Inr b)
   \<and> accessUsers db ic (set users) (DbName ops) \<noteq> {}
   \<and> operationOK db (accessUsers db ic (set users) (DbName ops)) p ops"
proof -
  let ?f = "\<lambda>u. HasReadWriteAccess db ic u (DbName ops)"
  let ?us = "filter (\<lambda>u. ?f u = Inr True) (sort users)"
  have acc: "set ?us = accessUsers db ic (set users) (DbName ops)"
    by (auto simp: accessUsers_def)
  show ?thesis
  proof (cases "\<forall>u \<in> set users. \<exists>b. ?f u = Inr b")
    case True
    then have "filterRes ?f (sort users) = Inr ?us"
      by (simp add: filterRes_iff)
    then show ?thesis
      using True acc[symmetric]
      by (auto simp: validateDbOperation_def validateDBName_passes validateOps_passes Let_def simp del: set_filter)
  next
    case False
    then have "\<nexists>ys. filterRes ?f (sort users) = Inr ys"
      by (simp add: filterRes_iff)
    then show ?thesis
      using False by (auto simp: validateDbOperation_def Let_def passes_rbind)
  qed
qed

lemma dataTx_validate_passes:
  "passes (dataTx_validate db ic env users p) \<longleftrightarrow> dataTxOK db ic (DPayload env) (set users) p"
  by (auto simp: dataTx_validate_def dataTxOK_def dupDbs_valid validateDbOperation_passes)

end
