(* ===== verification/Certificate_Authority.thy ===== *)
theory Certificate_Authority
  imports Identity
begin

text \<open>
  Certificate authorities: the collection of root and intermediate certificates of
  \<^verbatim>\<open>pkg/certificateauthority/ca_chain.go\<close>. Parsing a certificate, its CA property and the search
  for a chain are those of \<^verbatim>\<open>crypto/x509\<close>, the parameter record \<^typ>\<open>'c x509\<close>.
\<close>

record 'c CACertCollection =
  roots :: "'c list"
  intermediates :: "'c list"

fun parseCAs :: "'c x509 \<Rightarrow> bytes list \<Rightarrow> 'c list res" where
  "parseCAs x [] = Inr []"
| "parseCAs x (asn1Data # rest) =
     rbind (ParseCertificate x asn1Data) (\<lambda>cert.
     if \<not> IsCA x cert then Inl (Err (''certificate is missing the CA property, SN: '' @ SerialNumber x cert))
     else rbind (parseCAs x rest) (\<lambda>cs. Inr (cert # cs)))"

definition NewCACertCollection :: "'c x509 \<Rightarrow> bytes list \<Rightarrow> bytes list \<Rightarrow> 'c CACertCollection res" where
  "NewCACertCollection x rootCAs intermediateCAs =
     rbind (parseCAs x rootCAs) (\<lambda>rs.
     rbind (parseCAs x intermediateCAs) (\<lambda>is.
     Inr \<lparr>roots = rs, intermediates = is\<rparr>))"

definition VerifyLeafCert :: "'c x509 \<Rightarrow> 'c CACertCollection \<Rightarrow> slice \<Rightarrow> unit res" where
  "VerifyLeafCert x c asn1Data =
     rbind (wrap ''error parsing certificate'' (ParseCertificate x (content asn1Data))) (\<lambda>cert.
     wrap ''error verifying certificate against trusted certificate authority (CA)''
       (VerifyChain x (roots c) (intermediates c) cert))"

fun eachOK :: "('a \<Rightarrow> unit res) \<Rightarrow> 'a list \<Rightarrow> unit res" where
  "eachOK f [] = Inr ()"
| "eachOK f (a # as) = rbind (f a) (\<lambda>_. eachOK f as)"

definition VerifyCollection :: "'c x509 \<Rightarrow> 'c CACertCollection \<Rightarrow> unit res" where
  "VerifyCollection x c =
     rbind (eachOK (\<lambda>rootCert.
              wrap (''root CA certificate is not self-signed, SN: '' @ SerialNumber x rootCert)
                (CheckSignatureFrom x rootCert rootCert)) (roots c)) (\<lambda>_.
     eachOK (\<lambda>cert.
              wrap (''error verifying CA certificate against trusted certificate authority (CA), SN: '' @ SerialNumber x cert)
                (VerifyChain x (roots c) (intermediates c) cert)) (roots c @ intermediates c))"

lemma eachOK_iff: "eachOK f xs = Inr () \<longleftrightarrow> (\<forall>x \<in> set xs. f x = Inr ())"
  by (induction xs) (auto simp: rbind_Inr_iff)

lemma parseCAs_iff:
  "parseCAs x ds = Inr cs \<longleftrightarrow> list_all2 (\<lambda>d c. ParseCertificate x d = Inr c \<and> IsCA x c) ds cs"
proof (induction ds arbitrary: cs)
  case (Cons d ds)
  show ?case
    by (cases cs) (auto simp: rbind_Inr_iff Cons.IH split: if_splits)
qed auto

text \<open>What a collection that passes its own check is: CA certificates with a chain, self-signed roots.\<close>

definition trustedCAs :: "'c x509 \<Rightarrow> 'c list \<Rightarrow> 'c list \<Rightarrow> bool" where
  "trustedCAs x rs is \<longleftrightarrow> (\<forall>c \<in> set rs. CheckSignatureFrom x c c = Inr ())
     \<and> (\<forall>c \<in> set (rs @ is). IsCA x c \<and> VerifyChain x rs is c = Inr ())"

lemma list_all2_right: "list_all2 P xs ys \<Longrightarrow> y \<in> set ys \<Longrightarrow> \<exists>x \<in> set xs. P x y"
  by (induction rule: list_all2_induct) auto

lemma collection_trusted:
  assumes "NewCACertCollection x rb ib = Inr c" "VerifyCollection x c = Inr ()"
  shows "trustedCAs x (roots c) (intermediates c)"
proof -
  have rs: "parseCAs x rb = Inr (roots c)" and ints: "parseCAs x ib = Inr (intermediates c)"
    using assms(1) by (auto simp: NewCACertCollection_def rbind_Inr_iff)
  have "\<forall>a \<in> set (roots c @ intermediates c). IsCA x a"
    using list_all2_right[OF rs[unfolded parseCAs_iff]] list_all2_right[OF ints[unfolded parseCAs_iff]] by auto
  then show ?thesis
    using assms(2) by (simp add: VerifyCollection_def trustedCAs_def rbind_Inr_iff eachOK_iff)
qed

end
