(* ===== verification/Validate_Admin.thy ===== *)
theory Validate_Admin
  imports Certificate_Authority
begin

text \<open>
  Validation of user and database administration transactions:
  \<^verbatim>\<open>internal/txvalidation/useradmin_tx_validator.go\<close> and \<^verbatim>\<open>dbadmin_tx_validator.go\<close>. As for data
  transactions, each validator is shown to accept exactly the transactions that a declarative
  predicate describes.
\<close>

section \<open>Duplicates\<close>

text \<open>
  The loops that reject a repeated identifier: \<open>seen\<close> are the keys of the Go map, \<open>dup\<close> the
  message.
\<close>

fun uniqueIds :: "(string \<Rightarrow> string) \<Rightarrow> string list \<Rightarrow> string list \<Rightarrow> ValidationInfo" where
  "uniqueIds dup seen [] = valid_info"
| "uniqueIds dup seen (i # rest) =
     (if i \<in> set seen then invalid INVALID_INCORRECT_ENTRIES (dup i) else uniqueIds dup (i # seen) rest)"

lemma uniqueIds_valid:
  "VFlag (uniqueIds dup seen ids) = VALID \<longleftrightarrow> set ids \<inter> set seen = {} \<and> distinct ids"
  by (induction dup seen ids rule: uniqueIds.induct) auto

section \<open>User administration\<close>

definition userWriteField ::
  "DB \<Rightarrow> 'c x509 \<Rightarrow> 'c CACertCollection \<Rightarrow> UserWrite option \<Rightarrow> ValidationInfo res" where
  "userWriteField db x cas w =
     (case w of
        None \<Rightarrow> Inr (invalid INVALID_INCORRECT_ENTRIES ''there is an empty entry in the write list'')
      | Some uw \<Rightarrow> (case UWUser uw of
          None \<Rightarrow> Inr (invalid INVALID_INCORRECT_ENTRIES ''there is an empty user entry in the write list'')
        | Some u \<Rightarrow>
            if UId u = '''' then
              Inr (invalid INVALID_INCORRECT_ENTRIES
                     ''there is an user in the write list with an empty ID. A valid userID must be an non-empty string'')
            else
              andThen
                (case UPrivilege u of
                   None \<Rightarrow> Inr valid_info
                 | Some p \<Rightarrow>
                     if Admin p then
                       Inr (invalid INVALID_NO_PERMISSION
                              (''the user ['' @ UId u @ ''] is marked as admin user. Only via a cluster configuration transaction, the [''
                               @ UId u @ ''] can be added as admin''))
                     else
                       checkAll (\<lambda>dbName.
                         if Exist db dbName then Inr valid_info
                         else Inr (invalid INVALID_DATABASE_DOES_NOT_EXIST
                                (''the database ['' @ dbName @ ''] present in the db permission list does not exist in the cluster'')))
                         (map fst (DbPermission p)))
                (handle (VerifyLeafCert x cas (UCertificate u))
                   (\<lambda>e. Inr (invalid INVALID_INCORRECT_ENTRIES
                             (''the user ['' @ UId u @ ''] in the write list has an invalid certificate: Error = '' @ go_error_string e)))
                   (\<lambda>_. Inr valid_info))))"

definition validateFieldsInUserWrites :: "DB \<Rightarrow> 'c x509 \<Rightarrow> UserWrite option list \<Rightarrow> ValidationInfo res" where
  "validateFieldsInUserWrites db x userWrites =
     rbind (wrap ''cannot get config'' (GetConfig db)) (\<lambda>(config, _).
     case CertAuthConfig config of
       None \<Rightarrow> Inl (Panic ''nil pointer dereference'')
     | Some ca \<Rightarrow>
         rbind (wrap ''cannot build CA certificate collection'' (NewCACertCollection x (Roots ca) (Intermediates ca))) (\<lambda>cas.
         checkAll (userWriteField db x cas) userWrites))"

definition userDeleteField :: "UserDelete option \<Rightarrow> ValidationInfo res" where
  "userDeleteField d =
     (case d of
        None \<Rightarrow> Inr (invalid INVALID_INCORRECT_ENTRIES ''there is an empty entry in the delete list'')
      | Some ud \<Rightarrow>
          if UDUserId ud = '''' then
            Inr (invalid INVALID_INCORRECT_ENTRIES
                   ''there is an user in the delete list with an empty ID. A valid userID must be an non-empty string'')
          else Inr valid_info)"

definition validateFieldsInUserDeletes :: "UserDelete option list \<Rightarrow> ValidationInfo res" where
  "validateFieldsInUserDeletes userDeletes = checkAll userDeleteField userDeletes"

text \<open>The identifiers of the written users, once the nil entries have been ruled out.\<close>

definition writtenIds :: "UserWrite option list \<Rightarrow> string list" where
  "writtenIds ws = map UId (somes (map UWUser (somes ws)))"

definition deletedIds :: "UserDelete option list \<Rightarrow> string list" where
  "deletedIds ds = map UDUserId (somes ds)"

fun uniqueUserDeletes :: "string list \<Rightarrow> string list \<Rightarrow> string list \<Rightarrow> ValidationInfo" where
  "uniqueUserDeletes writeUserIDs seen [] = valid_info"
| "uniqueUserDeletes writeUserIDs seen (d # ds) =
     (if d \<in> set seen then
        invalid INVALID_INCORRECT_ENTRIES
          (''there are two users with the same userID ['' @ d @ ''] in the delete list. The userIDs in the delete list must be unique'')
      else if d \<in> set writeUserIDs then
        invalid INVALID_INCORRECT_ENTRIES
          (''the user ['' @ d @ ''] is present in both write and delete list. Only one operation per key is allowed within a transaction'')
      else uniqueUserDeletes writeUserIDs (d # seen) ds)"

definition validateUniquenessInUserWritesAndDeletes ::
  "UserWrite option list \<Rightarrow> UserDelete option list \<Rightarrow> ValidationInfo res" where
  "validateUniquenessInUserWritesAndDeletes userWrites userDeletes =
     andThen
       (Inr (uniqueIds (\<lambda>i. ''there are two users with the same userID ['' @ i
                 @ ''] in the write list. The userIDs in the write list must be unique'') [] (writtenIds userWrites)))
       (Inr (uniqueUserDeletes (writtenIds userWrites) [] (deletedIds userDeletes)))"

definition validateACLOnUserRead :: "DB \<Rightarrow> id_codec \<Rightarrow> string \<Rightarrow> UserRead \<Rightarrow> ValidationInfo res" where
  "validateACLOnUserRead db ic operatingUser r =
     handle (HasReadAccessOnTargetUser db ic operatingUser (URUserId r))
       (\<lambda>e. if \<not> is_notfound e then Inl e else Inr valid_info)
       (\<lambda>hasPerm.
          if \<not> hasPerm then
            Inr (invalid INVALID_NO_PERMISSION
                   (''the user ['' @ operatingUser @ ''] has no read permission on the user ['' @ URUserId r @ '']''))
          else Inr valid_info)"

definition validateACLOnUserReads :: "DB \<Rightarrow> id_codec \<Rightarrow> string \<Rightarrow> UserRead list \<Rightarrow> ValidationInfo res" where
  "validateACLOnUserReads db ic operatingUser reads = checkAll (validateACLOnUserRead db ic operatingUser) reads"

definition validateACLOnUserWrite :: "DB \<Rightarrow> id_codec \<Rightarrow> string \<Rightarrow> string \<Rightarrow> ValidationInfo res" where
  "validateACLOnUserWrite db ic operatingUser targetUser =
     handle (HasAdministrationPrivilege db ic targetUser)
       (\<lambda>e. if \<not> is_notfound e then Inl e else Inr valid_info)
       (\<lambda>admin.
          if admin then
            Inr (invalid INVALID_NO_PERMISSION
                   (''the user ['' @ targetUser @ ''] is an admin user. Only via a cluster configuration transaction, the [''
                    @ targetUser @ ''] can be modified''))
          else
            rbind (HasReadWriteAccessOnTargetUser db ic operatingUser targetUser) (\<lambda>hasPerm.
            if \<not> hasPerm then
              Inr (invalid INVALID_NO_PERMISSION
                     (''the user ['' @ operatingUser @ ''] has no write permission on the user ['' @ targetUser @ '']''))
            else Inr valid_info))"

definition validateACLOnUserWrites :: "DB \<Rightarrow> id_codec \<Rightarrow> string \<Rightarrow> UserWrite option list \<Rightarrow> ValidationInfo res" where
  "validateACLOnUserWrites db ic operatingUser writes =
     checkAll (validateACLOnUserWrite db ic operatingUser) (writtenIds writes)"

definition validateACLOnUserDelete :: "DB \<Rightarrow> id_codec \<Rightarrow> string \<Rightarrow> string \<Rightarrow> ValidationInfo res" where
  "validateACLOnUserDelete db ic operatingUser targetUser =
     handle (HasAdministrationPrivilege db ic targetUser)
       (\<lambda>e. if \<not> is_notfound e then Inl e
            else Inr (invalid INVALID_INCORRECT_ENTRIES
                   (''the user ['' @ targetUser @ ''] present in the delete list does not exist'')))
       (\<lambda>admin.
          if admin then
            Inr (invalid INVALID_NO_PERMISSION
                   (''the user ['' @ targetUser @ ''] is an admin user. Only via a cluster configuration transaction, the [''
                    @ targetUser @ ''] can be deleted''))
          else
            rbind (HasReadWriteAccessOnTargetUser db ic operatingUser targetUser) (\<lambda>hasPerm.
            if \<not> hasPerm then
              Inr (invalid INVALID_NO_PERMISSION
                     (''the user ['' @ operatingUser @ ''] has no write permission on the user ['' @ targetUser
                      @ '']. Hence, the delete operation cannot be performed''))
            else Inr valid_info))"

definition validateACLOnUserDeletes :: "DB \<Rightarrow> id_codec \<Rightarrow> string \<Rightarrow> UserDelete option list \<Rightarrow> ValidationInfo res" where
  "validateACLOnUserDeletes db ic operatingUser deletes =
     checkAll (validateACLOnUserDelete db ic operatingUser) (deletedIds deletes)"

definition userMvccRead :: "DB \<Rightarrow> id_codec \<Rightarrow> UserRead \<Rightarrow> ValidationInfo res" where
  "userMvccRead db ic r =
     rbind (handle (GetUserVersion db ic (URUserId r)) (\<lambda>e. if \<not> is_notfound e then Inl e else Inr None) Inr) (\<lambda>committedVersion.
     if URVersion r = committedVersion then Inr valid_info
     else Inr (invalid INVALID_MVCC_CONFLICT_WITH_COMMITTED_STATE
            (''mvcc conflict has occurred as the committed state for the user ['' @ URUserId r @ ''] has changed'')))"

definition userMvccValidation :: "DB \<Rightarrow> id_codec \<Rightarrow> UserRead list \<Rightarrow> ValidationInfo res" where
  "userMvccValidation db ic userReads = checkAll (userMvccRead db ic) userReads"

definition userAdmin_validate ::
  "DB \<Rightarrow> id_codec \<Rightarrow> 'c x509 \<Rightarrow> (UserAdministrationTx \<Rightarrow> bytes res) \<Rightarrow> UserAdministrationTxEnvelope \<Rightarrow> ValidationInfo res" where
  "userAdmin_validate db ic x marshal txEnv =
     (let tx = UPayload txEnv in
      andThen (sig_validate db ic x marshal (UTUserId tx) (USignature txEnv) tx)
     (rbind (wrap (''error while checking user administrative privilege for user ['' @ UTUserId tx @ '']'')
               (HasAdministrationPrivilege db ic (UTUserId tx))) (\<lambda>hasPerm.
      if \<not> hasPerm then
        Inr (invalid INVALID_NO_PERMISSION
               (''the user ['' @ UTUserId tx @ ''] has no privilege to perform user administrative operations''))
      else
        andThen (wrap ''error while validating fields in user writes'' (validateFieldsInUserWrites db x (UserWrites tx)))
       (andThen (validateFieldsInUserDeletes (UserDeletes tx))
       (andThen (validateUniquenessInUserWritesAndDeletes (UserWrites tx) (UserDeletes tx))
       (andThen (wrap ''error while validating ACL on reads'' (validateACLOnUserReads db ic (UTUserId tx) (UserReads tx)))
       (andThen (wrap ''error while validating ACL on writes'' (validateACLOnUserWrites db ic (UTUserId tx) (UserWrites tx)))
       (andThen (wrap ''error while validating ACL on deletes'' (validateACLOnUserDeletes db ic (UTUserId tx) (UserDeletes tx)))
                (userMvccValidation db ic (UserReads tx))))))))))"

section \<open>Database administration\<close>

definition validateCreateDBEntry :: "DB \<Rightarrow> string \<Rightarrow> ValidationInfo res" where
  "validateCreateDBEntry db dbName =
     (if dbName = '''' then
        Inr (invalid INVALID_INCORRECT_ENTRIES ''the name of the database to be created cannot be empty'')
      else if \<not> ValidDBName db dbName then
        Inr (invalid INVALID_INCORRECT_ENTRIES (''the database name ['' @ dbName @ ''] is not valid''))
      else if IsSystemDB dbName then
        Inr (invalid INVALID_INCORRECT_ENTRIES
               (''the database ['' @ dbName @ ''] is a system database which cannot be created as it exist by default''))
      else if IsDefaultWorldStateDB dbName then
        Inr (invalid INVALID_INCORRECT_ENTRIES
               (''the database ['' @ dbName @ ''] is the system created default database for storing states and it cannot be created as it exist by default''))
      else if Exist db dbName then
        Inr (invalid INVALID_INCORRECT_ENTRIES
               (''the database ['' @ dbName @ ''] already exists in the cluster and hence, it cannot be created''))
      else Inr valid_info)"

fun createDBLoop :: "DB \<Rightarrow> string list \<Rightarrow> string list \<Rightarrow> ValidationInfo res" where
  "createDBLoop db lookup [] = Inr valid_info"
| "createDBLoop db lookup (dbName # rest) =
     andThen (validateCreateDBEntry db dbName)
       (if dbName \<in> set lookup then
          Inr (invalid INVALID_INCORRECT_ENTRIES (''the database ['' @ dbName @ ''] is duplicated in the create list''))
        else createDBLoop db (dbName # lookup) rest)"

definition validateCreateDBEntries :: "DB \<Rightarrow> string list \<Rightarrow> ValidationInfo res" where
  "validateCreateDBEntries db toCreateDBs = createDBLoop db [] toCreateDBs"

definition validateDeleteDBEntry :: "DB \<Rightarrow> string \<Rightarrow> ValidationInfo res" where
  "validateDeleteDBEntry db dbName =
     (if dbName = '''' then
        Inr (invalid INVALID_INCORRECT_ENTRIES ''the name of the database to be deleted cannot be empty'')
      else if \<not> ValidDBName db dbName then
        Inr (invalid INVALID_INCORRECT_ENTRIES (''the database name ['' @ dbName @ ''] is not valid''))
      else if IsSystemDB dbName then
        Inr (invalid INVALID_INCORRECT_ENTRIES
               (''the database ['' @ dbName @ ''] is a system database which cannot be deleted''))
      else if IsDefaultWorldStateDB dbName then
        Inr (invalid INVALID_INCORRECT_ENTRIES
               (''the database ['' @ dbName @ ''] is the system created default database to store states and it cannot be deleted''))
      else if \<not> Exist db dbName then
        Inr (invalid INVALID_INCORRECT_ENTRIES
               (''the database ['' @ dbName @ ''] does not exist in the cluster and hence, it cannot be deleted''))
      else Inr valid_info)"

fun deleteDBLoop :: "DB \<Rightarrow> string list \<Rightarrow> string list \<Rightarrow> ValidationInfo res" where
  "deleteDBLoop db lookup [] = Inr valid_info"
| "deleteDBLoop db lookup (dbName # rest) =
     andThen (validateDeleteDBEntry db dbName)
       (if dbName \<in> set lookup then
          Inr (invalid INVALID_INCORRECT_ENTRIES (''the database ['' @ dbName @ ''] is duplicated in the delete list''))
        else deleteDBLoop db (dbName # lookup) rest)"

definition validateDeleteDBEntries :: "DB \<Rightarrow> string list \<Rightarrow> ValidationInfo res" where
  "validateDeleteDBEntries db toDeleteDBs = deleteDBLoop db [] toDeleteDBs"

definition IndexAttributeType_NUMBER :: int where "IndexAttributeType_NUMBER = 0"
definition IndexAttributeType_STRING :: int where "IndexAttributeType_STRING = 1"
definition IndexAttributeType_BOOLEAN :: int where "IndexAttributeType_BOOLEAN = 2"

definition validateIndexEntry ::
  "DB \<Rightarrow> string list \<Rightarrow> string list \<Rightarrow> string \<times> DBIndex option \<Rightarrow> ValidationInfo res" where
  "validateIndexEntry db toCreateDBs toDeleteDBs = (\<lambda>(dbName, dbIndex).
     if \<not> Exist db dbName \<and> dbName \<notin> set toCreateDBs then
       Inr (invalid INVALID_INCORRECT_ENTRIES
              (''index definion provided for database ['' @ dbName @ ''] cannot be processed as the database neither exists nor is in the create DB list''))
     else if Exist db dbName \<and> dbName \<in> set toDeleteDBs then
       Inr (invalid INVALID_INCORRECT_ENTRIES
              (''index definion provided for database ['' @ dbName @ ''] cannot be processed as the database is present in the delete list''))
     else if Exist db dbName then
       Inr (invalid INVALID_INCORRECT_ENTRIES ''index update to an existing database is not allowed'')
     else (case dbIndex of
         None \<Rightarrow> Inl (Panic ''nil pointer dereference'')
       | Some ix \<Rightarrow>
           checkAll (\<lambda>(attr, ty).
             if ty \<in> {IndexAttributeType_NUMBER, IndexAttributeType_STRING, IndexAttributeType_BOOLEAN} then Inr valid_info
             else Inr (invalid INVALID_INCORRECT_ENTRIES (''invalid type provided for the attribute ['' @ attr @ '']'')))
             (AttributeAndType ix)))"

definition validateIndexEntries ::
  "DB \<Rightarrow> (string, DBIndex option) gomap \<Rightarrow> string list \<Rightarrow> string list \<Rightarrow> ValidationInfo res" where
  "validateIndexEntries db dbsIndex toCreateDBs toDeleteDBs =
     checkAll (validateIndexEntry db toCreateDBs toDeleteDBs) dbsIndex"

definition dbAdmin_validate ::
  "DB \<Rightarrow> id_codec \<Rightarrow> 'c x509 \<Rightarrow> (DBAdministrationTx \<Rightarrow> bytes res) \<Rightarrow> DBAdministrationTxEnvelope \<Rightarrow> ValidationInfo res" where
  "dbAdmin_validate db ic x marshal txEnv =
     (let tx = DAPayload txEnv in
      andThen (sig_validate db ic x marshal (DAUserId tx) (DASignature txEnv) tx)
     (rbind (wrap (''error while checking database administrative privilege for user ['' @ DAUserId tx @ '']'')
               (HasAdministrationPrivilege db ic (DAUserId tx))) (\<lambda>hasPerm.
      if \<not> hasPerm then
        Inr (invalid INVALID_NO_PERMISSION
               (''the user ['' @ DAUserId tx @ ''] has no privilege to perform database administrative operations''))
      else
        andThen (validateCreateDBEntries db (CreateDbs tx))
       (andThen (validateDeleteDBEntries db (DeleteDbs tx))
                (validateIndexEntries db (DbsIndex tx) (CreateDbs tx) (DeleteDbs tx))))))"

section \<open>What a valid administration transaction is\<close>

definition isAdmin :: "User \<Rightarrow> bool" where
  "isAdmin u \<longleftrightarrow> (\<exists>p. UPrivilege u = Some p \<and> Admin p)"

text \<open>A user who exists, is an administrator and whose certificate verifies the signature of the payload.\<close>

definition signedByAdmin ::
  "DB \<Rightarrow> id_codec \<Rightarrow> 'c x509 \<Rightarrow> bytes res \<Rightarrow> string \<Rightarrow> slice \<Rightarrow> bool" where
  "signedByAdmin db ic x body user sig \<longleftrightarrow>
     (\<exists>b u m c. body = Inr b \<and> GetUser db ic user = Inr (u, m) \<and> isAdmin u
        \<and> ParseCertificate x (content (UCertificate u)) = Inr c \<and> CheckSignature x c b sig = Inr ())"

definition userAbsent :: "DB \<Rightarrow> id_codec \<Rightarrow> string \<Rightarrow> bool" where
  "userAbsent db ic u \<longleftrightarrow> (\<exists>msg. GetUser db ic u = Inl (NotFoundErr msg))"

definition targetMayRead :: "DB \<Rightarrow> id_codec \<Rightarrow> string \<Rightarrow> string \<Rightarrow> bool" where
  "targetMayRead db ic src target \<longleftrightarrow>
     (\<exists>u m. GetUser db ic target = Inr (u, m) \<and>
        (\<forall>a. GetAccessControl m = Some a \<longrightarrow> lookup_bool (ReadUsers a) src \<or> lookup_bool (ReadWriteUsers a) src))"

definition targetMayModify :: "DB \<Rightarrow> id_codec \<Rightarrow> string \<Rightarrow> string \<Rightarrow> bool" where
  "targetMayModify db ic src target \<longleftrightarrow>
     (\<exists>u m. GetUser db ic target = Inr (u, m) \<and> \<not> isAdmin u \<and>
        (\<forall>a. GetAccessControl m = Some a \<longrightarrow> lookup_bool (ReadWriteUsers a) src))"

definition userVersionIs :: "DB \<Rightarrow> id_codec \<Rightarrow> string \<Rightarrow> Version option \<Rightarrow> bool" where
  "userVersionIs db ic u v \<longleftrightarrow>
     userAbsent db ic u \<and> v = None
     \<or> (\<exists>usr md. GetUser db ic u = Inr (usr, Some md) \<and> v = MVersion md)"

definition userWriteOK :: "DB \<Rightarrow> 'c x509 \<Rightarrow> 'c CACertCollection \<Rightarrow> UserWrite option \<Rightarrow> bool" where
  "userWriteOK db x cas w \<longleftrightarrow>
     (\<exists>uw u. w = Some uw \<and> UWUser uw = Some u \<and> UId u \<noteq> '''' \<and> \<not> isAdmin u
        \<and> (\<forall>p. UPrivilege u = Some p \<longrightarrow> (\<forall>n \<in> fst ` set (DbPermission p). Exist db n))
        \<and> VerifyLeafCert x cas (UCertificate u) = Inr ())"

definition clusterCAs :: "DB \<Rightarrow> 'c x509 \<Rightarrow> 'c CACertCollection \<Rightarrow> bool" where
  "clusterCAs db x cas \<longleftrightarrow>
     (\<exists>config md ca. GetConfig db = Inr (config, md) \<and> CertAuthConfig config = Some ca
        \<and> NewCACertCollection x (Roots ca) (Intermediates ca) = Inr cas)"

definition userTxOK :: "DB \<Rightarrow> id_codec \<Rightarrow> 'c x509 \<Rightarrow> UserAdministrationTx \<Rightarrow> bool" where
  "userTxOK db ic x tx \<longleftrightarrow>
     (\<exists>cas. clusterCAs db x cas \<and> (\<forall>w \<in> set (UserWrites tx). userWriteOK db x cas w))
     \<and> None \<notin> set (UserDeletes tx) \<and> '''' \<notin> set (deletedIds (UserDeletes tx))
     \<and> distinct (writtenIds (UserWrites tx) @ deletedIds (UserDeletes tx))
     \<and> (\<forall>r \<in> set (UserReads tx).
          (userAbsent db ic (URUserId r) \<or> targetMayRead db ic (UTUserId tx) (URUserId r))
          \<and> userVersionIs db ic (URUserId r) (URVersion r))
     \<and> (\<forall>i \<in> set (writtenIds (UserWrites tx)). userAbsent db ic i \<or> targetMayModify db ic (UTUserId tx) i)
     \<and> (\<forall>i \<in> set (deletedIds (UserDeletes tx)). targetMayModify db ic (UTUserId tx) i)"

definition userDBName :: "DB \<Rightarrow> string \<Rightarrow> bool" where
  "userDBName db n \<longleftrightarrow> n \<noteq> '''' \<and> ValidDBName db n \<and> \<not> IsSystemDB n \<and> \<not> IsDefaultWorldStateDB n"

definition dbTxOK :: "DB \<Rightarrow> DBAdministrationTx \<Rightarrow> bool" where
  "dbTxOK db tx \<longleftrightarrow>
     (\<forall>n \<in> set (CreateDbs tx). userDBName db n \<and> \<not> Exist db n) \<and> distinct (CreateDbs tx)
     \<and> (\<forall>n \<in> set (DeleteDbs tx). userDBName db n \<and> Exist db n) \<and> distinct (DeleteDbs tx)
     \<and> (\<forall>(n, ix) \<in> set (DbsIndex tx). n \<in> set (CreateDbs tx) \<and> \<not> Exist db n
          \<and> (\<exists>i. ix = Some i \<and> snd ` set (AttributeAndType i) \<subseteq> {0, 1, 2}))"

section \<open>The checks decide validity\<close>

lemma passes_wrap [simp]: "passes (wrap msg r) \<longleftrightarrow> passes r"
  by (cases r) auto

lemma passes_handle:
  "passes (handle m h k) \<longleftrightarrow> (\<exists>a. m = Inr a \<and> passes (k a)) \<or> (\<exists>e. m = Inl e \<and> \<not> is_panic e \<and> passes (h e))"
  by (cases m) auto

lemma is_notfound_iff: "is_notfound e \<longleftrightarrow> (\<exists>m. e = NotFoundErr m)"
  by (cases e) (simp_all add: is_notfound_def)

lemma NotFoundErr_not_panic [simp]: "\<not> is_panic (NotFoundErr m)"
  by (simp add: is_panic_def)

lemma userWriteField_passes: "passes (userWriteField db x cas w) \<longleftrightarrow> userWriteOK db x cas w"
proof (cases w)
  case w: (Some uw)
  show ?thesis
  proof (cases "UWUser uw")
    case (Some u)
    then show ?thesis
      using w by (cases "UPrivilege u") (auto simp: userWriteField_def userWriteOK_def isAdmin_def passes_handle)
  qed (use w in \<open>simp add: userWriteField_def userWriteOK_def\<close>)
qed (simp add: userWriteField_def userWriteOK_def)

lemma validateFieldsInUserWrites_passes:
  "passes (validateFieldsInUserWrites db x ws) \<longleftrightarrow> (\<exists>cas. clusterCAs db x cas \<and> (\<forall>w \<in> set ws. userWriteOK db x cas w))"
  unfolding validateFieldsInUserWrites_def clusterCAs_def
  by (fastforce simp: passes_rbind userWriteField_passes split: option.splits)

lemma validateFieldsInUserDeletes_passes:
  "passes (validateFieldsInUserDeletes ds) \<longleftrightarrow> None \<notin> set ds \<and> '''' \<notin> set (deletedIds ds)"
proof -
  have "passes (userDeleteField d) \<longleftrightarrow> (\<exists>ud. d = Some ud \<and> UDUserId ud \<noteq> '''')" for d
    by (cases d) (auto simp: userDeleteField_def)
  then show ?thesis
    unfolding validateFieldsInUserDeletes_def passes_checkAll deletedIds_def
  proof (induction ds)
    case (Cons a ds)
    then show ?case
      by (cases a) auto
  qed simp
qed

lemma uniqueUserDeletes_valid:
  "VFlag (uniqueUserDeletes wk seen ds) = VALID \<longleftrightarrow> set ds \<inter> (set seen \<union> set wk) = {} \<and> distinct ds"
  by (induction wk seen ds rule: uniqueUserDeletes.induct) auto

lemma validateUniquenessInUser_passes:
  "passes (validateUniquenessInUserWritesAndDeletes ws ds) \<longleftrightarrow> distinct (writtenIds ws @ deletedIds ds)"
  by (auto simp: validateUniquenessInUserWritesAndDeletes_def uniqueIds_valid uniqueUserDeletes_valid)

lemma GetUser_access:
  "HasReadAccessOnTargetUser db ic s t = Inr True \<longleftrightarrow> targetMayRead db ic s t"
  "HasAdministrationPrivilege db ic t = Inr a \<longleftrightarrow> (\<exists>u m. GetUser db ic t = Inr (u, m) \<and> a = isAdmin u)"
  "HasReadWriteAccessOnTargetUser db ic s t = Inr True \<longleftrightarrow>
     (\<exists>u m. GetUser db ic t = Inr (u, m) \<and> (\<forall>a. GetAccessControl m = Some a \<longrightarrow> lookup_bool (ReadWriteUsers a) s))"
  by (auto simp: HasReadAccessOnTargetUser_def HasAdministrationPrivilege_def HasReadWriteAccessOnTargetUser_def
      Querier_GetAccessControl_def targetMayRead_def isAdmin_def rbind_Inr_iff split: option.splits)

lemma GetUser_errors:
  "GetUser db ic t = Inl e \<Longrightarrow> HasReadAccessOnTargetUser db ic s t = Inl e"
  "GetUser db ic t = Inl e \<Longrightarrow> HasAdministrationPrivilege db ic t = Inl e"
  by (simp_all add: HasReadAccessOnTargetUser_def HasAdministrationPrivilege_def Querier_GetAccessControl_def)

lemma GetUser_result:
  "GetUser db ic t = Inr (u, m) \<Longrightarrow> HasReadAccessOnTargetUser db ic s t = Inr (targetMayRead db ic s t)"
  "GetUser db ic t = Inr (u, m) \<Longrightarrow> HasAdministrationPrivilege db ic t = Inr (isAdmin u)"
  "GetUser db ic t = Inr (u, m) \<Longrightarrow> \<not> isAdmin u \<Longrightarrow>
     HasReadWriteAccessOnTargetUser db ic s t = Inr (targetMayModify db ic s t)"
  by (auto simp: HasReadAccessOnTargetUser_def HasAdministrationPrivilege_def HasReadWriteAccessOnTargetUser_def
      Querier_GetAccessControl_def targetMayRead_def targetMayModify_def isAdmin_def split: option.splits)

lemma validateACLOnUserRead_passes:
  "passes (validateACLOnUserRead db ic s r) \<longleftrightarrow> userAbsent db ic (URUserId r) \<or> targetMayRead db ic s (URUserId r)"
proof (cases "GetUser db ic (URUserId r)")
  case (Inl e)
  then show ?thesis
    by (auto simp: validateACLOnUserRead_def GetUser_errors userAbsent_def is_notfound_iff targetMayRead_def)
next
  case (Inr um)
  then show ?thesis
    by (cases um) (simp add: validateACLOnUserRead_def GetUser_result userAbsent_def)
qed

lemma modify_target_cases:
  assumes "\<And>e. GetUser db ic t = Inl e \<Longrightarrow> P" "\<And>u m. GetUser db ic t = Inr (u, m) \<Longrightarrow> isAdmin u \<Longrightarrow> P"
    and "\<And>u m. GetUser db ic t = Inr (u, m) \<Longrightarrow> \<not> isAdmin u \<Longrightarrow> P"
  shows P
  using assms by (cases "GetUser db ic t") auto

lemma validateACLOnUserWrite_passes:
  "passes (validateACLOnUserWrite db ic s t) \<longleftrightarrow> userAbsent db ic t \<or> targetMayModify db ic s t"
  by (rule modify_target_cases[of db ic t])
    (auto simp: validateACLOnUserWrite_def GetUser_errors GetUser_result userAbsent_def is_notfound_iff
      targetMayModify_def)

lemma validateACLOnUserDelete_passes:
  "passes (validateACLOnUserDelete db ic s t) \<longleftrightarrow> targetMayModify db ic s t"
  by (rule modify_target_cases[of db ic t])
    (simp_all add: validateACLOnUserDelete_def GetUser_errors GetUser_result is_notfound_iff targetMayModify_def)

lemma userMvccRead_passes:
  "passes (userMvccRead db ic r) \<longleftrightarrow> userVersionIs db ic (URUserId r) (URVersion r)"
proof (cases "GetUser db ic (URUserId r)")
  case (Inl e)
  then show ?thesis
    by (auto simp: userMvccRead_def GetUserVersion_def userVersionIs_def userAbsent_def is_notfound_iff)
next
  case (Inr um)
  then show ?thesis
    by (cases um) (auto simp: userMvccRead_def GetUserVersion_def userVersionIs_def userAbsent_def is_panic_def
        split: option.splits)
qed

lemma signedByAdmin_passes:
  "passes (sig_validate db ic x marshal user sig p) \<and> HasAdministrationPrivilege db ic user = Inr True
   \<longleftrightarrow> signedByAdmin db ic x (marshal p) user sig"
  by (auto simp: sig_validate_passes GetUser_access signedByAdmin_def SignatureVerifier_Verify_def GetCertificate_def
      rbind_Inr_iff)

lemma userAdmin_validate_passes:
  "passes (userAdmin_validate db ic x marshal env) \<longleftrightarrow>
   signedByAdmin db ic x (marshal (UPayload env)) (UTUserId (UPayload env)) (USignature env)
   \<and> userTxOK db ic x (UPayload env)"
  unfolding signedByAdmin_passes[symmetric] userAdmin_validate_def Let_def passes_andThen passes_rbind wrap_Inr_iff
    userTxOK_def validateACLOnUserReads_def validateACLOnUserWrites_def validateACLOnUserDeletes_def userMvccValidation_def
  by (auto simp: validateFieldsInUserWrites_passes validateFieldsInUserDeletes_passes validateUniquenessInUser_passes
      validateACLOnUserRead_passes validateACLOnUserWrite_passes validateACLOnUserDelete_passes userMvccRead_passes)

lemma createDBLoop_passes:
  "passes (createDBLoop db lk ns) \<longleftrightarrow>
   (\<forall>n \<in> set ns. userDBName db n \<and> \<not> Exist db n) \<and> set ns \<inter> set lk = {} \<and> distinct ns"
  by (induction db lk ns rule: createDBLoop.induct) (auto simp: validateCreateDBEntry_def userDBName_def)

lemma deleteDBLoop_passes:
  "passes (deleteDBLoop db lk ns) \<longleftrightarrow>
   (\<forall>n \<in> set ns. userDBName db n \<and> Exist db n) \<and> set ns \<inter> set lk = {} \<and> distinct ns"
  by (induction db lk ns rule: deleteDBLoop.induct) (auto simp: validateDeleteDBEntry_def userDBName_def)

lemma validateIndexEntry_passes:
  "passes (validateIndexEntry db cs ds (n, ix)) \<longleftrightarrow>
   n \<in> set cs \<and> \<not> Exist db n \<and> (\<exists>i. ix = Some i \<and> snd ` set (AttributeAndType i) \<subseteq> {0, 1, 2})"
  by (auto simp: validateIndexEntry_def IndexAttributeType_NUMBER_def IndexAttributeType_STRING_def
      IndexAttributeType_BOOLEAN_def split: option.splits if_splits)

lemma validateIndexEntries_passes:
  "passes (validateIndexEntries db ixs cs ds) \<longleftrightarrow>
   (\<forall>(n, ix) \<in> set ixs. n \<in> set cs \<and> \<not> Exist db n
      \<and> (\<exists>i. ix = Some i \<and> snd ` set (AttributeAndType i) \<subseteq> {0, 1, 2}))"
  unfolding validateIndexEntries_def passes_checkAll
  by (rule ball_cong[OF refl]) (simp add: validateIndexEntry_passes split: prod.split)

lemma dbAdmin_validate_passes:
  "passes (dbAdmin_validate db ic x marshal env) \<longleftrightarrow>
   signedByAdmin db ic x (marshal (DAPayload env)) (DAUserId (DAPayload env)) (DASignature env)
   \<and> dbTxOK db (DAPayload env)"
  unfolding signedByAdmin_passes[symmetric] dbAdmin_validate_def Let_def passes_andThen passes_rbind wrap_Inr_iff
    dbTxOK_def validateCreateDBEntries_def validateDeleteDBEntries_def
  by (cases "HasAdministrationPrivilege db ic (DAUserId (DAPayload env)) = Inr True")
    (simp_all add: createDBLoop_passes deleteDBLoop_passes validateIndexEntries_passes passes_if ex_bool_eq)

end
