(* ===== verification/Cluster_Config.thy ===== *)
theory Cluster_Config
  imports Types
begin

text \<open>
  Changes of the cluster configuration: \<^verbatim>\<open>internal/replication/utils.go\<close>. The kinds of change
  between two configurations, and the rules a change of the consensus members has to meet. The
  rules are shown to keep every quorum of the old membership in contact with every quorum of the
  new one.
\<close>

section \<open>Classification\<close>

definition nilPointer :: "'a res" where
  "nilPointer = Inl (Panic ''nil pointer dereference'')"

text \<open>\<^verbatim>\<open>proto.Equal\<close> of two pointers: bytes fields compare by content.\<close>

definition admin_eq :: "AdminEntry option \<Rightarrow> AdminEntry option \<Rightarrow> bool" where
  "admin_eq a b = (case (a, b) of
     (None, None) \<Rightarrow> True
   | (Some x, Some y) \<Rightarrow> AId x = AId y \<and> slice_eq (ACertificate x) (ACertificate y)
   | _ \<Rightarrow> False)"

definition node_eq :: "NodeConfig option \<Rightarrow> NodeConfig option \<Rightarrow> bool" where
  "node_eq a b = (case (a, b) of
     (None, None) \<Rightarrow> True
   | (Some x, Some y) \<Rightarrow> NId x = NId y \<and> NAddress x = NAddress y \<and> NPort x = NPort y
       \<and> slice_eq (NCertificate x) (NCertificate y)
   | _ \<Rightarrow> False)"

definition changedAdmins :: "AdminEntry option list \<Rightarrow> AdminEntry option list \<Rightarrow> bool" where
  "changedAdmins curAdmins updAdmins =
     (if length curAdmins \<noteq> length updAdmins then True
      else list_ex (\<lambda>curA. \<not> list_ex (admin_eq curA) updAdmins) curAdmins)"

definition changedNodes :: "NodeConfig option list \<Rightarrow> NodeConfig option list \<Rightarrow> bool" where
  "changedNodes curNodes updNodes =
     (if length curNodes \<noteq> length updNodes then True
      else list_ex (\<lambda>curN. \<not> list_ex (node_eq curN) updNodes) curNodes)"

definition ClassifyClusterReConfig :: "ClusterConfig \<Rightarrow> ClusterConfig \<Rightarrow> bool \<times> bool \<times> bool \<times> bool" where
  "ClassifyClusterReConfig currentConfig updatedConfig =
     (changedNodes (Nodes currentConfig) (Nodes updatedConfig),
      ConsensusConf currentConfig \<noteq> ConsensusConf updatedConfig,
      CertAuthConfig currentConfig \<noteq> CertAuthConfig updatedConfig,
      changedAdmins (Admins currentConfig) (Admins updatedConfig))"

definition raftPeers :: "ClusterConfig \<Rightarrow> 64 word list res" where
  "raftPeers config = (case ConsensusConf config of
     None \<Rightarrow> nilPointer
   | Some c \<Rightarrow> Inr (map (\<lambda>m. case m of None \<Rightarrow> 0 | Some p \<Rightarrow> RaftId p) (Members c)))"

section \<open>Changes of the members\<close>

fun peerMap :: "(string, PeerConfig) gomap \<Rightarrow> PeerConfig option list \<Rightarrow> (string, PeerConfig) gomap res" where
  "peerMap acc [] = Inr acc"
| "peerMap acc (None # ms) = nilPointer"
| "peerMap acc (Some m # ms) = peerMap (gomap_put acc (NodeId m) m) ms"

text \<open>
  The loop over the updated members. Its state: the map of the updated peers, the added peers
  and the changed peers.
\<close>

fun detectUpdated ::
  "(string, PeerConfig) gomap \<Rightarrow> RaftConfig option \<Rightarrow> PeerConfig option list
   \<Rightarrow> (string, PeerConfig) gomap \<times> PeerConfig list \<times> PeerConfig list
   \<Rightarrow> ((string, PeerConfig) gomap \<times> PeerConfig list \<times> PeerConfig list) res" where
  "detectUpdated currPeers raftConf [] st = Inr st"
| "detectUpdated currPeers raftConf (None # ms) st = nilPointer"
| "detectUpdated currPeers raftConf (Some m # ms) (updtPeers, added, changed) =
     (let updtPeers' = gomap_put updtPeers (NodeId m) m in
      case map_of currPeers (NodeId m) of
        Some currMember \<Rightarrow>
          if m \<noteq> currMember then
            (if RaftId m \<noteq> RaftId currMember then
               Inl (Err (''cannot change the RaftId of an existing peer: NodeId='' @ NodeId currMember
                 @ '', current='' @ dec (unat (RaftId currMember)) @ '', updated='' @ dec (unat (RaftId m))))
             else detectUpdated currPeers raftConf ms (updtPeers', added, changed @ [m]))
          else detectUpdated currPeers raftConf ms (updtPeers', added, changed)
      | None \<Rightarrow> (case raftConf of
          None \<Rightarrow> nilPointer
        | Some rc \<Rightarrow>
            if RaftId m \<le> MaxRaftId rc then
              Inl (Err (''the RaftId of a new peer must be unique,  > MaxRaftId ['' @ dec (unat (MaxRaftId rc))
                @ '']; but: NodeId='' @ NodeId m @ '', RaftID='' @ dec (unat (RaftId m))))
            else detectUpdated currPeers raftConf ms (updtPeers', added @ [m], changed)))"

definition detectPeerConfigChanges ::
  "ConsensusConfig \<Rightarrow> ConsensusConfig \<Rightarrow> (PeerConfig list \<times> PeerConfig list \<times> PeerConfig list) res" where
  "detectPeerConfigChanges currentConfig updatedConfig =
     rbind (peerMap [] (Members currentConfig)) (\<lambda>currPeers.
     rbind (detectUpdated currPeers (RaftConf currentConfig) (Members updatedConfig) ([], [], []))
       (\<lambda>(updtPeers, addedPeers, changedPeers).
     Inr (addedPeers, filter (\<lambda>m. \<not> has_key updtPeers (NodeId m)) (map snd currPeers), changedPeers)))"

definition VerifyConsensusReConfig :: "ConsensusConfig option \<Rightarrow> ConsensusConfig option \<Rightarrow> unit res" where
  "VerifyConsensusReConfig current updated =
     (case (current, updated) of
        (Some currentConfig, Some updatedConfig) \<Rightarrow>
          rbind (detectPeerConfigChanges currentConfig updatedConfig) (\<lambda>(addedPeers, removedPeers, changedPeers).
          if length addedPeers + length removedPeers > 1 then
            Inl (Err (''cannot make more than one membership change at a time: '' @ dec (length addedPeers)
                 @ '' added, '' @ dec (length removedPeers) @ '' removed''))
          else if length addedPeers + length removedPeers = 1 \<and> length changedPeers > 1 then
            Inl (Err (''cannot update peer endpoints while making membership changes: '' @ dec (length addedPeers)
                 @ '' added, '' @ dec (length removedPeers) @ '' removed, '' @ dec (length changedPeers) @ '' updated''))
          else Inr ())
      | _ \<Rightarrow> nilPointer)"

section \<open>What an accepted change is\<close>

definition memberIds :: "ConsensusConfig \<Rightarrow> string set" where
  "memberIds c = NodeId ` set (somes (Members c))"

definition raftIds :: "ConsensusConfig \<Rightarrow> 64 word set" where
  "raftIds c = RaftId ` set (somes (Members c))"

text \<open>The members part of what the config validator demands: no nil entry, unique node and Raft identifiers.\<close>

definition membersOK :: "ConsensusConfig \<Rightarrow> bool" where
  "membersOK c \<longleftrightarrow> None \<notin> set (Members c) \<and> distinct (map NodeId (somes (Members c)))
     \<and> distinct (map RaftId (somes (Members c)))"

lemma peerMap_ok:
  assumes "None \<notin> set ms" "distinct (map NodeId (somes ms))" "NodeId ` set (somes ms) \<inter> fst ` set acc = {}"
    and "\<forall>(k, m) \<in> set acc. k = NodeId m" "distinct (map fst acc)"
  shows "\<exists>mp. peerMap acc ms = Inr mp \<and> distinct (map fst mp)
    \<and> set mp = set acc \<union> (\<lambda>m. (NodeId m, m)) ` set (somes ms)"
  using assms
proof (induction acc ms rule: peerMap.induct)
  case (3 acc m ms)
  have eq: "gomap_put acc (NodeId m) m = (NodeId m, m) # acc"
    unfolding gomap_put_def using 3(4) by (force simp: filter_id_conv)
  have "\<exists>mp. peerMap (gomap_put acc (NodeId m) m) ms = Inr mp \<and> distinct (map fst mp)
    \<and> set mp = set (gomap_put acc (NodeId m) m) \<union> (\<lambda>m. (NodeId m, m)) ` set (somes ms)"
    by (rule 3(1)) (use 3(2-) eq in auto)
  then show ?case
    using eq by auto
qed auto

lemma peerMap_lookup:
  assumes "membersOK c"
  obtains mp where "peerMap [] (Members c) = Inr mp" "distinct (map fst mp)"
    "set mp = (\<lambda>m. (NodeId m, m)) ` set (somes (Members c))"
    "\<And>k m. map_of mp k = Some m \<longleftrightarrow> m \<in> set (somes (Members c)) \<and> NodeId m = k"
proof -
  obtain mp where mp: "peerMap [] (Members c) = Inr mp" "distinct (map fst mp)"
      "set mp = (\<lambda>m. (NodeId m, m)) ` set (somes (Members c))"
    using peerMap_ok[of "Members c" "[]"] assms by (auto simp: membersOK_def)
  moreover have "map_of mp k = Some m \<longleftrightarrow> m \<in> set (somes (Members c)) \<and> NodeId m = k" for k m
    using mp(2,3) by (auto simp: map_of_eq_Some_iff)
  ultimately show thesis
    by (rule that)
qed

lemma detectUpdated_step:
  assumes "detectUpdated cur rc (Some m # ms) (up, ad, ch) = Inr r"
  shows "(\<exists>c. map_of cur (NodeId m) = Some c \<and> RaftId m = RaftId c
      \<and> detectUpdated cur rc ms (gomap_put up (NodeId m) m, ad, if m \<noteq> c then ch @ [m] else ch) = Inr r)
    \<or> map_of cur (NodeId m) = None \<and> (\<exists>x. rc = Some x \<and> MaxRaftId x < RaftId m)
      \<and> detectUpdated cur rc ms (gomap_put up (NodeId m) m, ad @ [m], ch) = Inr r"
proof (cases "map_of cur (NodeId m)")
  case None
  then show ?thesis
    using assms by (cases rc) (auto simp: Let_def nilPointer_def not_le split: if_splits)
next
  case (Some c)
  then show ?thesis
    using assms by (auto simp: Let_def split: if_splits)
qed

lemma detectUpdated_ok:
  assumes "detectUpdated cur rc ms (up, ad, ch) = Inr (up', ad', ch')"
  shows "fst ` set up' = fst ` set up \<union> NodeId ` set (somes ms)
    \<and> ad' = ad @ filter (\<lambda>m. map_of cur (NodeId m) = None) (somes ms)
    \<and> ch' = ch @ filter (\<lambda>m. \<exists>c. map_of cur (NodeId m) = Some c \<and> m \<noteq> c) (somes ms)
    \<and> (\<forall>m \<in> set (somes ms). \<forall>c. map_of cur (NodeId m) = Some c \<longrightarrow> RaftId m = RaftId c)
    \<and> (\<forall>m \<in> set (somes ms). map_of cur (NodeId m) = None \<longrightarrow> (\<exists>r. rc = Some r \<and> MaxRaftId r < RaftId m))"
  using assms
proof (induction ms arbitrary: up ad ch)
  case (Cons x ms)
  then obtain m where x: "x = Some m"
    by (cases x) (auto simp: nilPointer_def)
  have put: "fst ` set (gomap_put up (NodeId m) m) = insert (NodeId m) (fst ` set up)"
    by (auto simp: gomap_put_def)
  from detectUpdated_step[OF Cons.prems[unfolded x]] show ?case
  proof (elim disjE exE conjE)
    fix c assume c: "map_of cur (NodeId m) = Some c" "RaftId m = RaftId c"
      and "detectUpdated cur rc ms (gomap_put up (NodeId m) m, ad, if m \<noteq> c then ch @ [m] else ch) = Inr (up', ad', ch')"
    from Cons.IH[OF this(3)] show ?thesis
      unfolding put x using c by (simp del: set_somes)
  next
    fix r assume n: "map_of cur (NodeId m) = None" "rc = Some r" "MaxRaftId r < RaftId m"
      and "detectUpdated cur rc ms (gomap_put up (NodeId m) m, ad @ [m], ch) = Inr (up', ad', ch')"
    from Cons.IH[OF this(4)] show ?thesis
      unfolding put x using n by (simp del: set_somes)
  qed
qed simp

text \<open>
  An accepted change, without loops or messages: a member that stays keeps its Raft identifier,
  a new one has an identifier above every identifier used so far, at most one member joins or
  leaves, and with it at most one other member changes its endpoint.
\<close>

definition reconfigOK :: "ConsensusConfig \<Rightarrow> ConsensusConfig \<Rightarrow> bool" where
  "reconfigOK cur upd \<longleftrightarrow>
     (\<forall>m \<in> set (somes (Members upd)). \<forall>c \<in> set (somes (Members cur)). NodeId m = NodeId c \<longrightarrow> RaftId m = RaftId c)
     \<and> (\<forall>m \<in> set (somes (Members upd)). NodeId m \<notin> memberIds cur \<longrightarrow>
          (\<exists>r. RaftConf cur = Some r \<and> MaxRaftId r < RaftId m))
     \<and> card (memberIds upd - memberIds cur) + card (memberIds cur - memberIds upd) \<le> 1
     \<and> (memberIds upd \<noteq> memberIds cur \<longrightarrow>
          card {m \<in> set (somes (Members upd)). NodeId m \<in> memberIds cur \<and> m \<notin> set (somes (Members cur))} \<le> 1)"

lemma card_filter_ids:
  assumes "distinct (map f xs)"
  shows "card (f ` {x \<in> set xs. P x}) = length (filter P xs)"
proof -
  have "inj_on f {x \<in> set xs. P x}"
    using assms by (auto simp: distinct_map inj_on_def)
  then have "card (f ` {x \<in> set xs. P x}) = card (set (filter P xs))"
    by (simp add: card_image)
  also have "\<dots> = length (filter P xs)"
    using assms by (intro distinct_card) (auto simp: distinct_map)
  finally show ?thesis .
qed

lemma VerifyConsensusReConfig_ok:
  assumes "membersOK cur" "membersOK upd" "VerifyConsensusReConfig (Some cur) (Some upd) = Inr ()"
  shows "reconfigOK cur upd"
proof -
  obtain mp where mp: "peerMap [] (Members cur) = Inr mp" "distinct (map fst mp)"
      "set mp = (\<lambda>m. (NodeId m, m)) ` set (somes (Members cur))"
      "\<And>k m. map_of mp k = Some m \<longleftrightarrow> m \<in> set (somes (Members cur)) \<and> NodeId m = k"
    by (rule peerMap_lookup[OF assms(1)]) (rule that)
  obtain up ad ch where d: "detectUpdated mp (RaftConf cur) (Members upd) ([], [], []) = Inr (up, ad, ch)"
    and lens: "length ad + length (filter (\<lambda>m. \<not> has_key up (NodeId m)) (map snd mp)) \<le> 1"
      "length ad + length (filter (\<lambda>m. \<not> has_key up (NodeId m)) (map snd mp)) = 1 \<longrightarrow> length ch \<le> 1"
    using assms(3) mp(1)
    by (auto simp: VerifyConsensusReConfig_def detectPeerConfigChanges_def rbind_Inr_iff not_less split: if_splits)
  note u = detectUpdated_ok[OF d, simplified]
  have none: "map_of mp k = None \<longleftrightarrow> k \<notin> memberIds cur" for k
    using mp(3) by (auto simp: map_of_eq_None_iff memberIds_def image_image)
  have "memberIds upd - memberIds cur = NodeId ` {m \<in> set (somes (Members upd)). map_of mp (NodeId m) = None}"
    by (auto simp: none) (auto simp: memberIds_def)
  then have ad: "card (memberIds upd - memberIds cur) = length ad"
    using card_filter_ids[of NodeId "somes (Members upd)"] assms(2) u by (simp add: membersOK_def)
  have ks: "map NodeId (map snd mp) = map fst mp"
    using mp(3) by (auto intro!: map_cong)
  have "memberIds cur - memberIds upd = NodeId ` {m \<in> set (map snd mp). \<not> has_key up (NodeId m)}"
    using mp(3) u by (auto simp: has_key_iff memberIds_def image_iff)
  then have rm: "card (memberIds cur - memberIds upd) = length (filter (\<lambda>m. \<not> has_key up (NodeId m)) (map snd mp))"
    using card_filter_ids[of NodeId "map snd mp"] unfolding ks by (simp only: mp(2))
  have "card {m \<in> set (somes (Members upd)). NodeId m \<in> memberIds cur \<and> m \<notin> set (somes (Members cur))} \<le> length ch"
  proof -
    have "{m \<in> set (somes (Members upd)). NodeId m \<in> memberIds cur \<and> m \<notin> set (somes (Members cur))} \<subseteq> set ch"
      using u none mp(4) by (auto simp: memberIds_def)
    then show ?thesis
      by (meson List.finite_set card_length card_mono le_trans)
  qed
  moreover have "memberIds upd \<noteq> memberIds cur \<Longrightarrow> length ad + length (filter (\<lambda>m. \<not> has_key up (NodeId m)) (map snd mp)) = 1"
    using ad rm lens(1) by (metis Diff_eq_empty_iff One_nat_def add_is_0 card_0_eq finite_Diff
        finite_imageI finite_set le_SucE le_zero_eq memberIds_def subset_antisym)
  ultimately have "memberIds upd \<noteq> memberIds cur \<longrightarrow>
      card {m \<in> set (somes (Members upd)). NodeId m \<in> memberIds cur \<and> m \<notin> set (somes (Members cur))} \<le> 1"
    using lens(2) le_trans by blast
  then show ?thesis
    unfolding reconfigOK_def ad rm using u none mp(4) lens(1) by auto
qed

section \<open>Quorums\<close>

definition quorum :: "'a set \<Rightarrow> 'a set \<Rightarrow> bool" where
  "quorum members q \<longleftrightarrow> q \<subseteq> members \<and> card members < 2 * card q"

lemma quorums_meet:
  assumes "finite A" "finite B" "card (B - A) + card (A - B) \<le> 1" "quorum A q1" "quorum B q2"
  shows "q1 \<inter> q2 \<noteq> {}"
proof
  assume "q1 \<inter> q2 = {}"
  moreover have "finite q1" "finite q2"
    using assms by (auto simp: quorum_def intro: finite_subset)
  ultimately have "card q1 + card q2 = card (q1 \<union> q2)"
    by (simp add: card_Un_disjoint)
  also have "\<dots> \<le> card (A \<union> B)"
    using assms by (intro card_mono) (auto simp: quorum_def)
  finally have le: "card q1 + card q2 \<le> card (A \<union> B)" .
  have "card (A \<union> B) = card A + card (B - A)" "card (A \<union> B) = card B + card (A - B)"
    using card_Un_disjoint[of A "B - A"] card_Un_disjoint[of B "A - B"] assms(1,2) by (auto simp: Un_commute)
  then show False
    using le assms(3-5) unfolding quorum_def by linarith
qed

text \<open>The Raft identifiers change by at most one, as the members do.\<close>

lemma raftIds_diff:
  assumes "distinct (map NodeId xs)"
    and "\<forall>m \<in> set xs. \<forall>c \<in> set ys. NodeId m = NodeId c \<longrightarrow> RaftId m = RaftId c"
  shows "card (RaftId ` set xs - RaftId ` set ys) \<le> card (NodeId ` set xs - NodeId ` set ys)"
proof -
  let ?N = "{m \<in> set xs. NodeId m \<notin> NodeId ` set ys}"
  have "RaftId ` set xs - RaftId ` set ys \<subseteq> RaftId ` ?N"
  proof
    fix r assume r: "r \<in> RaftId ` set xs - RaftId ` set ys"
    then obtain m where m: "m \<in> set xs" "r = RaftId m"
      by auto
    have "NodeId m \<notin> NodeId ` set ys"
    proof
      assume "NodeId m \<in> NodeId ` set ys"
      then obtain c where "c \<in> set ys" "NodeId m = NodeId c"
        by auto
      then have "RaftId m \<in> RaftId ` set ys"
        using assms(2) m(1) by simp
      then show False
        using r m(2) by simp
    qed
    then show "r \<in> RaftId ` ?N"
      using m by blast
  qed
  then have "card (RaftId ` set xs - RaftId ` set ys) \<le> card (RaftId ` ?N)"
    by (intro card_mono) auto
  also have "\<dots> \<le> card ?N"
    by (intro card_image_le) auto
  also have "\<dots> = card (NodeId ` ?N)"
    using assms(1) by (intro card_image[symmetric]) (rule inj_on_subset[of NodeId "set xs"], simp_all add: distinct_map)
  also have "NodeId ` ?N = NodeId ` set xs - NodeId ` set ys"
    by auto
  finally show ?thesis .
qed

lemma raftIds_change:
  assumes "membersOK cur" "membersOK upd" "reconfigOK cur upd"
  shows "card (raftIds upd - raftIds cur) + card (raftIds cur - raftIds upd) \<le> 1"
proof -
  let ?u = "somes (Members upd)" and ?c = "somes (Members cur)"
  have keep: "\<forall>m \<in> set ?u. \<forall>c \<in> set ?c. NodeId m = NodeId c \<longrightarrow> RaftId m = RaftId c"
    using assms(3) unfolding reconfigOK_def by blast
  then have "\<forall>c \<in> set ?c. \<forall>m \<in> set ?u. NodeId c = NodeId m \<longrightarrow> RaftId c = RaftId m"
    by simp
  then have "card (raftIds cur - raftIds upd) \<le> card (memberIds cur - memberIds upd)"
    unfolding raftIds_def memberIds_def using assms(1) by (intro raftIds_diff) (simp_all add: membersOK_def)
  moreover have "card (raftIds upd - raftIds cur) \<le> card (memberIds upd - memberIds cur)"
    unfolding raftIds_def memberIds_def using assms(2) keep by (intro raftIds_diff) (simp_all add: membersOK_def)
  moreover have "card (memberIds upd - memberIds cur) + card (memberIds cur - memberIds upd) \<le> 1"
    using assms(3) unfolding reconfigOK_def by blast
  ultimately show ?thesis
    by linarith
qed

end
