(* ===== verification/Validate_Config.thy ===== *)
theory Validate_Config
  imports Validate_Admin Cluster_Config
begin

text \<open>
  Validation of cluster configurations: \<^verbatim>\<open>internal/txvalidation/config_tx_validator.go\<close>, for the
  genesis block and for configuration transactions. Parsing of IP addresses, host names and
  durations is that of the Go packages \<^verbatim>\<open>net\<close>, \<^verbatim>\<open>net/url\<close> and \<^verbatim>\<open>time\<close>, a parameter record.
\<close>

record text_parsers =
  ParseIP :: "string \<Rightarrow> bool"
  Hostname :: "string \<Rightarrow> string option"
  ParseDuration :: "string \<Rightarrow> int res"

section \<open>The parts of a configuration\<close>

abbreviation incorrect :: "string \<Rightarrow> ValidationInfo res" where
  "incorrect msg \<equiv> Inr (invalid INVALID_INCORRECT_ENTRIES msg)"

definition hostPort :: "string \<Rightarrow> 32 word \<Rightarrow> string" where
  "hostPort host port = host @ '':'' @ dec (unat port)"

text \<open>\<open>Hostname h\<close> is \<^verbatim>\<open>u.Hostname()\<close> of the parsed URL \<^verbatim>\<open>"bogus://" + h\<close>, \<open>None\<close> when parsing fails.\<close>

definition validateHostPort :: "text_parsers \<Rightarrow> string \<Rightarrow> 32 word \<Rightarrow> unit res" where
  "validateHostPort tp host port =
     (if host = '''' then Inl (Err ''an empty host'')
      else if \<not> ParseIP tp host \<and> Hostname tp host \<noteq> Some host then Inl (Err (''an invalid host ['' @ host @ '']''))
      else if port = 0 \<or> port \<ge> 2 ^ 16 then Inl (Err (''an invalid port number ['' @ dec (unat port) @ '']''))
      else Inr ())"

text \<open>The check of the CA part also returns the collection that the later checks use.\<close>

definition validateCAConfig :: "'c x509 \<Rightarrow> CAConfig option \<Rightarrow> (ValidationInfo \<times> 'c CACertCollection option) res" where
  "validateCAConfig x caConfig =
     (case caConfig of
        None \<Rightarrow> Inr (invalid INVALID_INCORRECT_ENTRIES ''CA config is empty. At least one root CA is required'', None)
      | Some ca \<Rightarrow>
          if Roots ca = [] then
            Inr (invalid INVALID_INCORRECT_ENTRIES ''CA config Roots is empty. At least one root CA is required'', None)
          else
            handle (NewCACertCollection x (Roots ca) (Intermediates ca))
              (\<lambda>e. Inr (invalid INVALID_INCORRECT_ENTRIES
                        (''CA certificate collection cannot be created: '' @ go_error_string e), None))
              (\<lambda>cas. handle (VerifyCollection x cas)
                 (\<lambda>e. Inr (invalid INVALID_INCORRECT_ENTRIES
                           (''CA certificate collection is invalid: '' @ go_error_string e), None))
                 (\<lambda>_. Inr (valid_info, Some cas))))"

text \<open>A leaf certificate as part of an entry named \<open>what\<close>.\<close>

definition leafCertCheck :: "'c x509 \<Rightarrow> 'c CACertCollection \<Rightarrow> string \<Rightarrow> slice \<Rightarrow> ValidationInfo res" where
  "leafCertCheck x cas what cert =
     handle (VerifyLeafCert x cas cert)
       (\<lambda>e. incorrect (''the '' @ what @ '' has an invalid certificate: '' @ go_error_string e))
       (\<lambda>_. Inr valid_info)"

fun nodeConfigLoop ::
  "text_parsers \<Rightarrow> 'c x509 \<Rightarrow> 'c CACertCollection \<Rightarrow> string list \<Rightarrow> string list \<Rightarrow> NodeConfig option list \<Rightarrow> ValidationInfo res" where
  "nodeConfigLoop tp x cas ids hps [] = Inr valid_info"
| "nodeConfigLoop tp x cas ids hps (None # ns) = incorrect ''there is an empty node entry in the node config''"
| "nodeConfigLoop tp x cas ids hps (Some n # ns) =
     (if NId n = '''' then
        incorrect ''there is a node in the node config with an empty ID. A valid nodeID must be an non-empty string''
      else
        andThen (leafCertCheck x cas (''node ['' @ NId n @ '']'') (NCertificate n))
       (handle (validateHostPort tp (NAddress n) (NPort n))
          (\<lambda>e. incorrect (''the node ['' @ NId n @ ''] has '' @ go_error_string e))
          (\<lambda>_. if NId n \<in> set ids then
                 incorrect (''there are two nodes with the same ID ['' @ NId n @ ''] in the node config. The node IDs must be unique'')
               else if hostPort (NAddress n) (NPort n) \<in> set hps then
                 incorrect (''there are two nodes with the same Host:Port ['' @ hostPort (NAddress n) (NPort n)
                   @ ''] in the node config. Endpoints must be unique'')
               else nodeConfigLoop tp x cas (NId n # ids) (hostPort (NAddress n) (NPort n) # hps) ns)))"

definition validateNodeConfig ::
  "text_parsers \<Rightarrow> 'c x509 \<Rightarrow> NodeConfig option list \<Rightarrow> 'c CACertCollection \<Rightarrow> ValidationInfo res" where
  "validateNodeConfig tp x nodes cas =
     (if nodes = [] then incorrect ''node config is empty. There must be at least single node in the cluster''
      else nodeConfigLoop tp x cas [] [] nodes)"

fun adminConfigLoop :: "'c x509 \<Rightarrow> 'c CACertCollection \<Rightarrow> string list \<Rightarrow> AdminEntry option list \<Rightarrow> ValidationInfo res" where
  "adminConfigLoop x cas ids [] = Inr valid_info"
| "adminConfigLoop x cas ids (None # as) = incorrect ''there is an empty admin entry in the admin config''"
| "adminConfigLoop x cas ids (Some a # as) =
     (if AId a = '''' then
        incorrect ''there is an admin in the admin config with an empty ID. A valid adminID must be an non-empty string''
      else
        andThen (leafCertCheck x cas (''admin ['' @ AId a @ '']'') (ACertificate a))
          (if AId a \<in> set ids then
             incorrect (''there are two admins with the same ID ['' @ AId a @ ''] in the admin config. The admin IDs must be unique'')
           else adminConfigLoop x cas (AId a # ids) as))"

definition validateAdminConfig :: "'c x509 \<Rightarrow> AdminEntry option list \<Rightarrow> 'c CACertCollection \<Rightarrow> ValidationInfo res" where
  "validateAdminConfig x admins cas =
     (if admins = [] then incorrect ''admin config is empty. There must be at least single admin in the cluster''
      else adminConfigLoop x cas [] admins)"

text \<open>
  The loop over the members: it hands the node identifiers and endpoints it has seen to the loop
  over the observers.
\<close>

fun membersLoop ::
  "text_parsers \<Rightarrow> string list \<Rightarrow> string list \<Rightarrow> 64 word list \<Rightarrow> PeerConfig option list
   \<Rightarrow> (string list \<Rightarrow> string list \<Rightarrow> ValidationInfo res) \<Rightarrow> ValidationInfo res" where
  "membersLoop tp ids hps rids [] k = k ids hps"
| "membersLoop tp ids hps rids (None # ms) k = incorrect ''Consensus config has an empty member entry.''"
| "membersLoop tp ids hps rids (Some m # ms) k =
     (if NodeId m = '''' then
        incorrect ''Consensus config has a member with an empty ID. A valid nodeID must be an non-empty string.''
      else if RaftId m = 0 then
        incorrect (''Consensus config has a member ['' @ NodeId m @ ''] with Raft ID 0, must be >0.'')
      else
        handle (validateHostPort tp (PeerHost m) (PeerPort m))
          (\<lambda>e. incorrect (''Consensus config has a member ['' @ NodeId m @ ''] with '' @ go_error_string e))
          (\<lambda>_. if NodeId m \<in> set ids then
                 incorrect (''Consensus config has two members with the same ID ['' @ NodeId m @ ''], the node IDs must be unique.'')
               else if RaftId m \<in> set rids then
                 incorrect (''Consensus config has two members with the same Raft ID ['' @ dec (unat (RaftId m))
                   @ ''], Raft IDs must be unique.'')
               else if hostPort (PeerHost m) (PeerPort m) \<in> set hps then
                 incorrect (''Consensus config has two members with the same Host:Port ['' @ hostPort (PeerHost m) (PeerPort m)
                   @ ''], endpoints must be unique.'')
               else membersLoop tp (NodeId m # ids) (hostPort (PeerHost m) (PeerPort m) # hps) (RaftId m # rids) ms k))"

fun observersLoop ::
  "text_parsers \<Rightarrow> string list \<Rightarrow> string list \<Rightarrow> PeerConfig option list \<Rightarrow> ValidationInfo res" where
  "observersLoop tp ids hps [] = Inr valid_info"
| "observersLoop tp ids hps (None # ps) = incorrect ''Consensus config has an empty observer entry.''"
| "observersLoop tp ids hps (Some m # ps) =
     (if NodeId m = '''' then
        incorrect ''Consensus config has an observer with an empty ID. A valid nodeID must be an non-empty string.''
      else if RaftId m \<noteq> 0 then
        incorrect (''Consensus config has an observer ['' @ NodeId m @ ''] with Raft ID >0.'')
      else
        handle (validateHostPort tp (PeerHost m) (PeerPort m))
          (\<lambda>e. incorrect (''Consensus config has an observer ['' @ NodeId m @ ''] with '' @ go_error_string e))
          (\<lambda>_. if NodeId m \<in> set ids then
                 incorrect (''Consensus config has two peers with the same ID ['' @ NodeId m @ ''], the node IDs must be unique.'')
               else if hostPort (PeerHost m) (PeerPort m) \<in> set hps then
                 incorrect (''Consensus config has two peers with the same Host:Port ['' @ hostPort (PeerHost m) (PeerPort m)
                   @ ''], endpoints must be unique.'')
               else observersLoop tp (NodeId m # ids) (hostPort (PeerHost m) (PeerPort m) # hps) ps))"

definition validateRaftConfig :: "text_parsers \<Rightarrow> RaftConfig option \<Rightarrow> ValidationInfo res" where
  "validateRaftConfig tp rc =
     (case rc of
        None \<Rightarrow> incorrect ''Consensus config RaftConfig is empty.''
      | Some r \<Rightarrow>
          if TickInterval r = '''' then incorrect ''Consensus config RaftConfig.TickInterval is empty.''
          else if HeartbeatTicks r = 0 then incorrect ''Consensus config RaftConfig.HeartbeatTicks is 0.''
          else if ElectionTicks r = 0 then incorrect ''Consensus config RaftConfig.ElectionTicks is 0.''
          else handle (ParseDuration tp (TickInterval r))
              (\<lambda>e. incorrect (''Consensus config RaftConfig.TickInterval is invalid: '' @ go_error_string e))
              (\<lambda>d. if d \<le> 0 then incorrect (''Consensus config RaftConfig.TickInterval is invalid: '' @ TickInterval r)
                   else Inr valid_info))"

definition validateConsensusConfig :: "text_parsers \<Rightarrow> ConsensusConfig option \<Rightarrow> ValidationInfo res" where
  "validateConsensusConfig tp consensusConf =
     (case consensusConf of
        None \<Rightarrow> incorrect ''Consensus config is empty.''
      | Some c \<Rightarrow>
          if Algorithm c \<noteq> ''raft'' then incorrect (''Consensus config Algorithm '' @ [CHR 0x27] @ Algorithm c @ [CHR 0x27] @ '' is not supported.'')
          else if Members c = [] then incorrect ''Consensus config has no member peers. At least one member peer is required.''
          else membersLoop tp [] [] [] (Members c) (\<lambda>ids hps.
                 andThen (observersLoop tp ids hps (Observers c)) (validateRaftConfig tp (RaftConf c))))"

text \<open>\<^verbatim>\<open>nodesMap\<close> holds the last node of each identifier.\<close>

fun nodesMap :: "(string, NodeConfig) gomap \<Rightarrow> NodeConfig option list \<Rightarrow> (string, NodeConfig) gomap res" where
  "nodesMap acc [] = Inr acc"
| "nodesMap acc (None # ns) = nilPointer"
| "nodesMap acc (Some n # ns) = nodesMap (gomap_put acc (NId n) n) ns"

definition memberNodeMatch :: "(string, NodeConfig) gomap \<Rightarrow> PeerConfig option \<Rightarrow> ValidationInfo res" where
  "memberNodeMatch nodes m =
     (case m of
        None \<Rightarrow> nilPointer
      | Some p \<Rightarrow> (case map_of nodes (NodeId p) of
          None \<Rightarrow> incorrect (''ClusterConfig.Nodes set does not include ClusterConfig.ConsensusConfig.Members peer ['' @ NodeId p
                    @ ''], Nodes set must include all Members.'')
        | Some n \<Rightarrow>
            if hostPort (NAddress n) (NPort n) = hostPort (PeerHost p) (PeerPort p) then
              incorrect (''ClusterConfig node ['' @ NodeId p @ ''] and respective peer have the same endpoint [''
                @ hostPort (NAddress n) (NPort n) @ ''], node and peer endpoints must be unique.'')
            else Inr valid_info))"

definition validateMembersNodesMatch :: "PeerConfig option list \<Rightarrow> NodeConfig option list \<Rightarrow> ValidationInfo res" where
  "validateMembersNodesMatch members nodes =
     (if length nodes \<noteq> length members then
        incorrect ''ClusterConfig.Nodes must be the same length as ClusterConfig.ConsensusConfig.Members, and Nodes set must include all Members''
      else rbind (nodesMap [] nodes) (\<lambda>mp. checkAll (memberNodeMatch mp) members))"

definition validateConfig :: "text_parsers \<Rightarrow> 'c x509 \<Rightarrow> ClusterConfig option \<Rightarrow> ValidationInfo res" where
  "validateConfig tp x conf =
     (case conf of
        None \<Rightarrow> nilPointer
      | Some config \<Rightarrow>
          rbind (validateCAConfig x (CertAuthConfig config)) (\<lambda>(vi, caCertCollection).
          andThen (Inr vi)
         (case caCertCollection of
            None \<Rightarrow> nilPointer
          | Some cas \<Rightarrow>
              andThen (validateNodeConfig tp x (Nodes config) cas)
             (andThen (validateAdminConfig x (Admins config) cas)
             (andThen (validateConsensusConfig tp (ConsensusConf config))
             (case ConsensusConf config of
                None \<Rightarrow> nilPointer
              | Some c \<Rightarrow> validateMembersNodesMatch (Members c) (Nodes config)))))))"

section \<open>The genesis block and configuration transactions\<close>

definition validateGenesis :: "text_parsers \<Rightarrow> 'c x509 \<Rightarrow> ConfigTxEnvelope \<Rightarrow> ValidationInfo list res" where
  "validateGenesis tp x txEnv =
     rbind (validateConfig tp x (NewConfig (CPayload txEnv))) (\<lambda>vi.
     if VFlag vi \<noteq> VALID then
       Inl (Err (''genesis block cannot be invalid: reason for invalidation ['' @ ReasonIfInvalid vi @ '']''))
     else Inr [valid_info])"

definition configMvccValidation :: "Version option \<Rightarrow> Metadata option \<Rightarrow> ValidationInfo res" where
  "configMvccValidation readOldConfigVersion currentConfigMetadata =
     (if Metadata_GetVersion currentConfigMetadata \<noteq> readOldConfigVersion then
        Inr (invalid INVALID_MVCC_CONFLICT_WITH_COMMITTED_STATE
               ''mvcc conflict has occurred as the read old configuration does not match the committed version'')
      else Inr valid_info)"

definition validateConfigTransitionRules :: "ClusterConfig \<Rightarrow> ClusterConfig \<Rightarrow> ValidationInfo res" where
  "validateConfigTransitionRules currentConfig updatedConfig =
     (let (nodes, consensus, ca, admins) = ClassifyClusterReConfig currentConfig updatedConfig in
      if consensus then
        handle (VerifyConsensusReConfig (ConsensusConf currentConfig) (ConsensusConf updatedConfig))
          (\<lambda>e. incorrect (''error in ConsensusConfig: '' @ go_error_string e))
          (\<lambda>_. Inr valid_info)
      else Inr valid_info)"

definition ConfigTx_Validate ::
  "DB \<Rightarrow> id_codec \<Rightarrow> text_parsers \<Rightarrow> 'c x509 \<Rightarrow> (ConfigTx \<Rightarrow> bytes res) \<Rightarrow> ConfigTxEnvelope \<Rightarrow> ValidationInfo res" where
  "ConfigTx_Validate db ic tp x marshal txEnv =
     (let tx = CPayload txEnv in
      andThen (sig_validate db ic x marshal (CUserId tx) (CSignature txEnv) tx)
     (rbind (wrap (''error while checking cluster administrative privilege for user ['' @ CUserId tx @ '']'')
               (HasAdministrationPrivilege db ic (CUserId tx))) (\<lambda>hasPerm.
      if \<not> hasPerm then
        Inr (invalid INVALID_NO_PERMISSION
               (''the user ['' @ CUserId tx @ ''] has no privilege to perform cluster administrative operations''))
      else (case NewConfig tx of
          None \<Rightarrow> incorrect ''new config is empty. There must be at least single node and an admin in the cluster''
        | Some newConfig \<Rightarrow>
            andThen (validateConfig tp x (Some newConfig))
           (rbind (GetConfig db) (\<lambda>(clusterConfig, configMetadata).
            andThen (configMvccValidation (ReadOldConfigVersion tx) configMetadata)
                    (validateConfigTransitionRules clusterConfig newConfig)))))))"

section \<open>What a valid configuration is\<close>

definition endpointOK :: "text_parsers \<Rightarrow> string \<Rightarrow> 32 word \<Rightarrow> bool" where
  "endpointOK tp host port \<longleftrightarrow> host \<noteq> '''' \<and> (ParseIP tp host \<or> Hostname tp host = Some host) \<and> 0 < port \<and> port < 2 ^ 16"

definition nodesOK :: "text_parsers \<Rightarrow> 'c x509 \<Rightarrow> 'c CACertCollection \<Rightarrow> NodeConfig option list \<Rightarrow> bool" where
  "nodesOK tp x cas nodes \<longleftrightarrow> None \<notin> set nodes
     \<and> (\<forall>n \<in> set (somes nodes). NId n \<noteq> '''' \<and> VerifyLeafCert x cas (NCertificate n) = Inr () \<and> endpointOK tp (NAddress n) (NPort n))
     \<and> distinct (map NId (somes nodes)) \<and> distinct (map (\<lambda>n. (NAddress n, NPort n)) (somes nodes))"

definition adminsOK :: "'c x509 \<Rightarrow> 'c CACertCollection \<Rightarrow> AdminEntry option list \<Rightarrow> bool" where
  "adminsOK x cas admins \<longleftrightarrow> None \<notin> set admins
     \<and> (\<forall>a \<in> set (somes admins). AId a \<noteq> '''' \<and> VerifyLeafCert x cas (ACertificate a) = Inr ())
     \<and> distinct (map AId (somes admins))"

definition peerEndpoint :: "PeerConfig \<Rightarrow> string \<times> 32 word" where
  "peerEndpoint m = (PeerHost m, PeerPort m)"

definition peersOK :: "text_parsers \<Rightarrow> PeerConfig option list \<Rightarrow> PeerConfig option list \<Rightarrow> bool" where
  "peersOK tp members observers \<longleftrightarrow> None \<notin> set (members @ observers)
     \<and> (\<forall>m \<in> set (somes (members @ observers)). NodeId m \<noteq> '''' \<and> endpointOK tp (PeerHost m) (PeerPort m))
     \<and> (\<forall>m \<in> set (somes members). RaftId m \<noteq> 0) \<and> (\<forall>m \<in> set (somes observers). RaftId m = 0)
     \<and> distinct (map NodeId (somes (members @ observers)))
     \<and> distinct (map peerEndpoint (somes (members @ observers)))
     \<and> distinct (map RaftId (somes members))"

definition raftConfigOK :: "text_parsers \<Rightarrow> RaftConfig \<Rightarrow> bool" where
  "raftConfigOK tp r \<longleftrightarrow> TickInterval r \<noteq> '''' \<and> HeartbeatTicks r \<noteq> 0 \<and> ElectionTicks r \<noteq> 0
     \<and> (\<exists>d > 0. ParseDuration tp (TickInterval r) = Inr d)"

definition consensusOK :: "text_parsers \<Rightarrow> ConsensusConfig \<Rightarrow> bool" where
  "consensusOK tp c \<longleftrightarrow> Algorithm c = ''raft'' \<and> Members c \<noteq> [] \<and> peersOK tp (Members c) (Observers c)
     \<and> (\<exists>r. RaftConf c = Some r \<and> raftConfigOK tp r)"

definition clusterConfigOK :: "text_parsers \<Rightarrow> 'c x509 \<Rightarrow> ClusterConfig \<Rightarrow> bool" where
  "clusterConfigOK tp x config \<longleftrightarrow>
     (\<exists>ca cas c. CertAuthConfig config = Some ca \<and> Roots ca \<noteq> []
        \<and> NewCACertCollection x (Roots ca) (Intermediates ca) = Inr cas \<and> VerifyCollection x cas = Inr ()
        \<and> Nodes config \<noteq> [] \<and> nodesOK tp x cas (Nodes config)
        \<and> Admins config \<noteq> [] \<and> adminsOK x cas (Admins config)
        \<and> ConsensusConf config = Some c \<and> consensusOK tp c
        \<and> length (Nodes config) = length (Members c)
        \<and> (\<forall>m \<in> set (somes (Members c)). \<exists>n \<in> set (somes (Nodes config)).
             NId n = NodeId m \<and> (NAddress n, NPort n) \<noteq> peerEndpoint m))"

section \<open>The checks decide validity\<close>

lemma hostPort_inj: "hostPort h p = hostPort h' p' \<longleftrightarrow> h = h' \<and> p = p'"
  unfolding hostPort_def using split_at_last[of h "CHR '':''" "dec (unat p)" h' "dec (unat p')"] dec_inj
  by (auto simp: dec_no_colon word_unat_eq_iff)

lemma validateHostPort_iff: "validateHostPort tp h p = Inr () \<longleftrightarrow> endpointOK tp h p"
  by (auto simp: validateHostPort_def endpointOK_def not_le word_gt_0)

lemma validateHostPort_no_panic: "validateHostPort tp h p = Inl e \<Longrightarrow> \<not> is_panic e"
  by (auto simp: validateHostPort_def is_panic_def split: if_splits)

lemma leafCertCheck_passes: "passes (leafCertCheck x cas w c) \<longleftrightarrow> VerifyLeafCert x cas c = Inr ()"
  by (auto simp: leafCertCheck_def passes_handle)

lemma somes_append [simp]: "somes (xs @ ys) = somes xs @ somes ys"
  by (simp add: somes_def List.map_filter_def)

lemma nodeConfigLoop_passes:
  "passes (nodeConfigLoop tp x cas ids hps ns) \<longleftrightarrow>
     None \<notin> set ns
     \<and> (\<forall>n \<in> set (somes ns). NId n \<noteq> '''' \<and> VerifyLeafCert x cas (NCertificate n) = Inr () \<and> endpointOK tp (NAddress n) (NPort n))
     \<and> distinct (map NId (somes ns)) \<and> set (map NId (somes ns)) \<inter> set ids = {}
     \<and> distinct (map (\<lambda>n. hostPort (NAddress n) (NPort n)) (somes ns))
     \<and> set (map (\<lambda>n. hostPort (NAddress n) (NPort n)) (somes ns)) \<inter> set hps = {}"
proof (induction tp x cas ids hps ns rule: nodeConfigLoop.induct)
  case (3 tp x cas ids hps n ns)
  show ?case
    by (auto simp: leafCertCheck_passes passes_handle validateHostPort_iff 3 simp del: set_somes)
qed auto

lemma adminConfigLoop_passes:
  "passes (adminConfigLoop x cas ids as) \<longleftrightarrow>
     None \<notin> set as \<and> (\<forall>a \<in> set (somes as). AId a \<noteq> '''' \<and> VerifyLeafCert x cas (ACertificate a) = Inr ())
     \<and> distinct (map AId (somes as)) \<and> set (map AId (somes as)) \<inter> set ids = {}"
proof (induction x cas ids as rule: adminConfigLoop.induct)
  case (3 x cas ids a as)
  show ?case
    by (auto simp: leafCertCheck_passes 3 simp del: set_somes)
qed auto

abbreviation peerHP :: "PeerConfig \<Rightarrow> string" where
  "peerHP m \<equiv> hostPort (PeerHost m) (PeerPort m)"

lemma membersLoop_passes:
  "passes (membersLoop tp ids hps rids ms k) \<longleftrightarrow>
     None \<notin> set ms
     \<and> (\<forall>m \<in> set (somes ms). NodeId m \<noteq> '''' \<and> RaftId m \<noteq> 0 \<and> endpointOK tp (PeerHost m) (PeerPort m))
     \<and> distinct (map NodeId (somes ms)) \<and> set (map NodeId (somes ms)) \<inter> set ids = {}
     \<and> distinct (map RaftId (somes ms)) \<and> set (map RaftId (somes ms)) \<inter> set rids = {}
     \<and> distinct (map peerHP (somes ms)) \<and> set (map peerHP (somes ms)) \<inter> set hps = {}
     \<and> passes (k (rev (map NodeId (somes ms)) @ ids) (rev (map peerHP (somes ms)) @ hps))"
proof (induction tp ids hps rids ms k rule: membersLoop.induct)
  case (3 tp ids hps rids m ms k)
  show ?case
    by (auto simp: passes_handle validateHostPort_iff 3 simp del: set_somes)
qed auto

lemma observersLoop_passes:
  "passes (observersLoop tp ids hps ps) \<longleftrightarrow>
     None \<notin> set ps
     \<and> (\<forall>m \<in> set (somes ps). NodeId m \<noteq> '''' \<and> RaftId m = 0 \<and> endpointOK tp (PeerHost m) (PeerPort m))
     \<and> distinct (map NodeId (somes ps)) \<and> set (map NodeId (somes ps)) \<inter> set ids = {}
     \<and> distinct (map peerHP (somes ps)) \<and> set (map peerHP (somes ps)) \<inter> set hps = {}"
proof (induction tp ids hps ps rule: observersLoop.induct)
  case (3 tp ids hps m ps)
  show ?case
    by (auto simp: passes_handle validateHostPort_iff 3 simp del: set_somes)
qed auto

lemma distinct_hostPort: "distinct (map (\<lambda>a. hostPort (f a) (g a)) xs) \<longleftrightarrow> distinct (map (\<lambda>a. (f a, g a)) xs)"
  by (induction xs) (auto simp: hostPort_inj)

lemma hostPort_image:
  "hostPort (f a) (g a) \<in> (\<lambda>a. hostPort (f' a) (g' a)) ` A \<longleftrightarrow> (f a, g a) \<in> (\<lambda>a. (f' a, g' a)) ` A"
  by (auto simp: hostPort_inj)

lemma validateRaftConfig_passes: "passes (validateRaftConfig tp rc) \<longleftrightarrow> (\<exists>r. rc = Some r \<and> raftConfigOK tp r)"
  by (cases rc) (auto simp: validateRaftConfig_def raftConfigOK_def passes_handle not_le cong: conj_cong)

lemma peersOK_iff:
  "peersOK tp ms ps \<longleftrightarrow> passes (membersLoop tp [] [] [] ms (\<lambda>ids hps. observersLoop tp ids hps ps))"
proof -
  have ep: "distinct (map peerEndpoint zs) \<longleftrightarrow> distinct (map peerHP zs)" for zs
    by (simp add: peerEndpoint_def[abs_def] distinct_hostPort)
  show ?thesis
    unfolding peersOK_def membersLoop_passes observersLoop_passes ep
    by (auto simp: Int_commute simp del: set_somes)
qed

lemma validateConsensusConfig_passes:
  "passes (validateConsensusConfig tp cc) \<longleftrightarrow> (\<exists>c. cc = Some c \<and> consensusOK tp c)"
proof (cases cc)
  case (Some c)
  have "passes (membersLoop tp [] [] [] (Members c) (\<lambda>ids hps. andThen (observersLoop tp ids hps (Observers c)) r))
      \<longleftrightarrow> peersOK tp (Members c) (Observers c) \<and> passes r" for r
    by (simp add: peersOK_iff membersLoop_passes conj_ac)
  then show ?thesis
    using Some by (auto simp: validateConsensusConfig_def consensusOK_def validateRaftConfig_passes)
qed (simp add: validateConsensusConfig_def)

lemma nodesMap_ok:
  assumes "None \<notin> set ns" "distinct (map NId (somes ns))" "NId ` set (somes ns) \<inter> fst ` set acc = {}" "distinct (map fst acc)"
  shows "\<exists>mp. nodesMap acc ns = Inr mp \<and> distinct (map fst mp)
    \<and> set mp = set acc \<union> (\<lambda>n. (NId n, n)) ` set (somes ns)"
  using assms
proof (induction acc ns rule: nodesMap.induct)
  case (3 acc n ns)
  have eq: "gomap_put acc (NId n) n = (NId n, n) # acc"
    unfolding gomap_put_def using 3(4) by (force simp: filter_id_conv)
  have "\<exists>mp. nodesMap (gomap_put acc (NId n) n) ns = Inr mp \<and> distinct (map fst mp)
    \<and> set mp = set (gomap_put acc (NId n) n) \<union> (\<lambda>n. (NId n, n)) ` set (somes ns)"
    by (rule 3(1)) (use 3(2-) eq in auto)
  then show ?case
    using eq by auto
qed auto

lemma validateMembersNodesMatch_passes:
  assumes "None \<notin> set ns" "distinct (map NId (somes ns))" "None \<notin> set ms"
  shows "passes (validateMembersNodesMatch ms ns) \<longleftrightarrow> length ns = length ms
    \<and> (\<forall>m \<in> set (somes ms). \<exists>n \<in> set (somes ns). NId n = NodeId m \<and> (NAddress n, NPort n) \<noteq> peerEndpoint m)"
proof -
  obtain mp where mp: "nodesMap [] ns = Inr mp" "distinct (map fst mp)" "set mp = (\<lambda>n. (NId n, n)) ` set (somes ns)"
    using nodesMap_ok[of ns "[]"] assms(1,2) by auto
  have lk: "map_of mp k = Some n \<longleftrightarrow> n \<in> set (somes ns) \<and> NId n = k" for k n
    using mp(2,3) by (auto simp: map_of_eq_Some_iff)
  have "passes (memberNodeMatch mp (Some m)) \<longleftrightarrow>
      (\<exists>n \<in> set (somes ns). NId n = NodeId m \<and> (NAddress n, NPort n) \<noteq> peerEndpoint m)" for m
  proof (cases "map_of mp (NodeId m)")
    case None
    then have "\<forall>n \<in> set (somes ns). NId n \<noteq> NodeId m"
      using lk[of "NodeId m"] by auto
    then show ?thesis
      using None by (auto simp: memberNodeMatch_def)
  next
    case (Some n)
    have "n' \<in> set (somes ns) \<Longrightarrow> NId n' = NodeId m \<Longrightarrow> n' = n" for n'
      using lk[of "NodeId m" n'] Some by force
    then have "(\<exists>n' \<in> set (somes ns). NId n' = NodeId m \<and> (NAddress n', NPort n') \<noteq> peerEndpoint m)
        \<longleftrightarrow> (NAddress n, NPort n) \<noteq> peerEndpoint m"
      using lk[of "NodeId m" n] Some by blast
    then show ?thesis
      using Some by (simp add: memberNodeMatch_def hostPort_inj peerEndpoint_def passes_if)
  qed
  then have "(\<forall>m \<in> set ms. passes (memberNodeMatch mp m)) \<longleftrightarrow>
     (\<forall>m \<in> set (somes ms). \<exists>n \<in> set (somes ns). NId n = NodeId m \<and> (NAddress n, NPort n) \<noteq> peerEndpoint m)"
    using assms(3) by (metis not_None_eq set_somes)
  then show ?thesis
    by (simp add: validateMembersNodesMatch_def mp(1) passes_if)
qed

lemma validateCAConfig_iff:
  "(\<exists>vi cas'. validateCAConfig x cc = Inr (vi, cas') \<and> VFlag vi = VALID \<and> cas' = Some cas) \<longleftrightarrow>
   (\<exists>ca. cc = Some ca \<and> Roots ca \<noteq> [] \<and> NewCACertCollection x (Roots ca) (Intermediates ca) = Inr cas
      \<and> VerifyCollection x cas = Inr ())"
proof (cases cc)
  case (Some ca)
  show ?thesis
  proof (cases "NewCACertCollection x (Roots ca) (Intermediates ca)")
    case (Inr c)
    then show ?thesis
      using Some by (cases "VerifyCollection x c") (auto simp: validateCAConfig_def)
  qed (use Some in \<open>auto simp: validateCAConfig_def\<close>)
qed (auto simp: validateCAConfig_def)

lemma validateConfig_passes:
  "passes (validateConfig tp x (Some config)) \<longleftrightarrow> clusterConfigOK tp x config"
proof -
  have nodes: "passes (validateNodeConfig tp x ns cas) \<longleftrightarrow> ns \<noteq> [] \<and> nodesOK tp x cas ns" for ns cas
    by (auto simp: validateNodeConfig_def nodesOK_def nodeConfigLoop_passes distinct_hostPort)
  have admins: "passes (validateAdminConfig x as cas) \<longleftrightarrow> as \<noteq> [] \<and> adminsOK x cas as" for as cas
    by (auto simp: validateAdminConfig_def adminsOK_def adminConfigLoop_passes)
  have rest: "passes (andThen (validateNodeConfig tp x (Nodes config) cas)
             (andThen (validateAdminConfig x (Admins config) cas)
             (andThen (validateConsensusConfig tp (ConsensusConf config))
             (case ConsensusConf config of
                None \<Rightarrow> nilPointer
              | Some c \<Rightarrow> validateMembersNodesMatch (Members c) (Nodes config))))) \<longleftrightarrow>
        Nodes config \<noteq> [] \<and> nodesOK tp x cas (Nodes config)
        \<and> Admins config \<noteq> [] \<and> adminsOK x cas (Admins config)
        \<and> (\<exists>c. ConsensusConf config = Some c \<and> consensusOK tp c
        \<and> length (Nodes config) = length (Members c)
        \<and> (\<forall>m \<in> set (somes (Members c)). \<exists>n \<in> set (somes (Nodes config)).
             NId n = NodeId m \<and> (NAddress n, NPort n) \<noteq> peerEndpoint m))" for cas
    unfolding passes_andThen nodes admins validateConsensusConfig_passes
    by (auto simp: nodesOK_def consensusOK_def peersOK_def validateMembersNodesMatch_passes simp del: set_somes)
  have "passes (validateConfig tp x (Some config)) \<longleftrightarrow>
      (\<exists>cas. (\<exists>vi cas'. validateCAConfig x (CertAuthConfig config) = Inr (vi, cas') \<and> VFlag vi = VALID \<and> cas' = Some cas)
         \<and> passes (andThen (validateNodeConfig tp x (Nodes config) cas)
             (andThen (validateAdminConfig x (Admins config) cas)
             (andThen (validateConsensusConfig tp (ConsensusConf config))
             (case ConsensusConf config of
                None \<Rightarrow> nilPointer
              | Some c \<Rightarrow> validateMembersNodesMatch (Members c) (Nodes config))))))"
    unfolding validateConfig_def option.case passes_rbind
    by (auto simp: nilPointer_def split: option.splits)
  also have "\<dots> \<longleftrightarrow> clusterConfigOK tp x config"
    unfolding rest validateCAConfig_iff clusterConfigOK_def by blast
  finally show ?thesis .
qed

text \<open>What a valid configuration transaction is.\<close>

definition configTxOK :: "DB \<Rightarrow> text_parsers \<Rightarrow> 'c x509 \<Rightarrow> ConfigTx \<Rightarrow> bool" where
  "configTxOK db tp x tx \<longleftrightarrow>
     (\<exists>newConfig cur md. NewConfig tx = Some newConfig \<and> clusterConfigOK tp x newConfig \<and> GetConfig db = Inr (cur, md)
        \<and> Metadata_GetVersion md = ReadOldConfigVersion tx
        \<and> (ConsensusConf cur \<noteq> ConsensusConf newConfig \<longrightarrow>
             VerifyConsensusReConfig (ConsensusConf cur) (ConsensusConf newConfig) = Inr ()))"

lemma transitionRules_passes:
  "passes (validateConfigTransitionRules cur upd) \<longleftrightarrow>
   (ConsensusConf cur \<noteq> ConsensusConf upd \<longrightarrow> VerifyConsensusReConfig (ConsensusConf cur) (ConsensusConf upd) = Inr ())"
  by (auto simp: validateConfigTransitionRules_def ClassifyClusterReConfig_def passes_handle)

lemma configMvcc_passes: "passes (configMvccValidation v md) \<longleftrightarrow> Metadata_GetVersion md = v"
  by (simp add: configMvccValidation_def)

lemma ConfigTx_Validate_passes:
  "passes (ConfigTx_Validate db ic tp x marshal env) \<longleftrightarrow>
   signedByAdmin db ic x (marshal (CPayload env)) (CUserId (CPayload env)) (CSignature env)
   \<and> configTxOK db tp x (CPayload env)"
proof (cases "NewConfig (CPayload env)")
  case (Some c)
  then show ?thesis
    unfolding signedByAdmin_passes[symmetric] ConfigTx_Validate_def Let_def passes_andThen passes_rbind wrap_Inr_iff
      configTxOK_def
    by (auto simp: validateConfig_passes passes_rbind configMvcc_passes transitionRules_passes split: prod.splits)
qed (auto simp: ConfigTx_Validate_def configTxOK_def Let_def passes_rbind)

end
