(* ===== verification/Validator.thy ===== *)
theory Validator
  imports Validate_Data Validate_Config
begin

text \<open>
  Validation of a whole block: \<^verbatim>\<open>ValidateBlock\<close> and \<^verbatim>\<open>parallelSigValidation\<close> of
  \<^verbatim>\<open>internal/txvalidation/validator.go\<close>. The goroutines of the signature stage each write their own
  slot, so their results are the list of the results of the transactions; the first error in the
  order of the block is the one returned.
\<close>

section \<open>The validator\<close>

text \<open>The JSON serialisation of the signed payloads.\<close>

record json_codec =
  JsonDataTx :: "DataTx \<Rightarrow> bytes res"
  JsonUserTx :: "UserAdministrationTx \<Rightarrow> bytes res"
  JsonDbTx :: "DBAdministrationTx \<Rightarrow> bytes res"
  JsonConfigTx :: "ConfigTx \<Rightarrow> bytes res"

record 'c Validator =
  VDB :: DB
  VCodec :: id_codec
  VX509 :: "'c x509"
  VParsers :: text_parsers
  VJson :: json_codec

fun mapRes :: "('a \<Rightarrow> 'b res) \<Rightarrow> 'a list \<Rightarrow> 'b list res" where
  "mapRes f [] = Inr []"
| "mapRes f (x # xs) = rbind (f x) (\<lambda>y. rbind (mapRes f xs) (\<lambda>ys. Inr (y # ys)))"

definition parallelSigValidation :: "'c Validator \<Rightarrow> DataTxEnvelope list \<Rightarrow> (string list \<times> ValidationInfo) list res" where
  "parallelSigValidation v dataTxEnvs =
     mapRes (validateSignatures (VDB v) (VCodec v) (VX509 v) (JsonDataTx (VJson v))) dataTxEnvs"

text \<open>The pending operations after a valid transaction.\<close>

definition addOps :: "DBOperation \<Rightarrow> pendingOperations \<Rightarrow> pendingOperations" where
  "addOps ops p =
     fold (\<lambda>d. addDelete (DbName ops) (DKey d)) (somes (DataDeletes ops))
       (fold (\<lambda>w. addWrite (DbName ops) (WKey w)) (somes (DataWrites ops)) p)"

definition addTx :: "DataTx \<Rightarrow> pendingOperations \<Rightarrow> pendingOperations" where
  "addTx tx p = fold addOps (DbOperations tx) p"

fun validateDataTxs ::
  "DB \<Rightarrow> id_codec \<Rightarrow> (DataTxEnvelope \<times> string list \<times> ValidationInfo) list \<Rightarrow> pendingOperations \<Rightarrow> ValidationInfo list res" where
  "validateDataTxs db ic [] pendingOps = Inr []"
| "validateDataTxs db ic ((txEnv, users, sigInfo) # rest) pendingOps =
     (if VFlag sigInfo \<noteq> VALID then
        rbind (validateDataTxs db ic rest pendingOps) (\<lambda>vs. Inr (sigInfo # vs))
      else
        rbind (wrap ''error while validating data transaction'' (dataTx_validate db ic txEnv users pendingOps)) (\<lambda>valRes.
        if VFlag valRes \<noteq> VALID then
          rbind (validateDataTxs db ic rest pendingOps) (\<lambda>vs. Inr (valRes # vs))
        else
          rbind (validateDataTxs db ic rest (addTx (DPayload txEnv) pendingOps)) (\<lambda>vs. Inr (valRes # vs))))"

definition ValidateBlock :: "'c Validator \<Rightarrow> Block \<Rightarrow> ValidationInfo list res" where
  "ValidateBlock v block =
     (if block_number block = 1 then
        (case BPayload block of
           Some (Block_ConfigTxEnvelope env) \<Rightarrow> validateGenesis (VParsers v) (VX509 v) env
         | _ \<Rightarrow> nilPointer)
      else (case BPayload block of
          Some (Block_DataTxEnvelopes dataTxEnvs) \<Rightarrow>
            rbind (parallelSigValidation v dataTxEnvs) (\<lambda>sigs.
            validateDataTxs (VDB v) (VCodec v) (zip dataTxEnvs sigs) newPendingOperations)
        | Some (Block_UserAdministrationTxEnvelope userTxEnv) \<Rightarrow>
            rbind (wrap ''error while validating user administrative transaction''
                     (userAdmin_validate (VDB v) (VCodec v) (VX509 v) (JsonUserTx (VJson v)) userTxEnv)) (\<lambda>valRes. Inr [valRes])
        | Some (Block_DbAdministrationTxEnvelope dbTxEnv) \<Rightarrow>
            rbind (wrap ''error while validating db administrative transaction''
                     (dbAdmin_validate (VDB v) (VCodec v) (VX509 v) (JsonDbTx (VJson v)) dbTxEnv)) (\<lambda>valRes. Inr [valRes])
        | Some (Block_ConfigTxEnvelope configTxEnv) \<Rightarrow>
            rbind (wrap ''error while validating config transaction''
                     (ConfigTx_Validate (VDB v) (VCodec v) (VParsers v) (VX509 v) (JsonConfigTx (VJson v)) configTxEnv)) (\<lambda>valRes. Inr [valRes])
        | None \<Rightarrow> Inl (Err ''unexpected transaction envelope in the block'')))"

section \<open>Pending operations\<close>

text \<open>The keys a transaction modifies and reads.\<close>

definition opModifies :: "DBOperation \<Rightarrow> (string \<times> string) set" where
  "opModifies ops = Pair (DbName ops) ` (WKey ` set (somes (DataWrites ops)) \<union> DKey ` set (somes (DataDeletes ops)))"

definition modifies :: "DataTx \<Rightarrow> (string \<times> string) set" where
  "modifies tx = (\<Union>ops \<in> set (DbOperations tx). opModifies ops)"

definition dataReads :: "DataTx \<Rightarrow> (string \<times> string \<times> Version option) set" where
  "dataReads tx = (\<Union>ops \<in> set (DbOperations tx). (\<lambda>r. (DbName ops, RKey r, RVersion r)) ` set (DataReads ops))"

text \<open>The composite keys that are pending.\<close>

definition pendingKeys :: "pendingOperations \<Rightarrow> string set" where
  "pendingKeys p = {k. lookup_bool (pendingWrites p) k \<or> lookup_bool (pendingDeletes p) k}"

definition ckey :: "string \<times> string \<Rightarrow> string" where
  "ckey dk = constructCompositeKey (fst dk) (snd dk)"

lemma pending_exist_iff: "pending_exist p d k \<longleftrightarrow> ckey (d, k) \<in> pendingKeys p"
  by (simp add: pending_exist_def pendingKeys_def ckey_def)

lemma pendingKeys_new [simp]: "pendingKeys newPendingOperations = {}"
  by (simp add: pendingKeys_def newPendingOperations_def lookup_bool_def)

lemma pendingKeys_add [simp]:
  "pendingKeys (addWrite d k p) = insert (ckey (d, k)) (pendingKeys p)"
  "pendingKeys (addDelete d k p) = insert (ckey (d, k)) (pendingKeys p)"
  by (auto simp: pendingKeys_def addWrite_def addDelete_def ckey_def lookup_bool_def)

lemma pendingKeys_fold:
  assumes "\<And>x p. pendingKeys (f x p) = g x \<union> pendingKeys p"
  shows "pendingKeys (fold f xs p) = (\<Union>x \<in> set xs. g x) \<union> pendingKeys p"
  by (induction xs arbitrary: p) (auto simp: assms)

lemma pendingKeys_addOps: "pendingKeys (addOps ops p) = ckey ` opModifies ops \<union> pendingKeys p"
proof -
  have w: "pendingKeys (fold (\<lambda>w. addWrite d (WKey w)) ws p) = (\<Union>w \<in> set ws. {ckey (d, WKey w)}) \<union> pendingKeys p" for d ws p
    by (rule pendingKeys_fold) simp
  have d: "pendingKeys (fold (\<lambda>w. addDelete d (DKey w)) ws p) = (\<Union>w \<in> set ws. {ckey (d, DKey w)}) \<union> pendingKeys p" for d ws p
    by (rule pendingKeys_fold) simp
  show ?thesis
    unfolding addOps_def opModifies_def w d by auto
qed

lemma pendingKeys_addTx: "pendingKeys (addTx tx p) = ckey ` modifies tx \<union> pendingKeys p"
  unfolding addTx_def modifies_def using pendingKeys_fold[of addOps "\<lambda>ops. ckey ` opModifies ops", OF pendingKeys_addOps]
  by auto

text \<open>A database name without a tilde makes the composite key unambiguous.\<close>

lemma ckey_inj:
  assumes "CHR ''~'' \<notin> set d" "CHR ''~'' \<notin> set d'"
  shows "ckey (d, k) = ckey (d', k') \<longleftrightarrow> d = d' \<and> k = k'"
proof
  assume "ckey (d, k) = ckey (d', k')"
  then have eq: "d @ CHR ''~'' # k = d' @ CHR ''~'' # k'"
    by (simp add: ckey_def constructCompositeKey_def)
  have "takeWhile (\<lambda>c. c \<noteq> CHR ''~'') (d @ CHR ''~'' # k) = d" "takeWhile (\<lambda>c. c \<noteq> CHR ''~'') (d' @ CHR ''~'' # k') = d'"
    using assms by (subst takeWhile_append2; auto)+
  then show "d = d' \<and> k = k'"
    using eq by simp
qed simp

section \<open>A block of data transactions\<close>

lemma mapRes_iff: "mapRes f xs = Inr ys \<longleftrightarrow> list_all2 (\<lambda>x y. f x = Inr y) xs ys"
proof (induction xs arbitrary: ys)
  case (Cons x xs)
  show ?case
    by (cases ys) (auto simp: rbind_Inr_iff Cons.IH)
qed auto

text \<open>The pending operations when the transactions before have the given verdicts.\<close>

definition pendingAfter :: "pendingOperations \<Rightarrow> (DataTxEnvelope \<times> ValidationInfo) list \<Rightarrow> pendingOperations" where
  "pendingAfter p evs = fold (\<lambda>(env, v) p. if VFlag v = VALID then addTx (DPayload env) p else p) evs p"

lemma pendingAfter_simps [simp]:
  "pendingAfter p [] = p"
  "pendingAfter p ((env, v) # evs) = pendingAfter (if VFlag v = VALID then addTx (DPayload env) p else p) evs"
  by (simp_all add: pendingAfter_def)

lemma pendingKeys_pendingAfter:
  "pendingKeys (pendingAfter p evs) =
   {c. \<exists>(env, v) \<in> set evs. VFlag v = VALID \<and> c \<in> ckey ` modifies (DPayload env)} \<union> pendingKeys p"
proof (induction evs arbitrary: p)
  case (Cons ev evs)
  obtain env v where "ev = (env, v)"
    by (cases ev)
  then show ?case
    using Cons.IH by (auto simp: pendingKeys_addTx)
qed simp

lemma validateDataTxs_valid:
  assumes "validateDataTxs db ic txs p = Inr vs"
  shows "length vs = length txs \<and> (\<forall>i < length txs. case txs ! i of (env, users, s) \<Rightarrow>
    VFlag (vs ! i) = VALID \<longleftrightarrow> VFlag s = VALID
      \<and> dataTxOK db ic (DPayload env) (set users) (pendingAfter p (zip (map fst (take i txs)) vs)))"
  using assms
proof (induction db ic txs p arbitrary: vs rule: validateDataTxs.induct)
  case (2 db ic env users s rest p)
  define P where "P p vs i = (case rest ! i of (env, users, s) \<Rightarrow> VFlag (vs ! i) = VALID \<longleftrightarrow> VFlag s = VALID
      \<and> dataTxOK db ic (DPayload env) (set users) (pendingAfter p (zip (map fst (take i rest)) vs)))" for p vs i
  obtain v vs' p' where vs: "vs = v # vs'" "validateDataTxs db ic rest p' = Inr vs'"
    and v: "VFlag v = VALID \<longleftrightarrow> VFlag s = VALID \<and> dataTxOK db ic (DPayload env) (set users) p"
    and p': "p' = (if VFlag v = VALID then addTx (DPayload env) p else p)"
  proof (cases "VFlag s = VALID")
    case False
    then show thesis
      using 2(4) by (auto simp: rbind_Inr_iff intro!: that)
  next
    case True
    then obtain r where r: "dataTx_validate db ic env users p = Inr r"
      using 2(4) by (auto simp: rbind_Inr_iff)
    then have "VFlag r = VALID \<longleftrightarrow> dataTxOK db ic (DPayload env) (set users) p"
      using dataTx_validate_passes[of db ic env users p] by simp
    then show thesis
      using 2(4) True r by (cases "VFlag r = VALID") (auto simp: rbind_Inr_iff intro!: that)
  qed
  have IH: "length vs' = length rest \<and> (\<forall>i < length rest. P p' vs' i)"
  proof (cases "VFlag s = VALID")
    case False
    then have "VFlag v \<noteq> VALID"
      using v by simp
    then show ?thesis
      using 2(1)[of vs'] False vs(2) p' unfolding P_def by simp
  next
    case True
    then obtain r where r: "dataTx_validate db ic env users p = Inr r" "VFlag r = VFlag v"
      using 2(4) vs(1) by (auto simp: rbind_Inr_iff split: if_splits)
    show ?thesis
      using 2(2)[of r vs'] 2(3)[of r vs'] True vs(2) p' r unfolding P_def by (cases "VFlag v = VALID") simp_all
  qed
  have "case ((env, users, s) # rest) ! i of (e, us, sg) \<Rightarrow> VFlag (vs ! i) = VALID \<longleftrightarrow> VFlag sg = VALID
      \<and> dataTxOK db ic (DPayload e) (set us) (pendingAfter p (zip (map fst (take i ((env, users, s) # rest))) vs))"
    if "i < length ((env, users, s) # rest)" for i
  proof (cases i)
    case (Suc j)
    then have "P p' vs' j"
      using IH that by simp
    then show ?thesis
      using Suc vs(1) p' by (simp add: P_def split: prod.splits)
  qed (use v vs(1) in simp)
  then show ?case
    using IH vs(1) by simp
qed simp

text \<open>The verdicts of a block of data transactions.\<close>

lemma ValidateBlock_data:
  assumes "ValidateBlock v b = Inr vs" "BPayload b = Some (Block_DataTxEnvelopes envs)" "block_number b \<noteq> 1"
  shows "length vs = length envs \<and> (\<forall>i < length envs. \<exists>users s.
    validateSignatures (VDB v) (VCodec v) (VX509 v) (JsonDataTx (VJson v)) (envs ! i) = Inr (users, s)
    \<and> (VFlag (vs ! i) = VALID \<longleftrightarrow> VFlag s = VALID
      \<and> dataTxOK (VDB v) (VCodec v) (DPayload (envs ! i)) (set users)
          (pendingAfter newPendingOperations (zip (take i envs) vs))))"
proof -
  obtain sigs where sigs: "parallelSigValidation v envs = Inr sigs"
      "validateDataTxs (VDB v) (VCodec v) (zip envs sigs) newPendingOperations = Inr vs"
    using assms by (auto simp: ValidateBlock_def rbind_Inr_iff)
  then have all2: "list_all2 (\<lambda>e us. validateSignatures (VDB v) (VCodec v) (VX509 v) (JsonDataTx (VJson v)) e = Inr us) envs sigs"
    by (simp add: parallelSigValidation_def mapRes_iff)
  then have len: "length sigs = length envs"
    by (simp add: list_all2_lengthD)
  note vs = validateDataTxs_valid[OF sigs(2), simplified len length_zip min.idem]
  have "\<exists>users s. validateSignatures (VDB v) (VCodec v) (VX509 v) (JsonDataTx (VJson v)) (envs ! i) = Inr (users, s)
    \<and> (VFlag (vs ! i) = VALID \<longleftrightarrow> VFlag s = VALID
      \<and> dataTxOK (VDB v) (VCodec v) (DPayload (envs ! i)) (set users)
          (pendingAfter newPendingOperations (zip (take i envs) vs)))" if i: "i < length envs" for i
  proof -
    obtain users s where us: "sigs ! i = (users, s)"
      by (cases "sigs ! i")
    then have "zip envs sigs ! i = (envs ! i, users, s)"
      using i len by simp
    moreover have "map fst (take i (zip envs sigs)) = take i envs"
      using len by (simp add: take_zip)
    moreover have "validateSignatures (VDB v) (VCodec v) (VX509 v) (JsonDataTx (VJson v)) (envs ! i) = Inr (users, s)"
      using list_all2_nthD[OF all2 i] us by simp
    ultimately show ?thesis
      using vs i by fastforce
  qed
  then show ?thesis
    using vs by simp
qed

lemma dataTxOK_reads:
  assumes "dataTxOK db ic tx users p" "(d, k, ver) \<in> dataReads tx"
  shows "GetVersion db d k = Inr ver" "\<not> pending_exist p d k"
  using assms by (auto simp: dataTxOK_def operationOK_def dataReads_def Let_def)

lemma dataTxOK_modifies:
  assumes "dataTxOK db ic tx users p" "(d, k) \<in> modifies tx"
  shows "\<not> pending_exist p d k" "\<not> IsSystemDB d"
  using assms by (auto simp: dataTxOK_def operationOK_def modifies_def opModifies_def Let_def)

text \<open>Valid transactions of a block do not touch what an earlier valid one modifies.\<close>

lemma valid_txs_isolated:
  assumes "ValidateBlock v b = Inr vs" "BPayload b = Some (Block_DataTxEnvelopes envs)" "block_number b \<noteq> 1"
    and "i < j" "j < length envs" "VFlag (vs ! i) = VALID" "VFlag (vs ! j) = VALID"
    and "(d, k) \<in> modifies (DPayload (envs ! i))"
  shows "(d, k) \<notin> modifies (DPayload (envs ! j))" "(d, k, ver) \<notin> dataReads (DPayload (envs ! j))"
proof -
  let ?p = "pendingAfter newPendingOperations (zip (take j envs) vs)"
  have len: "length vs = length envs"
    using ValidateBlock_data[OF assms(1-3)] by simp
  obtain users where ok: "dataTxOK (VDB v) (VCodec v) (DPayload (envs ! j)) users ?p"
    using ValidateBlock_data[OF assms(1-3)] assms(5,7) by auto
  have "(envs ! i, vs ! i) \<in> set (zip (take j envs) vs)"
    using assms(4,5) len by (auto simp: in_set_zip intro!: exI[of _ i])
  then have "pending_exist ?p d k"
    unfolding pending_exist_iff pendingKeys_pendingAfter using assms(6,8) by auto
  then show "(d, k) \<notin> modifies (DPayload (envs ! j))" "(d, k, ver) \<notin> dataReads (DPayload (envs ! j))"
    using dataTxOK_modifies(1)[OF ok] dataTxOK_reads(2)[OF ok] by blast+
qed

end
