(* ===== verification/Validation_Properties.thy ===== *)
theory Validation_Properties
  imports Validator Worldstate_Properties
begin

text \<open>
  Properties of block validation: which transactions are valid, what validity of the transactions
  of one block means for each other, and what an accepted change of the cluster keeps.
\<close>

section \<open>A concrete cluster\<close>

text \<open>
  A world state with one user, alice, who may write the database bdb, and one key in it.
  Certificates are byte strings, and a signature is the certificate before the signed bytes.
\<close>

definition alice :: User where
  "alice = \<lparr>UId = ''alice'', UCertificate = Some [1], UPrivilege = Some \<lparr>DbPermission = [(''bdb'', 1)], Admin = False\<rparr>\<rparr>"

definition sample_db :: DB where
  "sample_db = \<lparr>Exist = (\<lambda>n. n = ''bdb''), ListDBs = [''bdb''],
     DB_Get = (\<lambda>d k. if d = UsersDBName \<and> k = UserNamespace @ ''alice'' then Inr (Some [1], Some \<lparr>MVersion = None, MAccessControl = None\<rparr>)
        else Inr (None, None)),
     GetVersion = (\<lambda>d k. if k = ''k1'' then Inr (Some \<lparr>BlockNum = 2, TxNum = 0\<rparr>) else Inr None),
     GetACL = (\<lambda>d k. Inr None), Has = (\<lambda>d k. Inr True), GetConfig = Inl LdbErrNotFound,
     GetIndexDefinition = (\<lambda>d. Inr (None, None)), GetIterator = (\<lambda>d a b. Inr []), DB_Height = Inr 2,
     ValidDBName = LevelDB_ValidDBName\<rparr>"

definition sample_codec :: id_codec where
  "sample_codec = \<lparr>MarshalUser = (\<lambda>u. Inr (content (UCertificate u))), UnmarshalUser = (\<lambda>b. Inr alice),
     MarshalNodeConfig = (\<lambda>n. Inr []), UnmarshalNodeConfig = (\<lambda>b. Inl LdbErrNotFound)\<rparr>"

definition sample_x509 :: "bytes x509" where
  "sample_x509 = \<lparr>ParseCertificate = Inr,
     CheckSignature = (\<lambda>c b s. if s = Some (c @ b) then Inr () else Inl (Err ''signature verification failed'')),
     IsCA = (\<lambda>c. True), SerialNumber = (\<lambda>c. ''''), VerifyChain = (\<lambda>rs is c. Inr ()), CheckSignatureFrom = (\<lambda>a b. Inr ())\<rparr>"

definition sample_json :: json_codec where
  "sample_json = \<lparr>JsonDataTx = (\<lambda>tx. Inr (bytes_of_string (DTxId tx))), JsonUserTx = (\<lambda>tx. Inr (bytes_of_string (UTxId tx))),
     JsonDbTx = (\<lambda>tx. Inr (bytes_of_string (DATxId tx))), JsonConfigTx = (\<lambda>tx. Inr (bytes_of_string (CTxId tx)))\<rparr>"

definition sample_parsers :: text_parsers where
  "sample_parsers = \<lparr>ParseIP = (\<lambda>h. True), Hostname = (\<lambda>h. Some h), ParseDuration = (\<lambda>s. Inr 100)\<rparr>"

definition sample_validator :: "bytes Validator" where
  "sample_validator = \<lparr>VDB = sample_db, VCodec = sample_codec, VX509 = sample_x509, VParsers = sample_parsers, VJson = sample_json\<rparr>"

definition sample_tx :: "string \<Rightarrow> string \<Rightarrow> string \<Rightarrow> DataTxEnvelope" where
  "sample_tx txid rd wr = \<lparr>DPayload = \<lparr>MustSignUserIds = [''alice''], DTxId = txid,
      DbOperations = [\<lparr>DbName = ''bdb'',
        DataReads = [\<lparr>RKey = rd, RVersion = (if rd = ''k1'' then Some \<lparr>BlockNum = 2, TxNum = 0\<rparr> else None)\<rparr>],
        DataWrites = [Some \<lparr>WKey = wr, WValue = Some [5], WAcl = None\<rparr>], DataDeletes = []\<rparr>]\<rparr>,
     Signatures = [(''alice'', Some (1 # bytes_of_string txid))]\<rparr>"

definition sample_header :: BlockHeader where
  "sample_header = \<lparr>BaseHeader = \<lparr>Number = 3, PreviousBaseHeaderHash = None, LastCommittedBlockHash = None, LastCommittedBlockNum = 2\<rparr>,
     SkipchainHashes = [], TxMerkleTreeRootHash = None, StateMerkleTreeRootHash = None, HValidationInfo = []\<rparr>"

text \<open>Two transactions that are valid together, and a third that reads what the first writes.\<close>

definition sample_txs :: "DataTxEnvelope list" where
  "sample_txs = [sample_tx ''t0'' ''k1'' ''k2'', sample_tx ''t1'' ''k1'' ''k3'', sample_tx ''t2'' ''k2'' ''k4'']"

definition sample_block :: Block where
  "sample_block = \<lparr>Header = sample_header, BPayload = Some (Block_DataTxEnvelopes sample_txs), BConsensusMetadata = None\<rparr>"

definition sample_verdicts :: "ValidationInfo list" where
  "sample_verdicts = [valid_info, valid_info,
     invalid INVALID_MVCC_CONFLICT_WITHIN_BLOCK ''mvcc conflict has occurred within the block for the key [k2] in database [bdb]'']"

lemma sample_block_verdicts: "ValidateBlock sample_validator sample_block = Inr sample_verdicts"
  by code_simp

lemma sample_block_payload:
  "BPayload sample_block = Some (Block_DataTxEnvelopes sample_txs)" "block_number sample_block \<noteq> 1" "length sample_txs = 3"
  by (simp_all add: sample_block_def sample_header_def sample_txs_def)

section \<open>Data transactions\<close>

text \<open>
  C24. When validation of a block of data transactions returns, it gives one verdict per
  transaction, and a transaction is valid exactly when its must-sign signatures verify and it
  meets the declarative conditions of a valid transaction (databases exist and are no system
  databases, a signer has write access, the keys are written once, the access control lists of
  the keys allow the reads and modifications, the read versions are the committed ones), where
  the keys modified by the earlier valid transactions of the block are off limits.
\<close>

theorem data_block_verdicts:
  assumes "ValidateBlock v b = Inr vs" "BPayload b = Some (Block_DataTxEnvelopes envs)" "block_number b \<noteq> 1"
  shows "length vs = length envs \<and> (\<forall>i < length envs. \<exists>users s.
    validateSignatures (VDB v) (VCodec v) (VX509 v) (JsonDataTx (VJson v)) (envs ! i) = Inr (users, s)
    \<and> (VFlag (vs ! i) = VALID \<longleftrightarrow> VFlag s = VALID
      \<and> dataTxOK (VDB v) (VCodec v) (DPayload (envs ! i)) (set users)
          (pendingAfter newPendingOperations (zip (take i envs) vs))))"
  using assms by (rule ValidateBlock_data)

theorem data_block_verdicts_witness:
  "length sample_verdicts = 3 \<and> (\<exists>users. dataTxOK sample_db sample_codec (DPayload (sample_txs ! 1)) users
      (pendingAfter newPendingOperations (zip (take 1 sample_txs) sample_verdicts)))"
proof -
  note all = data_block_verdicts[OF sample_block_verdicts sample_block_payload(1,2), unfolded sample_block_payload(3)]
  have "VFlag (sample_verdicts ! 1) = VALID"
    by (simp add: sample_verdicts_def)
  then show ?thesis
    using all conjunct2[OF all, rule_format, of 1] by (auto simp: sample_validator_def)
qed

text \<open>
  C25. Isolation. Of two valid transactions of a block, the later one neither reads nor modifies
  a key that the earlier one modifies; every version a valid transaction has read is the
  committed one; and no valid transaction modifies a system database. So the valid transactions
  of a block have the same effect in any order.
\<close>

theorem data_block_isolated:
  assumes "ValidateBlock v b = Inr vs" "BPayload b = Some (Block_DataTxEnvelopes envs)" "block_number b \<noteq> 1"
    and "j < length envs" "VFlag (vs ! j) = VALID"
  shows "(\<forall>i < j. VFlag (vs ! i) = VALID \<longrightarrow>
      modifies (DPayload (envs ! i)) \<inter> modifies (DPayload (envs ! j)) = {}
      \<and> (\<forall>d k ver. (d, k, ver) \<in> dataReads (DPayload (envs ! j)) \<longrightarrow> (d, k) \<notin> modifies (DPayload (envs ! i))))
    \<and> (\<forall>d k ver. (d, k, ver) \<in> dataReads (DPayload (envs ! j)) \<longrightarrow> GetVersion (VDB v) d k = Inr ver)
    \<and> (\<forall>d k. (d, k) \<in> modifies (DPayload (envs ! j)) \<longrightarrow> \<not> IsSystemDB d)"
proof -
  obtain users p where ok: "dataTxOK (VDB v) (VCodec v) (DPayload (envs ! j)) users p"
    using ValidateBlock_data[OF assms(1-3)] assms(4,5) by auto
  show ?thesis
    using valid_txs_isolated[OF assms(1-3) _ assms(4) _ assms(5)] dataTxOK_reads(1)[OF ok] dataTxOK_modifies(2)[OF ok]
    by fast
qed

theorem data_block_isolated_witness:
  "modifies (DPayload (sample_txs ! 0)) \<inter> modifies (DPayload (sample_txs ! 1)) = {}
   \<and> GetVersion sample_db ''bdb'' ''k1'' = Inr (Some \<lparr>BlockNum = 2, TxNum = 0\<rparr>)"
  using data_block_isolated[OF sample_block_verdicts sample_block_payload(1,2), of 1]
  by (auto simp: sample_block_payload(3) sample_verdicts_def sample_validator_def sample_db_def)

section \<open>Administration transactions\<close>

text \<open>
  C26. A user administration transaction is valid exactly when an administrator has signed it and
  the users it writes and deletes meet the conditions: no administrator is created, modified or
  deleted, identifiers are non-empty and occur once, certificates chain to the cluster's
  authorities, named databases exist, the access control lists of the target users allow the
  operation, and the read versions are the committed ones.
\<close>

theorem user_admin_verdict:
  "passes (userAdmin_validate db ic x marshal env) \<longleftrightarrow>
   signedByAdmin db ic x (marshal (UPayload env)) (UTUserId (UPayload env)) (USignature env)
   \<and> userTxOK db ic x (UPayload env)"
  by (rule userAdmin_validate_passes)

text \<open>
  C27. A database administration transaction is valid exactly when an administrator has signed it,
  the databases to create do not exist and those to delete do, none of them is a system or the
  default database, names are well-formed and occur once, and index definitions are given only
  for databases being created, with known attribute types.
\<close>

theorem db_admin_verdict:
  "passes (dbAdmin_validate db ic x marshal env) \<longleftrightarrow>
   signedByAdmin db ic x (marshal (DAPayload env)) (DAUserId (DAPayload env)) (DASignature env)
   \<and> dbTxOK db (DAPayload env)"
  by (rule dbAdmin_validate_passes)

text \<open>
  C28. A configuration transaction is valid exactly when an administrator has signed it, the new
  configuration is well-formed (trusted authorities, certified nodes and admins with unique
  identifiers and endpoints, unique members and observers, a node for each member), it was made
  against the committed version, and a changed consensus part meets the rules for changes; the
  genesis configuration is accepted exactly when it is well-formed.
\<close>

theorem config_verdict:
  "(passes (ConfigTx_Validate db ic tp x marshal env) \<longleftrightarrow>
     signedByAdmin db ic x (marshal (CPayload env)) (CUserId (CPayload env)) (CSignature env)
     \<and> configTxOK db tp x (CPayload env))
   \<and> ((\<exists>vs. validateGenesis tp x env = Inr vs) \<longleftrightarrow>
     (\<exists>c. NewConfig (CPayload env) = Some c \<and> clusterConfigOK tp x c))"
proof -
  have "(\<exists>vs. validateGenesis tp x env = Inr vs) \<longleftrightarrow> passes (validateConfig tp x (NewConfig (CPayload env)))"
    by (auto simp: validateGenesis_def rbind_Inr_iff passes_def)
  also have "\<dots> \<longleftrightarrow> (\<exists>c. NewConfig (CPayload env) = Some c \<and> clusterConfigOK tp x c)"
    by (cases "NewConfig (CPayload env)") (simp_all add: validateConfig_passes, simp add: validateConfig_def nilPointer_def)
  finally show ?thesis
    using ConfigTx_Validate_passes by blast
qed

section \<open>Changes of the cluster\<close>

definition peer :: "string \<Rightarrow> 64 word \<Rightarrow> string \<Rightarrow> PeerConfig option" where
  "peer name rid host = Some \<lparr>NodeId = name, RaftId = rid, PeerHost = host, PeerPort = 7050\<rparr>"

definition sample_consensus :: "PeerConfig option list \<Rightarrow> 64 word \<Rightarrow> ConsensusConfig" where
  "sample_consensus ms maxid = \<lparr>Algorithm = ''raft'', Members = ms, Observers = [],
     RaftConf = Some \<lparr>TickInterval = ''100ms'', ElectionTicks = 10, HeartbeatTicks = 1, MaxInflightBlocks = 50,
       SnapshotIntervalSize = 1000, MaxRaftId = maxid\<rparr>\<rparr>"

definition three_peers :: ConsensusConfig where
  "three_peers = sample_consensus [peer ''n1'' 1 ''h1'', peer ''n2'' 2 ''h2'', peer ''n3'' 3 ''h3''] 3"

lemma consensusOK_membersOK: "consensusOK tp c \<Longrightarrow> membersOK c"
  by (auto simp: consensusOK_def peersOK_def membersOK_def)

text \<open>
  C29. An accepted change of a valid consensus configuration is safe for Raft: every majority of
  the old members' Raft identifiers meets every majority of the new ones, a member that stays
  keeps its Raft identifier, and a new member's identifier is larger than every identifier
  assigned before.
\<close>

theorem reconfig_quorums_meet:
  assumes "consensusOK tp cur" "consensusOK tp upd" "VerifyConsensusReConfig (Some cur) (Some upd) = Inr ()"
    and "quorum (raftIds cur) q1" "quorum (raftIds upd) q2"
  shows "q1 \<inter> q2 \<noteq> {}
    \<and> (\<forall>m \<in> set (somes (Members upd)). \<forall>c \<in> set (somes (Members cur)). NodeId m = NodeId c \<longrightarrow> RaftId m = RaftId c)
    \<and> (\<forall>m \<in> set (somes (Members upd)). NodeId m \<notin> memberIds cur \<longrightarrow> (\<exists>r. RaftConf cur = Some r \<and> MaxRaftId r < RaftId m))"
proof -
  note ok = assms(1,2)[THEN consensusOK_membersOK]
  have re: "reconfigOK cur upd"
    by (rule VerifyConsensusReConfig_ok[OF ok assms(3)])
  have "finite (raftIds cur)" "finite (raftIds upd)"
    by (simp_all add: raftIds_def)
  from quorums_meet[OF this raftIds_change[OF ok re] assms(4,5)] re show ?thesis
    unfolding reconfigOK_def by blast
qed

definition four_peers :: ConsensusConfig where
  "four_peers = sample_consensus [peer ''n1'' 1 ''h1'', peer ''n2'' 2 ''h2'', peer ''n3'' 3 ''h3'', peer ''n4'' 4 ''h4''] 3"

lemma peers_valid: "consensusOK sample_parsers three_peers" "consensusOK sample_parsers four_peers"
  by (auto simp: consensusOK_def peersOK_def endpointOK_def raftConfigOK_def peerEndpoint_def three_peers_def four_peers_def
      sample_consensus_def peer_def sample_parsers_def simp del: set_somes)

theorem reconfig_quorums_meet_witness:
  "{1, 2 :: 64 word} \<inter> {2, 3, 4} \<noteq> {} \<and> MaxRaftId (the (RaftConf three_peers)) < 4"
proof -
  have v: "VerifyConsensusReConfig (Some three_peers) (Some four_peers) = Inr ()"
    by code_simp
  have q: "quorum (raftIds three_peers) {1, 2}" "quorum (raftIds four_peers) {2, 3, 4}"
    by (auto simp: quorum_def raftIds_def three_peers_def four_peers_def sample_consensus_def peer_def simp del: set_somes)
  have "Some \<lparr>NodeId = ''n4'', RaftId = 4, PeerHost = ''h4'', PeerPort = 7050\<rparr> \<in> set (Members four_peers)"
    by (simp add: four_peers_def sample_consensus_def peer_def)
  then show ?thesis
    using reconfig_quorums_meet[OF peers_valid v q]
    by (auto simp: three_peers_def sample_consensus_def)
qed

text \<open>
  The rules are weaker than their description in the code says: a member may join in the
  same change in which another member moves to a new endpoint, and without a membership change
  all members may move at once.
\<close>

theorem endpoints_change_together:
  "VerifyConsensusReConfig (Some three_peers)
     (Some (sample_consensus [peer ''n1'' 1 ''moved'', peer ''n2'' 2 ''h2'', peer ''n3'' 3 ''h3'', peer ''n4'' 4 ''h4''] 3)) = Inr ()
   \<and> VerifyConsensusReConfig (Some three_peers)
     (Some (sample_consensus [peer ''n1'' 1 ''g1'', peer ''n2'' 2 ''g2'', peer ''n3'' 3 ''g3''] 3)) = Inr ()"
  by code_simp

end
