(* ===== verification/Byte_Order.thy ===== *)
theory Byte_Order
  imports Orion_Prelude "HOL-Library.List_Lexorder"
begin

text \<open>
  The eight bytes of a 64-bit number, most significant first, as the encodings of block numbers
  and of index values use them: the bytes determine the number and compare as it does.
\<close>

unbundle bit_operations_syntax

text \<open>\<^verbatim>\<open>byte(n >> (56 - (r * 8)))\<close>\<close>

definition byteAt :: "64 word \<Rightarrow> nat \<Rightarrow> byte" where
  "byteAt n r = ucast (drop_bit (56 - r * 8) n)"

text \<open>The loop over \<^verbatim>\<open>bytePosition\<close>: the first byte that is not \<open>skip\<close>, 8 if there is none.\<close>

definition bytePosition :: "byte \<Rightarrow> 64 word \<Rightarrow> nat" where
  "bytePosition skip n = length (takeWhile (\<lambda>r. byteAt n r = skip) [0..<8])"

section \<open>Bytes of a number\<close>

definition beValue :: "byte list \<Rightarrow> nat" where
  "beValue bs = foldl (\<lambda>a b. a * 256 + unat b) 0 bs"

lemma beValue_simps [simp]: "beValue [] = 0" "beValue (bs @ [b]) = beValue bs * 256 + unat b"
  by (simp_all add: beValue_def)

lemma beValue_append: "beValue (xs @ ys) = beValue xs * 256 ^ length ys + beValue ys"
proof (induction ys rule: rev_induct)
  case (snoc y ys)
  have "beValue (xs @ ys @ [y]) = beValue ((xs @ ys) @ [y])"
    by simp
  also have "\<dots> = (beValue xs * 256 ^ length ys + beValue ys) * 256 + unat y"
    by (simp only: beValue_simps snoc.IH)
  also have "\<dots> = beValue xs * 256 ^ length (ys @ [y]) + beValue (ys @ [y])"
    by (simp add: algebra_simps)
  finally show ?case .
qed simp

lemma beValue_Cons [simp]: "beValue (b # bs) = unat b * 256 ^ length bs + beValue bs"
  using beValue_append[of "[b]" bs] by (simp add: beValue_def)

lemma beValue_bound: "beValue bs < 256 ^ length bs"
proof (induction bs)
  case (Cons b bs)
  have "unat b < 256"
    using unsigned_less[of b, where 'a = nat] by simp
  then have "Suc (unat b) * 256 ^ length bs \<le> 256 * 256 ^ length bs"
    by (intro mult_right_mono) auto
  then have "unat b * 256 ^ length bs + 256 ^ length bs \<le> 256 * 256 ^ length bs"
    by simp
  then show ?case
    using Cons.IH unfolding beValue_Cons list.size(4) add_Suc_right add_0_right power_Suc by linarith
qed simp

text \<open>Lists of the same length compare as their values.\<close>

lemma beValue_less_iff: "length xs = length ys \<Longrightarrow> xs < ys \<longleftrightarrow> beValue xs < beValue ys"
proof (induction xs ys rule: list_induct2)
  case (Cons x xs y ys)
  let ?n = "256 ^ length ys :: nat"
  have b: "beValue xs < ?n" "beValue ys < ?n"
    using beValue_bound[of xs] beValue_bound[of ys] Cons.hyps by simp_all
  show ?case
  proof (cases "x = y")
    case False
    then consider "unat x < unat y" | "unat y < unat x"
      by (meson linorder_neqE_nat word_unat_eq_iff)
    then show ?thesis
    proof cases
      case 1
      then have "Suc (unat x) * ?n \<le> unat y * ?n"
        by (intro mult_right_mono) auto
      then show ?thesis
        using 1 b Cons.hyps by (simp add: word_less_nat_alt)
    next
      case 2
      then have "Suc (unat y) * ?n \<le> unat x * ?n"
        by (intro mult_right_mono) auto
      then show ?thesis
        using 2 b Cons.hyps False by (simp add: word_less_nat_alt)
    qed
  qed (use Cons in simp)
qed simp

definition bytesOf :: "64 word \<Rightarrow> byte list" where
  "bytesOf n = map (byteAt n) [0..<8]"

lemma unat_byteAt: "unat (byteAt n r) = unat n div 2 ^ (56 - r * 8) mod 256"
proof -
  have "unat n mod 2 ^ 64 = unat n"
    using unsigned_less[of n, where 'a = nat] by simp
  then show ?thesis
    by (simp add: byteAt_def unsigned_ucast_eq unsigned_drop_bit_eq take_bit_eq_mod) (simp add: drop_bit_eq_div)
qed

lemma beValue_prefix: "k \<le> 8 \<Longrightarrow> beValue (map (byteAt n) [0..<k]) = unat n div 2 ^ (64 - 8 * k)"
proof (induction k)
  case 0
  have "unat n < 2 ^ 64"
    using unsigned_less[of n, where 'a = nat] by simp
  then show ?case
    by simp
next
  case (Suc k)
  have e: "(64 :: nat) - 8 * k = (56 - 8 * k) + 8" "64 - 8 * Suc k = 56 - 8 * k"
    using Suc.prems by simp_all
  have "unat n div 2 ^ (64 - 8 * k) = unat n div 2 ^ (56 - 8 * k) div 256"
    unfolding e(1) power_add by (simp add: div_mult2_eq)
  then show ?case
    using Suc by (simp add: unat_byteAt e(2) mult.commute)
qed

lemma beValue_bytesOf: "beValue (bytesOf n) = unat n"
  using beValue_prefix[of 8 n] by (simp add: bytesOf_def)

lemma length_bytesOf [simp]: "length (bytesOf n) = 8"
  by (simp add: bytesOf_def)

lemma bytesOf_less: "bytesOf m < bytesOf n \<longleftrightarrow> m < n"
  using beValue_less_iff[of "bytesOf m" "bytesOf n"] by (simp add: beValue_bytesOf length_bytesOf word_less_nat_alt)

lemma bytesOf_nth: "r < 8 \<Longrightarrow> bytesOf n ! r = byteAt n r"
  by (simp add: bytesOf_def)

lemma takeWhile_const: "takeWhile (\<lambda>x. x = c) xs = replicate (length (takeWhile (\<lambda>x. x = c) xs)) c"
  by (induction xs) auto

lemma bytePosition_alt: "bytePosition skip n = length (takeWhile (\<lambda>b. b = skip) (bytesOf n))"
  by (simp add: bytePosition_def bytesOf_def takeWhile_map comp_def)

lemma bytePosition_le: "bytePosition skip n \<le> 8"
  using length_takeWhile_le[of _ "bytesOf n"] by (simp add: bytePosition_alt)

lemma bytePosition_split:
  "bytesOf n = replicate (bytePosition skip n) skip @ drop (bytePosition skip n) (bytesOf n)"
  unfolding bytePosition_alt
  by (metis takeWhile_const takeWhile_eq_take append_take_drop_id)

lemma bytePosition_hd:
  assumes "bytePosition skip n < 8"
  shows "bytesOf n ! bytePosition skip n \<noteq> skip"
  using nth_length_takeWhile[of "\<lambda>b. b = skip" "bytesOf n"] assms by (simp add: bytePosition_alt)

end
