(* ===== verification/Index_Encoding.thy ===== *)
theory Index_Encoding
  imports Byte_Order "HOL-Library.Char_ord"
begin

text \<open>
  The encoding of numbers in index entries, \<^verbatim>\<open>internal/stateindex/encoding.go\<close>: an \<^verbatim>\<open>int64\<close>
  becomes a hexadecimal string whose byte order is the order of the numbers. Shown: the order is
  preserved, and decoding gives the number back.
\<close>

unbundle bit_operations_syntax

section \<open>Encoding\<close>

definition hextable :: string where
  "hextable = ''0123456789abcdef''"

definition hexByte :: "byte \<Rightarrow> string" where
  "hexByte b = [hextable ! unat (drop_bit 4 b), hextable ! unat (b AND 0x0F)]"

definition hexFrom :: "nat \<Rightarrow> 64 word \<Rightarrow> string" where
  "hexFrom pos n = concat (map (\<lambda>r. hexByte (byteAt n r)) [pos..<8])"

definition normalOrder :: char where "normalOrder = CHR ''1''"
definition reverseOrder :: char where "reverseOrder = CHR ''0''"

definition encodeOrderPreservingVarUint64 :: "64 word \<Rightarrow> string" where
  "encodeOrderPreservingVarUint64 n =
     (let pos = bytePosition 0x00 n in normalOrder # hextable ! (8 - pos) # hexFrom pos n)"

definition encodeReverseOrderVarUint64 :: "64 word \<Rightarrow> string" where
  "encodeReverseOrderVarUint64 n0 =
     (let n = - 1 - n0; pos = bytePosition 0xFF n in reverseOrder # hextable ! pos # hexFrom pos n)"

definition EncodeInt64 :: "64 word \<Rightarrow> string" where
  "EncodeInt64 n =
     (if n <s 0 then encodeReverseOrderVarUint64 (- n) else encodeOrderPreservingVarUint64 n)"

section \<open>Decoding\<close>

definition charAt :: "string \<Rightarrow> nat \<Rightarrow> char res" where
  "charAt s i = (if i < length s then Inr (s ! i) else Inl (Panic ''index out of range''))"

definition fromHexChar :: "char \<Rightarrow> byte res" where
  "fromHexChar c =
     (if CHR ''0'' \<le> c \<and> c \<le> CHR ''9'' then Inr (of_char c - of_char CHR ''0'')
      else if CHR ''a'' \<le> c \<and> c \<le> CHR ''f'' then Inr (of_char c - of_char CHR ''a'' + 10)
      else if CHR ''A'' \<le> c \<and> c \<le> CHR ''F'' then Inr (of_char c - of_char CHR ''A'' + 10)
      else Inl (Err (''invalid hex character ['' @ [c] @ '']'')))"

definition convertHexAtLocationToBinary :: "string \<Rightarrow> nat \<Rightarrow> byte res" where
  "convertHexAtLocationToBinary b location =
     rbind (rbind (charAt b location) fromHexChar) (\<lambda>firstChar.
     rbind (rbind (charAt b (location + 1)) fromHexChar) (\<lambda>secondChar.
     Inr (push_bit 4 firstChar OR secondChar)))"

text \<open>
  The loop \<^verbatim>\<open>for i := 7; i >= 8-size; i--\<close>, run over the numbers \<open>t = 7 - i\<close>: byte \<open>t\<close> from the
  end goes to bit position \<open>8 * t\<close>.
\<close>

fun decodeLoop :: "string \<Rightarrow> nat \<Rightarrow> nat list \<Rightarrow> 64 word \<Rightarrow> 64 word res" where
  "decodeLoop bs sz [] v = Inr v"
| "decodeLoop bs sz (t # ts) v =
     rbind (convertHexAtLocationToBinary bs ((sz - t) * 2)) (\<lambda>b.
     decodeLoop bs sz ts (v OR push_bit (8 * t) (ucast b)))"

definition decodeOrderPreservingVarUint64 :: "string \<Rightarrow> 64 word res" where
  "decodeOrderPreservingVarUint64 bs =
     rbind (convertHexAtLocationToBinary bs 0) (\<lambda>sizeByte.
     decodeLoop bs (unat sizeByte) [0..<unat sizeByte] 0)"

text \<open>The second loop fills the bytes that the encoding has trimmed.\<close>

definition fillBytes :: "nat \<Rightarrow> 64 word \<Rightarrow> 64 word" where
  "fillBytes sz v = fold (\<lambda>t v. v OR push_bit (8 * t) 0xFF) [sz..<8] v"

definition decodeReverseOrderVarUint64 :: "string \<Rightarrow> 64 word res" where
  "decodeReverseOrderVarUint64 bs =
     rbind (convertHexAtLocationToBinary bs 0) (\<lambda>pos.
     let sz = 8 - unat pos in
     rbind (decodeLoop bs sz [0..<sz] 0) (\<lambda>v. Inr (- 1 - fillBytes sz v)))"

definition decodeVarUint64 :: "string \<Rightarrow> (64 word \<times> char) res" where
  "decodeVarUint64 s =
     rbind (charAt s 0) (\<lambda>encodingType.
     if encodingType = normalOrder then
       rbind (decodeOrderPreservingVarUint64 (s[0 := CHR ''0''])) (\<lambda>n. Inr (n, normalOrder))
     else if encodingType = reverseOrder then
       rbind (decodeReverseOrderVarUint64 (s[0 := CHR ''0''])) (\<lambda>n. Inr (n, reverseOrder))
     else Inl (Err (''unexpected prefix ['' @ [encodingType] @ '']'')))"

definition decodeInt64 :: "string \<Rightarrow> 64 word res" where
  "decodeInt64 s = rbind (decodeVarUint64 s) (\<lambda>(n, ord).
     if ord = normalOrder then Inr n else Inr (- n))"

section \<open>Hexadecimal digits\<close>

lemma hextable_mono: "i < 16 \<Longrightarrow> j < 16 \<Longrightarrow> hextable ! i < hextable ! j \<longleftrightarrow> i < j"
proof -
  have "\<forall>i \<in> set [0..<16]. \<forall>j \<in> set [0..<16]. hextable ! i < hextable ! j \<longleftrightarrow> i < j"
    by code_simp
  then show "i < 16 \<Longrightarrow> j < 16 \<Longrightarrow> hextable ! i < hextable ! j \<longleftrightarrow> i < j"
    by simp
qed

lemma hextable_inj: "i < 16 \<Longrightarrow> j < 16 \<Longrightarrow> hextable ! i = hextable ! j \<longleftrightarrow> i = j"
  using hextable_mono[of i j] hextable_mono[of j i] by (metis linorder_neqE_nat less_irrefl)

lemma fromHexChar_hextable: "i < 16 \<Longrightarrow> fromHexChar (hextable ! i) = Inr (of_nat i)"
proof -
  have "\<forall>i \<in> set [0..<16]. fromHexChar (hextable ! i) = Inr (of_nat i)"
    by code_simp
  then show "i < 16 \<Longrightarrow> fromHexChar (hextable ! i) = Inr (of_nat i)"
    by simp
qed

lemma nibbles: "unat (drop_bit 4 b :: byte) = unat b div 16" "unat (b AND 0x0F :: byte) = unat b mod 16"
proof -
  have "unat b mod 2 ^ 8 = unat b"
    using unsigned_less[of b, where 'a = nat] by simp
  then show "unat (drop_bit 4 b :: byte) = unat b div 16"
    by (simp add: unsigned_drop_bit_eq take_bit_eq_mod) (simp add: drop_bit_eq_div)
  have "b AND 0x0F = take_bit 4 b"
    by (simp add: take_bit_eq_mask mask_eq_exp_minus_1)
  then show "unat (b AND 0x0F :: byte) = unat b mod 16"
    by (simp only: unsigned_take_bit_eq) (simp add: take_bit_eq_mod)
qed

lemma nibbles_bound: "unat b div 16 < 16" "unat b mod 16 < 16" for b :: byte
  using unsigned_less[of b, where 'a = nat] by simp_all

lemma hexByte_alt: "hexByte b = [hextable ! (unat b div 16), hextable ! (unat b mod 16)]"
  by (simp only: hexByte_def nibbles)

lemma div_mod_eq: "m = n \<longleftrightarrow> m div 16 = n div 16 \<and> m mod 16 = n mod (16 :: nat)"
  by (metis div_mult_mod_eq)

lemma div_mod_less: "m < n \<longleftrightarrow> m div 16 < n div 16 \<or> m div 16 = n div 16 \<and> m mod 16 < n mod (16 :: nat)"
proof -
  have "m = 16 * (m div 16) + m mod 16" "n = 16 * (n div 16) + n mod 16" "m mod 16 < 16" "n mod 16 < 16"
    by simp_all
  then show ?thesis
    by linarith
qed

lemma hexByte_less: "hexByte a @ s < hexByte b @ t \<longleftrightarrow> a < b \<or> a = b \<and> s < t"
  unfolding hexByte_alt word_less_nat_alt word_unat_eq_iff div_mod_less[of "unat a"] div_mod_eq[of "unat a"]
  by (simp add: hextable_mono hextable_inj nibbles_bound) blast

lemma hexBytes_less:
  "length xs = length ys \<Longrightarrow> concat (map hexByte xs) < concat (map hexByte ys) \<longleftrightarrow> xs < ys"
  by (induction xs ys rule: list_induct2) (simp_all add: hexByte_less)

section \<open>The order is preserved\<close>

lemma hexFrom_alt: "hexFrom pos n = concat (map hexByte (drop pos (bytesOf n)))"
  by (simp add: hexFrom_def bytesOf_def drop_map comp_def)

text \<open>Comparing two lists with runs of the same byte in front.\<close>

lemma replicate_less_nth:
  assumes "length xs = length ys" "p < length xs" "take p xs = take p ys" "xs ! p < ys ! p"
  shows "xs < ys"
  using assms
proof (induction xs ys arbitrary: p rule: list_induct2)
  case (Cons x xs y ys)
  then show ?case
    by (cases p) auto
qed simp

lemma take_bytePosition: "p \<le> bytePosition skip n \<Longrightarrow> take p (bytesOf n) = replicate p skip"
  using bytePosition_le[of skip n] by (subst bytePosition_split[of n skip]) simp

lemma shorter_run:
  assumes "bytePosition skip m < bytePosition skip n"
  shows "bytesOf m ! bytePosition skip m \<noteq> skip \<and> bytesOf n ! bytePosition skip m = skip
    \<and> take (bytePosition skip m) (bytesOf m) = take (bytePosition skip m) (bytesOf n)"
proof -
  have lt: "bytePosition skip m < 8"
    using assms bytePosition_le[of skip n] by simp
  have "bytesOf n ! bytePosition skip m = skip"
    using assms bytePosition_le[of skip n] by (subst bytePosition_split[of n skip]) (simp add: nth_append)
  then show ?thesis
    using bytePosition_hd[OF lt] take_bytePosition[of "bytePosition skip m" skip] assms by simp
qed

lemma drop_less_iff:
  assumes "take p xs = take p ys"
  shows "drop p xs < drop p ys \<longleftrightarrow> xs < (ys :: 'a :: linorder list)"
  using assms
proof (induction p arbitrary: xs ys)
  case (Suc p)
  then show ?case
    by (cases xs; cases ys) auto
qed simp

lemma hexFrom_less:
  assumes "bytePosition skip m = bytePosition skip n"
  shows "hexFrom (bytePosition skip m) m < hexFrom (bytePosition skip n) n \<longleftrightarrow> m < n"
proof -
  let ?p = "bytePosition skip m"
  have "take ?p (bytesOf m) = take ?p (bytesOf n)"
    using take_bytePosition[of ?p skip m] take_bytePosition[of ?p skip n] assms by simp
  then show ?thesis
    using hexBytes_less[of "drop ?p (bytesOf m)" "drop ?p (bytesOf n)"]
    by (simp add: hexFrom_alt assms[symmetric] drop_less_iff bytesOf_less)
qed

lemma run_of_zeros:
  assumes "bytePosition 0 m < bytePosition 0 n"
  shows "n < m"
proof -
  have "bytesOf n < bytesOf m"
  proof (rule replicate_less_nth)
    show "bytePosition 0 m < length (bytesOf n)"
      using assms bytePosition_le[of 0 n] by simp
  qed (use shorter_run[OF assms] in \<open>auto simp: word_neq_0_conv\<close>)
  then show ?thesis
    by (simp add: bytesOf_less)
qed

lemma run_of_ones:
  assumes "bytePosition 0xFF m < bytePosition 0xFF n"
  shows "m < n"
proof -
  have "bytesOf m < bytesOf n"
  proof (rule replicate_less_nth)
    show "bytePosition 0xFF m < length (bytesOf m)"
      using assms bytePosition_le[of "0xFF" n] by simp
    have "b \<noteq> 0xFF \<Longrightarrow> b < (0xFF :: byte)" for b
      using unsigned_less[of b, where 'a = nat] by (simp add: word_less_nat_alt word_unat_eq_iff)
    then show "bytesOf m ! bytePosition 0xFF m < bytesOf n ! bytePosition 0xFF m"
      using shorter_run[OF assms] by simp
  qed (use shorter_run[OF assms] in auto)
  then show ?thesis
    by (simp add: bytesOf_less)
qed

lemma encodeOrderPreserving_less:
  "encodeOrderPreservingVarUint64 m < encodeOrderPreservingVarUint64 n \<longleftrightarrow> m < n"
proof -
  let ?p = "bytePosition 0 m" and ?q = "bytePosition 0 n"
  have le: "?p \<le> 8" "?q \<le> 8"
    by (simp_all add: bytePosition_le)
  have eq: "encodeOrderPreservingVarUint64 m < encodeOrderPreservingVarUint64 n \<longleftrightarrow>
      8 - ?p < 8 - ?q \<or> 8 - ?p = 8 - ?q \<and> hexFrom ?p m < hexFrom ?q n"
    using hextable_mono[of "8 - ?p" "8 - ?q"] hextable_inj[of "8 - ?p" "8 - ?q"] le
    by (simp add: encodeOrderPreservingVarUint64_def Let_def)
  consider "?p < ?q" | "?q < ?p" | "?p = ?q"
    by linarith
  then show ?thesis
  proof cases
    case 1
    then show ?thesis
      unfolding eq using run_of_zeros[OF 1] le by auto
  next
    case 2
    then show ?thesis
      unfolding eq using run_of_zeros[OF 2] le by auto
  next
    case 3
    then show ?thesis
      unfolding eq using hexFrom_less[OF 3] by auto
  qed
qed

lemma encodeReverseOrder_less:
  "encodeReverseOrderVarUint64 m < encodeReverseOrderVarUint64 n \<longleftrightarrow> - 1 - m < - 1 - n"
proof -
  let ?m = "- 1 - m" and ?n = "- 1 - n"
  let ?p = "bytePosition 0xFF ?m" and ?q = "bytePosition 0xFF ?n"
  have le: "?p \<le> 8" "?q \<le> 8"
    by (simp_all add: bytePosition_le)
  have eq: "encodeReverseOrderVarUint64 m < encodeReverseOrderVarUint64 n \<longleftrightarrow>
      ?p < ?q \<or> ?p = ?q \<and> hexFrom ?p ?m < hexFrom ?q ?n"
    using hextable_mono[of ?p ?q] hextable_inj[of ?p ?q] le
    by (simp add: encodeReverseOrderVarUint64_def Let_def)
  consider "?p < ?q" | "?q < ?p" | "?p = ?q"
    by linarith
  then show ?thesis
  proof cases
    case 1
    then show ?thesis
      unfolding eq using run_of_ones[OF 1] by auto
  next
    case 2
    then show ?thesis
      unfolding eq using run_of_ones[OF 2] by auto
  next
    case 3
    then show ?thesis
      unfolding eq using hexFrom_less[OF 3] by auto
  qed
qed

lemma sint_cases: "sint n = (if uint n < 2 ^ 63 then uint n else uint n - 2 ^ 64)" for n :: "64 word"
proof (cases "uint n < 2 ^ 63")
  case True
  have "- (2 ^ 63) \<le> uint n"
    by (rule order_trans[of _ 0]) simp_all
  then have "signed_take_bit 63 (uint n) = uint n"
    using True by (rule signed_take_bit_int_eq_self)
  then show ?thesis
    using True by (simp add: sint_uint)
next
  case False
  moreover have "uint n < 2 ^ 64"
    using unsigned_less[of n, where 'a = int] by simp
  ultimately have "signed_take_bit 63 (uint n - 2 ^ 64) = uint n - 2 ^ 64"
    by (intro signed_take_bit_int_eq_self) simp_all
  moreover have "take_bit (Suc 63) (uint n - 2 ^ 64) = take_bit (Suc 63) (uint n)"
    by (simp add: take_bit_eq_mod mod_diff_right_eq)
  then have "signed_take_bit 63 (uint n - 2 ^ 64) = signed_take_bit 63 (uint n)"
    by (simp only: signed_take_bit_eq_iff_take_bit_eq)
  ultimately show ?thesis
    using False by (simp add: sint_uint)
qed

lemma uint_bound64: "uint (n :: 64 word) < 2 ^ 64"
  using unsigned_less[of n, where 'a = int] by simp

lemma sless_zero_iff: "n <s 0 \<longleftrightarrow> 2 ^ 63 \<le> uint n" for n :: "64 word"
  using uint_bound64[of n] by (auto simp: word_sless_alt sint_cases[of n])

lemma sless_iff:
  "m <s n \<longleftrightarrow> (if 2 ^ 63 \<le> uint m then uint n < 2 ^ 63 \<or> m < n else uint n < 2 ^ 63 \<and> m < n)" for m n :: "64 word"
proof -
  define a b where "a = uint m" and "b = uint n"
  have "0 \<le> a" "0 \<le> b" "a < 2 ^ 64" "b < 2 ^ 64"
    using uint_bound64[of n] uint_bound64[of m] by (simp_all add: a_def b_def)
  then show ?thesis
    unfolding word_sless_alt sint_cases word_less_def a_def[symmetric] b_def[symmetric] by auto
qed

lemma minus_one_less: "m \<noteq> 0 \<Longrightarrow> n \<noteq> 0 \<Longrightarrow> m - 1 < n - 1 \<longleftrightarrow> m < n" for m n :: "64 word"
proof -
  assume "m \<noteq> 0" "n \<noteq> 0"
  then have "unat (m - 1) = unat m - 1" "unat (n - 1) = unat n - 1" "unat m \<noteq> 0" "unat n \<noteq> 0"
    by (simp_all add: unat_minus_one unat_eq_zero)
  then show "m - 1 < n - 1 \<longleftrightarrow> m < n"
    unfolding word_less_nat_alt by linarith
qed

lemma EncodeInt64_less: "EncodeInt64 m < EncodeInt64 n \<longleftrightarrow> m <s n"
proof -
  have neg: "- 1 - (- m) < - 1 - (- n) \<longleftrightarrow> m < n" if "2 ^ 63 \<le> uint m" "2 ^ 63 \<le> uint n" for m n :: "64 word"
  proof -
    have "m \<noteq> 0" "n \<noteq> 0"
      using that by (metis not_numeral_le_zero power_zero_numeral unsigned_0 zero_less_power zero_less_numeral not_less)+
    then show ?thesis
      using minus_one_less[of m n] by simp
  qed
  have prefix: "encodeReverseOrderVarUint64 a < encodeOrderPreservingVarUint64 b"
    "\<not> encodeOrderPreservingVarUint64 b < encodeReverseOrderVarUint64 a" for a b
    by (simp_all add: encodeReverseOrderVarUint64_def encodeOrderPreservingVarUint64_def Let_def normalOrder_def
        reverseOrder_def less_char_def)
  show ?thesis
    unfolding EncodeInt64_def sless_zero_iff sless_iff
    using neg[of m n] prefix by (simp add: encodeOrderPreserving_less encodeReverseOrder_less not_le del: diff_minus_eq_add)
qed

section \<open>Decoding gives the number back\<close>

lemma hexAt:
  assumes "k + 1 < length s" "s ! k = hextable ! (unat b div 16)" "s ! (k + 1) = hextable ! (unat b mod 16)"
  shows "convertHexAtLocationToBinary s k = Inr b"
proof -
  have "push_bit 4 (of_nat (unat b div 16)) OR of_nat (unat b mod 16) = b"
  proof -
    have "of_nat (unat b div 16) = drop_bit 4 b" "of_nat (unat b mod 16) = take_bit 4 b"
      by (simp_all flip: nibbles) (simp add: take_bit_eq_mask mask_eq_exp_minus_1)
    then show ?thesis
      by (simp only:) (rule bit_word_eqI, auto simp: bit_simps)
  qed
  then show ?thesis
    using assms by (simp add: convertHexAtLocationToBinary_def charAt_def fromHexChar_hextable nibbles_bound)
qed

text \<open>The bytes from the end build the number up.\<close>

lemma take_step:
  assumes "t < 8"
  shows "take_bit (8 * t) n OR push_bit (8 * t) (ucast (byteAt n (7 - t))) = take_bit (8 * Suc t) n"
proof (rule bit_word_eqI)
  fix i
  have "56 - (7 - t) * 8 = 8 * t"
    using assms by simp
  then show "bit (take_bit (8 * t) n OR push_bit (8 * t) (ucast (byteAt n (7 - t)))) i = bit (take_bit (8 * Suc t) n) i"
    using assms by (cases "8 * t \<le> i") (auto simp: byteAt_def bit_simps)
qed

lemma take_all_bytes: "take_bit (8 * 8) (n :: 64 word) = n"
  by (simp add: take_bit_word_eq_self)

lemma nth_hexBytes:
  "i < length xs \<Longrightarrow> concat (map hexByte xs) ! (2 * i) = hextable ! (unat (xs ! i) div 16)
    \<and> concat (map hexByte xs) ! (2 * i + 1) = hextable ! (unat (xs ! i) mod 16)"
proof (induction xs arbitrary: i)
  case (Cons x xs)
  then show ?case
    by (cases i) (auto simp: hexByte_alt)
qed simp

lemma length_hexBytes: "length (concat (map hexByte xs)) = 2 * length xs"
  by (induction xs) (auto simp: hexByte_def)

lemma decodeLoop_hexFrom:
  assumes "sz = 8 - pos" "pos \<le> 8" "k \<le> sz" "bs = c # d # hexFrom pos n"
  shows "decodeLoop bs sz [k..<sz] (take_bit (8 * k) n) = Inr (take_bit (8 * sz) n)"
  using assms(3)
proof (induction "sz - k" arbitrary: k)
  case 0
  then have "k = sz"
    by simp
  then show ?case
    by simp
next
  case (Suc m)
  then have k: "k < sz" "k < 8"
    using assms(1) by auto
  let ?i = "sz - Suc k"
  have "length (drop pos (bytesOf n)) = sz"
    using assms(1) by simp
  then have len: "length (hexFrom pos n) = 2 * sz"
    by (simp add: hexFrom_alt length_hexBytes)
  have loc: "(sz - k) * 2 = 2 + 2 * ?i"
    using k by simp
  have x: "drop pos (bytesOf n) ! ?i = byteAt n (7 - k)"
    using k assms(1,2) by (simp add: bytesOf_nth)
  have "convertHexAtLocationToBinary bs ((sz - k) * 2) = Inr (byteAt n (7 - k))"
    unfolding loc
  proof (rule hexAt)
    have nth: "hexFrom pos n ! (2 * ?i) = hextable ! (unat (byteAt n (7 - k)) div 16)
        \<and> hexFrom pos n ! (2 * ?i + 1) = hextable ! (unat (byteAt n (7 - k)) mod 16)"
      using nth_hexBytes[of ?i "drop pos (bytesOf n)"] k assms(1) unfolding hexFrom_alt x by simp
    have tl: "bs ! (2 + j) = hexFrom pos n ! j" for j
      by (simp add: assms(4))
    show "bs ! (2 + 2 * ?i) = hextable ! (unat (byteAt n (7 - k)) div 16)"
      "bs ! (2 + 2 * ?i + 1) = hextable ! (unat (byteAt n (7 - k)) mod 16)"
      unfolding add.assoc tl using nth by blast+
    show "2 + 2 * ?i + 1 < length bs"
      using len k by (simp add: assms(4))
  qed
  then have "decodeLoop bs sz [k..<sz] (take_bit (8 * k) n) = decodeLoop bs sz [Suc k..<sz] (take_bit (8 * Suc k) n)"
    using k by (simp add: upt_conv_Cons take_step del: mult_Suc_right)
  also have "\<dots> = Inr (take_bit (8 * sz) n)"
    by (rule Suc.hyps(1)) (use Suc k in auto)
  finally show ?case .
qed

lemma fillBytes_take:
  assumes "\<forall>t \<in> {k..<8}. byteAt n (7 - t) = 0xFF" "k \<le> 8"
  shows "fillBytes k (take_bit (8 * k) n) = n"
  using assms
proof (induction "8 - k" arbitrary: k)
  case 0
  then show ?case
    using take_all_bytes[of n] by (simp add: fillBytes_def)
next
  case (Suc m)
  then have k: "k < 8"
    by simp
  have "fillBytes k (take_bit (8 * k) n) = fillBytes (Suc k) (take_bit (8 * k) n OR push_bit (8 * k) 0xFF)"
    using k by (simp add: fillBytes_def upt_conv_Cons)
  also have "take_bit (8 * k) n OR push_bit (8 * k) 0xFF = take_bit (8 * Suc k) n"
  proof -
    have "byteAt n (7 - k) = 0xFF"
      using Suc.prems(1) k by simp
    then have "(ucast (byteAt n (7 - k)) :: 64 word) = 0xFF"
      by simp
    then show ?thesis
      using take_step[OF k, of n] by simp
  qed
  also have "fillBytes (Suc k) (take_bit (8 * Suc k) n) = n"
    by (rule Suc.hyps(1)) (use Suc k in auto)
  finally show ?case .
qed

lemma byteAt_position: "r < bytePosition skip n \<Longrightarrow> byteAt n r = skip"
  using take_bytePosition[of "bytePosition skip n" skip n] bytePosition_le[of skip n]
  by (metis bytesOf_nth nth_replicate nth_take order.refl order_less_le_trans)

lemma zero_bytes_take:
  assumes "\<forall>t \<in> {k..<8}. byteAt n (7 - t) = 0" "k \<le> 8"
  shows "take_bit (8 * k) n = n"
  using assms
proof (induction "8 - k" arbitrary: k)
  case 0
  then show ?case
    using take_all_bytes[of n] by simp
next
  case (Suc m)
  then have k: "k < 8"
    by simp
  then have "take_bit (8 * k) n = take_bit (8 * Suc k) n"
    using take_step[OF k, of n] Suc.prems(1) by simp
  also have "\<dots> = n"
    by (rule Suc.hyps(1)) (use Suc k in auto)
  finally show ?case .
qed

lemma decode_first:
  assumes "sz \<le> 8"
  shows "convertHexAtLocationToBinary (CHR ''0'' # hextable ! sz # s) 0 = Inr (of_nat sz)"
proof (rule hexAt)
  have "unat (of_nat sz :: byte) = sz"
    using assms by (simp add: unat_of_nat)
  then show "(CHR ''0'' # hextable ! sz # s) ! 0 = hextable ! (unat (of_nat sz :: byte) div 16)"
    "(CHR ''0'' # hextable ! sz # s) ! (0 + 1) = hextable ! (unat (of_nat sz :: byte) mod 16)"
    using assms by (simp_all add: hextable_def)
qed simp

lemma decodeOrderPreserving_encode:
  assumes "pos = bytePosition 0 n"
  shows "decodeOrderPreservingVarUint64 (CHR ''0'' # hextable ! (8 - pos) # hexFrom pos n) = Inr n"
proof -
  have le: "pos \<le> 8"
    using bytePosition_le assms by simp
  have "unat (of_nat (8 - pos) :: byte) = 8 - pos"
    by (simp add: unat_of_nat)
  moreover have "take_bit (8 * (8 - pos)) n = n"
  proof (rule zero_bytes_take)
    show "\<forall>t \<in> {8 - pos..<8}. byteAt n (7 - t) = 0"
      using byteAt_position[of _ 0 n] assms le by auto
  qed simp
  moreover have "decodeLoop (CHR ''0'' # hextable ! (8 - pos) # hexFrom pos n) (8 - pos) [0..<8 - pos] 0
      = Inr (take_bit (8 * (8 - pos)) n)"
    using decodeLoop_hexFrom[OF refl le _ refl, of 0] by simp
  ultimately show ?thesis
    by (simp add: decodeOrderPreservingVarUint64_def decode_first)
qed

lemma decodeReverseOrder_encode:
  assumes "pos = bytePosition 0xFF n"
  shows "decodeReverseOrderVarUint64 (CHR ''0'' # hextable ! pos # hexFrom pos n) = Inr (- 1 - n)"
proof -
  have le: "pos \<le> 8"
    using bytePosition_le assms by simp
  then have "unat (of_nat pos :: byte) = pos"
    by (simp add: unat_of_nat)
  moreover have "fillBytes (8 - pos) (take_bit (8 * (8 - pos)) n) = n"
  proof (rule fillBytes_take)
    show "\<forall>t \<in> {8 - pos..<8}. byteAt n (7 - t) = 0xFF"
      using byteAt_position[of _ "0xFF" n] assms le by auto
  qed simp
  moreover have "decodeLoop (CHR ''0'' # hextable ! pos # hexFrom pos n) (8 - pos) [0..<8 - pos] 0
      = Inr (take_bit (8 * (8 - pos)) n)"
    using decodeLoop_hexFrom[OF refl le _ refl, of 0] by simp
  ultimately show ?thesis
    using decode_first[OF le] by (simp add: decodeReverseOrderVarUint64_def Let_def)
qed

lemma decodeInt64_EncodeInt64: "decodeInt64 (EncodeInt64 n) = Inr n"
  using decodeOrderPreserving_encode[of _ n] decodeReverseOrder_encode[of _ "- 1 - (- n)"]
  by (simp add: EncodeInt64_def encodeOrderPreservingVarUint64_def encodeReverseOrderVarUint64_def Let_def decodeInt64_def
      decodeVarUint64_def charAt_def normalOrder_def reverseOrder_def)

end
