(* ===== verification/State_Index.thy ===== *)
theory State_Index
  imports Worldstate Index_Encoding
begin

text \<open>
  The state index: \<^verbatim>\<open>internal/stateindex/index_entries.go\<close>. For every database with an index
  definition, the attributes of the JSON values are kept in an index database, one key per
  indexed attribute value. Parsing of JSON values and index definitions is that of
  \<^verbatim>\<open>encoding/json\<close>, a parameter; the JSON text of an index entry is modelled.
\<close>

section \<open>JSON values\<close>

datatype json = JNull | JBool bool | JNumber string | JString string | JArray "json list" | JObject "(string \<times> json) list"

record json_parsers =
  DecodeJSON :: "bytes \<Rightarrow> json option"
  DecodeIndexDef :: "bytes \<Rightarrow> (string, int) gomap res"

text \<open>\<^verbatim>\<open>strconv.ParseInt(s, 10, 64)\<close>\<close>

definition digitVal :: "char \<Rightarrow> nat option" where
  "digitVal c = (if CHR ''0'' \<le> c \<and> c \<le> CHR ''9'' then Some (of_char c - 48) else None)"

fun parseDigits :: "nat \<Rightarrow> string \<Rightarrow> nat option" where
  "parseDigits acc [] = Some acc"
| "parseDigits acc (c # cs) = (case digitVal c of None \<Rightarrow> None | Some d \<Rightarrow> parseDigits (acc * 10 + d) cs)"

definition parseUnsigned :: "string \<Rightarrow> nat option" where
  "parseUnsigned s = (if s = [] then None else parseDigits 0 s)"

definition ParseInt :: "string \<Rightarrow> 64 word option" where
  "ParseInt s = (case s of
     [] \<Rightarrow> None
   | c # cs \<Rightarrow>
       if c = CHR ''-'' then
         (case parseUnsigned cs of None \<Rightarrow> None | Some n \<Rightarrow> if n > 2 ^ 63 then None else Some (- of_nat n))
       else
         (case parseUnsigned (if c = CHR ''+'' then cs else s) of
            None \<Rightarrow> None | Some n \<Rightarrow> if n \<ge> 2 ^ 63 then None else Some (of_nat n)))"

section \<open>Index entries\<close>

datatype index_value = IVString string | IVBool bool

definition Beginning :: nat where "Beginning = 1"
definition Existing :: nat where "Existing = 2"
definition Ending :: nat where "Ending = 3"

record IndexEntry =
  IAttribute :: string
  IType :: int
  IValuePosition :: nat
  IValue :: index_value
  IKeyPosition :: nat
  IKey :: string

definition IndexDB :: "string \<Rightarrow> string" where
  "IndexDB dbName = ''_index_'' @ dbName"

text \<open>
  The JSON text of a string: \<^verbatim>\<open>encoding/json\<close> escapes quotes, backslashes, control characters, HTML and the
  line separators U+2028 and U+2029. The strings are those of protocol buffers and of decoded JSON, so valid
  UTF-8; the replacement of invalid bytes by U+FFFD, which no such string meets, is not modelled.
\<close>

definition jsonEscape :: "char \<Rightarrow> string" where
  "jsonEscape c =
     (if c = CHR 0x22 then [CHR 0x5C, CHR 0x22]
      else if c = CHR 0x5C then [CHR 0x5C, CHR 0x5C]
      else if c = CHR 0x0A then [CHR 0x5C, CHR ''n'']
      else if c = CHR 0x0D then [CHR 0x5C, CHR ''r'']
      else if c = CHR 0x09 then [CHR 0x5C, CHR ''t'']
      else if c < CHR 0x20 \<or> c \<in> {CHR ''<'', CHR ''>'', CHR ''&''} then [CHR 0x5C, CHR ''u'', CHR ''0'', CHR ''0''] @ hexByte (of_char c)
      else [c])"

text \<open>The bytes of a string one by one, those of U+2028 and U+2029 together.\<close>

definition isSeparator :: "char \<Rightarrow> char \<Rightarrow> char \<Rightarrow> bool" where
  "isSeparator a b c \<longleftrightarrow> a = CHR 0xE2 \<and> b = CHR 0x80 \<and> (c = CHR 0xA8 \<or> c = CHR 0xA9)"

fun jsonRunes :: "string \<Rightarrow> string list" where
  "jsonRunes (a # b # c # s) = (if isSeparator a b c then [a, b, c] # jsonRunes s else [a] # jsonRunes (b # c # s))"
| "jsonRunes s = map (\<lambda>c. [c]) s"

definition jsonRune :: "string \<Rightarrow> string" where
  "jsonRune r = (case r of
     [c] \<Rightarrow> jsonEscape c
   | _ \<Rightarrow> CHR 0x5C # ''u202'' @ (if last r = CHR 0xA8 then ''8'' else ''9''))"

definition jsonString :: "string \<Rightarrow> string" where
  "jsonString s = CHR 0x22 # concat (map jsonRune (jsonRunes s)) @ [CHR 0x22]"

definition jsonValue :: "index_value \<Rightarrow> string" where
  "jsonValue v = (case v of IVString s \<Rightarrow> jsonString s | IVBool b \<Rightarrow> if b then ''true'' else ''false'')"

definition jsonField :: "string \<Rightarrow> string" where
  "jsonField n = CHR 0x22 # n @ [CHR 0x22, CHR '':'']"

text \<open>\<^verbatim>\<open>IndexEntry.String\<close>\<close>

definition entryString :: "IndexEntry \<Rightarrow> string" where
  "entryString e =
     ''{'' @ jsonField ''a'' @ jsonString (IAttribute e) @ '','' @ jsonField ''t'' @ dec_int (IType e)
     @ '','' @ jsonField ''vp'' @ dec (IValuePosition e) @ '','' @ jsonField ''v'' @ jsonValue (IValue e)
     @ '','' @ jsonField ''kp'' @ dec (IKeyPosition e) @ '','' @ jsonField ''k'' @ jsonString (IKey e) @ ''}''"

definition toStrings :: "IndexEntry list \<Rightarrow> string list" where
  "toStrings es = map entryString es"

abbreviation NUMBER :: int where "NUMBER \<equiv> 0"
abbreviation STRING :: int where "STRING \<equiv> 1"
abbreviation BOOLEAN :: int where "BOOLEAN \<equiv> 2"

text \<open>\<^verbatim>\<open>isTypeSame\<close> and \<^verbatim>\<open>GetValue\<close>: the indexed form of an attribute of the given type.\<close>

definition isTypeSame :: "json \<Rightarrow> int \<Rightarrow> index_value option" where
  "isTypeSame v t = (case v of
     JNumber s \<Rightarrow> if t = NUMBER then map_option (\<lambda>n. IVString (EncodeInt64 n)) (ParseInt s) else None
   | JString s \<Rightarrow> if t = STRING then Some (IVString s) else None
   | JBool b \<Rightarrow> if t = BOOLEAN then Some (IVBool b) else None
   | _ \<Rightarrow> None)"

definition indexAttr :: "(string, int) gomap \<Rightarrow> string \<Rightarrow> json \<Rightarrow> IndexEntry list" where
  "indexAttr index attr v =
     (case map_of index attr of
        None \<Rightarrow> []
      | Some t \<Rightarrow> (case isTypeSame v t of
          None \<Rightarrow> []
        | Some iv \<Rightarrow> [\<lparr>IAttribute = attr, IType = t, IValuePosition = Existing, IValue = iv, IKeyPosition = Existing, IKey = ''''\<rparr>]))"

fun partialIndexEntriesForValue :: "(string, int) gomap \<Rightarrow> json \<Rightarrow> IndexEntry list"
and partialIndexEntriesForAttrs :: "(string, int) gomap \<Rightarrow> (string \<times> json) list \<Rightarrow> IndexEntry list" where
  "partialIndexEntriesForValue index (JObject attrs) = partialIndexEntriesForAttrs index attrs"
| "partialIndexEntriesForValue index _ = []"
| "partialIndexEntriesForAttrs index [] = []"
| "partialIndexEntriesForAttrs index ((attr, v) # rest) =
     (case v of
        JString s \<Rightarrow> indexAttr index attr v
      | JNumber s \<Rightarrow> indexAttr index attr v
      | JBool b \<Rightarrow> indexAttr index attr v
      | _ \<Rightarrow> partialIndexEntriesForValue index v)
     @ partialIndexEntriesForAttrs index rest"

definition decodeJSONAndConstructIndexEntries ::
  "json_parsers \<Rightarrow> string \<Rightarrow> slice \<Rightarrow> (string, int) gomap \<Rightarrow> IndexEntry list" where
  "decodeJSONAndConstructIndexEntries jp key v index =
     (case DecodeJSON jp (content v) of
        Some (JObject attrs) \<Rightarrow> map (\<lambda>e. e\<lparr>IKey := key\<rparr>) (partialIndexEntriesForValue index (JObject attrs))
      | _ \<Rightarrow> [])"

definition indexEntriesForNewValues ::
  "json_parsers \<Rightarrow> KVWithMetadata list \<Rightarrow> (string, int) gomap \<Rightarrow> IndexEntry list" where
  "indexEntriesForNewValues jp kvs index =
     concat (map (\<lambda>kv. decodeJSONAndConstructIndexEntries jp (KVKey kv) (KVValue kv) index) kvs)"

fun indexEntriesOfExistingValue ::
  "json_parsers \<Rightarrow> string list \<Rightarrow> (string, int) gomap \<Rightarrow> DB \<Rightarrow> string \<Rightarrow> IndexEntry list res" where
  "indexEntriesOfExistingValue jp [] index db dbName = Inr []"
| "indexEntriesOfExistingValue jp (k # ks) index db dbName =
     rbind (DB_Get db dbName k) (\<lambda>(v, _).
     rbind (indexEntriesOfExistingValue jp ks index db dbName) (\<lambda>es.
     Inr (decodeJSONAndConstructIndexEntries jp k v index @ es)))"

text \<open>
  \<^verbatim>\<open>removeDuplicateIndexEntries\<close>: the two maps as lists without repetition; entries in both are
  dropped from both. Without any repetition the lists are returned as they are.
\<close>

definition removeDuplicateIndexEntries :: "string list \<Rightarrow> string list \<Rightarrow> string list \<times> string list" where
  "removeDuplicateIndexEntries indexOfNewValues indexOfExistingValues =
     (let newEntries = filter (\<lambda>e. e \<notin> set indexOfExistingValues) (remdups indexOfNewValues);
          existingEntries = filter (\<lambda>e. e \<notin> set indexOfNewValues) (remdups indexOfExistingValues) in
      if length indexOfNewValues = length newEntries then (indexOfNewValues, indexOfExistingValues)
      else (newEntries, existingEntries))"

definition indexEntriesForWrites ::
  "json_parsers \<Rightarrow> KVWithMetadata list \<Rightarrow> (string, int) gomap \<Rightarrow> DB \<Rightarrow> string \<Rightarrow> (string list \<times> string list) res" where
  "indexEntriesForWrites jp writes index db dbName =
     (let newIndexEntries = indexEntriesForNewValues jp writes index in
      rbind (indexEntriesOfExistingValue jp (map KVKey writes) index db dbName) (\<lambda>existingIndexEntries.
      Inr (removeDuplicateIndexEntries (toStrings newIndexEntries) (toStrings existingIndexEntries))))"

definition indexEntriesForDeletes ::
  "json_parsers \<Rightarrow> string list \<Rightarrow> (string, int) gomap \<Rightarrow> DB \<Rightarrow> string \<Rightarrow> string list res" where
  "indexEntriesForDeletes jp deletes index db dbName =
     rbind (indexEntriesOfExistingValue jp deletes index db dbName) (\<lambda>es. Inr (toStrings es))"

definition indexUpdatesForDB ::
  "json_parsers \<Rightarrow> DB \<Rightarrow> string \<Rightarrow> DBUpdates \<Rightarrow> DBUpdates option res" where
  "indexUpdatesForDB jp db dbName update =
     rbind (GetIndexDefinition db dbName) (\<lambda>(indexDef, _).
     case indexDef of
       None \<Rightarrow> Inr None
     | Some d \<Rightarrow>
         rbind (DecodeIndexDef jp d) (\<lambda>index.
         rbind (indexEntriesForWrites jp (Writes update) index db dbName) (\<lambda>(newIndexToBeCreated, oldIndexToBeDeleted).
         rbind (indexEntriesForDeletes jp (Deletes update) index db dbName) (\<lambda>toBeDeletedIndexEntries.
         let dbUpdates = \<lparr>Writes = map (\<lambda>ind. \<lparr>KVKey = ind, KVValue = None, KVMetadata = None\<rparr>) newIndexToBeCreated,
                          Deletes = oldIndexToBeDeleted @ toBeDeletedIndexEntries\<rparr> in
         Inr (if Writes dbUpdates \<noteq> [] \<or> Deletes dbUpdates \<noteq> [] then Some dbUpdates else None)))))"

fun indexLoop ::
  "json_parsers \<Rightarrow> DB \<Rightarrow> (string, DBUpdates) gomap \<Rightarrow> (string, DBUpdates) gomap \<Rightarrow> (string, DBUpdates) gomap res" where
  "indexLoop jp db [] indexEntries = Inr indexEntries"
| "indexLoop jp db ((dbName, update) # rest) indexEntries =
     rbind (indexUpdatesForDB jp db dbName update) (\<lambda>u.
     indexLoop jp db rest (case u of None \<Rightarrow> indexEntries | Some d \<Rightarrow> gomap_put indexEntries (IndexDB dbName) d))"

definition ConstructIndexEntries ::
  "json_parsers \<Rightarrow> (string, DBUpdates) gomap \<Rightarrow> DB \<Rightarrow> (string, DBUpdates) gomap res" where
  "ConstructIndexEntries jp updates db = indexLoop jp db updates []"

section \<open>The text of an entry determines it\<close>

definition unescape :: "string \<Rightarrow> char \<times> string" where
  "unescape s =
     (if s ! 0 \<noteq> CHR 0x5C then (s ! 0, drop 1 s)
      else if s ! 1 = CHR ''n'' then (CHR 0x0A, drop 2 s)
      else if s ! 1 = CHR ''r'' then (CHR 0x0D, drop 2 s)
      else if s ! 1 = CHR ''t'' then (CHR 0x09, drop 2 s)
      else if s ! 1 = CHR ''u'' then
        (case convertHexAtLocationToBinary (take 6 s) 4 of Inr b \<Rightarrow> char_of (unat b) | Inl _ \<Rightarrow> CHR 0x00, drop 6 s)
      else (s ! 1, drop 2 s))"

lemma char_of_byte: "char_of (unat (of_char c :: byte)) = c"
proof -
  have "(of_char c :: byte) = of_nat (of_char c)"
    by (simp add: of_nat_of_char)
  then have "unat (of_char c :: byte) = of_char c"
    using nat_of_char_less_256[of c] by (simp add: unat_of_nat)
  then show ?thesis
    by simp
qed

lemma hex_escape:
  "convertHexAtLocationToBinary ([CHR 0x5C, CHR ''u'', CHR ''0'', CHR ''0''] @ hexByte b) 4 = Inr b"
  by (rule hexAt) (simp_all add: hexByte_alt)

lemma unescape_escape_char: "unescape (jsonEscape c) = (c, [])"
proof -
  have "take 6 ([CHR 0x5C, CHR ''u'', CHR ''0'', CHR ''0''] @ hexByte b) = [CHR 0x5C, CHR ''u'', CHR ''0'', CHR ''0''] @ hexByte b" for b
    by (simp add: hexByte_def)
  then have "unescape ([CHR 0x5C, CHR ''u'', CHR ''0'', CHR ''0''] @ hexByte (of_char c)) = (c, [])"
    unfolding unescape_def using hex_escape[of "of_char c"] char_of_byte[of c] by (simp add: hexByte_def)
  then show ?thesis
    unfolding jsonEscape_def by (auto simp: unescape_def)
qed

lemma unescape_append: "unescape (jsonEscape c @ x) = (fst (unescape (jsonEscape c)), x)"
  by (simp add: jsonEscape_def unescape_def hexByte_def)

lemma unescape_escape: "unescape (jsonEscape c @ x) = (c, x)"
  by (simp add: unescape_append unescape_escape_char)

text \<open>Reading one rune back.\<close>

definition isRune :: "string \<Rightarrow> bool" where
  "isRune r \<longleftrightarrow> (\<exists>c. r = [c]) \<or> (\<exists>a b c. r = [a, b, c] \<and> isSeparator a b c)"

definition unrune :: "string \<Rightarrow> string \<times> string" where
  "unrune s =
     (if take 3 s = CHR 0x5C # ''u2'' then ([CHR 0xE2, CHR 0x80, if s ! 5 = CHR ''8'' then CHR 0xA8 else CHR 0xA9], drop 6 s)
      else case unescape s of (c, rest) \<Rightarrow> ([c], rest))"

lemma jsonRunes_runes: "r \<in> set (jsonRunes s) \<Longrightarrow> isRune r"
  by (induction s rule: jsonRunes.induct) (auto simp: isRune_def split: if_splits)

lemma concat_jsonRunes: "concat (jsonRunes s) = s"
  by (induction s rule: jsonRunes.induct) auto

lemma escape_not_separator: "take 3 (jsonEscape c @ x) \<noteq> CHR 0x5C # ''u2''"
  by (auto simp: jsonEscape_def)

lemma unrune_rune:
  assumes "isRune r"
  shows "unrune (jsonRune r @ x) = (r, x)"
  using assms escape_not_separator
  by (auto simp: isRune_def isSeparator_def jsonRune_def unrune_def unescape_escape)

lemma escape_first: "jsonEscape c @ x \<noteq> CHR 0x22 # y"
  by (auto simp: jsonEscape_def)

lemma rune_first:
  assumes "isRune r"
  shows "jsonRune r @ x \<noteq> CHR 0x22 # y"
  using assms escape_first by (auto simp: isRune_def jsonRune_def)

lemma escaped_eq:
  "\<forall>r \<in> set s \<union> set t. isRune r \<Longrightarrow>
   concat (map jsonRune s) @ CHR 0x22 # x = concat (map jsonRune t) @ CHR 0x22 # y \<Longrightarrow> s = t \<and> x = y"
proof (induction s arbitrary: t)
  case Nil
  then show ?case
    by (cases t) (auto simp: rune_first[symmetric])
next
  case (Cons c s)
  then obtain d t' where t: "t = d # t'"
    using rune_first[of c] by (cases t) auto
  have eq: "jsonRune c @ concat (map jsonRune s) @ CHR 0x22 # x = jsonRune d @ concat (map jsonRune t') @ CHR 0x22 # y"
    using Cons.prems t by simp
  have "c = d" "concat (map jsonRune s) @ CHR 0x22 # x = concat (map jsonRune t') @ CHR 0x22 # y"
    using arg_cong[OF eq, of unrune] Cons.prems(1) t by (simp_all add: unrune_rune)
  then show ?case
    using Cons.IH[of t'] Cons.prems(1) t by simp
qed

lemma jsonString_eq: "jsonString s @ x = jsonString t @ y \<longleftrightarrow> s = t \<and> x = y"
proof
  assume "jsonString s @ x = jsonString t @ y"
  then have "jsonRunes s = jsonRunes t \<and> x = y"
    using jsonRunes_runes by (intro escaped_eq) (auto simp: jsonString_def)
  then show "s = t \<and> x = y"
    by (metis concat_jsonRunes)
qed simp

lemma dec_comma_eq: "dec m @ CHR '','' # x = dec n @ CHR '','' # y \<longleftrightarrow> m = n \<and> x = y"
proof
  have no: "CHR '','' \<notin> set (dec k)" for k
  proof
    assume "CHR '','' \<in> set (dec k)"
    then obtain d :: nat where d: "d < 10" "CHR '','' = char_of (48 + d)"
      using dec_digits by blast
    then have "of_char (CHR '','') = (48 + d) mod 256"
      by (metis of_char_of)
    then show False
      using d(1) by simp
  qed
  assume eq: "dec m @ CHR '','' # x = dec n @ CHR '','' # y"
  have "takeWhile (\<lambda>c. c \<noteq> CHR '','') (dec k @ CHR '','' # z) = dec k" for k z
    using no[of k] by (subst takeWhile_append2) auto
  then have "dec m = dec n"
    using arg_cong[OF eq, of "takeWhile (\<lambda>c. c \<noteq> CHR '','')"] by simp
  then show "m = n \<and> x = y"
    using eq dec_inj by auto
qed auto

lemma dec_not_minus: "dec n @ x \<noteq> CHR ''-'' # y"
proof
  assume "dec n @ x = CHR ''-'' # y"
  then have "CHR ''-'' \<in> set (dec n)"
    by (metis append_eq_Cons_conv dec_nonempty(1) list.set_intros(1))
  then obtain d :: nat where d: "d < 10" "CHR ''-'' = char_of (48 + d)"
    using dec_digits by blast
  then have "of_char (CHR ''-'') = (48 + d) mod 256"
    by (metis of_char_of)
  then show False
    using d(1) by simp
qed

lemma dec_int_comma_eq: "dec_int i @ CHR '','' # x = dec_int j @ CHR '','' # y \<longleftrightarrow> i = j \<and> x = y"
  using dec_not_minus dec_not_minus[symmetric]
  by (auto simp: dec_int_def dec_comma_eq nat_eq_iff split: if_splits)

lemma jsonValue_eq: "jsonValue v @ CHR '','' # x = jsonValue w @ CHR '','' # y \<longleftrightarrow> v = w \<and> x = y"
proof (cases v; cases w)
  fix s t assume "v = IVString s" "w = IVString t"
  then show ?thesis
    using jsonString_eq[of s "CHR '','' # x" t "CHR '','' # y"] by (simp add: jsonValue_def)
qed (auto simp: jsonValue_def jsonString_def)

lemma entryString_inj: "entryString d = entryString e \<longleftrightarrow> d = e"
proof
  assume "entryString d = entryString e"
  then have "IAttribute d = IAttribute e \<and> IType d = IType e \<and> IValuePosition d = IValuePosition e
      \<and> IValue d = IValue e \<and> IKeyPosition d = IKeyPosition e \<and> IKey d = IKey e"
    using jsonString_eq[of "IKey d" "''}''" "IKey e" "''}''"]
    by (simp add: entryString_def jsonField_def jsonString_eq dec_int_comma_eq dec_comma_eq jsonValue_eq)
  then show "d = e"
    by simp
qed simp

section \<open>The index follows the values\<close>

text \<open>The value of a key, nil when it is absent, and the keys of the index database that a state calls for.\<close>

definition valueOf :: "DB \<Rightarrow> string \<Rightarrow> string \<Rightarrow> slice" where
  "valueOf db dbName k = (case DB_Get db dbName k of Inr (v, _) \<Rightarrow> v | Inl _ \<Rightarrow> None)"

definition entrySet :: "json_parsers \<Rightarrow> (string, int) gomap \<Rightarrow> string \<Rightarrow> slice \<Rightarrow> string set" where
  "entrySet jp index k v = entryString ` set (decodeJSONAndConstructIndexEntries jp k v index)"

definition indexOf :: "json_parsers \<Rightarrow> (string, int) gomap \<Rightarrow> (string \<Rightarrow> slice) \<Rightarrow> string set" where
  "indexOf jp index get = (\<Union>k. entrySet jp index k (get k))"

text \<open>The values after a block's updates.\<close>

definition updatedValue :: "DBUpdates \<Rightarrow> (string \<Rightarrow> slice) \<Rightarrow> string \<Rightarrow> slice" where
  "updatedValue u get k =
     (if k \<in> set (Deletes u) then None
      else case find (\<lambda>kv. KVKey kv = k) (Writes u) of Some kv \<Rightarrow> KVValue kv | None \<Rightarrow> get k)"

lemma entrySet_key: "e \<in> entrySet jp index k v \<Longrightarrow> \<exists>x. e = entryString x \<and> IKey x = k"
  by (auto simp: entrySet_def decodeJSONAndConstructIndexEntries_def split: option.splits json.splits)

lemma entrySet_disjoint: "k \<noteq> k' \<Longrightarrow> entrySet jp index k v \<inter> entrySet jp index k' v' = {}"
  using entrySet_key entryString_inj by (metis disjoint_iff)

lemma entrySet_absent: "DecodeJSON jp [] = None \<Longrightarrow> entrySet jp index k None = {}"
  by (simp add: entrySet_def decodeJSONAndConstructIndexEntries_def)

lemma existing_entries:
  "indexEntriesOfExistingValue jp ks index db n = Inr es \<Longrightarrow>
   set (toStrings es) = (\<Union>k \<in> set ks. entrySet jp index k (valueOf db n k))"
proof (induction ks arbitrary: es)
  case (Cons k ks)
  then obtain v m es' where v: "DB_Get db n k = Inr (v, m)" "indexEntriesOfExistingValue jp ks index db n = Inr es'"
      "es = decodeJSONAndConstructIndexEntries jp k v index @ es'"
    by (auto simp: rbind_Inr_iff)
  then show ?case
    using Cons.IH[OF v(2)] by (simp add: toStrings_def entrySet_def valueOf_def image_Un)
qed (simp add: toStrings_def)

lemma new_entries:
  "set (toStrings (indexEntriesForNewValues jp kvs index)) = (\<Union>kv \<in> set kvs. entrySet jp index (KVKey kv) (KVValue kv))"
  by (auto simp: toStrings_def indexEntriesForNewValues_def entrySet_def)

lemma removeDuplicate_sets:
  assumes "removeDuplicateIndexEntries new old = (new', old')"
  shows "set new' = set new - set old" "set old' = set old - set new"
proof -
  let ?f = "filter (\<lambda>e. e \<notin> set old) (remdups new)"
  have "set new' = set new - set old \<and> set old' = set old - set new"
  proof (cases "length new = length ?f")
    case True
    have "\<forall>e \<in> set new. e \<notin> set old"
    proof (rule ccontr)
      assume "\<not> (\<forall>e \<in> set new. e \<notin> set old)"
      then obtain e where "e \<in> set new" "e \<in> set old"
        by blast
      then have "length ?f < length (remdups new)"
        by (intro length_filter_less[of e]) simp_all
      then show False
        using True length_remdups_leq[of new] by simp
    qed
    then show ?thesis
      using assms True by (auto simp: removeDuplicateIndexEntries_def Let_def)
  next
    case False
    then show ?thesis
      using assms by (auto simp: removeDuplicateIndexEntries_def Let_def)
  qed
  then show "set new' = set new - set old" "set old' = set old - set new"
    by simp_all
qed

lemma updatedValue_cases:
  assumes "distinct (touched u)"
  shows "kv \<in> set (Writes u) \<Longrightarrow> updatedValue u get (KVKey kv) = KVValue kv"
    and "k \<in> set (Deletes u) \<Longrightarrow> updatedValue u get k = None"
    and "k \<notin> set (touched u) \<Longrightarrow> updatedValue u get k = get k"
proof -
  have dist: "distinct (map KVKey (Writes u))" "KVKey ` set (Writes u) \<inter> set (Deletes u) = {}"
    using assms by (auto simp: touched_def)
  show "updatedValue u get (KVKey kv) = KVValue kv" if kv: "kv \<in> set (Writes u)"
  proof -
    obtain kv' where kv': "find (\<lambda>x. KVKey x = KVKey kv) (Writes u) = Some kv'"
      using kv find_None_iff[of "\<lambda>x. KVKey x = KVKey kv" "Writes u"] by fastforce
    then have "kv' \<in> set (Writes u)" "KVKey kv' = KVKey kv"
      by (auto simp: find_Some_iff)
    then have "kv' = kv"
      using kv dist(1) by (auto simp: distinct_map inj_on_def)
    then show ?thesis
      using kv' kv dist(2) by (auto simp: updatedValue_def)
  qed
  show "updatedValue u get k = None" if "k \<in> set (Deletes u)"
    using that by (simp add: updatedValue_def)
  show "updatedValue u get k = get k" if "k \<notin> set (touched u)"
  proof -
    have "find (\<lambda>kv. KVKey kv = k) (Writes u) = None"
      using that by (auto simp: touched_def find_None_iff)
    then show ?thesis
      using that by (simp add: updatedValue_def touched_def)
  qed
qed

text \<open>The keys an index update writes and deletes.\<close>

definition indexWrites :: "DBUpdates option \<Rightarrow> string set" where
  "indexWrites ux = (case ux of None \<Rightarrow> {} | Some x \<Rightarrow> KVKey ` set (Writes x))"

definition indexDeletes :: "DBUpdates option \<Rightarrow> string set" where
  "indexDeletes ux = (case ux of None \<Rightarrow> {} | Some x \<Rightarrow> set (Deletes x))"

lemma indexUpdatesForDB_sets:
  assumes "indexUpdatesForDB jp db n u = Inr ux" "GetIndexDefinition db n = Inr (Some d, md)" "DecodeIndexDef jp d = Inr index"
  shows "indexWrites ux = (\<Union>kv \<in> set (Writes u). entrySet jp index (KVKey kv) (KVValue kv))
        - (\<Union>k \<in> KVKey ` set (Writes u). entrySet jp index k (valueOf db n k))"
    and "indexDeletes ux = ((\<Union>k \<in> KVKey ` set (Writes u). entrySet jp index k (valueOf db n k))
        - (\<Union>kv \<in> set (Writes u). entrySet jp index (KVKey kv) (KVValue kv)))
        \<union> (\<Union>k \<in> set (Deletes u). entrySet jp index k (valueOf db n k))"
proof -
  obtain es new old ds where es: "indexEntriesOfExistingValue jp (map KVKey (Writes u)) index db n = Inr es"
      "removeDuplicateIndexEntries (toStrings (indexEntriesForNewValues jp (Writes u) index)) (toStrings es) = (new, old)"
      "indexEntriesOfExistingValue jp (Deletes u) index db n = Inr ds"
    and ux: "ux = (if new \<noteq> [] \<or> old @ toStrings ds \<noteq> []
      then Some \<lparr>Writes = map (\<lambda>ind. \<lparr>KVKey = ind, KVValue = None, KVMetadata = None\<rparr>) new, Deletes = old @ toStrings ds\<rparr> else None)"
    using assms by (auto simp: indexUpdatesForDB_def indexEntriesForWrites_def indexEntriesForDeletes_def rbind_Inr_iff Let_def)
  have "indexWrites ux = set new" "indexDeletes ux = set old \<union> set (toStrings ds)"
    unfolding ux by (auto simp: indexWrites_def indexDeletes_def image_image)
  then show "indexWrites ux = (\<Union>kv \<in> set (Writes u). entrySet jp index (KVKey kv) (KVValue kv))
        - (\<Union>k \<in> KVKey ` set (Writes u). entrySet jp index k (valueOf db n k))"
    "indexDeletes ux = ((\<Union>k \<in> KVKey ` set (Writes u). entrySet jp index k (valueOf db n k))
        - (\<Union>kv \<in> set (Writes u). entrySet jp index (KVKey kv) (KVValue kv)))
        \<union> (\<Union>k \<in> set (Deletes u). entrySet jp index k (valueOf db n k))"
    using removeDuplicate_sets[OF es(2)] existing_entries[OF es(1)] existing_entries[OF es(3)] new_entries[of jp "Writes u" index]
    by simp_all
qed

lemma index_follows_values:
  assumes "indexUpdatesForDB jp db n u = Inr ux" "GetIndexDefinition db n = Inr (Some d, md)" "DecodeIndexDef jp d = Inr index"
    and "distinct (touched u)" "DecodeJSON jp [] = None"
  shows "(indexOf jp index (valueOf db n) \<union> indexWrites ux) - indexDeletes ux
    = indexOf jp index (updatedValue u (valueOf db n))"
proof -
  note sets = indexUpdatesForDB_sets[OF assms(1-3)]
  note upd = updatedValue_cases[OF assms(4), of _ "valueOf db n"]
  let ?E = "entrySet jp index" and ?g = "valueOf db n"
  have dis: "e \<in> ?E k v \<Longrightarrow> e \<in> ?E k' v' \<Longrightarrow> k = k'" for e k v k' v'
    using entrySet_disjoint[of k k' jp index v v'] by blast
  have dist: "KVKey ` set (Writes u) \<inter> set (Deletes u) = {}" "distinct (map KVKey (Writes u))"
    using assms(4) by (auto simp: touched_def)
  have mem: "e \<in> indexOf jp index f \<longleftrightarrow> e \<in> ?E k (f k)" if "e \<in> ?E k v" for e k v f
    using that dis unfolding indexOf_def by blast
  show ?thesis
  proof (intro set_eqI)
    fix e
    show "e \<in> (indexOf jp index ?g \<union> indexWrites ux) - indexDeletes ux \<longleftrightarrow> e \<in> indexOf jp index (updatedValue u ?g)"
    proof (cases "\<exists>k v. e \<in> ?E k v")
      case False
      then have "e \<notin> ?E k v" for k v
        by blast
      then show ?thesis
        unfolding sets indexOf_def by simp
    next
      case True
      then obtain k v where k: "e \<in> ?E k v"
        by blast
      have old: "e \<in> (\<Union>k' \<in> S. ?E k' (?g k')) \<longleftrightarrow> k \<in> S \<and> e \<in> ?E k (?g k)" for S
        using dis[OF k] by auto
      have new: "e \<in> (\<Union>kv \<in> set (Writes u). ?E (KVKey kv) (KVValue kv)) \<longleftrightarrow>
          (\<exists>kv \<in> set (Writes u). KVKey kv = k \<and> e \<in> ?E k (KVValue kv))"
        using dis[OF k] by auto
      have goal: "e \<in> (indexOf jp index ?g \<union> indexWrites ux) - indexDeletes ux \<longleftrightarrow>
          (e \<in> ?E k (?g k) \<or> (\<exists>kv \<in> set (Writes u). KVKey kv = k \<and> e \<in> ?E k (KVValue kv)))
          \<and> \<not> (k \<in> KVKey ` set (Writes u) \<and> e \<in> ?E k (?g k)
              \<and> \<not> (\<exists>kv \<in> set (Writes u). KVKey kv = k \<and> e \<in> ?E k (KVValue kv)))
          \<and> \<not> (k \<in> set (Deletes u) \<and> e \<in> ?E k (?g k))"
        unfolding sets Diff_iff Un_iff mem[OF k] old new by blast
      consider kv where "kv \<in> set (Writes u)" "KVKey kv = k" | "k \<in> set (Deletes u)" | "k \<notin> set (touched u)"
        by (auto simp: touched_def)
      then show ?thesis
      proof cases
        case 1
        then have "k \<notin> set (Deletes u)" "(\<exists>kv \<in> set (Writes u). KVKey kv = k \<and> e \<in> ?E k (KVValue kv)) \<longleftrightarrow> e \<in> ?E k (KVValue kv)"
          using dist by (auto simp: distinct_map inj_on_def)
        then show ?thesis
          unfolding goal mem[OF k] using 1 upd(1)[OF 1(1)] by auto
      next
        case 2
        then have "\<not> (\<exists>kv \<in> set (Writes u). KVKey kv = k \<and> e \<in> ?E k (KVValue kv))"
          using dist(1) by blast
        then show ?thesis
          unfolding goal mem[OF k] using 2 upd(2)[OF 2] entrySet_absent[OF assms(5)] by simp
      next
        case 3
        then have "\<not> (\<exists>kv \<in> set (Writes u). KVKey kv = k \<and> e \<in> ?E k (KVValue kv))" "k \<notin> KVKey ` set (Writes u)"
            "k \<notin> set (Deletes u)"
          by (auto simp: touched_def)
        then show ?thesis
          unfolding goal mem[OF k] using upd(3)[OF 3] by auto
      qed
    qed
  qed
qed

text \<open>What the whole construction says about one database.\<close>

lemma IndexDB_inj: "IndexDB a = IndexDB b \<longleftrightarrow> a = b"
  by (simp add: IndexDB_def)

lemma indexLoop_lookup:
  assumes "indexLoop jp db ups acc = Inr ix" "distinct (map fst ups)" "(n, u) \<in> set ups"
    and "\<forall>m \<in> fst ` set ups. map_of acc (IndexDB m) = None"
  shows "indexUpdatesForDB jp db n u = Inr (map_of ix (IndexDB n))"
proof -
  have keep: "indexLoop jp db ups acc = Inr ix \<Longrightarrow> n \<notin> fst ` set ups \<Longrightarrow> map_of ix (IndexDB n) = map_of acc (IndexDB n)" for ups acc
    by (induction jp db ups acc rule: indexLoop.induct) (auto simp: rbind_Inr_iff IndexDB_inj split: option.splits)
  show ?thesis
    using assms
  proof (induction ups arbitrary: acc)
    case (Cons p ups)
    obtain m v where p: "p = (m, v)"
      by (cases p)
    from Cons.prems(1) obtain w where w: "indexUpdatesForDB jp db m v = Inr w"
        "indexLoop jp db ups (case w of None \<Rightarrow> acc | Some d \<Rightarrow> gomap_put acc (IndexDB m) d) = Inr ix"
      unfolding p by (auto simp: rbind_Inr_iff)
    show ?case
    proof (cases "n = m")
      case True
      then have "n \<notin> fst ` set ups" "u = v"
        using Cons.prems(2,3) p by (force)+
      moreover have "map_of acc (IndexDB n) = None"
        using Cons.prems(4) p True by simp
      ultimately show ?thesis
        using w(1) keep[OF w(2)] True by (cases w) (auto simp: IndexDB_inj)
    next
      case False
      then have "(n, u) \<in> set ups" "distinct (map fst ups)"
        using Cons.prems(2,3) p by auto
      moreover have "\<forall>m' \<in> fst ` set ups. map_of (case w of None \<Rightarrow> acc | Some d \<Rightarrow> gomap_put acc (IndexDB m) d) (IndexDB m') = None"
        using Cons.prems(2,4) p by (auto simp: IndexDB_inj split: option.splits)
      ultimately show ?thesis
        using Cons.IH[OF w(2)] by blast
    qed
  qed simp
qed

end
