(* ===== verification/Index_Properties.thy ===== *)
theory Index_Properties
  imports State_Index
begin

text \<open>
  Properties of the state index: the encoding of numbers in index keys keeps their order and can
  be read back, and the index database follows the values of the database it indexes.
\<close>

section \<open>A database with an index\<close>

definition idx_parsers :: json_parsers where
  "idx_parsers = \<lparr>
     DecodeJSON = (\<lambda>b. case b of
        [n] \<Rightarrow> Some (JObject [(''age'', JNumber ''7''), (''name'', JString (if n = 6 then ''alice'' else ''bob''))])
      | _ \<Rightarrow> None),
     DecodeIndexDef = (\<lambda>b. Inr [(''name'', STRING)])\<rparr>"

definition idx_db :: DB where
  "idx_db = \<lparr>Exist = (\<lambda>n. n = ''bdb''), ListDBs = [''bdb''],
     DB_Get = (\<lambda>d k. if k = ''k1'' then Inr (Some [5], None) else if k = ''k2'' then Inr (Some [7], None) else Inr (None, None)),
     GetVersion = (\<lambda>d k. Inr None), GetACL = (\<lambda>d k. Inr None), Has = (\<lambda>d k. Inr True), GetConfig = Inl LdbErrNotFound,
     GetIndexDefinition = (\<lambda>d. if d = ''bdb'' then Inr (Some [0], None) else Inr (None, None)),
     GetIterator = (\<lambda>d a b. Inr []), DB_Height = Inr 2, ValidDBName = LevelDB_ValidDBName\<rparr>"

text \<open>The first key gets a new value, the second is deleted.\<close>

definition idx_update :: DBUpdates where
  "idx_update = \<lparr>Writes = [\<lparr>KVKey = ''k1'', KVValue = Some [6], KVMetadata = None\<rparr>], Deletes = [''k2'']\<rparr>"

section \<open>Properties\<close>

text \<open>
  C12. The text a 64-bit signed integer is encoded to in an index key: the byte order of the texts
  is the order of the numbers, for every pair of integers.
\<close>

theorem index_number_order: "EncodeInt64 m < EncodeInt64 n \<longleftrightarrow> m <s n"
  by (rule EncodeInt64_less)

text \<open>
  C13. Decoding the text of an encoded integer gives the integer back.
\<close>

theorem index_number_roundtrip: "decodeInt64 (EncodeInt64 n) = Inr n"
  by (rule decodeInt64_EncodeInt64)

text \<open>
  C14. For the updates of a block: the index database of every updated database with an index
  definition, which holds the entries of the values before the block, holds exactly the entries
  of the values after the block once the constructed index updates are applied.
\<close>

theorem index_database_follows:
  assumes "ConstructIndexEntries jp ups db = Inr ix" "wf_gomap ups" "(n, u) \<in> set ups" "distinct (touched u)"
    and "GetIndexDefinition db n = Inr (Some d, md)" "DecodeIndexDef jp d = Inr index" "DecodeJSON jp [] = None"
  shows "(indexOf jp index (valueOf db n) \<union> indexWrites (map_of ix (IndexDB n))) - indexDeletes (map_of ix (IndexDB n))
    = indexOf jp index (updatedValue u (valueOf db n))"
proof -
  have "indexUpdatesForDB jp db n u = Inr (map_of ix (IndexDB n))"
    using indexLoop_lookup[of jp db ups "[]" ix n u] assms(1-3) by (simp add: ConstructIndexEntries_def wf_gomap_def)
  from index_follows_values[OF this assms(5,6,4,7)] show ?thesis .
qed

theorem index_database_follows_witness:
  "\<exists>ix. ConstructIndexEntries idx_parsers [(''bdb'', idx_update)] idx_db = Inr ix
    \<and> indexWrites (map_of ix (IndexDB ''bdb'')) \<noteq> {} \<and> indexDeletes (map_of ix (IndexDB ''bdb'')) \<noteq> {}
    \<and> (indexOf idx_parsers [(''name'', STRING)] (valueOf idx_db ''bdb'') \<union> indexWrites (map_of ix (IndexDB ''bdb'')))
        - indexDeletes (map_of ix (IndexDB ''bdb''))
      = indexOf idx_parsers [(''name'', STRING)] (updatedValue idx_update (valueOf idx_db ''bdb''))"
proof -
  have ok: "case ConstructIndexEntries idx_parsers [(''bdb'', idx_update)] idx_db of Inl _ \<Rightarrow> False
      | Inr ix \<Rightarrow> (case map_of ix (IndexDB ''bdb'') of None \<Rightarrow> False | Some x \<Rightarrow> Writes x \<noteq> [] \<and> Deletes x \<noteq> [])"
    by code_simp
  then obtain ix where ix: "ConstructIndexEntries idx_parsers [(''bdb'', idx_update)] idx_db = Inr ix"
      "indexWrites (map_of ix (IndexDB ''bdb'')) \<noteq> {}" "indexDeletes (map_of ix (IndexDB ''bdb'')) \<noteq> {}"
    by (auto simp: indexWrites_def indexDeletes_def split: sum.splits option.splits)
  have "wf_gomap [(''bdb'', idx_update)]" "distinct (touched idx_update)"
    by (simp_all add: wf_gomap_def touched_def idx_update_def)
  moreover have "GetIndexDefinition idx_db ''bdb'' = Inr (Some [0], None)"
      "DecodeIndexDef idx_parsers [0] = Inr [(''name'', STRING)]" "DecodeJSON idx_parsers [] = None"
    by (simp_all add: idx_db_def idx_parsers_def)
  ultimately show ?thesis
    using ix index_database_follows[OF ix(1), of "''bdb''" idx_update "[0]" None "[(''name'', STRING)]"] by simp
qed

end
