(* ===== verification/Block_Encoding.thy ===== *)
theory Block_Encoding
  imports Byte_Order Varint
begin

text \<open>
  The keys of the block store, \<^verbatim>\<open>internal/blockstore/encoding.go\<close>, and the skip list links of a
  block header, \<^verbatim>\<open>CalculateSkipListLinks\<close> of \<^verbatim>\<open>commit_and_query.go\<close>. Shown: the byte order of
  encoded block numbers is the order of the numbers, decoding gives the number back, and the links
  of block \<open>n\<close> end, for every \<open>n\<close>, with the blocks \<open>n - 2 ^ i\<close> for which \<open>2 ^ i\<close> divides \<open>n - 1\<close>.
\<close>

section \<open>The varints of the protobuf library\<close>

text \<open>
  \<^verbatim>\<open>proto.EncodeVarint\<close> and \<^verbatim>\<open>proto.DecodeVarint\<close>. The second returns the number and how many bytes
  it took, zero bytes when there are not enough.
\<close>

record proto_varint =
  EncodeVarint :: "64 word \<Rightarrow> bytes"
  DecodeVarint :: "bytes \<Rightarrow> 64 word \<times> nat"

locale varint_format =
  fixes pv :: "'x proto_varint_scheme"
  assumes encode_varint: "EncodeVarint pv n = varint (unat n)"
    and decode_varint: "DecodeVarint pv (varint (unat n) @ r) = (n, length (varint (unat n)))"
    and decode_short: "unvarint b = None \<Longrightarrow> length b < MaxVarintLen64 \<Longrightarrow> snd (DecodeVarint pv b) = 0"

section \<open>Block numbers as keys\<close>

text \<open>
  \<^verbatim>\<open>encodeOrderPreservingVarUint64\<close>: the number of significant bytes, then these bytes. The size is at
  most 8, so its varint is one byte (\<open>size_byte\<close>) and the panic of the source is not reached.
\<close>

definition significantBytes :: "64 word \<Rightarrow> nat" where
  "significantBytes number = 8 - bytePosition 0 number"

definition bs_encodeOrderPreservingVarUint64 :: "'x proto_varint_scheme \<Rightarrow> 64 word \<Rightarrow> bytes" where
  "bs_encodeOrderPreservingVarUint64 pv number =
     (let sz = significantBytes number;
          sizeBytes = EncodeVarint pv (of_nat sz) in
      hd sizeBytes # drop (8 - sz) (bytesOf number))"

definition bs_decodeOrderPreservingVarUint64 :: "'x proto_varint_scheme \<Rightarrow> bytes \<Rightarrow> (64 word \<times> nat) res" where
  "bs_decodeOrderPreservingVarUint64 pv bs =
     (let (s, numBytes) = DecodeVarint pv bs in
      if numBytes \<noteq> 1 then
        Inl (Err (''number of consumed bytes from DecodeVarint is invalid, expected 1, but got '' @ dec numBytes))
      else if s > 8 then
        Inl (Err (''decoded size from DecodeVarint is invalid, expected <=8, but got '' @ dec (unat s)))
      else if unat s > length bs - 1 then
        Inl (Err (''decoded size ('' @ dec (unat s) @ '') from DecodeVarint is more than available bytes ('' @ dec (length bs - 1) @ '')''))
      else
        let sz = unat s;
            decodedBytes = replicate (8 - sz) 0 @ take sz (drop 1 bs) in
        Inr (of_nat (beValue decodedBytes), sz + 1))"

section \<open>Skip list links\<close>

definition SkipListBase :: "64 word" where "SkipListBase = 2"

partial_function (option) skipListHeight :: "64 word \<Rightarrow> 64 word option" where
  "skipListHeight blockNum =
     (if blockNum mod SkipListBase \<noteq> 0 then Some 1
      else Option.bind (skipListHeight (blockNum div SkipListBase)) (\<lambda>h. Some (1 + h)))"

text \<open>The loop of \<^verbatim>\<open>CalculateSkipListLinks\<close> with the iterations left.\<close>

fun skipLinks :: "nat \<Rightarrow> 64 word \<Rightarrow> 64 word \<Rightarrow> 64 word list" where
  "skipLinks 0 blockNum distance = []"
| "skipLinks (Suc k) blockNum distance = (blockNum - distance) # skipLinks k blockNum (distance * SkipListBase)"

definition CalculateSkipListLinks :: "64 word \<Rightarrow> 64 word list option" where
  "CalculateSkipListLinks blockNum =
     (if blockNum > 1 then
        Option.bind (skipListHeight (blockNum - 1)) (\<lambda>h. Some (skipLinks (unat h) blockNum 1))
      else Some [])"

section \<open>The order of keys\<close>

lemma significantBytes_le: "significantBytes n \<le> 8"
  by (simp add: significantBytes_def)

lemma beValue_zeros: "beValue (replicate k 0 @ bs) = beValue bs"
  by (induction k) simp_all

lemma beValue_significant: "beValue (drop (8 - significantBytes n) (bytesOf n)) = unat n"
proof -
  have "8 - significantBytes n = bytePosition 0 n"
    using bytePosition_le[of 0 n] by (simp add: significantBytes_def)
  then have "bytesOf n = replicate (bytePosition 0 n) 0 @ drop (8 - significantBytes n) (bytesOf n)"
    using bytePosition_split[of n 0] by simp
  then have "beValue (bytesOf n) = beValue (drop (8 - significantBytes n) (bytesOf n))"
    by (metis beValue_zeros)
  then show ?thesis
    by (simp add: beValue_bytesOf)
qed

lemma significantBytes_upper: "unat n < 256 ^ significantBytes n"
  using beValue_bound[of "drop (8 - significantBytes n) (bytesOf n)"] significantBytes_le[of n]
  by (simp add: beValue_significant)

lemma significantBytes_lower:
  assumes "0 < significantBytes n"
  shows "256 ^ (significantBytes n - 1) \<le> unat n"
proof -
  let ?p = "bytePosition 0 n"
  have p: "?p < 8" "8 - significantBytes n = ?p"
    using assms bytePosition_le[of 0 n] by (auto simp: significantBytes_def)
  have "drop ?p (bytesOf n) = bytesOf n ! ?p # drop (Suc ?p) (bytesOf n)"
    using p(1) by (intro Cons_nth_drop_Suc[symmetric]) simp
  then have "unat n = unat (bytesOf n ! ?p) * 256 ^ (7 - ?p) + beValue (drop (Suc ?p) (bytesOf n))"
    using beValue_significant[of n] p by simp
  moreover have "1 \<le> unat (bytesOf n ! ?p)"
    using bytePosition_hd[OF p(1)] by (metis One_nat_def Suc_leI bot_nat_0.not_eq_extremum unat_0 word_unat_eq_iff)
  then have "1 * 256 ^ (7 - ?p) \<le> unat (bytesOf n ! ?p) * 256 ^ (7 - ?p)"
    by (intro mult_right_mono) simp_all
  moreover have "significantBytes n - 1 = 7 - ?p"
    by (simp add: significantBytes_def)
  ultimately show ?thesis
    unfolding \<open>significantBytes n - 1 = 7 - ?p\<close> by linarith
qed

lemma significantBytes_mono: "significantBytes m < significantBytes n \<Longrightarrow> m < n"
proof -
  assume lt: "significantBytes m < significantBytes n"
  then have "(256 :: nat) ^ significantBytes m \<le> 256 ^ (significantBytes n - 1)"
    by (intro power_increasing) auto
  then show "m < n"
    unfolding word_less_nat_alt
    using significantBytes_upper[of m] significantBytes_lower[of n] lt by linarith
qed

context varint_format
begin

lemma size_byte: "k \<le> 8 \<Longrightarrow> EncodeVarint pv (of_nat k) = [of_nat k]"
  by (simp add: encode_varint unat_of_nat varint.simps[of k])

lemma encode_alt:
  "bs_encodeOrderPreservingVarUint64 pv n = of_nat (significantBytes n) # drop (8 - significantBytes n) (bytesOf n)"
  using size_byte[OF significantBytes_le[of n]] by (simp add: bs_encodeOrderPreservingVarUint64_def Let_def)

lemma encode_less: "bs_encodeOrderPreservingVarUint64 pv m < bs_encodeOrderPreservingVarUint64 pv n \<longleftrightarrow> m < n"
proof -
  let ?m = "significantBytes m" and ?n = "significantBytes n"
  have b: "unat (of_nat ?m :: byte) = ?m" "unat (of_nat ?n :: byte) = ?n"
    using significantBytes_le[of m] significantBytes_le[of n] by (simp_all add: unat_of_nat)
  have cmp: "bs_encodeOrderPreservingVarUint64 pv m < bs_encodeOrderPreservingVarUint64 pv n \<longleftrightarrow>
      ?m < ?n \<or> ?m = ?n \<and> drop (8 - ?m) (bytesOf m) < drop (8 - ?n) (bytesOf n)"
    unfolding encode_alt by (simp add: word_less_nat_alt word_unat_eq_iff b)
  show ?thesis
  proof (cases ?m ?n rule: linorder_cases)
    case equal
    then have "drop (8 - ?m) (bytesOf m) < drop (8 - ?n) (bytesOf n) \<longleftrightarrow> unat m < unat n"
      by (subst beValue_less_iff) (simp_all add: beValue_significant del: beValue_simps, metis beValue_significant)
    then show ?thesis
      using cmp equal by (simp add: word_less_nat_alt)
  qed (use cmp significantBytes_mono[of m n] significantBytes_mono[of n m] in auto)
qed

lemma encode_inj: "bs_encodeOrderPreservingVarUint64 pv m = bs_encodeOrderPreservingVarUint64 pv n \<longleftrightarrow> m = n"
  using encode_less[of m n] encode_less[of n m] by (metis less_irrefl neqE)

lemma decode_encode:
  "bs_decodeOrderPreservingVarUint64 pv (bs_encodeOrderPreservingVarUint64 pv n @ r) = Inr (n, significantBytes n + 1)"
proof -
  let ?k = "significantBytes n" and ?d = "drop (8 - significantBytes n) (bytesOf n)"
  have k: "?k \<le> 8" "unat (of_nat ?k :: 64 word) = ?k"
    using significantBytes_le[of n] by (simp_all add: unat_of_nat)
  have "varint (unat (of_nat ?k :: 64 word)) = [of_nat ?k]"
    using size_byte[OF k(1)] by (simp add: encode_varint)
  then have "DecodeVarint pv (of_nat ?k # ?d @ r) = (of_nat ?k, 1)"
    using decode_varint[of "of_nat ?k" "?d @ r"] by simp
  moreover have "\<not> (of_nat ?k > (8 :: 64 word))"
    using k by (simp add: word_less_nat_alt)
  moreover have "take ?k (?d @ r) = ?d"
    using k(1) by simp
  ultimately show ?thesis
    using k by (simp add: encode_alt bs_decodeOrderPreservingVarUint64_def Let_def beValue_zeros beValue_significant)
qed

end

section \<open>The links of a block\<close>

lemma skipListHeight_pow:
  "\<not> 2 ^ Suc k dvd unat n \<Longrightarrow> 2 ^ k dvd unat n \<Longrightarrow> skipListHeight n = Some (of_nat (Suc k))"
proof (induction k arbitrary: n)
  case 0
  then have "unat (n mod 2) \<noteq> 0"
    by (simp add: unat_mod even_iff_mod_2_eq_zero)
  then have "n mod SkipListBase \<noteq> 0"
    unfolding SkipListBase_def by (metis unat_0)
  then show ?case
    by (subst skipListHeight.simps) simp
next
  case (Suc k)
  have "unat (n mod 2) = 0"
    using Suc.prems(2) by (simp add: unat_mod) (metis dvd_mult_left even_iff_mod_2_eq_zero power_Suc)
  then have "n mod SkipListBase = 0"
    unfolding SkipListBase_def by (metis unat_0 word_unat_eq_iff)
  moreover have "unat (n div SkipListBase) = unat n div 2"
    by (simp add: SkipListBase_def unat_div)
  then have "\<not> 2 ^ Suc k dvd unat (n div SkipListBase)" "2 ^ k dvd unat (n div SkipListBase)"
    using Suc.prems by (auto elim!: dvdE)
  then have "skipListHeight (n div SkipListBase) = Some (of_nat (Suc k))"
    by (rule Suc.IH)
  ultimately show ?case
    by (subst skipListHeight.simps) simp
qed

text \<open>The largest power of two that divides a number.\<close>

lemma pow_dividing:
  assumes "0 < (n :: nat)"
  obtains k where "2 ^ k dvd n" "\<not> 2 ^ Suc k dvd n" "2 ^ k \<le> n"
proof -
  have "2 ^ n > n"
    by simp
  then have "\<not> 2 ^ n dvd n"
    using assms by (meson dvd_imp_le leD)
  then obtain k where "\<not> 2 ^ Suc k dvd n" "2 ^ k dvd n"
    using ex_least_nat_le[of "\<lambda>k. \<not> 2 ^ k dvd n" n] by (metis Suc_diff_1 bot_nat_0.not_eq_extremum diff_less less_one one_dvd power_0 zero_less_one)
  then show ?thesis
    using that assms by (meson dvd_imp_le)
qed

lemma skipLinks_unat:
  "2 ^ (j + k) \<le> 2 * unat n \<Longrightarrow> 2 ^ (j + k) \<le> (2 :: nat) ^ 64 \<Longrightarrow>
   map unat (skipLinks k n (of_nat (2 ^ j))) = map (\<lambda>i. unat n - 2 ^ i) [j..<j + k]"
proof (induction k arbitrary: j)
  case (Suc k)
  have le: "2 ^ (j + k) \<le> unat n" "2 ^ j \<le> (2 :: nat) ^ (j + k)"
    using Suc.prems(1) by simp_all
  have u: "unat (of_nat (2 ^ j) :: 64 word) = 2 ^ j"
    using le unsigned_less[of n, where 'a = nat] less_le_trans unfolding unat_of_nat by (intro mod_less) linarith
  then have "of_nat (2 ^ j) \<le> n"
    unfolding word_le_nat_alt u using le by linarith
  then have hd: "unat (n - of_nat (2 ^ j)) = unat n - 2 ^ j"
    using u by (simp add: unat_sub del: of_nat_power)
  have "of_nat (2 ^ j) * SkipListBase = of_nat (2 ^ Suc j)"
    by (simp add: SkipListBase_def)
  moreover have "map unat (skipLinks k n (of_nat (2 ^ Suc j))) = map (\<lambda>i. unat n - 2 ^ i) [Suc j..<Suc j + k]"
    using Suc.prems by (intro Suc.IH) simp_all
  moreover have "[j..<j + Suc k] = j # [Suc j..<Suc j + k]"
    by (simp add: upt_rec)
  ultimately show ?case
    using hd by (simp del: of_nat_power)
qed simp

lemma CalculateSkipListLinks_eq:
  assumes "1 < n"
  obtains ls k where "CalculateSkipListLinks n = Some ls" "2 ^ k dvd unat n - 1" "\<not> 2 ^ Suc k dvd unat n - 1"
    "2 ^ k \<le> unat n - 1" "map unat ls = map (\<lambda>i. unat n - 2 ^ i) [0..<Suc k]"
proof -
  have n: "unat (n - 1) = unat n - 1" "0 < unat n - 1"
    using assms by (simp_all add: unat_sub word_le_nat_alt word_less_nat_alt)
  obtain k where k: "2 ^ k dvd unat n - 1" "\<not> 2 ^ Suc k dvd unat n - 1" "2 ^ k \<le> unat n - 1"
    by (rule pow_dividing[OF n(2)]) (rule that)
  have "(2 :: nat) ^ k < 2 ^ 64"
    using k(3) unsigned_less[of n, where 'a = nat] by simp
  then have "k < 64"
    using power_strict_increasing_iff[of "2 :: nat" k 64] by simp
  then have u: "unat (of_nat (Suc k) :: 64 word) = Suc k"
    unfolding unat_of_nat by (intro mod_less) simp
  have h: "skipListHeight (n - 1) = Some (of_nat (Suc k))"
    using skipListHeight_pow[of k "n - 1"] k n by simp
  have "CalculateSkipListLinks n = Some (skipLinks (Suc k) n 1)"
    unfolding CalculateSkipListLinks_def h using assms u by (simp del: of_nat_Suc)
  moreover have "(2 :: nat) ^ Suc k \<le> 2 ^ 64"
    using \<open>k < 64\<close> by (intro power_increasing) simp_all
  then have "map unat (skipLinks (Suc k) n (of_nat (2 ^ 0))) = map (\<lambda>i. unat n - 2 ^ i) [0..<0 + Suc k]"
    using k(3) by (intro skipLinks_unat) simp_all
  ultimately show ?thesis
    using that k by simp
qed

text \<open>The recursion of the height has no value at zero, where the loop never calls it.\<close>

lemma skipListHeight_zero: "skipListHeight 0 = None"
proof -
  have "n \<noteq> 0" if "skipListHeight n = Some h" for n h
    by (rule skipListHeight.raw_induct[OF _ that])
      (fastforce simp: SkipListBase_def bind_eq_Some_conv split: if_splits)
  then show ?thesis
    by (metis option.exhaust)
qed

end
