(* ===== verification/Block_Files.thy ===== *)
theory Block_Files
  imports Varint
begin

text \<open>
  Files as the block store uses them: a directory of chunk files, an open file with the position at
  which the next read or write takes place, and the buffered reader of \<^verbatim>\<open>bufio\<close>, which reads ahead
  of what its client consumes. The failures of the operating system are a parameter.
\<close>

section \<open>The operating system\<close>

text \<open>
  Which calls fail. A failing write reports how many bytes it wrote before the failure.
\<close>

record io =
  ioExists :: "string \<Rightarrow> go_error option"
  ioOpen :: "string \<Rightarrow> go_error option"
  ioClose :: "string \<Rightarrow> go_error option"
  ioStat :: "string \<Rightarrow> go_error option"
  ioRead :: "string \<Rightarrow> go_error option"
  ioWrite :: "string \<Rightarrow> nat \<Rightarrow> bytes \<Rightarrow> (nat \<times> go_error) option"
  ioTruncate :: "string \<Rightarrow> nat \<Rightarrow> go_error option"
  ioRemove :: "string \<Rightarrow> go_error option"
  ioReadDir :: "go_error option"

definition fault :: "go_error option \<Rightarrow> unit res" where
  "fault e = (case e of None \<Rightarrow> Inr () | Some e \<Rightarrow> Inl e)"

lemma fault_simps [simp, go_simps]: "fault None = Inr ()" "fault (Some e) = Inl e"
  by (simp_all add: fault_def)

lemma fault_Inr_iff [simp]: "fault e = Inr u \<longleftrightarrow> e = None"
  by (cases e) auto

text \<open>Writing at a position replaces what is there and extends the file; a gap is filled with zeros.\<close>

definition writeAt :: "bytes \<Rightarrow> nat \<Rightarrow> bytes \<Rightarrow> bytes" where
  "writeAt f p c = take p f @ replicate (p - length f) 0 @ c @ drop (p + length c) f"

lemma writeAt_end [simp]: "writeAt f (length f) c = f @ c"
  by (simp add: writeAt_def)

lemma length_writeAt: "length (writeAt f p c) = max (length f) (p + length c)"
  by (simp add: writeAt_def)

lemma writeAt_inside: "p + length c \<le> length f \<Longrightarrow> length (writeAt f p c) = length f"
  by (simp add: length_writeAt)

section \<open>Buffered reading\<close>

definition bufSize :: nat where "bufSize = 4096"

record reader =
  rdBuf :: bytes
  rdPos :: nat

definition NewReader :: "nat \<Rightarrow> reader" where
  "NewReader pos = \<lparr>rdBuf = [], rdPos = pos\<rparr>"

definition fill :: "bytes \<Rightarrow> reader \<Rightarrow> reader" where
  "fill f r = (let c = take bufSize (drop (rdPos r) f) in \<lparr>rdBuf = c, rdPos = rdPos r + length c\<rparr>)"

definition ReadByte :: "bytes \<Rightarrow> reader \<Rightarrow> reader \<times> byte res" where
  "ReadByte f r =
     (let r' = (if rdBuf r = [] then fill f r else r) in
      case rdBuf r' of [] \<Rightarrow> (r', Inl (Err ''EOF'')) | b # bs \<Rightarrow> (r'\<lparr>rdBuf := bs\<rparr>, Inr b))"

text \<open>\<^verbatim>\<open>binary.ReadUvarint\<close> on a buffered reader.\<close>

function uvarintLoop :: "bytes \<Rightarrow> nat \<Rightarrow> nat \<Rightarrow> reader \<Rightarrow> reader \<times> 64 word res" where
  "uvarintLoop f i x r =
     (if i \<ge> MaxVarintLen64 then (r, Inl (Err ''binary: varint overflows a 64-bit integer''))
      else sbind (ReadByte f r) (\<lambda>r b.
        if unat b < 128 then
          (if i = 9 \<and> unat b > 1 then (r, Inl (Err ''binary: varint overflows a 64-bit integer''))
           else (r, Inr (of_nat (x + unat b * 128 ^ i))))
        else uvarintLoop f (Suc i) (x + (unat b - 128) * 128 ^ i) r))"
  by pat_completeness auto
termination
  by (relation "measure (\<lambda>(f, i, x, r). MaxVarintLen64 - i)") (auto simp: MaxVarintLen64_def)

declare uvarintLoop.simps [simp del]

definition readUvarintFrom :: "bytes \<Rightarrow> reader \<Rightarrow> reader \<times> 64 word res" where
  "readUvarintFrom f r = uvarintLoop f 0 0 r"

text \<open>
  \<^verbatim>\<open>io.ReadFull\<close>: buffered bytes first; with an empty buffer a large rest is read directly, a small
  one by filling the buffer.
\<close>

function ReadFull :: "bytes \<Rightarrow> nat \<Rightarrow> reader \<Rightarrow> reader \<times> bytes res" where
  "ReadFull f n r =
     (if n = 0 then (r, Inr [])
      else if rdBuf r \<noteq> [] then
        let c = take n (rdBuf r) in
        sbind (ReadFull f (n - length c) (r\<lparr>rdBuf := drop n (rdBuf r)\<rparr>)) (\<lambda>r bs. (r, Inr (c @ bs)))
      else if n \<ge> bufSize then
        let c = take n (drop (rdPos r) f) in
        if c = [] then (r, Inl (Err ''EOF''))
        else sbind (ReadFull f (n - length c) (r\<lparr>rdPos := rdPos r + length c\<rparr>)) (\<lambda>r bs. (r, Inr (c @ bs)))
      else
        if rdBuf (fill f r) = [] then (fill f r, Inl (Err ''EOF'')) else ReadFull f n (fill f r))"
  by pat_completeness auto
termination
proof (relation "measures [\<lambda>(f, n, r). n, \<lambda>(f, n, r). if rdBuf r = [] then 1 else 0]", goal_cases)
  case (2 f n r c)
  then have "0 < length c"
    by (cases "rdBuf r") simp_all
  then show ?case
    using 2 by simp
next
  case (3 f n r c)
  then have "0 < length c"
    by simp
  then show ?case
    using 3 by simp
qed auto

declare ReadFull.simps [simp del]

text \<open>The bytes a reader will deliver.\<close>

definition pending :: "bytes \<Rightarrow> reader \<Rightarrow> bytes" where
  "pending f r = rdBuf r @ drop (rdPos r) f"

definition wf_reader :: "bytes \<Rightarrow> reader \<Rightarrow> bool" where
  "wf_reader f r \<longleftrightarrow> rdPos r \<le> length f \<and> length (rdBuf r) \<le> bufSize"

lemma wf_NewReader [simp]: "wf_reader f (NewReader p) \<longleftrightarrow> p \<le> length f"
  by (simp add: wf_reader_def NewReader_def)

lemma pending_NewReader [simp]: "pending f (NewReader p) = drop p f"
  by (simp add: pending_def NewReader_def)

lemma fill_facts:
  assumes "wf_reader f r" "rdBuf r = []"
  shows "pending f (fill f r) = pending f r" "wf_reader f (fill f r)" "rdBuf (fill f r) = [] \<longleftrightarrow> pending f r = []"
proof -
  have "take k (drop p f) @ drop (p + length (take k (drop p f))) f = drop p f" for k p
    by (metis append_take_drop_id drop_drop add.commute length_take min_def drop_all append_Nil2 length_drop nat_le_linear take_all_iff)
  then show "pending f (fill f r) = pending f r"
    using assms by (simp add: pending_def fill_def Let_def)
  show "wf_reader f (fill f r)"
    using assms by (auto simp: wf_reader_def fill_def Let_def)
  show "rdBuf (fill f r) = [] \<longleftrightarrow> pending f r = []"
    using assms by (simp add: pending_def fill_def Let_def bufSize_def)
qed

lemma ReadByte_facts:
  assumes "wf_reader f r"
  shows "pending f r = [] \<Longrightarrow> snd (ReadByte f r) = Inl (Err ''EOF'')"
    and "pending f r = b # bs \<Longrightarrow> \<exists>r'. ReadByte f r = (r', Inr b) \<and> wf_reader f r' \<and> pending f r' = bs"
proof -
  let ?r = "if rdBuf r = [] then fill f r else r"
  have r: "pending f ?r = pending f r" "wf_reader f ?r" "rdBuf ?r = [] \<longleftrightarrow> pending f r = []"
    using fill_facts[OF assms] assms by (auto simp: pending_def)
  show "snd (ReadByte f r) = Inl (Err ''EOF'')" if "pending f r = []"
    using that r(3) by (simp add: ReadByte_def Let_def)
  show "\<exists>r'. ReadByte f r = (r', Inr b) \<and> wf_reader f r' \<and> pending f r' = bs" if p: "pending f r = b # bs"
  proof -
    obtain y ys where y: "rdBuf ?r = y # ys"
      using p r(3) by (cases "rdBuf ?r") auto
    then have "y = b" "ys @ drop (rdPos ?r) f = bs"
      using r(1) p by (auto simp: pending_def)
    moreover have "wf_reader f (?r\<lparr>rdBuf := ys\<rparr>)"
      using r(2) y by (auto simp: wf_reader_def)
    ultimately show ?thesis
      using y by (auto simp: ReadByte_def Let_def pending_def)
  qed
qed

text \<open>Reading a length from the stream agrees with reading it from a list of bytes.\<close>

lemma uvarintLoop_varint:
  assumes "i \<le> 9" "n < 2 ^ (64 - 7 * i)" "wf_reader f r" "pending f r = varint n @ rest"
  shows "\<exists>r'. uvarintLoop f i x r = (r', Inr (of_nat (x + n * 128 ^ i))) \<and> wf_reader f r' \<and> pending f r' = rest"
proof -
  have "\<exists>r'. uvarintLoop f i x r = (r', readUvarint i x (pending f r)) \<and>
      (\<forall>v. readUvarint i x (pending f r) = Inr v \<longrightarrow> wf_reader f r' \<and>
         (\<exists>bs. pending f r = bs @ pending f r' \<and> unvarint (pending f r) = Some (k, pending f r')))"
    if "wf_reader f r" "unvarint (pending f r) = Some (k, rest)" for i x r k rest
    using that
  proof (induction "pending f r" arbitrary: i x r k)
    case (Cons b bs)
    obtain r' where r': "ReadByte f r = (r', Inr b)" "wf_reader f r'" "pending f r' = bs"
      using ReadByte_facts(2)[OF Cons.prems(1) Cons.hyps(2)[symmetric]] by blast
    show ?case
    proof (cases "unat b < 128")
      case True
      then show ?thesis
        using r' Cons.hyps(2)[symmetric] Cons.prems(2)
        by (subst uvarintLoop.simps) (auto intro!: exI[of _ r'])
    next
      case False
      then obtain k' where k': "unvarint (pending f r') = Some (k', rest)" "k = unat b - 128 + 128 * k'"
        using Cons.prems(2) Cons.hyps(2)[symmetric] r'(3) by (auto split: option.splits)
      show ?thesis
        using Cons.hyps(1)[OF r'(3)[symmetric] r'(2) k'(1), of "Suc i" "x + (unat b - 128) * 128 ^ i"] False r' k' Cons.hyps(2)[symmetric]
        by (subst uvarintLoop.simps) (auto 4 3)
    qed
  qed simp
  from this[OF assms(3), of n rest i x] show ?thesis
    using readUvarint_varint[OF assms(1,2), of x rest] assms(4) by (auto simp: unvarint_varint)
qed

lemma readUvarintFrom_varint:
  assumes "wf_reader f r" "pending f r = varint (unat n) @ rest"
  shows "\<exists>r'. readUvarintFrom f r = (r', Inr n) \<and> wf_reader f r' \<and> pending f r' = rest"
proof -
  have "unat n < 2 ^ (64 - 7 * 0)"
    using unsigned_less[of n, where 'a = nat] by simp
  from uvarintLoop_varint[OF _ this assms, of 0] show ?thesis
    by (simp add: readUvarintFrom_def)
qed

lemma readUvarintFrom_eof:
  assumes "wf_reader f r" "pending f r = []"
  shows "\<exists>r'. readUvarintFrom f r = (r', Inl (Err ''EOF''))"
proof -
  obtain r' where "ReadByte f r = (r', Inl (Err ''EOF''))"
    using ReadByte_facts(1)[OF assms] by (metis prod.collapse)
  then show ?thesis
    unfolding readUvarintFrom_def by (subst uvarintLoop.simps) (simp add: MaxVarintLen64_def)
qed

lemma ReadFull_facts:
  assumes "wf_reader f r" "n \<le> length (pending f r)"
  shows "\<exists>r'. ReadFull f n r = (r', Inr (take n (pending f r))) \<and> wf_reader f r' \<and> pending f r' = drop n (pending f r)"
  using assms
proof (induction f n r rule: ReadFull.induct)
  case (1 f n r)
  note IH = "1.IH"
  consider "n = 0" | "n \<noteq> 0" "rdBuf r \<noteq> []" | "n \<noteq> 0" "rdBuf r = []" "n \<ge> bufSize" | "n \<noteq> 0" "rdBuf r = []" "n < bufSize"
    by linarith
  then show ?case
  proof cases
    case 1
    then show ?thesis
      using "1.prems" by (subst ReadFull.simps) simp
  next
    case 2
    let ?r = "r\<lparr>rdBuf := drop n (rdBuf r)\<rparr>" and ?k = "n - length (take n (rdBuf r))"
    have p: "pending f ?r = drop (length (take n (rdBuf r))) (pending f r)" "wf_reader f ?r"
      using "1.prems"(1) by (auto simp: pending_def wf_reader_def min_def)
    then have "?k \<le> length (pending f ?r)"
      using "1.prems"(2) by simp
    from IH(1)[OF 2 refl p(2) this] obtain r' where r': "ReadFull f ?k ?r = (r', Inr (take ?k (pending f ?r)))"
        "wf_reader f r'" "pending f r' = drop ?k (pending f ?r)"
      by blast
    have "take n (rdBuf r) @ take ?k (pending f ?r) = take n (pending f r)"
      by (cases "n \<le> length (rdBuf r)") (simp_all add: pending_def)
    moreover have "drop ?k (pending f ?r) = drop n (pending f r)"
      unfolding p(1) by simp
    ultimately show ?thesis
      using 2 r' by (subst ReadFull.simps) (simp add: Let_def)
  next
    case 3
    let ?c = "take n (drop (rdPos r) f)"
    let ?r = "r\<lparr>rdPos := rdPos r + length ?c\<rparr>" and ?k = "n - length ?c"
    have pr: "pending f r = drop (rdPos r) f"
      using 3 by (simp add: pending_def)
    then have k: "length ?c = n" "?c \<noteq> []"
      using "1.prems"(2) 3 by auto
    then have p: "pending f ?r = drop n (pending f r)" "wf_reader f ?r"
      using "1.prems" 3 pr by (auto simp: pending_def wf_reader_def add.commute)
    show ?thesis
      using 3 k p pr by (subst ReadFull.simps, simp add: Let_def) (subst ReadFull.simps, simp)
  next
    case 4
    note ff = fill_facts[OF "1.prems"(1) 4(2)]
    have ne: "rdBuf (fill f r) \<noteq> []"
      using ff(3) "1.prems"(2) 4(1) by auto
    have "ReadFull f n r = ReadFull f n (fill f r)"
      using 4 ne by (subst ReadFull.simps) simp
    then show ?thesis
      using IH(3)[OF 4(1)] 4 ne ff "1.prems"(2) by simp
  qed
qed

lemma ReadFull_short:
  assumes "wf_reader f r" "length (pending f r) < n"
  shows "\<exists>r'. ReadFull f n r = (r', Inl (Err ''EOF''))"
  using assms
proof (induction f n r rule: ReadFull.induct)
  case (1 f n r)
  note IH = "1.IH"
  consider "rdBuf r \<noteq> []" | "rdBuf r = []" "n \<ge> bufSize" | "rdBuf r = []" "n < bufSize"
    by linarith
  then show ?case
  proof cases
    case 1
    let ?r = "r\<lparr>rdBuf := drop n (rdBuf r)\<rparr>" and ?k = "n - length (take n (rdBuf r))"
    have "wf_reader f ?r" "length (pending f ?r) < ?k"
      using "1.prems" by (auto simp: pending_def wf_reader_def)
    from IH(1)[OF _ 1 refl this] show ?thesis
      using 1 "1.prems"(2) by (subst ReadFull.simps) (auto simp: Let_def)
  next
    case 2
    let ?c = "take n (drop (rdPos r) f)"
    let ?r = "r\<lparr>rdPos := rdPos r + length ?c\<rparr>" and ?k = "n - length ?c"
    have "?c \<noteq> [] \<Longrightarrow> wf_reader f ?r" "?c \<noteq> [] \<Longrightarrow> length (pending f ?r) < ?k"
      using "1.prems" 2(1) by (auto simp: pending_def wf_reader_def)
    then show ?thesis
      using IH(2)[OF _ _ 2(2) refl] 2 "1.prems"(2) by (subst ReadFull.simps) (auto simp: Let_def)
  next
    case 3
    note ff = fill_facts[OF "1.prems"(1) 3(1)]
    show ?thesis
      using IH(3) 3 ff "1.prems"(2) by (subst ReadFull.simps) (auto simp: Let_def)
  qed
qed

text \<open>
  Where the reads leave the file: past what was consumed, by no more than a buffer, and at the end
  of the file when everything was consumed.
\<close>

lemma reader_position:
  assumes "wf_reader f r" "pending f r = drop e f" "e \<le> length f"
  shows "e \<le> rdPos r" "rdPos r \<le> e + bufSize" "rdPos r \<le> length f" "e = length f \<Longrightarrow> rdPos r = length f"
proof -
  have "length (rdBuf r) + (length f - rdPos r) = length f - e"
    using arg_cong[OF assms(2), of length] by (simp add: pending_def)
  then show "e \<le> rdPos r" "rdPos r \<le> e + bufSize" "rdPos r \<le> length f" "e = length f \<Longrightarrow> rdPos r = length f"
    using assms(1,3) by (auto simp: wf_reader_def)
qed

end
