(* ===== verification/Block_Store.thy ===== *)
theory Block_Store
  imports Block_Encoding Block_Files LevelDB Types Crypto_Hash
begin

text \<open>
  The block store, \<^verbatim>\<open>internal/blockstore\<close>: committing a block to the chunk files and the three metadata
  databases, and the queries by number, hash and transaction id. The open chunk file carries its
  position, which reading a block moves. Serialisation and compression are parameters with the
  contract \<open>block_serialization\<close>.
\<close>

section \<open>Messages and parameters\<close>

record BlockLocation =
  FileChunkNum :: "64 word"
  Offset :: nat
  LLength :: nat

record TxInfo =
  TBlockNumber :: "64 word"
  TTxIndex :: "64 word"
  TValidation :: ValidationInfo

record block_codec = proto_varint +
  MarshalBlock :: "Block \<Rightarrow> bytes res"
  UnmarshalBlock :: "bytes \<Rightarrow> Block res"
  MarshalLocation :: "BlockLocation \<Rightarrow> bytes res"
  UnmarshalLocation :: "bytes \<Rightarrow> BlockLocation res"
  MarshalTxInfo :: "TxInfo \<Rightarrow> bytes res"
  UnmarshalTxInfo :: "bytes \<Rightarrow> TxInfo res"
  MarshalHeader :: "BlockHeader \<Rightarrow> bytes res"
  UnmarshalHeader :: "bytes \<Rightarrow> BlockHeader res"
  MarshalBaseHeader :: "BlockHeaderBase \<Rightarrow> bytes res"
  MarshalTxIDs :: "string list \<Rightarrow> bytes res"
  UnmarshalTxIDs :: "bytes \<Rightarrow> string list res"
  SnappyEncode :: "bytes \<Rightarrow> bytes"
  SnappyDecode :: "bytes \<Rightarrow> bytes res"

text \<open>What a store is opened on: the key-value files, the serialisations, the system, the hash.\<close>

record 'd store_env =
  seDB :: "'d ldb"
  seCodec :: block_codec
  seIO :: io
  seHash :: digest

record 'd Store =
  chunkDir :: "(string, bytes) gomap"
  filePos :: nat
  currentOffset :: nat
  currentChunkNum :: "64 word"
  lastCommittedBlockNum :: "64 word"
  blockIndexDB :: 'd
  blockHeaderDB :: 'd
  txValidationInfoDB :: 'd

definition chunkSizeLimit :: nat where "chunkSizeLimit = 64 * 1024 * 1024"

definition constructBlockFileChunkPath :: "64 word \<Rightarrow> string" where
  "constructBlockFileChunkPath chunkNum = ''chunk_'' @ dec (unat chunkNum)"

definition fileContent :: "(string, bytes) gomap \<Rightarrow> 64 word \<Rightarrow> bytes" where
  "fileContent dir n = (case map_of dir (constructBlockFileChunkPath n) of None \<Rightarrow> [] | Some f \<Rightarrow> f)"

abbreviation currentFile :: "'d Store \<Rightarrow> bytes" where
  "currentFile s \<equiv> fileContent (chunkDir s) (currentChunkNum s)"

section \<open>Keys\<close>

abbreviation headerBytesNs :: byte where "headerBytesNs \<equiv> 0"
abbreviation headerHashNs :: byte where "headerHashNs \<equiv> 1"
abbreviation headerHashToBlockNumNs :: byte where "headerHashToBlockNumNs \<equiv> 2"
abbreviation headerBaseHashNs :: byte where "headerBaseHashNs \<equiv> 3"
abbreviation blockTxsIDNs :: byte where "blockTxsIDNs \<equiv> 4"

abbreviation blockKey :: "'d store_env \<Rightarrow> 64 word \<Rightarrow> bytes" where
  "blockKey env n \<equiv> bs_encodeOrderPreservingVarUint64 (seCodec env) n"

definition constructHeaderBaseHashKey :: "'d store_env \<Rightarrow> 64 word \<Rightarrow> bytes" where
  "constructHeaderBaseHashKey env n = headerBaseHashNs # blockKey env n"

definition constructHeaderHashIndexKey :: "bytes \<Rightarrow> bytes" where
  "constructHeaderHashIndexKey hash = headerHashToBlockNumNs # hash"

definition constructHeaderBytesKey :: "'d store_env \<Rightarrow> 64 word \<Rightarrow> bytes" where
  "constructHeaderBytesKey env n = headerBytesNs # blockKey env n"

definition constructHeaderHashKey :: "'d store_env \<Rightarrow> 64 word \<Rightarrow> bytes" where
  "constructHeaderHashKey env n = headerHashNs # blockKey env n"

definition constructBlockTxsIDKey :: "'d store_env \<Rightarrow> 64 word \<Rightarrow> bytes" where
  "constructBlockTxsIDKey env n = blockTxsIDNs # blockKey env n"

section \<open>Transaction ids of a block\<close>

fun dataTxIDs :: "nat \<Rightarrow> DataTxEnvelope list \<Rightarrow> string list res" where
  "dataTxIDs i [] = Inr []"
| "dataTxIDs i (e # es) =
     (if DTxId (DPayload e) = [] then Inl (Err (''missing TxId in index ['' @ dec i @ '']''))
      else rbind (dataTxIDs (Suc i) es) (\<lambda>ids. Inr (DTxId (DPayload e) # ids)))"

definition oneTxID :: "string \<Rightarrow> string list res" where
  "oneTxID txid = (if txid = [] then Inl (Err ''missing TxId'') else Inr [txid])"

definition BlockPayloadToTxIDs :: "Payload option \<Rightarrow> string list res" where
  "BlockPayloadToTxIDs p = (case p of
     Some (Block_DataTxEnvelopes envs) \<Rightarrow>
       rbind (dataTxIDs 0 envs) (\<lambda>ids. if ids = [] then Inl (Err ''empty payload'') else Inr ids)
   | Some (Block_UserAdministrationTxEnvelope e) \<Rightarrow> oneTxID (UTxId (UPayload e))
   | Some (Block_ConfigTxEnvelope e) \<Rightarrow> oneTxID (CTxId (CPayload e))
   | Some (Block_DbAdministrationTxEnvelope e) \<Rightarrow> oneTxID (DATxId (DAPayload e))
   | None \<Rightarrow> Inl (Err ''unexpected envelope type''))"

definition IsConfigBlock :: "Block \<Rightarrow> bool" where
  "IsConfigBlock b = (case BPayload b of Some (Block_ConfigTxEnvelope _) \<Rightarrow> True | _ \<Rightarrow> False)"

section \<open>Chunk files\<close>

definition openFileChunk ::
  "'d store_env \<Rightarrow> (string, bytes) gomap \<Rightarrow> 64 word \<Rightarrow> (string, bytes) gomap \<times> unit res" where
  "openFileChunk env dir chunkNum =
     (let path = constructBlockFileChunkPath chunkNum in
      case ioOpen (seIO env) path of
        Some e \<Rightarrow> (dir, Inl (wrap_error ''error while opening the file chunk'' e))
      | None \<Rightarrow> (if has_key dir path then dir else gomap_put dir path [], Inr ()))"

definition canCurrentFileChunkHold :: "'d Store \<Rightarrow> nat \<Rightarrow> bool" where
  "canCurrentFileChunkHold s toBeAddedBytesLength \<longleftrightarrow> currentOffset s + toBeAddedBytesLength < chunkSizeLimit"

definition moveToNextFileChunk :: "'d store_env \<Rightarrow> 'd Store \<Rightarrow> 'd Store \<times> unit res" where
  "moveToNextFileChunk env s =
     (let (dir, r) = openFileChunk env (chunkDir s) (currentChunkNum s + 1);
          path = constructBlockFileChunkPath (currentChunkNum s) in
      case r of
        Inl e \<Rightarrow> (s\<lparr>chunkDir := dir\<rparr>, Inl e)
      | Inr _ \<Rightarrow>
          (case ioClose (seIO env) path of
             Some e \<Rightarrow> (s\<lparr>chunkDir := dir\<rparr>, Inl (wrap_error (''error while closing the file '' @ path) e))
           | None \<Rightarrow> (s\<lparr>chunkDir := dir, filePos := 0, currentChunkNum := currentChunkNum s + 1, currentOffset := 0\<rparr>, Inr ())))"

text \<open>\<^verbatim>\<open>fileops.Truncate\<close> on the current file: the size is set and the position moved there.\<close>

definition truncateCurrent :: "'d store_env \<Rightarrow> 'd Store \<Rightarrow> nat \<Rightarrow> 'd Store \<times> unit res" where
  "truncateCurrent env s toSize =
     (let path = constructBlockFileChunkPath (currentChunkNum s); f = currentFile s in
      case ioTruncate (seIO env) path toSize of
        Some e \<Rightarrow> (s, Inl e)
      | None \<Rightarrow> (s\<lparr>chunkDir := gomap_put (chunkDir s) path (take toSize f @ replicate (toSize - length f) 0), filePos := toSize\<rparr>, Inr ()))"

definition writeCurrent :: "'d Store \<Rightarrow> bytes \<Rightarrow> 'd Store" where
  "writeCurrent s c =
     s\<lparr>chunkDir := gomap_put (chunkDir s) (constructBlockFileChunkPath (currentChunkNum s)) (writeAt (currentFile s) (filePos s) c),
       filePos := filePos s + length c\<rparr>"

definition appendBlock :: "'d store_env \<Rightarrow> 'd Store \<Rightarrow> 64 word \<Rightarrow> bytes \<Rightarrow> 'd Store \<times> BlockLocation res" where
  "appendBlock env s number c =
     (let offsetBeforeWrite = currentOffset s;
          path = constructBlockFileChunkPath (currentChunkNum s) in
      case ioWrite (seIO env) path (filePos s) c of
        None \<Rightarrow>
          ((writeCurrent s c)\<lparr>currentOffset := currentOffset s + length c, lastCommittedBlockNum := number\<rparr>,
           Inr \<lparr>FileChunkNum = currentChunkNum s, Offset = offsetBeforeWrite, LLength = length c\<rparr>)
      | Some (n, e) \<Rightarrow>
          let s1 = writeCurrent s (take n c) in
          (if n > 0 then fst (truncateCurrent env s1 offsetBeforeWrite) else s1,
           Inl (wrap_error (''error while writing the block to currentFileChunk ['' @ path @ '']'') e)))"

section \<open>Metadata\<close>

definition storeIndexForBlock :: "'d store_env \<Rightarrow> 'd Store \<Rightarrow> 64 word \<Rightarrow> BlockLocation \<Rightarrow> 'd Store \<times> unit res" where
  "storeIndexForBlock env s number location =
     (case MarshalLocation (seCodec env) location of
        Inl e \<Rightarrow> (s, Inl (wrap_error ''error while marshaling BlockLocation'' e))
      | Inr v \<Rightarrow>
          let (d, r) = ldb_Write (seDB env) (blockIndexDB s) [BPut (blockKey env number) v] in
          (s\<lparr>blockIndexDB := d\<rparr>, r))"

text \<open>\<^verbatim>\<open>block.Header.ValidationInfo[i]\<close> panics out of range.\<close>

definition validationAt :: "Block \<Rightarrow> nat \<Rightarrow> ValidationInfo res" where
  "validationAt block i =
     (if i < length (HValidationInfo (Header block)) then Inr (HValidationInfo (Header block) ! i)
      else Inl (Panic ''index out of range''))"

fun txInfoBatch :: "'d store_env \<Rightarrow> Block \<Rightarrow> nat \<Rightarrow> DataTxEnvelope list \<Rightarrow> batch res" where
  "txInfoBatch env block txNum [] = Inr []"
| "txInfoBatch env block txNum (tx # txs) =
     rbind (validationAt block txNum) (\<lambda>vi.
     rbind (wrap (''error while marshaling TxInfo info of transaction '' @ dec txNum)
       (MarshalTxInfo (seCodec env) \<lparr>TBlockNumber = block_number block, TTxIndex = of_nat txNum, TValidation = vi\<rparr>)) (\<lambda>v.
     rbind (txInfoBatch env block (Suc txNum) txs) (\<lambda>b.
     Inr (BPut (bytes_of_string (DTxId (DPayload tx))) v # b))))"

definition nonDataTxBatch :: "'d store_env \<Rightarrow> Block \<Rightarrow> string \<Rightarrow> batch res" where
  "nonDataTxBatch env block txID =
     rbind (validationAt block 0) (\<lambda>vi.
     rbind (wrap ''error while marshaling validation info of non-data transaction''
       (MarshalTxInfo (seCodec env) \<lparr>TBlockNumber = block_number block, TTxIndex = 0, TValidation = vi\<rparr>)) (\<lambda>v.
     Inr [BPut (bytes_of_string txID) v]))"

definition validationBatch :: "'d store_env \<Rightarrow> Block \<Rightarrow> batch res" where
  "validationBatch env block = (case BPayload block of
     Some (Block_DataTxEnvelopes dataTxs) \<Rightarrow> txInfoBatch env block 0 dataTxs
   | Some (Block_ConfigTxEnvelope e) \<Rightarrow> nonDataTxBatch env block (CTxId (CPayload e))
   | Some (Block_DbAdministrationTxEnvelope e) \<Rightarrow> nonDataTxBatch env block (DATxId (DAPayload e))
   | Some (Block_UserAdministrationTxEnvelope e) \<Rightarrow> nonDataTxBatch env block (UTxId (UPayload e))
   | None \<Rightarrow> Inl (Err ''unknown block payload''))"

definition storeBlockValidationInfo :: "'d store_env \<Rightarrow> 'd Store \<Rightarrow> Block \<Rightarrow> 'd Store \<times> unit res" where
  "storeBlockValidationInfo env s block =
     (case validationBatch env block of
        Inl e \<Rightarrow> (s, Inl e)
      | Inr b \<Rightarrow> let (d, r) = ldb_Write (seDB env) (txValidationInfoDB s) b in (s\<lparr>txValidationInfoDB := d\<rparr>, r))"

definition headerBatch :: "'d store_env \<Rightarrow> Block \<Rightarrow> batch res" where
  "headerBatch env block =
     (let header = Header block; number = block_number block in
      rbind (wrap ''can't marshal block base header'' (MarshalBaseHeader (seCodec env) (BaseHeader header))) (\<lambda>blockHeaderBaseBytes.
      let blockHeaderBaseHash = seHash env blockHeaderBaseBytes in
      rbind (wrap ''can't marshal block header'' (MarshalHeader (seCodec env) header)) (\<lambda>blockHeaderBytes.
      let blockHash = seHash env blockHeaderBytes in
      rbind (wrap ''can't access block tx ids'' (BlockPayloadToTxIDs (BPayload block))) (\<lambda>txsID.
      rbind (wrap ''can't marshal block txs ids'' (MarshalTxIDs (seCodec env) txsID)) (\<lambda>txsIdBytes.
      Inr [BPut (constructHeaderBaseHashKey env number) blockHeaderBaseHash,
           BPut (constructHeaderHashKey env number) blockHash,
           BPut (constructHeaderBytesKey env number) blockHeaderBytes,
           BPut (constructHeaderHashIndexKey blockHash) (blockKey env number),
           BPut (constructBlockTxsIDKey env number) txsIdBytes])))))"

definition storeBlockHeaders :: "'d store_env \<Rightarrow> 'd Store \<Rightarrow> Block \<Rightarrow> 'd Store \<times> unit res" where
  "storeBlockHeaders env s block =
     (case headerBatch env block of
        Inl e \<Rightarrow> (s, Inl e)
      | Inr b \<Rightarrow> let (d, r) = ldb_Write (seDB env) (blockHeaderDB s) b in (s\<lparr>blockHeaderDB := d\<rparr>, r))"

text \<open>
  The three stores run concurrently on three databases and all are attempted; the first error that
  reached the channel is returned, here the first in the order of the source. A panic in one of the
  goroutines ends the process.
\<close>

definition panicked :: "'a res \<Rightarrow> bool" where
  "panicked r = (case r of Inl e \<Rightarrow> is_panic e | Inr _ \<Rightarrow> False)"

definition firstError :: "unit res list \<Rightarrow> unit res" where
  "firstError rs =
     (case find panicked rs of
        Some r \<Rightarrow> r
      | None \<Rightarrow> (case find (\<lambda>r. r \<noteq> Inr ()) rs of Some r \<Rightarrow> r | None \<Rightarrow> Inr ()))"

definition storeMetadataInDB :: "'d store_env \<Rightarrow> 'd Store \<Rightarrow> Block \<Rightarrow> BlockLocation \<Rightarrow> 'd Store \<times> unit res" where
  "storeMetadataInDB env s block location =
     (let (s1, r1) = storeIndexForBlock env s (block_number block) location;
          (s2, r2) = storeBlockValidationInfo env s1 block;
          (s3, r3) = storeBlockHeaders env s2 block in
      (s3, firstError [r1, r2, r3]))"

section \<open>Commit\<close>

definition blockRecord :: "'d store_env \<Rightarrow> Block \<Rightarrow> bytes res" where
  "blockRecord env block =
     rbind (wrap ''error while marshaling block'' (MarshalBlock (seCodec env) block)) (\<lambda>b.
     let encodedBlock = SnappyEncode (seCodec env) b in
     Inr (varint (unat (of_nat (length encodedBlock) :: 64 word)) @ encodedBlock))"

definition Store_Commit :: "'d store_env \<Rightarrow> 'd Store \<Rightarrow> Block option \<Rightarrow> 'd Store \<times> unit res" where
  "Store_Commit env s ob = (case ob of
     None \<Rightarrow> (s, Inl (Err ''block cannot be nil''))
   | Some block \<Rightarrow>
       if block_number block \<noteq> lastCommittedBlockNum s + 1 then
         (s, Inl (Err (''expected block number ['' @ dec (unat (lastCommittedBlockNum s + 1)) @ ''] but received [''
            @ dec (unat (block_number block)) @ '']'')))
       else
         (case blockRecord env block of
            Inl e \<Rightarrow> (s, Inl e)
          | Inr c \<Rightarrow>
              sbind (if canCurrentFileChunkHold s (length c) then (s, Inr ()) else moveToNextFileChunk env s) (\<lambda>s _.
              sbind (appendBlock env s (block_number block) c) (\<lambda>s blockLocation.
              storeMetadataInDB env s block blockLocation))))"

section \<open>Queries\<close>

definition Store_Height :: "'d Store \<Rightarrow> 64 word" where
  "Store_Height s = lastCommittedBlockNum s"

definition getLocation :: "'d store_env \<Rightarrow> 'd Store \<Rightarrow> 64 word \<Rightarrow> BlockLocation res" where
  "getLocation env s blockNumber =
     (let r = ldb_Get (seDB env) (blockIndexDB s) (blockKey env blockNumber) in
      if r = Inl LdbErrNotFound then Inl (NotFoundErr (''block not found: '' @ dec (unat blockNumber)))
      else wrap ''error while unmarshalling block location''
        (UnmarshalLocation (seCodec env) (case r of Inl _ \<Rightarrow> [] | Inr v \<Rightarrow> v)))"

text \<open>
  \<^verbatim>\<open>readBlockFromFile\<close>, with the position the reads leave the file at. The allocation of the buffer
  panics for a length no slice can have.
\<close>

definition maxAlloc :: nat where "maxAlloc = 2 ^ 48"

definition readBlockFromFile :: "'d store_env \<Rightarrow> string \<Rightarrow> bytes \<Rightarrow> nat \<Rightarrow> nat \<times> Block res" where
  "readBlockFromFile env path f offset =
     (case ioRead (seIO env) path of
        Some e \<Rightarrow> (offset, Inl (wrap_error ''error while reading the length of the stored block'' e))
      | None \<Rightarrow>
         (case readUvarintFrom f (NewReader offset) of
            (r, Inl e) \<Rightarrow> (rdPos r, Inl (wrap_error ''error while reading the length of the stored block'' e))
          | (r, Inr blockSize) \<Rightarrow>
             if unat blockSize > maxAlloc then (rdPos r, Inl (Panic ''makeslice: len out of range''))
             else (case ReadFull f (unat blockSize) r of
                (r, Inl e) \<Rightarrow> (rdPos r, Inl (wrap_error ''error while reading block from the file'' e))
              | (r, Inr buf) \<Rightarrow>
                  (rdPos r,
                   rbind (wrap ''error while decoding the block using snappy compression'' (SnappyDecode (seCodec env) buf)) (\<lambda>marshaledBlock.
                   wrap ''error while unmarshalling the block'' (UnmarshalBlock (seCodec env) marshaledBlock))))))"

definition Store_Get :: "'d store_env \<Rightarrow> 'd Store \<Rightarrow> 64 word \<Rightarrow> 'd Store \<times> Block res" where
  "Store_Get env s blockNumber =
     (if blockNumber > lastCommittedBlockNum s then
        (s, Inl (NotFoundErr
          (if lastCommittedBlockNum s = 0 then ''block store is empty''
           else ''requested block number ['' @ dec (unat blockNumber) @ ''] cannot be greater than the last committed block number [''
             @ dec (unat (lastCommittedBlockNum s)) @ '']'')))
      else
        sbind (sread s (getLocation env s blockNumber)) (\<lambda>s location.
        if currentChunkNum s = FileChunkNum location then
          let (pos, r) = readBlockFromFile env (constructBlockFileChunkPath (currentChunkNum s)) (currentFile s) (Offset location) in
          (s\<lparr>filePos := pos\<rparr>, r)
        else
          let (dir, r) = openFileChunk env (chunkDir s) (FileChunkNum location) in
          case r of
            Inl e \<Rightarrow> (s\<lparr>chunkDir := dir\<rparr>, Inl e)
          | Inr _ \<Rightarrow> (s\<lparr>chunkDir := dir\<rparr>,
              snd (readBlockFromFile env (constructBlockFileChunkPath (FileChunkNum location))
                (fileContent dir (FileChunkNum location)) (Offset location)))))"

text \<open>A read of the header database: not found, another error, or the bytes.\<close>

definition headerDBGet :: "'d store_env \<Rightarrow> 'd Store \<Rightarrow> bytes \<Rightarrow> string \<Rightarrow> string \<Rightarrow> bytes res" where
  "headerDBGet env s key notFound msg =
     (let r = ldb_Get (seDB env) (blockHeaderDB s) key in
      if r = Inl LdbErrNotFound then Inl (NotFoundErr notFound) else wrap msg r)"

definition Store_GetHeader :: "'d store_env \<Rightarrow> 'd Store \<Rightarrow> 64 word \<Rightarrow> BlockHeader res" where
  "Store_GetHeader env s blockNumber =
     rbind (headerDBGet env s (constructHeaderBytesKey env blockNumber)
       (''block not found: '' @ dec (unat blockNumber)) (''can't access block's '' @ dec (unat blockNumber) @ '' hash'')) (\<lambda>v.
     wrap ''error while unmarshalling block header'' (UnmarshalHeader (seCodec env) v))"

record AugmentedBlockHeader =
  AHeader :: BlockHeader
  ATxIds :: "string list"

definition Store_GetAugmentedHeader :: "'d store_env \<Rightarrow> 'd Store \<Rightarrow> 64 word \<Rightarrow> AugmentedBlockHeader res" where
  "Store_GetAugmentedHeader env s blockNumber =
     rbind (headerDBGet env s (constructHeaderBytesKey env blockNumber)
       (''block not found: '' @ dec (unat blockNumber)) (''can't access block's '' @ dec (unat blockNumber) @ '' hash'')) (\<lambda>v.
     let t = ldb_Get (seDB env) (blockHeaderDB s) (constructBlockTxsIDKey env blockNumber) in
     if t = Inl LdbErrNotFound then Inl (NotFoundErr (''block tx slice not found: '' @ dec (unat blockNumber)))
     else
       rbind (wrap ''error while unmarshalling block header'' (UnmarshalHeader (seCodec env) v)) (\<lambda>blockHeader.
       rbind (wrap ''error while unmarshalling block tx ids slice''
         (UnmarshalTxIDs (seCodec env) (case t of Inl _ \<Rightarrow> [] | Inr b \<Rightarrow> b))) (\<lambda>txIds.
       Inr \<lparr>AHeader = blockHeader, ATxIds = txIds\<rparr>)))"

definition Store_GetHash :: "'d store_env \<Rightarrow> 'd Store \<Rightarrow> 64 word \<Rightarrow> bytes res" where
  "Store_GetHash env s blockNumber =
     headerDBGet env s (constructHeaderHashKey env blockNumber)
       (''block hash not found: '' @ dec (unat blockNumber)) (''can't access block's '' @ dec (unat blockNumber) @ '' hash'')"

definition Store_GetBaseHeaderHash :: "'d store_env \<Rightarrow> 'd Store \<Rightarrow> 64 word \<Rightarrow> slice res" where
  "Store_GetBaseHeaderHash env s blockNumber =
     (if blockNumber = 0 then Inr None
      else rbind (headerDBGet env s (constructHeaderBaseHashKey env blockNumber)
        (''block header base hash not found: '' @ dec (unat blockNumber))
        (''can't access block's '' @ dec (unat blockNumber) @ '' header base hash'')) (\<lambda>v. Inr (Some v)))"

definition Store_GetHeaderByHash :: "'d store_env \<Rightarrow> 'd Store \<Rightarrow> bytes \<Rightarrow> BlockHeader res" where
  "Store_GetHeaderByHash env s blockHash =
     rbind (headerDBGet env s (constructHeaderHashIndexKey blockHash)
       ''block number by hash not found'' ''can't access block's number by hash'') (\<lambda>blockNumBytes.
     rbind (headerDBGet env s (headerBytesNs # blockNumBytes)
       ''block not found'' ''can't access block's header by number'') (\<lambda>headerVal.
     wrap ''error while unmarshalling block header'' (UnmarshalHeader (seCodec env) headerVal)))"

definition DoesTxIDExist :: "'d store_env \<Rightarrow> 'd Store \<Rightarrow> string \<Rightarrow> bool res" where
  "DoesTxIDExist env s txID =
     (case ldb_Get (seDB env) (txValidationInfoDB s) (bytes_of_string txID) of
        Inr _ \<Rightarrow> Inr True
      | Inl e \<Rightarrow> if e = LdbErrNotFound then Inr False else Inl e)"

definition Store_GetTxInfo :: "'d store_env \<Rightarrow> 'd Store \<Rightarrow> string \<Rightarrow> TxInfo res" where
  "Store_GetTxInfo env s txID =
     (let r = ldb_Get (seDB env) (txValidationInfoDB s) (bytes_of_string txID) in
      if r = Inl LdbErrNotFound then Inl (NotFoundErr (''txID not found: '' @ txID))
      else rbind (wrap (''error while fetching validation info of txID ['' @ txID @ ''] from the block store'') r) (\<lambda>v.
        wrap (''error while unmarshalling stored validation info of txID ['' @ txID @ '']'') (UnmarshalTxInfo (seCodec env) v)))"

definition GetValidationInfo :: "'d store_env \<Rightarrow> 'd Store \<Rightarrow> string \<Rightarrow> ValidationInfo res" where
  "GetValidationInfo env s txID = rbind (Store_GetTxInfo env s txID) (\<lambda>t. Inr (TValidation t))"

section \<open>Hashes and links\<close>

definition ComputeBlockHash :: "'d store_env \<Rightarrow> Block \<Rightarrow> bytes res" where
  "ComputeBlockHash env block = rbind (MarshalHeader (seCodec env) (Header block)) (\<lambda>b. Inr (seHash env b))"

definition ComputeBlockBaseHash :: "'d store_env \<Rightarrow> Block \<Rightarrow> bytes res" where
  "ComputeBlockBaseHash env block =
     rbind (MarshalBaseHeader (seCodec env) (BaseHeader (Header block))) (\<lambda>b. Inr (seHash env b))"

fun skipHashes :: "'d store_env \<Rightarrow> 'd Store \<Rightarrow> 64 word list \<Rightarrow> slice list res" where
  "skipHashes env s [] = Inr []"
| "skipHashes env s (n # ns) =
     rbind (Store_GetHash env s n) (\<lambda>hash. rbind (skipHashes env s ns) (\<lambda>hs. Inr (Some hash # hs)))"

definition AddSkipListLinks :: "'d store_env \<Rightarrow> 'd Store \<Rightarrow> Block \<Rightarrow> Block res" where
  "AddSkipListLinks env s block =
     (case CalculateSkipListLinks (block_number block) of
        None \<Rightarrow> Inl OutOfFuel
      | Some links \<Rightarrow> rbind (skipHashes env s links) (\<lambda>hs.
          Inr (block\<lparr>Header := (Header block)\<lparr>SkipchainHashes := hs\<rparr>\<rparr>)))"

section \<open>Creating a store\<close>

definition openNewStore :: "'d \<Rightarrow> 'd Store" where
  "openNewStore newDB =
     \<lparr>chunkDir = [(constructBlockFileChunkPath 0, [])], filePos = 0, currentOffset = 0, currentChunkNum = 0,
      lastCommittedBlockNum = 0, blockIndexDB = newDB, blockHeaderDB = newDB, txValidationInfoDB = newDB\<rparr>"

end
