(* ===== verification/Block_Chain.thy ===== *)
theory Block_Chain
  imports Block_Store
begin

text \<open>
  What the block store promises: the chain of committed blocks as the abstract state, the relation
  between a store and the chain it holds, and that committing extends the chain, reading returns its
  blocks and reading changes nothing but the position of the open file.
\<close>

section \<open>The contract of serialisation and compression\<close>

text \<open>Equality of messages does not see the difference between nil and empty byte fields.\<close>

definition base_eq :: "BlockHeaderBase \<Rightarrow> BlockHeaderBase \<Rightarrow> bool" where
  "base_eq a b \<longleftrightarrow> Number a = Number b \<and> slice_eq (PreviousBaseHeaderHash a) (PreviousBaseHeaderHash b)
     \<and> slice_eq (LastCommittedBlockHash a) (LastCommittedBlockHash b) \<and> LastCommittedBlockNum a = LastCommittedBlockNum b"

definition header_eq :: "BlockHeader \<Rightarrow> BlockHeader \<Rightarrow> bool" where
  "header_eq a b \<longleftrightarrow> base_eq (BaseHeader a) (BaseHeader b) \<and> list_all2 slice_eq (SkipchainHashes a) (SkipchainHashes b)
     \<and> slice_eq (TxMerkleTreeRootHash a) (TxMerkleTreeRootHash b)
     \<and> slice_eq (StateMerkleTreeRootHash a) (StateMerkleTreeRootHash b) \<and> HValidationInfo a = HValidationInfo b"

text \<open>The kind of the payload and the transaction ids in order.\<close>

definition payloadIDs :: "Payload option \<Rightarrow> nat \<times> string list" where
  "payloadIDs p = (case p of
     None \<Rightarrow> (0, [])
   | Some (Block_DataTxEnvelopes es) \<Rightarrow> (1, map (\<lambda>e. DTxId (DPayload e)) es)
   | Some (Block_ConfigTxEnvelope e) \<Rightarrow> (2, [CTxId (CPayload e)])
   | Some (Block_DbAdministrationTxEnvelope e) \<Rightarrow> (3, [DATxId (DAPayload e)])
   | Some (Block_UserAdministrationTxEnvelope e) \<Rightarrow> (4, [UTxId (UPayload e)]))"

text \<open>
  The documented behaviour of \<^verbatim>\<open>proto\<close> and \<^verbatim>\<open>snappy\<close>: what was encoded decodes to an equal message,
  where \<open>beq\<close> is \<^verbatim>\<open>proto.Equal\<close> on blocks; equal headers have the same encoding.
\<close>

locale block_serialization = varint_format bc for bc :: block_codec +
  fixes beq :: "Block \<Rightarrow> Block \<Rightarrow> bool"
  assumes block_rt: "MarshalBlock bc b = Inr y \<Longrightarrow> \<exists>b'. UnmarshalBlock bc y = Inr b' \<and> beq b b'"
    and block_eq: "beq b b' \<Longrightarrow> header_eq (Header b) (Header b') \<and> payloadIDs (BPayload b) = payloadIDs (BPayload b')"
    and location_rt: "MarshalLocation bc l = Inr y \<Longrightarrow> UnmarshalLocation bc y = Inr l"
    and txinfo_rt: "MarshalTxInfo bc t = Inr y \<Longrightarrow> UnmarshalTxInfo bc y = Inr t"
    and header_rt: "MarshalHeader bc h = Inr y \<Longrightarrow> \<exists>h'. UnmarshalHeader bc y = Inr h' \<and> header_eq h h'"
    and header_det: "header_eq h h' \<Longrightarrow> MarshalHeader bc h = MarshalHeader bc h'"
    and base_det: "base_eq g g' \<Longrightarrow> MarshalBaseHeader bc g = MarshalBaseHeader bc g'"
    and txids_rt: "MarshalTxIDs bc ids = Inr y \<Longrightarrow> UnmarshalTxIDs bc y = Inr ids"
    and snappy_rt: "SnappyDecode bc (SnappyEncode bc y) = Inr y"

section \<open>The chain a store holds\<close>

definition record_at :: "bytes \<Rightarrow> nat \<Rightarrow> bytes \<Rightarrow> bool" where
  "record_at f pos c \<longleftrightarrow> pos + length c \<le> length f \<and> take (length c) (drop pos f) = c"

lemma record_at_append: "record_at f p c \<Longrightarrow> record_at (f @ g) p c"
  by (auto simp: record_at_def)

lemma record_at_end: "record_at (f @ c) (length f) c"
  by (simp add: record_at_def)

lemma record_at_drop: "record_at f p c \<Longrightarrow> drop p f = c @ drop (p + length c) f"
  unfolding record_at_def by (metis append_take_drop_id drop_drop add.commute)

definition storable :: "'d store_env \<Rightarrow> Block \<Rightarrow> bool" where
  "storable env b \<longleftrightarrow> (\<forall>y. MarshalBlock (seCodec env) b = Inr y \<longrightarrow> length (SnappyEncode (seCodec env) y) \<le> maxAlloc)"

text \<open>The block is in a chunk file at the location the index gives.\<close>

definition holdsBlock :: "'d store_env \<Rightarrow> ('d \<Rightarrow> bytes \<rightharpoonup> bytes) \<Rightarrow> 'd Store \<Rightarrow> Block \<Rightarrow> bool" where
  "holdsBlock env view s b \<longleftrightarrow> (\<exists>lb loc c.
     view (blockIndexDB s) (blockKey env (block_number b)) = Some lb \<and> UnmarshalLocation (seCodec env) lb = Inr loc
     \<and> blockRecord env b = Inr c \<and> LLength loc = length c
     \<and> has_key (chunkDir s) (constructBlockFileChunkPath (FileChunkNum loc))
     \<and> record_at (fileContent (chunkDir s) (FileChunkNum loc)) (Offset loc) c)"

text \<open>The header database describes the block.\<close>

definition holdsHeader :: "'d store_env \<Rightarrow> ('d \<Rightarrow> bytes \<rightharpoonup> bytes) \<Rightarrow> 'd Store \<Rightarrow> Block \<Rightarrow> bool" where
  "holdsHeader env view s b \<longleftrightarrow> (\<exists>hb gb ids ib.
     MarshalHeader (seCodec env) (Header b) = Inr hb \<and> MarshalBaseHeader (seCodec env) (BaseHeader (Header b)) = Inr gb
     \<and> BlockPayloadToTxIDs (BPayload b) = Inr ids \<and> MarshalTxIDs (seCodec env) ids = Inr ib
     \<and> view (blockHeaderDB s) (constructHeaderBytesKey env (block_number b)) = Some hb
     \<and> view (blockHeaderDB s) (constructHeaderHashKey env (block_number b)) = Some (seHash env hb)
     \<and> view (blockHeaderDB s) (constructHeaderBaseHashKey env (block_number b)) = Some (seHash env gb)
     \<and> view (blockHeaderDB s) (constructBlockTxsIDKey env (block_number b)) = Some ib)"

definition wf_files :: "'d Store \<Rightarrow> bool" where
  "wf_files s \<longleftrightarrow> currentOffset s = length (currentFile s)
     \<and> has_key (chunkDir s) (constructBlockFileChunkPath (currentChunkNum s))
     \<and> (\<forall>k. has_key (chunkDir s) (constructBlockFileChunkPath k) \<longrightarrow> k \<le> currentChunkNum s)"

definition holdsChain :: "'d store_env \<Rightarrow> ('d \<Rightarrow> bytes \<rightharpoonup> bytes) \<Rightarrow> 'd Store \<Rightarrow> Block list \<Rightarrow> bool" where
  "holdsChain env view s bs \<longleftrightarrow> wf_files s \<and> length bs < 2 ^ 64 \<and> lastCommittedBlockNum s = of_nat (length bs)
     \<and> unat (currentChunkNum s) \<le> length bs
     \<and> (\<forall>i < length bs. block_number (bs ! i) = of_nat (Suc i) \<and> storable env (bs ! i)
          \<and> holdsBlock env view s (bs ! i) \<and> holdsHeader env view s (bs ! i))"

text \<open>The next write of the open file goes to its end.\<close>

definition positioned :: "'d Store \<Rightarrow> bool" where
  "positioned s \<longleftrightarrow> filePos s = currentOffset s"

text \<open>
  The chunk files are those up to the current one, the index has the committed blocks and no others,
  and the last block ends where the next one goes.
\<close>

definition tidy :: "'d store_env \<Rightarrow> ('d \<Rightarrow> bytes \<rightharpoonup> bytes) \<Rightarrow> 'd Store \<Rightarrow> Block list \<Rightarrow> bool" where
  "tidy env view s bs \<longleftrightarrow> wf_gomap (chunkDir s)
     \<and> fst ` set (chunkDir s) = constructBlockFileChunkPath ` {k. k \<le> currentChunkNum s}
     \<and> dom (view (blockIndexDB s)) = (\<lambda>i. blockKey env (of_nat (Suc i))) ` {i. i < length bs}
     \<and> (if bs = [] then currentChunkNum s = 0 \<and> currentOffset s = 0
        else \<exists>lb loc. view (blockIndexDB s) (blockKey env (of_nat (length bs))) = Some lb
          \<and> UnmarshalLocation (seCodec env) lb = Inr loc \<and> FileChunkNum loc = currentChunkNum s
          \<and> Offset loc + LLength loc = currentOffset s)"

fun commitBlocks :: "'d store_env \<Rightarrow> 'd Store \<Rightarrow> Block list \<Rightarrow> 'd Store \<times> unit res" where
  "commitBlocks env s [] = (s, Inr ())"
| "commitBlocks env s (b # bs) = sbind (Store_Commit env s (Some b)) (\<lambda>s _. commitBlocks env s bs)"

section \<open>Paths and contents\<close>

lemma chunkPath_inj [simp]: "constructBlockFileChunkPath a = constructBlockFileChunkPath b \<longleftrightarrow> a = b"
  unfolding constructBlockFileChunkPath_def by (metis dec_inj append_same_eq same_append_eq word_unat_eq_iff)

lemma fileContent_put [simp]:
  "fileContent (gomap_put dir (constructBlockFileChunkPath a) f) b = (if a = b then f else fileContent dir b)"
  by (simp add: fileContent_def)

lemma has_key_put [simp]: "has_key (gomap_put m k v) x \<longleftrightarrow> x = k \<or> has_key m x"
  by (auto simp: has_key_def)

lemma fileContent_absent: "\<not> has_key dir (constructBlockFileChunkPath n) \<Longrightarrow> fileContent dir n = []"
  by (simp add: fileContent_def has_key_def)

lemma openFileChunk_facts:
  assumes "openFileChunk env dir n = (dir', r)"
  shows "fileContent dir' k = fileContent dir k" "has_key dir x \<Longrightarrow> has_key dir' x"
    and "has_key dir' x \<Longrightarrow> has_key dir x \<or> x = constructBlockFileChunkPath n"
    and "r = Inr () \<Longrightarrow> has_key dir' (constructBlockFileChunkPath n)"
  using assms fileContent_absent[of dir k] fileContent_put[of dir n "[]" k]
  by (auto simp: openFileChunk_def Let_def split: option.splits if_splits)

lemma firstError_ok: "firstError rs = Inr () \<longleftrightarrow> (\<forall>r \<in> set rs. r = Inr ())"
proof
  assume ok: "firstError rs = Inr ()"
  have no: "find panicked rs = None"
  proof (rule ccontr)
    assume "find panicked rs \<noteq> None"
    then obtain r where "find panicked rs = Some r" "panicked r"
      by (auto simp: find_Some_iff)
    then show False
      using ok by (simp add: firstError_def panicked_def)
  qed
  then have "find (\<lambda>r. r \<noteq> Inr ()) rs = None"
    using ok by (auto simp: firstError_def find_Some_iff split: option.splits)
  then show "\<forall>r \<in> set rs. r = Inr ()"
    by (auto simp: find_None_iff)
next
  assume all: "\<forall>r \<in> set rs. r = Inr ()"
  then have "find panicked rs = None" "find (\<lambda>r. r \<noteq> Inr ()) rs = None"
    by (auto simp: find_None_iff panicked_def)
  then show "firstError rs = Inr ()"
    by (simp add: firstError_def)
qed

text \<open>A store whose files only grew.\<close>

definition grown :: "'d Store \<Rightarrow> 'd Store \<Rightarrow> bool" where
  "grown s s' \<longleftrightarrow> (\<forall>k. \<exists>g. fileContent (chunkDir s') k = fileContent (chunkDir s) k @ g)
     \<and> (\<forall>x. has_key (chunkDir s) x \<longrightarrow> has_key (chunkDir s') x)"

lemma grown_trans: "grown s s' \<Longrightarrow> grown s' s'' \<Longrightarrow> grown s s''"
  unfolding grown_def by (metis append_assoc)

section \<open>The store under its contract\<close>

locale block_store =
  leveldb "seDB env" view + block_serialization "seCodec env" beq
  for env :: "'d store_env" and view :: "'d \<Rightarrow> bytes \<rightharpoonup> bytes" and beq :: "Block \<Rightarrow> Block \<Rightarrow> bool"
begin

lemma key_simps:
  "constructHeaderBytesKey env m = constructHeaderBytesKey env n \<longleftrightarrow> m = n"
  "constructHeaderHashKey env m = constructHeaderHashKey env n \<longleftrightarrow> m = n"
  "constructHeaderBaseHashKey env m = constructHeaderBaseHashKey env n \<longleftrightarrow> m = n"
  "constructBlockTxsIDKey env m = constructBlockTxsIDKey env n \<longleftrightarrow> m = n"
  by (simp_all add: constructHeaderBytesKey_def constructHeaderHashKey_def constructHeaderBaseHashKey_def
      constructBlockTxsIDKey_def encode_inj)

lemmas key_defs = constructHeaderBytesKey_def constructHeaderHashKey_def constructHeaderBaseHashKey_def
  constructBlockTxsIDKey_def constructHeaderHashIndexKey_def

text \<open>What the metadata step writes when it succeeds.\<close>

lemma metadata_ok:
  assumes "storeMetadataInDB env s b loc = (s', Inr ())"
  obtains lb vb hb where "MarshalLocation (seCodec env) loc = Inr lb"
    "view (blockIndexDB s') = (view (blockIndexDB s))(blockKey env (block_number b) \<mapsto> lb)"
    "validationBatch env b = Inr vb" "view (txValidationInfoDB s') = apply_batch vb (view (txValidationInfoDB s))"
    "headerBatch env b = Inr hb" "view (blockHeaderDB s') = apply_batch hb (view (blockHeaderDB s))"
    "chunkDir s' = chunkDir s" "filePos s' = filePos s" "currentOffset s' = currentOffset s"
    "currentChunkNum s' = currentChunkNum s" "lastCommittedBlockNum s' = lastCommittedBlockNum s"
proof -
  obtain s1 r1 s2 r2 s3 r3 where st: "storeIndexForBlock env s (block_number b) loc = (s1, r1)"
      "storeBlockValidationInfo env s1 b = (s2, r2)" "storeBlockHeaders env s2 b = (s3, r3)"
    by (metis prod.exhaust)
  then have ok: "r1 = Inr ()" "r2 = Inr ()" "r3 = Inr ()" "s' = s3"
    using assms by (auto simp: storeMetadataInDB_def Let_def firstError_ok)
  obtain lb d1 where 1: "MarshalLocation (seCodec env) loc = Inr lb"
      "ldb_Write (seDB env) (blockIndexDB s) [BPut (blockKey env (block_number b)) lb] = (d1, Inr ())" "s1 = s\<lparr>blockIndexDB := d1\<rparr>"
    using st(1) ok(1) by (auto simp: storeIndexForBlock_def Let_def split: sum.splits prod.splits)
  obtain vb d2 where 2: "validationBatch env b = Inr vb" "ldb_Write (seDB env) (txValidationInfoDB s1) vb = (d2, Inr ())"
      "s2 = s1\<lparr>txValidationInfoDB := d2\<rparr>"
    using st(2) ok(2) by (auto simp: storeBlockValidationInfo_def Let_def split: sum.splits prod.splits)
  obtain hb d3 where 3: "headerBatch env b = Inr hb" "ldb_Write (seDB env) (blockHeaderDB s2) hb = (d3, Inr ())"
      "s3 = s2\<lparr>blockHeaderDB := d3\<rparr>"
    using st(3) ok(3) by (auto simp: storeBlockHeaders_def Let_def split: sum.splits prod.splits)
  show ?thesis
    using that[OF 1(1) _ 2(1) _ 3(1)] write_ok[OF 1(2)] write_ok[OF 2(2)] write_ok[OF 3(2)] 1(3) 2(3) 3(3) ok(4)
    by simp
qed

text \<open>The header entries of the block are stored, those of other blocks kept.\<close>

lemma headerBatch_own:
  assumes "headerBatch env b = Inr hb" "view (blockHeaderDB s) = apply_batch hb m"
  shows "holdsHeader env view s b"
  using assms by (auto simp: headerBatch_def Let_def rbind_Inr_iff holdsHeader_def key_defs)

lemma headerBatch_other:
  assumes "headerBatch env b = Inr hb" "view (blockHeaderDB s') = apply_batch hb (view (blockHeaderDB s))"
    and "holdsHeader env view s b'" "block_number b' \<noteq> block_number b"
  shows "holdsHeader env view s' b'"
  using assms by (auto simp: headerBatch_def Let_def rbind_Inr_iff holdsHeader_def key_defs encode_inj)

section \<open>Reading a block\<close>

lemma readBlock_ok:
  assumes "blockRecord env b = Inr c" "storable env b" "record_at f p c" "ioRead (seIO env) path = None"
  shows "\<exists>pos b'. readBlockFromFile env path f p = (pos, Inr b') \<and> beq b b'
    \<and> p + length c \<le> pos \<and> pos \<le> p + length c + bufSize \<and> pos \<le> length f \<and> (p + length c = length f \<longrightarrow> pos = length f)"
proof -
  let ?bc = "seCodec env"
  obtain y where y: "MarshalBlock ?bc b = Inr y" "length (SnappyEncode ?bc y) \<le> maxAlloc"
      "c = varint (unat (of_nat (length (SnappyEncode ?bc y)) :: 64 word)) @ SnappyEncode ?bc y"
    using assms(1,2) by (auto simp: blockRecord_def rbind_Inr_iff Let_def storable_def)
  let ?e = "SnappyEncode ?bc y" and ?n = "of_nat (length (SnappyEncode ?bc y)) :: 64 word"
  have n: "unat ?n = length ?e"
    using y(2) by (simp add: unat_of_nat maxAlloc_def)
  have d: "drop p f = varint (unat ?n) @ ?e @ drop (p + length c) f"
    using record_at_drop[OF assms(3)] y(3) by simp
  have "wf_reader f (NewReader p)"
    using assms(3) by (simp add: record_at_def)
  then obtain r1 where r1: "readUvarintFrom f (NewReader p) = (r1, Inr ?n)" "wf_reader f r1"
      "pending f r1 = ?e @ drop (p + length c) f"
    using readUvarintFrom_varint[of f "NewReader p" ?n "?e @ drop (p + length c) f"] d by auto
  then obtain r2 where r2: "ReadFull f (unat ?n) r1 = (r2, Inr ?e)" "wf_reader f r2" "pending f r2 = drop (p + length c) f"
    using ReadFull_facts[OF r1(2), of "unat ?n"] n by auto
  obtain b' where b': "UnmarshalBlock ?bc y = Inr b'" "beq b b'"
    using block_rt[OF y(1)] by blast
  have "readBlockFromFile env path f p = (rdPos r2, Inr b')"
    using assms(4) r1(1) r2(1) y(2) n b'(1) by (simp add: readBlockFromFile_def snappy_rt)
  then show ?thesis
    using b'(2) reader_position[OF r2(2,3)] assms(3) by (auto simp: record_at_def)
qed

lemma holds_read:
  assumes "holdsBlock env view s b" "storable env b" "block_number b \<le> lastCommittedBlockNum s"
    and "\<And>path. ioOpen (seIO env) path = None" "\<And>path. ioRead (seIO env) path = None"
  shows "\<exists>s' b'. Store_Get env s (block_number b) = (s', Inr b') \<and> beq b b'"
proof -
  obtain lb loc c where l: "view (blockIndexDB s) (blockKey env (block_number b)) = Some lb"
      "UnmarshalLocation (seCodec env) lb = Inr loc" "blockRecord env b = Inr c"
      "has_key (chunkDir s) (constructBlockFileChunkPath (FileChunkNum loc))"
      "record_at (fileContent (chunkDir s) (FileChunkNum loc)) (Offset loc) c"
    using assms(1) unfolding holdsBlock_def by blast
  have loc: "getLocation env s (block_number b) = Inr loc"
    using l(1,2) by (simp add: getLocation_def get_view Let_def)
  obtain pos b' where r: "readBlockFromFile env (constructBlockFileChunkPath (FileChunkNum loc))
      (fileContent (chunkDir s) (FileChunkNum loc)) (Offset loc) = (pos, Inr b')" "beq b b'"
    using readBlock_ok[OF l(3) assms(2) l(5) assms(5)] by blast
  have "openFileChunk env (chunkDir s) (FileChunkNum loc) = (chunkDir s, Inr ())"
    using l(4) assms(4) by (simp add: openFileChunk_def)
  then show ?thesis
    using loc r assms(3) by (auto simp: Store_Get_def Let_def not_less)
qed

text \<open>Reading changes no content and no metadata.\<close>

lemma Get_keeps:
  assumes "Store_Get env s n = (s', r)"
  shows "fileContent (chunkDir s') k = fileContent (chunkDir s) k" "currentOffset s' = currentOffset s"
    "currentChunkNum s' = currentChunkNum s" "lastCommittedBlockNum s' = lastCommittedBlockNum s"
    "blockIndexDB s' = blockIndexDB s" "blockHeaderDB s' = blockHeaderDB s" "txValidationInfoDB s' = txValidationInfoDB s"
    and "has_key (chunkDir s) x \<Longrightarrow> has_key (chunkDir s') x"
proof -
  have cases: "(\<exists>p. s' = s\<lparr>filePos := p\<rparr>) \<or> (\<exists>dir m q. s' = s\<lparr>chunkDir := dir\<rparr> \<and> openFileChunk env (chunkDir s) m = (dir, q))"
  proof (cases "n > lastCommittedBlockNum s")
    case True
    then show ?thesis
      using assms by (auto simp: Store_Get_def intro!: exI[of _ "filePos s"])
  next
    case False
    show ?thesis
    proof (cases "getLocation env s n")
      case (Inl e)
      then show ?thesis
        using assms False by (auto simp: Store_Get_def intro!: exI[of _ "filePos s"])
    next
      case (Inr loc)
      show ?thesis
      proof (cases "currentChunkNum s = FileChunkNum loc")
        case True
        then show ?thesis
          using assms False Inr by (auto simp: Store_Get_def Let_def split: prod.splits)
      next
        case neq: False
        obtain dir q where op: "openFileChunk env (chunkDir s) (FileChunkNum loc) = (dir, q)"
          by fastforce
        then have "s' = s\<lparr>chunkDir := dir\<rparr>"
          using assms False Inr neq by (cases q) (auto simp: Store_Get_def Let_def)
        then show ?thesis
          using op by blast
      qed
    qed
  qed
  show "fileContent (chunkDir s') k = fileContent (chunkDir s) k" "currentOffset s' = currentOffset s"
    "currentChunkNum s' = currentChunkNum s" "lastCommittedBlockNum s' = lastCommittedBlockNum s"
    "blockIndexDB s' = blockIndexDB s" "blockHeaderDB s' = blockHeaderDB s" "txValidationInfoDB s' = txValidationInfoDB s"
    "has_key (chunkDir s) x \<Longrightarrow> has_key (chunkDir s') x"
    using cases openFileChunk_facts by fastforce+
qed

section \<open>Committing a block\<close>

lemma holdsBlock_grown:
  assumes "holdsBlock env view s b" "grown s s'"
    and "view (blockIndexDB s') (blockKey env (block_number b)) = view (blockIndexDB s) (blockKey env (block_number b))"
  shows "holdsBlock env view s' b"
proof -
  obtain lb loc c where l: "view (blockIndexDB s) (blockKey env (block_number b)) = Some lb"
      "UnmarshalLocation (seCodec env) lb = Inr loc" "blockRecord env b = Inr c" "LLength loc = length c"
      "has_key (chunkDir s) (constructBlockFileChunkPath (FileChunkNum loc))"
      "record_at (fileContent (chunkDir s) (FileChunkNum loc)) (Offset loc) c"
    using assms(1) unfolding holdsBlock_def by blast
  obtain g where "fileContent (chunkDir s') (FileChunkNum loc) = fileContent (chunkDir s) (FileChunkNum loc) @ g"
    using assms(2) unfolding grown_def by blast
  then have "record_at (fileContent (chunkDir s') (FileChunkNum loc)) (Offset loc) c"
    using record_at_append[OF l(6)] by simp
  then show ?thesis
    unfolding holdsBlock_def using l assms(2,3) by (auto simp: grown_def)
qed

lemma moveToNext_ok:
  assumes "moveToNextFileChunk env s = (s', Inr ())" "wf_files s" "Suc (unat (currentChunkNum s)) < 2 ^ 64"
  shows "wf_files s'" "positioned s'" "grown s s'" "blockIndexDB s' = blockIndexDB s" "blockHeaderDB s' = blockHeaderDB s"
    "lastCommittedBlockNum s' = lastCommittedBlockNum s" "currentChunkNum s' = currentChunkNum s + 1"
proof -
  obtain dir where dir: "openFileChunk env (chunkDir s) (currentChunkNum s + 1) = (dir, Inr ())"
      "s' = s\<lparr>chunkDir := dir, filePos := 0, currentChunkNum := currentChunkNum s + 1, currentOffset := 0\<rparr>"
    using assms(1) by (auto simp: moveToNextFileChunk_def Let_def split: sum.splits prod.splits option.splits)
  note op = openFileChunk_facts[OF dir(1)]
  have less: "currentChunkNum s < currentChunkNum s + 1"
    using assms(3) by (simp add: word_less_nat_alt unat_word_ariths)
  then have "\<not> has_key (chunkDir s) (constructBlockFileChunkPath (currentChunkNum s + 1))"
    using assms(2) unfolding wf_files_def by (meson leD)
  then have empty: "fileContent dir (currentChunkNum s + 1) = []"
    using op(1) fileContent_absent by simp
  have le: "k \<le> currentChunkNum s + 1" if "has_key dir (constructBlockFileChunkPath k)" for k
    using op(3)[OF that] assms(2) less unfolding wf_files_def by (auto intro: order_trans less_imp_le)
  show "wf_files s'"
    using empty le op(4) by (simp add: wf_files_def dir(2))
  show "positioned s'" "blockIndexDB s' = blockIndexDB s" "blockHeaderDB s' = blockHeaderDB s"
    "lastCommittedBlockNum s' = lastCommittedBlockNum s" "currentChunkNum s' = currentChunkNum s + 1"
    by (simp_all add: positioned_def dir(2))
  show "grown s s'"
    using op(1,2) by (simp add: grown_def dir(2))
qed

lemma appendBlock_ok:
  assumes "appendBlock env s n c = (s', Inr loc)" "wf_files s" "positioned s"
  shows "wf_files s'" "positioned s'" "grown s s'" "blockIndexDB s' = blockIndexDB s" "blockHeaderDB s' = blockHeaderDB s"
    "lastCommittedBlockNum s' = n" "currentChunkNum s' = currentChunkNum s"
    "loc = \<lparr>FileChunkNum = currentChunkNum s, Offset = currentOffset s, LLength = length c\<rparr>"
    "record_at (fileContent (chunkDir s') (currentChunkNum s)) (currentOffset s) c"
    "has_key (chunkDir s') (constructBlockFileChunkPath (currentChunkNum s))"
proof -
  have s': "s' = (writeCurrent s c)\<lparr>currentOffset := currentOffset s + length c, lastCommittedBlockNum := n\<rparr>"
    and loc: "loc = \<lparr>FileChunkNum = currentChunkNum s, Offset = currentOffset s, LLength = length c\<rparr>"
    using assms(1) by (auto simp: appendBlock_def Let_def split: option.splits prod.splits)
  have f: "writeAt (currentFile s) (filePos s) c = currentFile s @ c"
    using assms(2,3) by (simp add: positioned_def wf_files_def)
  show "wf_files s'" "positioned s'" "blockIndexDB s' = blockIndexDB s" "blockHeaderDB s' = blockHeaderDB s"
    "lastCommittedBlockNum s' = n" "currentChunkNum s' = currentChunkNum s"
    "has_key (chunkDir s') (constructBlockFileChunkPath (currentChunkNum s))"
    using assms(2,3) f by (auto simp: s' writeCurrent_def wf_files_def positioned_def)
  show "grown s s'"
    using f by (auto simp: s' writeCurrent_def grown_def)
  show "record_at (fileContent (chunkDir s') (currentChunkNum s)) (currentOffset s) c"
    using assms(2) f record_at_end[of "currentFile s" c] by (simp add: s' writeCurrent_def wf_files_def)
  show "loc = \<lparr>FileChunkNum = currentChunkNum s, Offset = currentOffset s, LLength = length c\<rparr>"
    by (rule loc)
qed

text \<open>The chunk a block goes to.\<close>

lemma chooseChunk_ok:
  assumes "(if canCurrentFileChunkHold s k then (s, Inr ()) else moveToNextFileChunk env s) = (s', Inr ())"
    and "wf_files s" "positioned s" "Suc (unat (currentChunkNum s)) < 2 ^ 64"
  shows "wf_files s'" "positioned s'" "grown s s'" "blockIndexDB s' = blockIndexDB s" "blockHeaderDB s' = blockHeaderDB s"
    "lastCommittedBlockNum s' = lastCommittedBlockNum s" "unat (currentChunkNum s') \<le> Suc (unat (currentChunkNum s))"
proof -
  have u: "unat (currentChunkNum s + 1) = Suc (unat (currentChunkNum s))"
    using assms(4) by (simp add: unat_word_ariths)
  have same: "grown s s"
    by (simp add: grown_def)
  show "wf_files s'" "positioned s'" "grown s s'" "blockIndexDB s' = blockIndexDB s" "blockHeaderDB s' = blockHeaderDB s"
    "lastCommittedBlockNum s' = lastCommittedBlockNum s" "unat (currentChunkNum s') \<le> Suc (unat (currentChunkNum s))"
    using assms(1-3) moveToNext_ok[OF _ assms(2,4), of s'] u same by (auto split: if_splits)
qed

lemma commit_extends:
  assumes "Store_Commit env s (Some b) = (s', Inr ())" "holdsChain env view s bs" "positioned s"
    and "storable env b" "Suc (length bs) < 2 ^ 64"
  shows "holdsChain env view s' (bs @ [b])" "positioned s'"
proof -
  have wf: "wf_files s" and last: "lastCommittedBlockNum s = of_nat (length bs)" and cn: "unat (currentChunkNum s) \<le> length bs"
    using assms(2) by (simp_all add: holdsChain_def)
  obtain c s1 s2 loc where num: "block_number b = lastCommittedBlockNum s + 1" and c: "blockRecord env b = Inr c"
    and s1: "(if canCurrentFileChunkHold s (length c) then (s, Inr ()) else moveToNextFileChunk env s) = (s1, Inr ())"
    and s2: "appendBlock env s1 (block_number b) c = (s2, Inr loc)"
    and s': "storeMetadataInDB env s2 b loc = (s', Inr ())"
    using assms(1) by (auto simp: Store_Commit_def sbind_Inr_iff split: if_splits sum.splits)
  have "Suc (unat (currentChunkNum s)) < 2 ^ 64"
    using cn assms(5) by simp
  note ch = chooseChunk_ok[OF s1 wf assms(3) this]
  note ap = appendBlock_ok[OF s2 ch(1,2)]
  from metadata_ok[OF s'] obtain lb hb where m: "MarshalLocation (seCodec env) loc = Inr lb"
      "view (blockIndexDB s') = (view (blockIndexDB s2))(blockKey env (block_number b) \<mapsto> lb)"
      "headerBatch env b = Inr hb" "view (blockHeaderDB s') = apply_batch hb (view (blockHeaderDB s2))"
      "chunkDir s' = chunkDir s2" "filePos s' = filePos s2" "currentOffset s' = currentOffset s2"
      "currentChunkNum s' = currentChunkNum s2" "lastCommittedBlockNum s' = lastCommittedBlockNum s2"
    by metis
  show "positioned s'"
    using ap(2) m by (simp add: positioned_def)
  have bnum: "block_number b = of_nat (Suc (length bs))"
    using num last by simp
  have own: "holdsBlock env view s' b"
    unfolding holdsBlock_def using m(1,2,5) location_rt[OF m(1)] c ap(8,9,10) by auto
  have grown: "grown s s'"
    using grown_trans[OF ch(3) ap(3)] m(5) by (simp add: grown_def)
  have other: "holdsBlock env view s' (bs ! i) \<and> holdsHeader env view s' (bs ! i)" if "i < length bs" for i
  proof -
    have i: "block_number (bs ! i) = of_nat (Suc i)" "holdsBlock env view s (bs ! i)" "holdsHeader env view s (bs ! i)"
      using assms(2) that by (simp_all add: holdsChain_def)
    have "unat (of_nat (Suc i) :: 64 word) = Suc i" "unat (of_nat (Suc (length bs)) :: 64 word) = Suc (length bs)"
      unfolding unat_of_nat using that assms(5) by (intro mod_less; simp)+
    then have neq: "block_number (bs ! i) \<noteq> block_number b"
      using that i(1) bnum by (metis less_irrefl Suc_inject)
    have "blockIndexDB s2 = blockIndexDB s" "blockHeaderDB s2 = blockHeaderDB s"
      using ch(4,5) ap(4,5) by simp_all
    moreover have "holdsHeader env view s2 (bs ! i)"
      using i(3) calculation by (simp add: holdsHeader_def)
    ultimately show ?thesis
      using holdsBlock_grown[OF i(2) grown] headerBatch_other[OF m(3,4) _ neq] m(2) neq by (simp add: encode_inj)
  qed
  show "holdsChain env view s' (bs @ [b])"
    unfolding holdsChain_def
  proof (intro conjI allI impI)
    show "wf_files s'"
      using ap(1) m by (simp add: wf_files_def)
    show "length (bs @ [b]) < 2 ^ 64" "lastCommittedBlockNum s' = of_nat (length (bs @ [b]))"
      using assms(5) ap(6) m(9) bnum by simp_all
    show "unat (currentChunkNum s') \<le> length (bs @ [b])"
      using ch(7) ap(7) m(8) cn by simp
    fix i assume "i < length (bs @ [b])"
    then consider "i < length bs" | "i = length bs"
      by fastforce
    then show "block_number ((bs @ [b]) ! i) = of_nat (Suc i)" "storable env ((bs @ [b]) ! i)"
        "holdsBlock env view s' ((bs @ [b]) ! i)" "holdsHeader env view s' ((bs @ [b]) ! i)"
      using other own headerBatch_own[OF m(3,4)] bnum assms(2,4)
      by (cases; simp add: holdsChain_def nth_append)+
  qed
qed

lemma get_keeps_chain:
  assumes "Store_Get env s n = (s', r)" "holdsChain env view s bs" "1 \<le> n" "n \<le> lastCommittedBlockNum s"
    and "\<And>path. ioOpen (seIO env) path = None" "\<And>path. ioRead (seIO env) path = None"
  shows "holdsChain env view s' bs" "\<exists>b'. r = Inr b' \<and> beq (bs ! (unat n - 1)) b'"
proof -
  have len: "length bs < 2 ^ 64" "lastCommittedBlockNum s = of_nat (length bs)"
    using assms(2) by (simp_all add: holdsChain_def)
  have "unat (of_nat (length bs) :: 64 word) = length bs"
    unfolding unat_of_nat using len(1) by (intro mod_less) simp
  then have i: "unat n - 1 < length bs" "Suc (unat n - 1) = unat n"
    using assms(3,4) len(2) by (simp_all add: word_le_nat_alt)
  let ?b = "bs ! (unat n - 1)"
  have b: "block_number ?b = n" "holdsBlock env view s ?b" "storable env ?b"
    using assms(2) i by (simp_all add: holdsChain_def)
  show "\<exists>b'. r = Inr b' \<and> beq ?b b'"
    using holds_read[OF b(2,3) _ assms(5,6)] assms(1,4) b(1) by auto
  note keep = Get_keeps[OF assms(1)]
  have same: "grown s s'"
    using keep(1,8) by (simp add: grown_def)
  have keys: "has_key (chunkDir s') x \<longleftrightarrow> has_key (chunkDir s) x" for x
  proof -
    obtain lb loc where l: "view (blockIndexDB s) (blockKey env n) = Some lb" "UnmarshalLocation (seCodec env) lb = Inr loc"
        "has_key (chunkDir s) (constructBlockFileChunkPath (FileChunkNum loc))"
      using b(1,2) unfolding holdsBlock_def by auto
    then have "getLocation env s n = Inr loc" "openFileChunk env (chunkDir s) (FileChunkNum loc) = (chunkDir s, Inr ())"
      using assms(5) by (simp_all add: getLocation_def get_view Let_def openFileChunk_def)
    then have "chunkDir s' = chunkDir s"
      using assms(1,4) by (auto simp: Store_Get_def Let_def not_less split: if_splits prod.splits)
    then show ?thesis
      by simp
  qed
  have "holdsBlock env view s' (bs ! j) \<and> holdsHeader env view s' (bs ! j)" if "j < length bs" for j
  proof -
    have "holdsHeader env view s' (bs ! j) = holdsHeader env view s (bs ! j)"
      using keep(6) by (simp add: holdsHeader_def)
    then show ?thesis
      using assms(2) that holdsBlock_grown[OF _ same] keep(5) by (simp add: holdsChain_def)
  qed
  then show "holdsChain env view s' bs"
    using assms(2) keep keys by (simp add: holdsChain_def wf_files_def)
qed

section \<open>Runs of commits\<close>

lemma keys_gomap_put: "fst ` set (gomap_put m k v) = insert k (fst ` set m)"
  by (force simp: gomap_put_def)

lemma openFileChunk_keys:
  assumes "openFileChunk env dir n = (dir', Inr ())"
  shows "fst ` set dir' = insert (constructBlockFileChunkPath n) (fst ` set dir)" "wf_gomap dir \<Longrightarrow> wf_gomap dir'"
proof -
  have "dir' = (if has_key dir (constructBlockFileChunkPath n) then dir else gomap_put dir (constructBlockFileChunkPath n) [])"
    using assms by (auto simp: openFileChunk_def Let_def split: option.splits)
  then show "fst ` set dir' = insert (constructBlockFileChunkPath n) (fst ` set dir)" "wf_gomap dir \<Longrightarrow> wf_gomap dir'"
    by (simp_all add: keys_gomap_put has_key_iff insert_absorb)
qed

lemma chooseChunk_keys:
  assumes "(if canCurrentFileChunkHold s k then (s, Inr ()) else moveToNextFileChunk env s) = (s1, Inr ())"
    and "tidy env view s bs" "Suc (unat (currentChunkNum s)) < 2 ^ 64"
  shows "wf_gomap (chunkDir s1)" "fst ` set (chunkDir s1) = constructBlockFileChunkPath ` {k. k \<le> currentChunkNum s1}"
    and "(canCurrentFileChunkHold s k \<and> s1 = s) \<or> (\<not> canCurrentFileChunkHold s k \<and> currentChunkNum s1 = currentChunkNum s + 1
      \<and> (\<forall>j. fileContent (chunkDir s1) j = fileContent (chunkDir s) j) \<and> txValidationInfoDB s1 = txValidationInfoDB s)"
proof -
  have "wf_gomap (chunkDir s1) \<and> fst ` set (chunkDir s1) = constructBlockFileChunkPath ` {k. k \<le> currentChunkNum s1}
    \<and> ((canCurrentFileChunkHold s k \<and> s1 = s) \<or> (\<not> canCurrentFileChunkHold s k \<and> currentChunkNum s1 = currentChunkNum s + 1
      \<and> (\<forall>j. fileContent (chunkDir s1) j = fileContent (chunkDir s) j) \<and> txValidationInfoDB s1 = txValidationInfoDB s))"
  proof (cases "canCurrentFileChunkHold s k")
    case True
    then show ?thesis
      using assms(1,2) by (simp add: tidy_def)
  next
    case False
    then obtain dir where dir: "openFileChunk env (chunkDir s) (currentChunkNum s + 1) = (dir, Inr ())"
        "s1 = s\<lparr>chunkDir := dir, filePos := 0, currentChunkNum := currentChunkNum s + 1, currentOffset := 0\<rparr>"
      using assms(1) by (auto simp: moveToNextFileChunk_def Let_def split: sum.splits prod.splits option.splits)
    have "unat (currentChunkNum s + 1) = Suc (unat (currentChunkNum s))"
      using assms(3) by (simp add: unat_word_ariths)
    then have "{k. k \<le> currentChunkNum s + 1} = insert (currentChunkNum s + 1) {k. k \<le> currentChunkNum s}"
      by (auto simp: word_le_nat_alt word_unat_eq_iff)
    then show ?thesis
      using openFileChunk_keys[OF dir(1)] openFileChunk_facts(1)[OF dir(1)] assms(2) False by (simp add: tidy_def dir(2))
  qed
  then show "wf_gomap (chunkDir s1)" "fst ` set (chunkDir s1) = constructBlockFileChunkPath ` {k. k \<le> currentChunkNum s1}"
    "(canCurrentFileChunkHold s k \<and> s1 = s) \<or> (\<not> canCurrentFileChunkHold s k \<and> currentChunkNum s1 = currentChunkNum s + 1
      \<and> (\<forall>j. fileContent (chunkDir s1) j = fileContent (chunkDir s) j) \<and> txValidationInfoDB s1 = txValidationInfoDB s)"
    by blast+
qed

lemma commit_tidy:
  assumes "Store_Commit env s (Some b) = (s', Inr ())" "holdsChain env view s bs" "positioned s" "tidy env view s bs"
    and "Suc (length bs) < 2 ^ 64"
  shows "tidy env view s' (bs @ [b])"
proof -
  have wf: "wf_files s" and last: "lastCommittedBlockNum s = of_nat (length bs)" and cn: "unat (currentChunkNum s) \<le> length bs"
    using assms(2) by (simp_all add: holdsChain_def)
  obtain c s1 s2 loc where num: "block_number b = lastCommittedBlockNum s + 1" and c: "blockRecord env b = Inr c"
    and s1: "(if canCurrentFileChunkHold s (length c) then (s, Inr ()) else moveToNextFileChunk env s) = (s1, Inr ())"
    and s2: "appendBlock env s1 (block_number b) c = (s2, Inr loc)"
    and s': "storeMetadataInDB env s2 b loc = (s', Inr ())"
    using assms(1) by (auto simp: Store_Commit_def sbind_Inr_iff split: if_splits sum.splits)
  have cn': "Suc (unat (currentChunkNum s)) < 2 ^ 64"
    using cn assms(5) by simp
  note ch = chooseChunk_ok[OF s1 wf assms(3) cn']
  note ap = appendBlock_ok[OF s2 ch(1,2)]
  from metadata_ok[OF s'] obtain lb where m: "MarshalLocation (seCodec env) loc = Inr lb"
      "view (blockIndexDB s') = (view (blockIndexDB s2))(blockKey env (block_number b) \<mapsto> lb)"
      "chunkDir s' = chunkDir s2" "currentOffset s' = currentOffset s2" "currentChunkNum s' = currentChunkNum s2"
    by metis
  note dir1 = chooseChunk_keys[OF s1 assms(4) cn']
  have s2': "chunkDir s2 = gomap_put (chunkDir s1) (constructBlockFileChunkPath (currentChunkNum s1))
        (writeAt (currentFile s1) (filePos s1) c)" "currentOffset s2 = currentOffset s1 + length c"
    using s2 by (auto simp: appendBlock_def Let_def writeCurrent_def split: option.splits prod.splits)
  have "wf_gomap (chunkDir s') \<and> fst ` set (chunkDir s') = constructBlockFileChunkPath ` {k. k \<le> currentChunkNum s'}"
    using dir1(1,2) ap(7) by (auto simp: m s2' keys_gomap_put)
  moreover have "block_number b = of_nat (length (bs @ [b]))"
    using num last by simp
  moreover have "dom (view (blockIndexDB s')) = (\<lambda>i. blockKey env (of_nat (Suc i))) ` {i. i < length (bs @ [b])}"
    using assms(4) ch(4) ap(4) calculation(2) by (simp add: m(2) tidy_def lessThan_def[symmetric] lessThan_Suc)
  moreover have "view (blockIndexDB s') (blockKey env (of_nat (length (bs @ [b])))) = Some lb"
    using m(2) calculation(2) by simp
  ultimately show ?thesis
    unfolding tidy_def using location_rt[OF m(1)] ap(7,8) m(4,5) s2'(2) by simp
qed

lemma commitBlocks_chain:
  assumes "commitBlocks env s cs = (s', Inr ())" "holdsChain env view s bs" "positioned s" "tidy env view s bs"
    and "\<forall>b \<in> set cs. storable env b" "length bs + length cs < 2 ^ 64"
  shows "holdsChain env view s' (bs @ cs) \<and> positioned s' \<and> tidy env view s' (bs @ cs)"
  using assms
proof (induction cs arbitrary: s bs)
  case (Cons b cs)
  then obtain s1 where s1: "Store_Commit env s (Some b) = (s1, Inr ())" "commitBlocks env s1 cs = (s', Inr ())"
    by (auto simp: sbind_Inr_iff)
  have "holdsChain env view s1 (bs @ [b])" "positioned s1" "tidy env view s1 (bs @ [b])"
    using commit_extends[OF s1(1) Cons.prems(2,3)] commit_tidy[OF s1(1) Cons.prems(2-4)] Cons.prems(5,6) by simp_all
  from Cons.IH[OF s1(2) this] show ?case
    using Cons.prems(5,6) by simp
qed simp

lemma new_store_chain:
  assumes "view d = Map.empty"
  shows "holdsChain env view (openNewStore d) []" "positioned (openNewStore d)" "tidy env view (openNewStore d) []"
  using assms by (auto simp: holdsChain_def wf_files_def openNewStore_def fileContent_def has_key_def positioned_def
      tidy_def wf_gomap_def split: if_splits)

text \<open>A new store after any run of commits.\<close>

lemma committed_chain:
  assumes "commitBlocks env (openNewStore d) bs = (s, Inr ())" "view d = Map.empty"
    and "\<forall>b \<in> set bs. storable env b" "length bs < 2 ^ 64"
  shows "holdsChain env view s bs" "positioned s" "tidy env view s bs"
  using commitBlocks_chain[OF assms(1) new_store_chain[OF assms(2)]] assms(3,4) by simp_all

end

end
