(* ===== verification/Block_Recovery.thy ===== *)
theory Block_Recovery
  imports Block_Chain Mem_DB
begin

text \<open>
  Opening an existing block store after a crash: \<^verbatim>\<open>openExistingStore\<close> and \<^verbatim>\<open>recover\<close> of
  \<^verbatim>\<open>internal/blockstore/open.go\<close> and the sequential reader of \<^verbatim>\<open>block_file_stream.go\<close>.
\<close>

section \<open>Reading blocks in sequence\<close>

record blockfileStream =
  fileChunkNum :: "64 word"
  stOffset :: nat
  remainingBytes :: int

record blockAndLocation =
  blBlock :: Block
  blFileChunkNum :: "64 word"
  blockStartOffset :: nat
  blockEndOffset :: nat

definition ErrUnexpectedEndOfBlockfile :: go_error where
  "ErrUnexpectedEndOfBlockfile = Err ''unexpected end of blockfile''"

definition newBlockfileStream ::
  "'d store_env \<Rightarrow> (string, bytes) gomap \<Rightarrow> BlockLocation \<Rightarrow> blockfileStream res" where
  "newBlockfileStream env dir startLocation =
     (let path = constructBlockFileChunkPath (FileChunkNum startLocation) in
      if \<not> has_key dir path then Inl (Err (''error opening block file '' @ path))
      else
        rbind (wrap (''error opening block file '' @ path) (fault (ioOpen (seIO env) path))) (\<lambda>_.
        rbind (wrap ''error getting block file stat'' (fault (ioStat (seIO env) path))) (\<lambda>_.
        Inr \<lparr>fileChunkNum = FileChunkNum startLocation, stOffset = Offset startLocation,
             remainingBytes = int (length (fileContent dir (FileChunkNum startLocation))) - int (Offset startLocation)\<rparr>)))"

definition moveToNextFileChunkIfExist ::
  "'d store_env \<Rightarrow> (string, bytes) gomap \<Rightarrow> blockfileStream \<Rightarrow> blockfileStream \<times> bool res" where
  "moveToNextFileChunkIfExist env dir s =
     (let path = constructBlockFileChunkPath (fileChunkNum s + 1);
          sz = length (fileContent dir (fileChunkNum s + 1)) in
      case ioExists (seIO env) path of
        Some e \<Rightarrow> (s, Inl e)
      | None \<Rightarrow>
          if \<not> has_key dir path then (s, Inr False)
          else
            sbind (sread s (wrap (''error opening block file '' @ path) (fault (ioOpen (seIO env) path)))) (\<lambda>s _.
            sbind (sread s (wrap ''error getting block file stat'' (fault (ioStat (seIO env) path)))) (\<lambda>s _.
            if sz = 0 then (s, Inr False)
            else
              sbind (sread s (wrap ''error while closing block file''
                (fault (ioClose (seIO env) (constructBlockFileChunkPath (fileChunkNum s)))))) (\<lambda>s _.
              (s\<lparr>fileChunkNum := fileChunkNum s + 1, stOffset := 0, remainingBytes := int sz\<rparr>, Inr True)))))"

text \<open>\<^verbatim>\<open>readNextBlockSize\<close>: the length in front of a block, from at most ten bytes.\<close>

definition readNextBlockSize ::
  "'d store_env \<Rightarrow> (string, bytes) gomap \<Rightarrow> blockfileStream \<Rightarrow> blockfileStream \<times> int res" where
  "readNextBlockSize env dir s =
     (let moreContentAvailable = (remainingBytes s \<ge> int MaxVarintLen64);
          peekBytes = (if moreContentAvailable then int MaxVarintLen64 else remainingBytes s);
          rest = drop (stOffset s) (fileContent dir (fileChunkNum s)) in
      if peekBytes < 0 \<or> int (length rest) < peekBytes then
        (s, Inl (Err (''error peeking ['' @ dec_int peekBytes @ ''] bytes from block file'')))
      else case DecodeVarint (seCodec env) (take (nat peekBytes) rest) of
        (len, n) \<Rightarrow>
          if n = 0 then
            (s, Inl (if \<not> moreContentAvailable then ErrUnexpectedEndOfBlockfile
               else Err ''error in decoding varint bytes representing the block length''))
          else (s\<lparr>remainingBytes := remainingBytes s - int n, stOffset := stOffset s + n\<rparr>, Inr (sint len)))"

definition readNextBlock ::
  "'d store_env \<Rightarrow> (string, bytes) gomap \<Rightarrow> blockfileStream \<Rightarrow> blockfileStream \<times> blockAndLocation option res" where
  "readNextBlock env dir s =
     (let startOffsetOfNextBlock = stOffset s in
      sbind (readNextBlockSize env dir s) (\<lambda>s blockSize.
      if blockSize > remainingBytes s then (s, Inl ErrUnexpectedEndOfBlockfile)
      else if blockSize < 0 then (s, Inl (Panic ''makeslice: len out of range''))
      else
        let rest = drop (stOffset s) (fileContent dir (fileChunkNum s)); blockBytes = take (nat blockSize) rest in
        if length rest < nat blockSize then (s, Inl (Err ''error while reading block from the file''))
        else
          let s = s\<lparr>stOffset := stOffset s + nat blockSize, remainingBytes := remainingBytes s - blockSize\<rparr> in
          sbind (sread s (wrap ''error while decoding the block using snappy compression'' (SnappyDecode (seCodec env) blockBytes))) (\<lambda>s marshaledBlock.
          sbind (sread s (wrap ''error while unmarshalling the block'' (UnmarshalBlock (seCodec env) marshaledBlock))) (\<lambda>s block.
          (s, Inr (Some \<lparr>blBlock = block, blFileChunkNum = fileChunkNum s,
             blockStartOffset = startOffsetOfNextBlock, blockEndOffset = stOffset s\<rparr>))))))"

definition nextBlockWithLocation ::
  "'d store_env \<Rightarrow> (string, bytes) gomap \<Rightarrow> blockfileStream \<Rightarrow> blockfileStream \<times> blockAndLocation option res" where
  "nextBlockWithLocation env dir s =
     (if remainingBytes s = 0 then
        sbind (moveToNextFileChunkIfExist env dir s) (\<lambda>s moved.
        if \<not> moved then (s, Inr None) else readNextBlock env dir s)
      else readNextBlock env dir s)"

section \<open>Recovery\<close>

definition getLastBlockLocationInIndex :: "'d store_env \<Rightarrow> 'd Store \<Rightarrow> (64 word \<times> BlockLocation option) res" where
  "getLastBlockLocationInIndex env s =
     (let entries = ldb_Range (seDB env) (blockIndexDB s) [] [] in
      if entries = [] then Inr (0, None)
      else case last entries of (key, val) \<Rightarrow>
        rbind (wrap ''error while decoding the last block index key'' (bs_decodeOrderPreservingVarUint64 (seCodec env) key)) (\<lambda>(blockNumber, _).
        rbind (wrap ''error while unmarshaling block location'' (UnmarshalLocation (seCodec env) val)) (\<lambda>blockLocation.
        Inr (blockNumber, Some blockLocation))))"

definition moveToChunk :: "'d store_env \<Rightarrow> 'd Store \<Rightarrow> 64 word \<Rightarrow> 'd Store \<times> unit res" where
  "moveToChunk env s chunkNum =
     (case ioClose (seIO env) (constructBlockFileChunkPath (currentChunkNum s)) of
        Some e \<Rightarrow> (s, Inl e)
      | None \<Rightarrow>
          let (dir, r) = openFileChunk env (chunkDir s) chunkNum in
          case r of
            Inl e \<Rightarrow> (s\<lparr>currentChunkNum := chunkNum\<rparr>, Inl e)
          | Inr _ \<Rightarrow> (s\<lparr>chunkDir := dir, currentChunkNum := chunkNum, filePos := 0, currentOffset := 0\<rparr>, Inr ()))"

definition removeChunk :: "'d store_env \<Rightarrow> 'd Store \<Rightarrow> string \<Rightarrow> 'd Store \<times> unit res" where
  "removeChunk env s path =
     (case ioRemove (seIO env) path of Some e \<Rightarrow> (s, Inl e) | None \<Rightarrow> (s\<lparr>chunkDir := gomap_delete (chunkDir s) path\<rparr>, Inr ()))"

text \<open>Going back from a chunk file that holds no complete block.\<close>

definition dropLastChunk :: "'d store_env \<Rightarrow> 'd Store \<Rightarrow> 64 word \<Rightarrow> 'd Store \<times> unit res" where
  "dropLastChunk env s chunkNum =
     (let newChunkFilePath = constructBlockFileChunkPath (currentChunkNum s) in
      sbind (moveToChunk env s chunkNum) (\<lambda>s _. removeChunk env s newChunkFilePath))"

definition recoverInSync :: "'d store_env \<Rightarrow> 'd Store \<Rightarrow> 64 word \<Rightarrow> BlockLocation option \<Rightarrow> 'd Store \<times> unit res" where
  "recoverInSync env s lastBlockNumberInIndex lastBlockLocation =
     (if lastBlockNumberInIndex = 0 then (s, Inr ())
      else
        let s = s\<lparr>lastCommittedBlockNum := lastBlockNumberInIndex\<rparr> in
        case lastBlockLocation of
          None \<Rightarrow> (s, Inl (Panic ''nil pointer dereference''))
        | Some loc \<Rightarrow>
            if currentChunkNum s - 1 = FileChunkNum loc then dropLastChunk env s (FileChunkNum loc)
            else
              let s = s\<lparr>currentOffset := Offset loc + LLength loc\<rparr> in
              sbind (Store_Get env s lastBlockNumberInIndex) (\<lambda>s block. storeMetadataInDB env s block loc))"

definition recoverUnindexed ::
  "'d store_env \<Rightarrow> 'd Store \<Rightarrow> blockfileStream \<Rightarrow> blockAndLocation \<Rightarrow> 'd Store \<times> unit res" where
  "recoverUnindexed env s stream nb =
     (case snd (nextBlockWithLocation env (chunkDir s) stream) of
        Inl e \<Rightarrow> (s, Inl e)
      | Inr (Some _) \<Rightarrow> (s, Inl (Err ''the block store can have exactly one fully committed block which is not indexed or exaclty one partially written block. Any other case is an unexpected behavior''))
      | Inr None \<Rightarrow>
          let location = \<lparr>FileChunkNum = blFileChunkNum nb, Offset = blockStartOffset nb,
                          LLength = blockEndOffset nb - blockStartOffset nb\<rparr> in
          sbind (storeMetadataInDB env s (blBlock nb) location) (\<lambda>s _.
          (s\<lparr>lastCommittedBlockNum := block_number (blBlock nb), currentOffset := blockEndOffset nb\<rparr>, Inr ())))"

definition recoverPartial :: "'d store_env \<Rightarrow> 'd Store \<Rightarrow> 64 word \<Rightarrow> BlockLocation option \<Rightarrow> 'd Store \<times> unit res" where
  "recoverPartial env s lastBlockNumberInIndex lastBlockLocation =
     (let s = s\<lparr>lastCommittedBlockNum := lastBlockNumberInIndex\<rparr> in
      case lastBlockLocation of
        None \<Rightarrow> (s, Inl (Panic ''nil pointer dereference''))
      | Some loc \<Rightarrow>
          let s = s\<lparr>currentOffset := Offset loc + LLength loc\<rparr> in
          if currentChunkNum s - 1 = FileChunkNum loc then dropLastChunk env s (FileChunkNum loc)
          else truncateCurrent env s (currentOffset s))"

definition Store_recover :: "'d store_env \<Rightarrow> 'd Store \<Rightarrow> 'd Store \<times> unit res" where
  "Store_recover env s =
     sbind (sread s (getLastBlockLocationInIndex env s)) (\<lambda>s (lastBlockNumberInIndex, lastBlockLocation).
     let startBlockLocation = (case lastBlockLocation of
            None \<Rightarrow> \<lparr>FileChunkNum = currentChunkNum s, Offset = 0, LLength = 0\<rparr>
          | Some loc \<Rightarrow> \<lparr>FileChunkNum = FileChunkNum loc, Offset = Offset loc + LLength loc, LLength = 0\<rparr>) in
     sbind (sread s (newBlockfileStream env (chunkDir s) startBlockLocation)) (\<lambda>s chunkFileStream.
     case nextBlockWithLocation env (chunkDir s) chunkFileStream of
       (st, Inr None) \<Rightarrow> recoverInSync env s lastBlockNumberInIndex lastBlockLocation
     | (st, Inr (Some nb)) \<Rightarrow> recoverUnindexed env s st nb
     | (st, Inl e) \<Rightarrow>
         if e = ErrUnexpectedEndOfBlockfile then recoverPartial env s lastBlockNumberInIndex lastBlockLocation
         else (s, Inl (wrap_error ''error while recovering block store'' e))))"

definition findAndOpenLastFileChunk ::
  "'d store_env \<Rightarrow> (string, bytes) gomap \<Rightarrow> (string, bytes) gomap \<times> (64 word) res" where
  "findAndOpenLastFileChunk env dir =
     (case ioReadDir (seIO env) of
        Some e \<Rightarrow> (dir, Inl (wrap_error ''error while listing file chunks'' e))
      | None \<Rightarrow>
          let lastChunkNum = of_nat (length dir) - 1 in
          sbind (openFileChunk env dir lastChunkNum) (\<lambda>dir _. (dir, Inr lastChunkNum)))"

text \<open>The disk a store is opened on: the chunk files and the three databases.\<close>

record 'd disk =
  dkChunks :: "(string, bytes) gomap"
  dkIndex :: 'd
  dkHeader :: 'd
  dkTx :: 'd

definition openExistingStore :: "'d store_env \<Rightarrow> 'd disk \<Rightarrow> ('d Store \<times> unit res) res" where
  "openExistingStore env dk =
     (let (dir, r) = findAndOpenLastFileChunk env (dkChunks dk) in
      rbind r (\<lambda>currentChunkNum.
      rbind (wrap ''error while getting the metadata of file'' (fault (ioStat (seIO env) (constructBlockFileChunkPath currentChunkNum)))) (\<lambda>_.
      Inr (Store_recover env
        \<lparr>chunkDir = dir, filePos = 0, currentOffset = length (fileContent dir currentChunkNum), currentChunkNum = currentChunkNum,
         lastCommittedBlockNum = 0, blockIndexDB = dkIndex dk, blockHeaderDB = dkHeader dk, txValidationInfoDB = dkTx dk\<rparr>))))"

section \<open>The last entry of the index\<close>

lemma sorted_wrt_last: "sorted_wrt R xs \<Longrightarrow> x \<in> set xs \<Longrightarrow> x = last xs \<or> R x (last xs)"
  by (induction xs) auto

context block_store
begin

lemma index_entries: "set (ldb_Range (seDB env) d [] []) = {(k, v). view d k = Some v}"
proof -
  have "\<not> bytes_less k []" for k
    by (cases k) simp_all
  then show ?thesis
    by (simp add: range_view in_range_def)
qed

lemma last_in_index:
  assumes "dom (view (blockIndexDB s)) = (\<lambda>i. blockKey env (of_nat (Suc i))) ` {i. i < n}" "n < 2 ^ 64"
  shows "n = 0 \<Longrightarrow> getLastBlockLocationInIndex env s = Inr (0, None)"
    and "view (blockIndexDB s) (blockKey env (of_nat n)) = Some lb \<Longrightarrow> UnmarshalLocation (seCodec env) lb = Inr loc \<Longrightarrow> 0 < n \<Longrightarrow>
      getLastBlockLocationInIndex env s = Inr (of_nat n, Some loc)"
proof -
  let ?es = "ldb_Range (seDB env) (blockIndexDB s) [] []"
  show "getLastBlockLocationInIndex env s = Inr (0, None)" if "n = 0"
  proof -
    have "set ?es = {}"
      using assms(1) that by (auto simp: index_entries)
    then show ?thesis
      by (simp add: getLastBlockLocationInIndex_def)
  qed
  show "getLastBlockLocationInIndex env s = Inr (of_nat n, Some loc)"
    if lb: "view (blockIndexDB s) (blockKey env (of_nat n)) = Some lb" and loc: "UnmarshalLocation (seCodec env) lb = Inr loc"
      and "0 < n"
  proof -
    have mem: "(blockKey env (of_nat n), lb) \<in> set ?es"
      using lb by (simp add: index_entries)
    then have ne: "?es \<noteq> []"
      by auto
    have "last ?es \<in> set ?es"
      using ne by simp
    then obtain k v where k: "last ?es = (k, v)" "view (blockIndexDB s) k = Some v"
      by (metis (mono_tags, lifting) index_entries case_prodD mem_Collect_eq surj_pair)
    then have "k \<in> dom (view (blockIndexDB s))"
      by blast
    then obtain i where "i < n" "k = blockKey env (of_nat (Suc i))"
      unfolding assms(1) by blast
    then have i: "last ?es = (blockKey env (of_nat (Suc i)), v)" "i < n" "view (blockIndexDB s) (blockKey env (of_nat (Suc i))) = Some v"
      using k by simp_all
    have u: "unat (of_nat (Suc i) :: 64 word) = Suc i" "unat (of_nat n :: 64 word) = n"
      unfolding unat_of_nat using i(2) assms(2) by (intro mod_less; simp)+
    have "Suc i = n"
    proof (rule ccontr)
      assume "Suc i \<noteq> n"
      then have "(of_nat n :: 64 word) \<noteq> of_nat (Suc i)"
        using u by metis
      then have "bytes_less (blockKey env (of_nat n)) (blockKey env (of_nat (Suc i)))"
        using sorted_wrt_last[OF range_sorted mem] i(1) by (auto simp: encode_inj)
      then have "(of_nat n :: 64 word) < of_nat (Suc i)"
        by (simp add: bytes_less_iff encode_less)
      then show False
        using u i(2) by (simp add: word_less_nat_alt)
    qed
    then have "last ?es = (blockKey env (of_nat n), lb)"
      using i lb by auto
    then show ?thesis
      using ne loc decode_encode[of "of_nat n" "[]"] by (simp add: getLastBlockLocationInIndex_def Let_def)
  qed
qed

section \<open>What the stream finds\<close>

text \<open>The record of a block: its length and its compressed bytes.\<close>

lemma record_cases:
  assumes "blockRecord env b = Inr c" "storable env b"
  obtains y n where "MarshalBlock (seCodec env) b = Inr y" "c = varint (unat n) @ SnappyEncode (seCodec env) y"
    "unat n = length (SnappyEncode (seCodec env) y)" "sint (n :: 64 word) = int (length (SnappyEncode (seCodec env) y))"
proof -
  obtain y where y: "MarshalBlock (seCodec env) b = Inr y" "length (SnappyEncode (seCodec env) y) \<le> maxAlloc"
      "c = varint (unat (of_nat (length (SnappyEncode (seCodec env) y)) :: 64 word)) @ SnappyEncode (seCodec env) y"
    using assms by (auto simp: blockRecord_def rbind_Inr_iff Let_def storable_def)
  let ?k = "length (SnappyEncode (seCodec env) y)"
  have k: "?k < 2 ^ 63"
    using y(2) by (simp add: maxAlloc_def)
  have "unat (of_nat ?k :: 64 word) = ?k"
    unfolding unat_of_nat using k by (intro mod_less) simp
  moreover have "sint (of_nat ?k :: 64 word) = int ?k"
    using k by (simp add: signed_of_nat signed_take_bit_int_eq_self)
  ultimately show ?thesis
    using that[OF y(1,3)] by simp
qed

lemma readNextBlock_full:
  assumes "blockRecord env b = Inr c" "storable env b"
    and "drop (stOffset s) (fileContent dir (fileChunkNum s)) = c" "remainingBytes s = int (length c)"
  shows "\<exists>s' b'. readNextBlock env dir s = (s', Inr (Some \<lparr>blBlock = b', blFileChunkNum = fileChunkNum s,
      blockStartOffset = stOffset s, blockEndOffset = stOffset s + length c\<rparr>)) \<and> beq b b'
    \<and> fileChunkNum s' = fileChunkNum s \<and> remainingBytes s' = 0"
proof -
  obtain y n where y: "MarshalBlock (seCodec env) b = Inr y" "c = varint (unat n) @ SnappyEncode (seCodec env) y"
    "unat n = length (SnappyEncode (seCodec env) y)" "sint (n :: 64 word) = int (length (SnappyEncode (seCodec env) y))"
    by (rule record_cases[OF assms(1,2)]) (rule that)
  let ?e = "SnappyEncode (seCodec env) y" and ?v = "varint (unat n)"
  obtain b' where b': "UnmarshalBlock (seCodec env) y = Inr b'" "beq b b'"
    using block_rt[OF y(1)] by blast
  have peek: "\<exists>r. take (nat (if remainingBytes s \<ge> int MaxVarintLen64 then int MaxVarintLen64 else remainingBytes s)) c = ?v @ r"
    using length_varint_word[of n] assms(4) y(2) by auto
  define s1 where "s1 = s\<lparr>remainingBytes := remainingBytes s - int (length ?v), stOffset := stOffset s + length ?v\<rparr>"
  let ?p = "if remainingBytes s \<ge> int MaxVarintLen64 then int MaxVarintLen64 else remainingBytes s"
  obtain r where r: "take (nat ?p) c = ?v @ r"
    using peek by blast
  have "\<not> (?p < 0 \<or> int (length c) < ?p)" "length ?v \<noteq> 0"
    using assms(4) by simp_all
  then have "readNextBlockSize env dir s = (s1, Inr (int (length ?e)))"
    unfolding readNextBlockSize_def Let_def assms(3) r decode_varint s1_def y(4)[symmetric] by simp
  moreover have "drop (stOffset s1) (fileContent dir (fileChunkNum s1)) = ?e"
    using arg_cong[OF assms(3), of "drop (length ?v)"] by (simp add: s1_def y(2) add.commute)
  moreover have "remainingBytes s1 = int (length ?e)"
    using assms(4) by (simp add: s1_def y(2))
  ultimately show ?thesis
    using b' by (simp add: readNextBlock_def Let_def snappy_rt) (simp add: s1_def y(2))
qed

lemma readNextBlock_partial:
  assumes "blockRecord env b = Inr c" "storable env b" "0 < n" "n < length c"
    and "drop (stOffset s) (fileContent dir (fileChunkNum s)) = take n c" "remainingBytes s = int n"
  shows "\<exists>s'. readNextBlock env dir s = (s', Inl ErrUnexpectedEndOfBlockfile)"
proof -
  obtain y k where y: "c = varint (unat k) @ SnappyEncode (seCodec env) y"
    "unat k = length (SnappyEncode (seCodec env) y)" "sint (k :: 64 word) = int (length (SnappyEncode (seCodec env) y))"
    using record_cases[OF assms(1,2)] by metis
  let ?e = "SnappyEncode (seCodec env) y" and ?v = "varint (unat k)"
  have lv: "length ?v \<le> MaxVarintLen64"
    by (rule length_varint_word)
  show ?thesis
  proof (cases "n < length ?v")
    case True
    then have "unvarint (take n c) = None" "n < MaxVarintLen64"
      using unvarint_prefix[of n "unat k"] lv by (simp_all add: y(1))
    then have "snd (DecodeVarint (seCodec env) (take n c)) = 0"
      using assms(4) by (intro decode_short) simp_all
    then show ?thesis
      using assms \<open>n < MaxVarintLen64\<close> by (auto simp: readNextBlock_def readNextBlockSize_def Let_def split: prod.splits)
  next
    case False
    have peek: "\<exists>r. take (nat (if remainingBytes s \<ge> int MaxVarintLen64 then int MaxVarintLen64 else remainingBytes s)) (take n c) = ?v @ r"
      using lv assms(4,6) False by (auto simp: y(1) min_def)
    let ?p = "if remainingBytes s \<ge> int MaxVarintLen64 then int MaxVarintLen64 else remainingBytes s"
    obtain r where r: "take (nat ?p) (take n c) = ?v @ r"
      using peek by blast
    have "\<not> (?p < 0 \<or> int (length (take n c)) < ?p)" "length ?v \<noteq> 0"
      using assms(4,6) by simp_all
    then have "readNextBlockSize env dir s = (s\<lparr>remainingBytes := remainingBytes s - int (length ?v), stOffset := stOffset s + length ?v\<rparr>, Inr (int (length ?e)))"
      unfolding readNextBlockSize_def Let_def assms(5) r decode_varint y(3)[symmetric] by simp
    moreover have "int n - int (length ?v) < int (length ?e)"
      using assms(4) by (simp add: y(1))
    ultimately show ?thesis
      using assms(6) by (simp add: readNextBlock_def Let_def)
  qed
qed

end

end
