(* ===== verification/Block_Crash.thy ===== *)
theory Block_Crash
  imports Block_Recovery
begin

text \<open>
  A crash in the middle of a commit, of the process or of the machine: the disks it can leave behind,
  on which of them opening the store gives the blocks before the commit or these and the committed
  block, and on which it fails.
\<close>

definition disk_of :: "'d Store \<Rightarrow> 'd disk" where
  "disk_of s = \<lparr>dkChunks = chunkDir s, dkIndex = blockIndexDB s, dkHeader = blockHeaderDB s, dkTx = txValidationInfoDB s\<rparr>"

text \<open>
  The disks during \<^verbatim>\<open>Commit\<close>: nothing written; the chunk file chosen, possibly created, and a part
  of the record written; the record written and each of the three databases updated or not. The
  databases are written with \<^verbatim>\<open>Sync: true\<close> while \<^verbatim>\<open>appendBlock\<close> does not flush the chunk file, so a failure of the
  machine can also leave any of the databases updated and only a part of the record in the file
  (\<open>unsynced\<close>). The records of the blocks before are taken to have reached the disk.
\<close>

inductive commitCrash :: "'d store_env \<Rightarrow> 'd Store \<Rightarrow> Block \<Rightarrow> 'd disk \<Rightarrow> bool" for env s b where
  untouched: "commitCrash env s b (disk_of s)"
| partial: "commitCrash env s b (disk_of (writeCurrent s1 (take n c)))"
  if "blockRecord env b = Inr c"
    "(if canCurrentFileChunkHold s (length c) then (s, Inr ()) else moveToNextFileChunk env s) = (s1, Inr ())" "n < length c"
| written: "commitCrash env s b \<lparr>dkChunks = chunkDir s2, dkIndex = d1, dkHeader = d2, dkTx = d3\<rparr>"
  if "blockRecord env b = Inr c"
    "(if canCurrentFileChunkHold s (length c) then (s, Inr ()) else moveToNextFileChunk env s) = (s1, Inr ())"
    "appendBlock env s1 (block_number b) c = (s2, Inr loc)"
    "MarshalLocation (seCodec env) loc = Inr lb" "headerBatch env b = Inr hb" "validationBatch env b = Inr vb"
    "d1 = blockIndexDB s \<or> ldb_Write (seDB env) (blockIndexDB s) [BPut (blockKey env (block_number b)) lb] = (d1, Inr ())"
    "d2 = blockHeaderDB s \<or> ldb_Write (seDB env) (blockHeaderDB s) hb = (d2, Inr ())"
    "d3 = txValidationInfoDB s \<or> ldb_Write (seDB env) (txValidationInfoDB s) vb = (d3, Inr ())"
| unsynced: "commitCrash env s b \<lparr>dkChunks = chunkDir (writeCurrent s1 (take n c)), dkIndex = d1, dkHeader = d2, dkTx = d3\<rparr>"
  if "blockRecord env b = Inr c"
    "(if canCurrentFileChunkHold s (length c) then (s, Inr ()) else moveToNextFileChunk env s) = (s1, Inr ())"
    "appendBlock env s1 (block_number b) c = (s2, Inr loc)" "n < length c"
    "MarshalLocation (seCodec env) loc = Inr lb" "headerBatch env b = Inr hb" "validationBatch env b = Inr vb"
    "d1 = blockIndexDB s \<or> ldb_Write (seDB env) (blockIndexDB s) [BPut (blockKey env (block_number b)) lb] = (d1, Inr ())"
    "d2 = blockHeaderDB s \<or> ldb_Write (seDB env) (blockHeaderDB s) hb = (d2, Inr ())"
    "d3 = txValidationInfoDB s \<or> ldb_Write (seDB env) (txValidationInfoDB s) vb = (d3, Inr ())"

text \<open>What a store serves: the blocks and their headers, up to the last committed number.\<close>

definition serves :: "'d store_env \<Rightarrow> ('d \<Rightarrow> bytes \<rightharpoonup> bytes) \<Rightarrow> 'd Store \<Rightarrow> Block list \<Rightarrow> bool" where
  "serves env view s bs \<longleftrightarrow> lastCommittedBlockNum s = of_nat (length bs)
     \<and> (\<forall>i < length bs. holdsBlock env view s (bs ! i) \<and> holdsHeader env view s (bs ! i))"

definition keeps :: "'d store_env \<Rightarrow> ('d \<Rightarrow> bytes \<rightharpoonup> bytes) \<Rightarrow> 'd Store \<Rightarrow> Block list \<Rightarrow> bool" where
  "keeps env view s bs \<longleftrightarrow> (\<forall>i < length bs. block_number (bs ! i) = of_nat (Suc i) \<and> storable env (bs ! i)
     \<and> holdsBlock env view s (bs ! i) \<and> holdsHeader env view s (bs ! i))"

text \<open>The system and the databases work.\<close>

definition no_faults :: "'d store_env \<Rightarrow> bool" where
  "no_faults env \<longleftrightarrow> (\<forall>p. ioExists (seIO env) p = None \<and> ioOpen (seIO env) p = None \<and> ioClose (seIO env) p = None
       \<and> ioStat (seIO env) p = None \<and> ioRead (seIO env) p = None \<and> ioRemove (seIO env) p = None)
     \<and> (\<forall>p n. ioTruncate (seIO env) p n = None) \<and> ioReadDir (seIO env) = None
     \<and> (\<forall>d b. snd (ldb_Write (seDB env) d b) = Inr ()) \<and> (\<forall>l. \<exists>y. MarshalLocation (seCodec env) l = Inr y)"

lemma no_faultsD:
  assumes "no_faults env"
  shows "ioExists (seIO env) p = None" "ioOpen (seIO env) p = None" "ioClose (seIO env) p = None"
    "ioStat (seIO env) p = None" "ioRead (seIO env) p = None" "ioRemove (seIO env) p = None"
    "ioTruncate (seIO env) p n = None" "ioReadDir (seIO env) = None" "snd (ldb_Write (seDB env) d b) = Inr ()"
  using assms by (simp_all add: no_faults_def)

text \<open>Where recovery starts reading.\<close>

definition startAt :: "'d Store \<Rightarrow> BlockLocation option \<Rightarrow> blockfileStream" where
  "startAt s l = (case l of
     None \<Rightarrow> \<lparr>fileChunkNum = currentChunkNum s, stOffset = 0, remainingBytes = int (length (currentFile s))\<rparr>
   | Some loc \<Rightarrow> \<lparr>fileChunkNum = FileChunkNum loc, stOffset = Offset loc + LLength loc,
       remainingBytes = int (length (fileContent (chunkDir s) (FileChunkNum loc))) - int (Offset loc + LLength loc)\<rparr>)"

text \<open>The store that is opened on a disk.\<close>

definition openedOn :: "'d disk \<Rightarrow> 64 word \<Rightarrow> 'd Store" where
  "openedOn dk n = \<lparr>chunkDir = dkChunks dk, filePos = 0, currentOffset = length (fileContent (dkChunks dk) n), currentChunkNum = n,
     lastCommittedBlockNum = 0, blockIndexDB = dkIndex dk, blockHeaderDB = dkHeader dk, txValidationInfoDB = dkTx dk\<rparr>"

lemma openedOn_simps [simp]:
  "chunkDir (openedOn dk n) = dkChunks dk" "currentChunkNum (openedOn dk n) = n" "blockIndexDB (openedOn dk n) = dkIndex dk"
  "blockHeaderDB (openedOn dk n) = dkHeader dk" "currentOffset (openedOn dk n) = length (fileContent (dkChunks dk) n)"
  "lastCommittedBlockNum (openedOn dk n) = 0"
  by (simp_all add: openedOn_def)

text \<open>The last location in the index ends behind the end of its chunk file.\<close>

definition indexAhead :: "'d store_env \<Rightarrow> 'd disk \<Rightarrow> bool" where
  "indexAhead env dk = (case getLastBlockLocationInIndex env (openedOn dk 0) of
     Inr (_, Some loc) \<Rightarrow> length (fileContent (dkChunks dk) (FileChunkNum loc)) < Offset loc + LLength loc
   | _ \<Rightarrow> False)"

lemma stream_behind_end:
  assumes "remainingBytes st < 0"
  obtains e where "nextBlockWithLocation env dir st = (st, Inl e)" "e \<noteq> ErrUnexpectedEndOfBlockfile"
  using assms that by (simp add: nextBlockWithLocation_def readNextBlock_def readNextBlockSize_def Let_def ErrUnexpectedEndOfBlockfile_def MaxVarintLen64_def)

lemma recover_behind_end:
  assumes "getLastBlockLocationInIndex env s = Inr (n, Some loc)"
    and "length (fileContent (chunkDir s) (FileChunkNum loc)) < Offset loc + LLength loc"
  obtains s' e where "Store_recover env s = (s', Inl e)"
proof (cases "newBlockfileStream env (chunkDir s) \<lparr>FileChunkNum = FileChunkNum loc, Offset = Offset loc + LLength loc, LLength = 0\<rparr>")
  case (Inl e)
  then show ?thesis
    using assms(1) that by (simp add: Store_recover_def Let_def)
next
  case (Inr st)
  then have "remainingBytes st < 0"
    using assms(2) by (auto simp: newBlockfileStream_def Let_def rbind_Inr_iff split: if_splits)
  then obtain e where "nextBlockWithLocation env (chunkDir s) st = (st, Inl e)" "e \<noteq> ErrUnexpectedEndOfBlockfile"
    by (rule stream_behind_end)
  then show ?thesis
    using assms(1) Inr that by (simp add: Store_recover_def Let_def)
qed

lemma indexAhead_fails:
  assumes "indexAhead env dk"
  shows "openExistingStore env dk \<noteq> Inr (s', Inr ())"
proof
  assume ok: "openExistingStore env dk = Inr (s', Inr ())"
  obtain dir r where dir: "findAndOpenLastFileChunk env (dkChunks dk) = (dir, r)"
    by fastforce
  have same: "fileContent dir j = fileContent (dkChunks dk) j" for j
  proof -
    obtain dir' r' where o: "openFileChunk env (dkChunks dk) (of_nat (length (dkChunks dk)) - 1) = (dir', r')"
      by fastforce
    have "dir = dkChunks dk \<or> dir = dir'"
      using dir o by (cases r') (auto simp: findAndOpenLastFileChunk_def Let_def split: option.splits)
    then show ?thesis
      using openFileChunk_facts[OF o] by auto
  qed
  from assms obtain n loc where loc: "getLastBlockLocationInIndex env (openedOn dk 0) = Inr (n, Some loc)"
      "length (fileContent dir (FileChunkNum loc)) < Offset loc + LLength loc"
    by (auto simp: indexAhead_def same split: sum.splits option.splits)
  from ok dir obtain s where s: "Store_recover env s = (s', Inr ())" "chunkDir s = dir" "blockIndexDB s = dkIndex dk"
    by (auto simp: openExistingStore_def rbind_Inr_iff)
  have "getLastBlockLocationInIndex env s = Inr (n, Some loc)"
    using loc(1) s(3) by (simp add: getLastBlockLocationInIndex_def)
  then obtain s'' e where "Store_recover env s = (s'', Inl e)"
    by (rule recover_behind_end) (simp_all add: loc(2) s(2))
  then show False
    using s(1) by simp
qed

section \<open>Metadata written again\<close>

lemma payload_ids_determine:
  assumes "payloadIDs p = payloadIDs q"
  shows "BlockPayloadToTxIDs p = BlockPayloadToTxIDs q"
proof -
  have data: "dataTxIDs i es = dataTxIDs i es'" if "map (\<lambda>e. DTxId (DPayload e)) es = map (\<lambda>e. DTxId (DPayload e)) es'" for i es es'
    using that
  proof (induction es arbitrary: es' i)
    case (Cons e es)
    then obtain e' fs where "es' = e' # fs" "DTxId (DPayload e) = DTxId (DPayload e')"
        "map (\<lambda>e. DTxId (DPayload e)) es = map (\<lambda>e. DTxId (DPayload e)) fs"
      by auto
    then show ?case
      using Cons.IH[of fs "Suc i"] by simp
  qed simp
  show ?thesis
    using assms by (auto simp: payloadIDs_def BlockPayloadToTxIDs_def split: option.splits Payload.splits dest: data[where i = 0])
qed

context block_store
begin

lemma headerBatch_beq:
  assumes "beq b b'"
  shows "headerBatch env b' = headerBatch env b"
proof -
  have eq: "header_eq (Header b) (Header b')" "base_eq (BaseHeader (Header b)) (BaseHeader (Header b'))"
      "block_number b' = block_number b" "payloadIDs (BPayload b) = payloadIDs (BPayload b')"
    using block_eq[OF assms] by (simp_all add: header_eq_def base_eq_def)
  show ?thesis
    unfolding headerBatch_def Let_def header_det[OF eq(1)] base_det[OF eq(2)] eq(3) payload_ids_determine[OF eq(4)] ..
qed

lemma validationBatch_beq:
  assumes "beq b b'"
  shows "validationBatch env b' = validationBatch env b"
proof -
  have eq: "block_number b' = block_number b" "HValidationInfo (Header b') = HValidationInfo (Header b)"
      "payloadIDs (BPayload b) = payloadIDs (BPayload b')"
    using block_eq[OF assms] by (simp_all add: header_eq_def base_eq_def)
  have at: "validationAt b' i = validationAt b i" for i
    using eq by (simp add: validationAt_def)
  have data: "txInfoBatch env b' i es' = txInfoBatch env b i es"
    if "map (\<lambda>e. DTxId (DPayload e)) es = map (\<lambda>e. DTxId (DPayload e)) es'" for i es es'
    using that by (induction es arbitrary: es' i) (auto simp: at eq(1))
  have one: "nonDataTxBatch env b' t = nonDataTxBatch env b t" for t
    by (simp add: nonDataTxBatch_def at eq(1))
  show ?thesis
    using eq(3) one by (auto simp: payloadIDs_def validationBatch_def split: option.splits Payload.splits intro: data)
qed

lemma metadata_succeeds:
  assumes "no_faults env" "headerBatch env b = Inr hb" "validationBatch env b = Inr vb"
  obtains s' where "storeMetadataInDB env s b loc = (s', Inr ())"
proof -
  obtain lb where lb: "MarshalLocation (seCodec env) loc = Inr lb"
    using assms(1) unfolding no_faults_def by blast
  have w: "\<exists>d'. ldb_Write (seDB env) d x = (d', Inr ())" for d x
    using no_faultsD(9)[OF assms(1), of d x] by (metis prod.collapse)
  obtain d1 where "ldb_Write (seDB env) (blockIndexDB s) [BPut (blockKey env (block_number b)) lb] = (d1, Inr ())"
    using w by blast
  then have 1: "storeIndexForBlock env s (block_number b) loc = (s\<lparr>blockIndexDB := d1\<rparr>, Inr ())"
    using lb by (simp add: storeIndexForBlock_def)
  let ?s = "s\<lparr>blockIndexDB := d1\<rparr>"
  obtain d2 where "ldb_Write (seDB env) (txValidationInfoDB ?s) vb = (d2, Inr ())"
    using w by blast
  then have 2: "storeBlockValidationInfo env ?s b = (?s\<lparr>txValidationInfoDB := d2\<rparr>, Inr ())"
    using assms(3) by (simp add: storeBlockValidationInfo_def)
  let ?t = "?s\<lparr>txValidationInfoDB := d2\<rparr>"
  obtain d3 where "ldb_Write (seDB env) (blockHeaderDB ?t) hb = (d3, Inr ())"
    using w by blast
  then have 3: "storeBlockHeaders env ?t b = (?t\<lparr>blockHeaderDB := d3\<rparr>, Inr ())"
    using assms(2) by (simp add: storeBlockHeaders_def)
  have "storeMetadataInDB env s b loc = (?t\<lparr>blockHeaderDB := d3\<rparr>, Inr ())"
    unfolding storeMetadataInDB_def 1 Let_def prod.case 2 3 by (simp add: firstError_ok)
  then show ?thesis
    by (rule that)
qed

text \<open>Writing the metadata of a block again, from a copy, on databases that may already have it.\<close>

lemma block_numbers_differ:
  assumes "i < n" "Suc n < 2 ^ 64"
  shows "(of_nat (Suc i) :: 64 word) \<noteq> of_nat (Suc n)"
proof -
  have "unat (of_nat (Suc i) :: 64 word) = Suc i" "unat (of_nat (Suc n) :: 64 word) = Suc n"
    unfolding unat_of_nat using assms by (intro mod_less; simp)+
  then show ?thesis
    using assms(1) by (metis less_irrefl Suc_inject)
qed

lemma rewrite_metadata:
  assumes "storeMetadataInDB env s b' loc = (s', Inr ())" "beq b b'" "keeps env view s bs"
    and "block_number b = of_nat (Suc (length bs))" "Suc (length bs) < 2 ^ 64" "blockRecord env b = Inr c" "LLength loc = length c"
    and "has_key (chunkDir s) (constructBlockFileChunkPath (FileChunkNum loc))"
    and "record_at (fileContent (chunkDir s) (FileChunkNum loc)) (Offset loc) c"
  shows "keeps env view s' bs \<and> holdsBlock env view s' b \<and> holdsHeader env view s' b"
proof -
  have num: "block_number b' = block_number b"
    using block_eq[OF assms(2)] by (simp add: header_eq_def base_eq_def)
  from metadata_ok[OF assms(1)] obtain lb hb where m: "MarshalLocation (seCodec env) loc = Inr lb"
      "view (blockIndexDB s') = (view (blockIndexDB s))(blockKey env (block_number b) \<mapsto> lb)"
      "headerBatch env b' = Inr hb" "view (blockHeaderDB s') = apply_batch hb (view (blockHeaderDB s))"
      "chunkDir s' = chunkDir s"
    unfolding num by metis
  have hb: "headerBatch env b = Inr hb"
    using m(3) headerBatch_beq[OF assms(2)] by simp
  have "holdsBlock env view s' b"
    unfolding holdsBlock_def using m(2,5) location_rt[OF m(1)] assms(6-9) by auto
  moreover have "holdsHeader env view s' b"
    using headerBatch_own[OF hb m(4)] .
  moreover have "holdsBlock env view s' (bs ! i) \<and> holdsHeader env view s' (bs ! i)" if "i < length bs" for i
  proof -
    have i: "block_number (bs ! i) = of_nat (Suc i)" "holdsBlock env view s (bs ! i)" "holdsHeader env view s (bs ! i)"
      using assms(3) that by (simp_all add: keeps_def)
    then have neq: "block_number (bs ! i) \<noteq> block_number b"
      using block_numbers_differ[OF that assms(5)] assms(4) by metis
    have "grown s s'"
      using m(5) by (simp add: grown_def)
    from holdsBlock_grown[OF i(2) this] show ?thesis
      using headerBatch_other[OF hb m(4) i(3) neq] m(2) neq by (simp add: encode_inj)
  qed
  ultimately show ?thesis
    using assms(3) by (simp add: keeps_def)
qed

lemma serves_snoc:
  assumes "keeps env view s bs" "holdsBlock env view s b" "holdsHeader env view s b" "lastCommittedBlockNum s = of_nat (Suc (length bs))"
  shows "serves env view s (bs @ [b])"
  unfolding serves_def using assms by (auto simp: keeps_def nth_append less_Suc_eq)

lemma keeps_fields:
  assumes "keeps env view s bs" "chunkDir s' = chunkDir s" "blockIndexDB s' = blockIndexDB s" "blockHeaderDB s' = blockHeaderDB s"
  shows "keeps env view s' bs"
  using assms unfolding keeps_def holdsBlock_def holdsHeader_def by metis

lemma keeps_grown:
  assumes "keeps env view s bs" "grown s s'" "blockIndexDB s' = blockIndexDB s" "blockHeaderDB s' = blockHeaderDB s"
  shows "keeps env view s' bs"
  using assms holdsBlock_grown[OF _ assms(2)] unfolding keeps_def holdsHeader_def by metis

section \<open>What the stream meets\<close>

lemma stream_none:
  assumes "no_faults env" "remainingBytes st = 0"
    and "has_key dir (constructBlockFileChunkPath (fileChunkNum st + 1)) \<Longrightarrow> fileContent dir (fileChunkNum st + 1) = []"
  shows "nextBlockWithLocation env dir st = (st, Inr None)"
  using assms(2,3) no_faultsD[OF assms(1)]
  by (simp add: nextBlockWithLocation_def moveToNextFileChunkIfExist_def Let_def)

lemma stream_move:
  assumes "no_faults env" "remainingBytes st = 0"
    and "has_key dir (constructBlockFileChunkPath (fileChunkNum st + 1))" "fileContent dir (fileChunkNum st + 1) \<noteq> []"
  shows "nextBlockWithLocation env dir st = readNextBlock env dir
    (st\<lparr>fileChunkNum := fileChunkNum st + 1, stOffset := 0, remainingBytes := int (length (fileContent dir (fileChunkNum st + 1)))\<rparr>)"
  using assms(2-4) no_faultsD[OF assms(1)]
  by (simp add: nextBlockWithLocation_def moveToNextFileChunkIfExist_def Let_def)

lemma newStream:
  assumes "no_faults env" "has_key dir (constructBlockFileChunkPath (FileChunkNum loc))"
  shows "newBlockfileStream env dir loc = Inr \<lparr>fileChunkNum = FileChunkNum loc, stOffset = Offset loc,
    remainingBytes = int (length (fileContent dir (FileChunkNum loc))) - int (Offset loc)\<rparr>"
  using assms(2) no_faultsD[OF assms(1)] by (simp add: newBlockfileStream_def Let_def)

text \<open>The length of a record is positive.\<close>

lemma record_nonempty: "blockRecord env b = Inr c \<Longrightarrow> c \<noteq> []"
  by (auto simp: blockRecord_def rbind_Inr_iff Let_def)

lemma recover_eq:
  assumes "no_faults env" "getLastBlockLocationInIndex env s = Inr (n, l)"
    and "has_key (chunkDir s) (constructBlockFileChunkPath (case l of None \<Rightarrow> currentChunkNum s | Some loc \<Rightarrow> FileChunkNum loc))"
  shows "Store_recover env s = (case nextBlockWithLocation env (chunkDir s) (startAt s l) of
       (st, Inr None) \<Rightarrow> recoverInSync env s n l
     | (st, Inr (Some nb)) \<Rightarrow> recoverUnindexed env s st nb
     | (st, Inl e) \<Rightarrow>
         if e = ErrUnexpectedEndOfBlockfile then recoverPartial env s n l
         else (s, Inl (wrap_error ''error while recovering block store'' e)))"
proof (cases l)
  case None
  show ?thesis
    using assms(2,3) unfolding None by (simp add: Store_recover_def Let_def newStream[OF assms(1)] startAt_def)
next
  case (Some loc)
  show ?thesis
    using assms(2,3) unfolding Some by (simp add: Store_recover_def Let_def newStream[OF assms(1)] startAt_def)
qed

section \<open>The ways recovery ends\<close>

text \<open>Index and files agree: the metadata of the last block is written again.\<close>

lemma recover_last_block:
  assumes "no_faults env" "keeps env view s bs" "holdsBlock env view s b" "storable env b"
    and "block_number b = of_nat (Suc (length bs))" "Suc (length bs) < 2 ^ 64" "headerBatch env b = Inr hb" "validationBatch env b = Inr vb"
    and "dom (view (blockIndexDB s)) = (\<lambda>i. blockKey env (of_nat (Suc i))) ` {i. i < Suc (length bs)}"
    and "getLocation env s (block_number b) = Inr loc" "FileChunkNum loc = currentChunkNum s"
    and "Offset loc + LLength loc = length (currentFile s)"
    and "\<not> has_key (chunkDir s) (constructBlockFileChunkPath (currentChunkNum s + 1))"
  shows "\<exists>s'. Store_recover env s = (s', Inr ()) \<and> serves env view s' (bs @ [b])"
proof -
  obtain lb loc' c where l: "view (blockIndexDB s) (blockKey env (block_number b)) = Some lb"
      "UnmarshalLocation (seCodec env) lb = Inr loc'" "blockRecord env b = Inr c" "LLength loc' = length c"
      "has_key (chunkDir s) (constructBlockFileChunkPath (FileChunkNum loc'))"
      "record_at (fileContent (chunkDir s) (FileChunkNum loc')) (Offset loc') c"
    using assms(3) unfolding holdsBlock_def by blast
  have eq: "loc' = loc"
    using l(1,2) assms(10) by (simp add: getLocation_def get_view Let_def)
  note l = l[unfolded eq]
  have "getLastBlockLocationInIndex env s = Inr (block_number b, Some loc)"
    using last_in_index(2)[OF assms(9,6)] l(1,2) assms(5) by simp
  note rec = recover_eq[OF assms(1) this]
  have "nextBlockWithLocation env (chunkDir s) (startAt s (Some loc)) = (startAt s (Some loc), Inr None)"
    using assms(11-13) by (intro stream_none[OF assms(1)]) (simp_all add: startAt_def)
  then have r1: "Store_recover env s = recoverInSync env s (block_number b) (Some loc)"
    using rec l(5) by simp
  let ?s = "s\<lparr>lastCommittedBlockNum := block_number b, currentOffset := Offset loc + LLength loc\<rparr>"
  have nz: "block_number b \<noteq> 0"
  proof
    have "unat (of_nat (Suc (length bs)) :: 64 word) = Suc (length bs)"
      unfolding unat_of_nat using assms(6) by (intro mod_less) simp
    moreover assume "block_number b = 0"
    ultimately show False
      using assms(5) by simp
  qed
  have "holdsBlock env view ?s b"
    using assms(3) by (simp add: holdsBlock_def)
  then obtain s1 b' where s1: "Store_Get env ?s (block_number b) = (s1, Inr b')" "beq b b'"
    using holds_read[of ?s b] assms(4) no_faultsD[OF assms(1)] by auto
  have "currentChunkNum s - 1 \<noteq> FileChunkNum loc"
    using assms(11) by simp
  then have r2: "Store_recover env s = storeMetadataInDB env s1 b' loc"
    using r1 nz s1 by (simp add: recoverInSync_def Let_def)
  obtain s2 where s2: "storeMetadataInDB env s1 b' loc = (s2, Inr ())"
    by (rule metadata_succeeds[OF assms(1), of b' hb vb])
      (use assms(7,8) headerBatch_beq[OF s1(2)] validationBatch_beq[OF s1(2)] in simp_all)
  note keep = Get_keeps[OF s1(1)]
  have "grown s s1"
    using keep(1,8) by (simp add: grown_def)
  then have k1: "keeps env view s1 bs"
    using keeps_grown[OF assms(2)] keep(5,6) by simp
  have "keeps env view s2 bs \<and> holdsBlock env view s2 b \<and> holdsHeader env view s2 b"
    using l(3,4,5,6) keep(1,8) by (intro rewrite_metadata[OF s2 s1(2) k1 assms(5,6) l(3)]) simp_all
  moreover have "lastCommittedBlockNum s2 = of_nat (Suc (length bs))"
  proof -
    have "lastCommittedBlockNum s2 = lastCommittedBlockNum s1"
      by (rule metadata_ok[OF s2])
    then show ?thesis
      using keep(4) assms(5) by simp
  qed
  ultimately show ?thesis
    using r2 s2 serves_snoc by metis
qed

text \<open>A complete block that the index does not have.\<close>

lemma recover_new_block:
  assumes "no_faults env" "keeps env view s bs" "blockRecord env b = Inr c" "beq b b'"
    and "block_number b = of_nat (Suc (length bs))" "Suc (length bs) < 2 ^ 64" "headerBatch env b = Inr hb" "validationBatch env b = Inr vb"
    and "getLastBlockLocationInIndex env s = Inr (n, l)"
    and "has_key (chunkDir s) (constructBlockFileChunkPath (case l of None \<Rightarrow> currentChunkNum s | Some loc \<Rightarrow> FileChunkNum loc))"
    and "nextBlockWithLocation env (chunkDir s) (startAt s l) = (st, Inr (Some \<lparr>blBlock = b', blFileChunkNum = k,
      blockStartOffset = pos, blockEndOffset = pos + length c\<rparr>))" "fileChunkNum st = k" "remainingBytes st = 0"
    and "has_key (chunkDir s) (constructBlockFileChunkPath k)" "record_at (fileContent (chunkDir s) k) pos c"
    and "\<not> has_key (chunkDir s) (constructBlockFileChunkPath (k + 1))"
  shows "\<exists>s'. Store_recover env s = (s', Inr ()) \<and> serves env view s' (bs @ [b])
    \<and> filePos s' = filePos s \<and> currentOffset s' = pos + length c \<and> currentChunkNum s' = currentChunkNum s \<and> chunkDir s' = chunkDir s"
proof -
  let ?nb = "\<lparr>blBlock = b', blFileChunkNum = k, blockStartOffset = pos, blockEndOffset = pos + length c\<rparr>"
  let ?loc = "\<lparr>FileChunkNum = k, Offset = pos, LLength = length c\<rparr>"
  have rec: "Store_recover env s = recoverUnindexed env s st ?nb"
    using recover_eq[OF assms(1,9,10)] assms(11) by simp
  have none: "nextBlockWithLocation env (chunkDir s) st = (st, Inr None)"
    using assms(12,13,16) by (intro stream_none[OF assms(1)]) simp_all
  obtain s2 where s2: "storeMetadataInDB env s b' ?loc = (s2, Inr ())"
    by (rule metadata_succeeds[OF assms(1), of b' hb vb])
      (use assms(7,8) headerBatch_beq[OF assms(4)] validationBatch_beq[OF assms(4)] in simp_all)
  have k2: "keeps env view s2 bs \<and> holdsBlock env view s2 b \<and> holdsHeader env view s2 b"
    using assms(14,15) by (intro rewrite_metadata[OF s2 assms(4,2,5,6,3)]) simp_all
  have num: "block_number b' = of_nat (Suc (length bs))"
    using block_eq[OF assms(4)] assms(5) by (simp add: header_eq_def base_eq_def)
  let ?s = "s2\<lparr>lastCommittedBlockNum := block_number b', currentOffset := pos + length c\<rparr>"
  have "Store_recover env s = (?s, Inr ())"
    unfolding rec recoverUnindexed_def using none s2 by simp
  moreover have "serves env view ?s (bs @ [b])"
  proof (rule serves_snoc)
    show "keeps env view ?s bs"
      by (rule keeps_fields[of s2]) (simp_all add: k2)
    show "holdsBlock env view ?s b" "holdsHeader env view ?s b"
      using k2 by (simp_all add: holdsBlock_def holdsHeader_def)
  qed (use num in simp)
  moreover have "filePos s2 = filePos s" "currentChunkNum s2 = currentChunkNum s" "chunkDir s2 = chunkDir s"
    by (rule metadata_ok[OF s2], assumption)+
  ultimately show ?thesis
    by auto
qed

text \<open>Nothing to keep after the last indexed block: the chunk is truncated, or dropped when it is a new one.\<close>

lemma serves_keeps: "keeps env view s bs \<Longrightarrow> lastCommittedBlockNum s = of_nat (length bs) \<Longrightarrow> serves env view s bs"
  by (simp add: keeps_def serves_def)

lemma truncate_back:
  assumes "no_faults env" "keeps env view s0 bs" "blockIndexDB s = blockIndexDB s0" "blockHeaderDB s = blockHeaderDB s0"
    and "FileChunkNum loc = currentChunkNum s" "Offset loc + LLength loc = length (fileContent (chunkDir s0) (currentChunkNum s))"
    and "\<And>k. fileContent (chunkDir s) k = fileContent (chunkDir s0) k @ (if k = currentChunkNum s then g else [])"
    and "\<And>x. has_key (chunkDir s0) x \<Longrightarrow> has_key (chunkDir s) x"
  shows "\<exists>s'. recoverPartial env s (of_nat (length bs)) (Some loc) = (s', Inr ()) \<and> serves env view s' bs"
proof -
  let ?s = "s\<lparr>lastCommittedBlockNum := of_nat (length bs), currentOffset := Offset loc + LLength loc\<rparr>"
  obtain s' where s': "truncateCurrent env ?s (Offset loc + LLength loc) = (s', Inr ())"
    using no_faultsD(7)[OF assms(1)] by (auto simp: truncateCurrent_def Let_def)
  have "currentChunkNum s - 1 \<noteq> FileChunkNum loc"
    using assms(5) by simp
  then have "recoverPartial env s (of_nat (length bs)) (Some loc) = (s', Inr ())"
    using s' by (simp add: recoverPartial_def Let_def)
  moreover have f: "s' = ?s\<lparr>chunkDir := gomap_put (chunkDir s) (constructBlockFileChunkPath (currentChunkNum s))
      (fileContent (chunkDir s0) (currentChunkNum s)), filePos := Offset loc + LLength loc\<rparr>"
    using s' no_faultsD(7)[OF assms(1)] assms(6,7) by (simp add: truncateCurrent_def Let_def)
  then have "grown s0 s'"
    using assms(7,8) by (simp add: grown_def)
  then have "keeps env view s' bs"
    using keeps_grown[OF assms(2)] assms(3,4) by (simp add: f)
  then have "serves env view s' bs"
    using f by (intro serves_keeps) simp_all
  ultimately show ?thesis
    by blast
qed

lemma drop_back:
  assumes "no_faults env" "keeps env view s0 bs" "blockIndexDB s = blockIndexDB s0" "blockHeaderDB s = blockHeaderDB s0"
    and "currentChunkNum s = k + 1" "\<not> has_key (chunkDir s0) (constructBlockFileChunkPath (k + 1))"
    and "has_key (chunkDir s0) (constructBlockFileChunkPath k)"
    and "\<And>j. j \<noteq> k + 1 \<Longrightarrow> fileContent (chunkDir s) j = fileContent (chunkDir s0) j"
    and "\<And>x. has_key (chunkDir s0) x \<Longrightarrow> has_key (chunkDir s) x" "lastCommittedBlockNum s = of_nat (length bs)"
  shows "\<exists>s'. dropLastChunk env s k = (s', Inr ()) \<and> serves env view s' bs"
proof -
  let ?path = "constructBlockFileChunkPath (k + 1)"
  let ?s = "s\<lparr>currentChunkNum := k, filePos := 0, currentOffset := 0, chunkDir := gomap_delete (chunkDir s) ?path\<rparr>"
  have "openFileChunk env (chunkDir s) k = (chunkDir s, Inr ())"
    using assms(7,9) no_faultsD[OF assms(1)] by (simp add: openFileChunk_def)
  then have "dropLastChunk env s k = (?s, Inr ())"
    using assms(5) no_faultsD[OF assms(1)] by (simp add: dropLastChunk_def moveToChunk_def removeChunk_def Let_def)
  moreover have "grown s0 ?s"
  proof -
    have "fileContent (gomap_delete (chunkDir s) ?path) j = fileContent (chunkDir s0) j" for j
      using assms(6,8) fileContent_absent[OF assms(6)] by (cases "j = k + 1") (simp_all add: fileContent_def)
    moreover have "has_key (gomap_delete (chunkDir s) ?path) x" if "has_key (chunkDir s0) x" for x
      using assms(6) assms(9)[OF that] that by (auto simp: has_key_def)
    ultimately show ?thesis
      by (simp add: grown_def)
  qed
  then have "keeps env view ?s bs"
    using keeps_grown[OF assms(2)] assms(3,4) by simp
  then have "serves env view ?s bs"
    using assms(10) by (intro serves_keeps) simp_all
  ultimately show ?thesis
    by blast
qed

section \<open>Opening after a crash\<close>

lemma card_upto: "card {k :: 64 word. k \<le> n} = Suc (unat n)"
proof -
  have "unat ` {k :: 64 word. k \<le> n} = {..unat n}"
  proof (intro equalityI subsetI)
    fix i assume "i \<in> {..unat n}"
    then have i: "unat (of_nat i :: 64 word) = i"
      unfolding unat_of_nat using unsigned_less[of n, where 'a = nat] by (intro mod_less) simp
    then have "of_nat i \<in> {k. k \<le> n}"
      using \<open>i \<in> {..unat n}\<close> by (simp add: word_le_nat_alt)
    then show "i \<in> unat ` {k :: 64 word. k \<le> n}"
      using i by force
  qed (auto simp: word_le_nat_alt)
  then have "card {..unat n} = card {k :: 64 word. k \<le> n}"
    by (metis card_image inj_onI word_unat_eq_iff)
  then show ?thesis
    by simp
qed

lemma open_eq:
  assumes "no_faults env" "wf_gomap (dkChunks dk)" "fst ` set (dkChunks dk) = constructBlockFileChunkPath ` {k. k \<le> n}"
  shows "openExistingStore env dk = Inr (Store_recover env
    \<lparr>chunkDir = dkChunks dk, filePos = 0, currentOffset = length (fileContent (dkChunks dk) n), currentChunkNum = n,
     lastCommittedBlockNum = 0, blockIndexDB = dkIndex dk, blockHeaderDB = dkHeader dk, txValidationInfoDB = dkTx dk\<rparr>)"
proof -
  have "length (dkChunks dk) = card (fst ` set (dkChunks dk))"
    using assms(2) distinct_card[of "map fst (dkChunks dk)"] by (simp add: wf_gomap_def)
  also have "\<dots> = Suc (unat n)"
    unfolding assms(3) by (subst card_image) (auto simp: inj_on_def card_upto)
  finally have "of_nat (length (dkChunks dk)) - 1 = n"
    by simp
  moreover have "has_key (dkChunks dk) (constructBlockFileChunkPath n)"
    unfolding has_key_iff assms(3) by simp
  ultimately show ?thesis
    using no_faultsD[OF assms(1)] by (simp add: openExistingStore_def findAndOpenLastFileChunk_def openFileChunk_def Let_def)
qed

lemma chain_keeps: "holdsChain env view s bs \<Longrightarrow> keeps env view s bs"
  by (simp add: holdsChain_def keeps_def)

lemma keeps_snocD: "keeps env view s (bs @ [b]) \<Longrightarrow> keeps env view s bs \<and> holdsBlock env view s b \<and> storable env b
    \<and> block_number b = of_nat (Suc (length bs)) \<and> holdsHeader env view s b"
  by (auto simp: keeps_def nth_append split: if_splits)

text \<open>The store as it was: recovery writes the metadata of its last block again.\<close>

lemma reopen_tidy:
  assumes "no_faults env" "keeps env view s bs" "length bs < 2 ^ 64" "tidy env view s bs"
    and "bs \<noteq> [] \<Longrightarrow> (\<exists>hb vb. headerBatch env (last bs) = Inr hb \<and> validationBatch env (last bs) = Inr vb)"
    and "currentOffset s = length (currentFile s)" "currentChunkNum s < currentChunkNum s + 1" "lastCommittedBlockNum s = 0"
  shows "\<exists>s'. Store_recover env s = (s', Inr ()) \<and> serves env view s' bs"
proof -
  have key: "has_key (chunkDir s) (constructBlockFileChunkPath k) \<longleftrightarrow> k \<le> currentChunkNum s" for k
    using assms(4) by (auto simp: tidy_def has_key_iff)
  have next_free: "\<not> has_key (chunkDir s) (constructBlockFileChunkPath (currentChunkNum s + 1))"
    using assms(7) key by simp
  have dom: "dom (view (blockIndexDB s)) = (\<lambda>i. blockKey env (of_nat (Suc i))) ` {i. i < length bs}"
    using assms(4) by (simp add: tidy_def)
  show ?thesis
  proof (cases bs rule: rev_cases)
    case Nil
    have "getLastBlockLocationInIndex env s = Inr (0, None)"
      using last_in_index(1)[OF dom assms(3)] Nil by simp
    moreover have "length (currentFile s) = 0"
      using assms(4) Nil unfolding assms(6)[symmetric] by (simp add: tidy_def)
    then have "nextBlockWithLocation env (chunkDir s) (startAt s None) = (startAt s None, Inr None)"
      using next_free by (intro stream_none[OF assms(1)]) (simp_all add: startAt_def)
    ultimately have "Store_recover env s = (s, Inr ())"
      using recover_eq[OF assms(1), of s 0 None] key by (simp add: recoverInSync_def)
    then show ?thesis
      using Nil assms(8) by (simp add: serves_def)
  next
    case (snoc cs b)
    note ks = keeps_snocD[OF assms(2)[unfolded snoc]]
    obtain lb loc where loc: "view (blockIndexDB s) (blockKey env (of_nat (length bs))) = Some lb"
        "UnmarshalLocation (seCodec env) lb = Inr loc" "FileChunkNum loc = currentChunkNum s" "Offset loc + LLength loc = currentOffset s"
      using assms(4) snoc by (auto simp: tidy_def)
    obtain hb vb where "headerBatch env b = Inr hb" "validationBatch env b = Inr vb"
      using assms(5) snoc by auto
    moreover have "getLocation env s (block_number b) = Inr loc"
      using loc(1,2) ks snoc by (simp add: getLocation_def get_view Let_def)
    ultimately show ?thesis
      using recover_last_block[OF assms(1), of s cs b hb vb loc] ks loc(3,4) assms(3,6) dom next_free snoc by simp
  qed
qed

section \<open>A crash keeps the chain or extends it\<close>

lemma crash_untouched:
  assumes "no_faults env" "holdsChain env view s bs" "tidy env view s bs" "bs \<noteq> []" "Suc (length bs) < 2 ^ 64"
    and "\<exists>hb vb. headerBatch env (last bs) = Inr hb \<and> validationBatch env (last bs) = Inr vb"
  shows "\<exists>s'. openExistingStore env (disk_of s) = Inr (s', Inr ()) \<and> serves env view s' bs"
proof -
  let ?s = "openedOn (disk_of s) (currentChunkNum s)"
  have wf: "wf_files s" "unat (currentChunkNum s) \<le> length bs" "length bs < 2 ^ 64"
    using assms(2) by (simp_all add: holdsChain_def)
  have "openExistingStore env (disk_of s) = Inr (Store_recover env ?s)"
    unfolding openedOn_def using assms(3) by (intro open_eq[OF assms(1)]) (simp_all add: disk_of_def tidy_def)
  moreover have "keeps env view ?s bs"
    using chain_keeps[OF assms(2)] by (rule keeps_fields) (simp_all add: disk_of_def)
  moreover have "tidy env view ?s bs"
    using assms(3,4) wf(1) by (simp add: tidy_def disk_of_def wf_files_def)
  moreover have "currentChunkNum s < currentChunkNum s + 1"
    using wf(2) assms(5) by (simp add: word_less_nat_alt unat_word_ariths)
  ultimately show ?thesis
    using reopen_tidy[OF assms(1), of ?s bs] assms(6) wf(3) by (simp add: disk_of_def)
qed

lemma last_location:
  assumes "tidy env view s bs" "bs \<noteq> []" "length bs < 2 ^ 64" "view (blockIndexDB s') = view (blockIndexDB s)"
  obtains loc where "getLastBlockLocationInIndex env s' = Inr (of_nat (length bs), Some loc)"
    "FileChunkNum loc = currentChunkNum s" "Offset loc + LLength loc = currentOffset s"
proof -
  obtain lb loc where loc: "view (blockIndexDB s') (blockKey env (of_nat (length bs))) = Some lb"
      "UnmarshalLocation (seCodec env) lb = Inr loc" "FileChunkNum loc = currentChunkNum s" "Offset loc + LLength loc = currentOffset s"
    using assms(1,2,4) by (auto simp: tidy_def)
  have "dom (view (blockIndexDB s')) = (\<lambda>i. blockKey env (of_nat (Suc i))) ` {i. i < length bs}"
    using assms(1,4) by (simp add: tidy_def)
  then show ?thesis
    using last_in_index(2)[OF _ assms(3) loc(1,2)] loc(3,4) assms(2) that by simp
qed

lemma next_chunk:
  assumes "holdsChain env view s bs" "Suc (length bs) < 2 ^ 64"
  shows "Suc (unat (currentChunkNum s)) < 2 ^ 64" "unat (currentChunkNum s + 1) = Suc (unat (currentChunkNum s))"
    "currentChunkNum s < currentChunkNum s + 1" "\<not> has_key (chunkDir s) (constructBlockFileChunkPath (currentChunkNum s + 1))"
proof -
  show u: "Suc (unat (currentChunkNum s)) < 2 ^ 64"
    using assms by (simp add: holdsChain_def)
  then show "unat (currentChunkNum s + 1) = Suc (unat (currentChunkNum s))"
    by (simp add: unat_word_ariths)
  then show less: "currentChunkNum s < currentChunkNum s + 1"
    by (simp add: word_less_nat_alt)
  then show "\<not> has_key (chunkDir s) (constructBlockFileChunkPath (currentChunkNum s + 1))"
    using assms(1) unfolding holdsChain_def wf_files_def by (meson leD)
qed

text \<open>An index that was not updated is not ahead.\<close>

lemma index_not_ahead:
  assumes "tidy env view s bs" "bs \<noteq> []" "length bs < 2 ^ 64" "view (dkIndex dk) = view (blockIndexDB s)"
    and "currentOffset s \<le> length (fileContent (dkChunks dk) (currentChunkNum s))"
  shows "\<not> indexAhead env dk"
proof -
  obtain loc where "getLastBlockLocationInIndex env (openedOn dk 0) = Inr (of_nat (length bs), Some loc)"
      "FileChunkNum loc = currentChunkNum s" "Offset loc + LLength loc = currentOffset s"
    by (rule last_location[OF assms(1-3), of "openedOn dk 0"]) (simp add: assms(4), rule that)
  then show ?thesis
    using assms(5) by (simp add: indexAhead_def)
qed

text \<open>A part of the record in the chunk that was current.\<close>

lemma crash_partial_here:
  assumes "no_faults env" "holdsChain env view s bs" "tidy env view s bs" "bs \<noteq> []" "Suc (length bs) < 2 ^ 64"
    and "\<exists>hb vb. headerBatch env (last bs) = Inr hb \<and> validationBatch env (last bs) = Inr vb"
    and "blockRecord env b = Inr c" "storable env b" "n < length c" "positioned s"
  shows "\<exists>s'. openExistingStore env (disk_of (writeCurrent s (take n c))) = Inr (s', Inr ()) \<and> serves env view s' bs"
proof -
  let ?dk = "disk_of (writeCurrent s (take n c))" and ?k = "currentChunkNum s"
  let ?s = "openedOn ?dk ?k"
  note nx = next_chunk[OF assms(2,5)]
  have wf: "currentOffset s = length (currentFile s)" "has_key (chunkDir s) (constructBlockFileChunkPath ?k)" "length bs < 2 ^ 64"
    using assms(2) by (simp_all add: holdsChain_def wf_files_def)
  have dk: "dkChunks ?dk = gomap_put (chunkDir s) (constructBlockFileChunkPath ?k) (currentFile s @ take n c)"
      "dkIndex ?dk = blockIndexDB s" "dkHeader ?dk = blockHeaderDB s"
    using assms(10) wf(1) by (simp_all add: disk_of_def writeCurrent_def positioned_def)
  have keys: "wf_gomap (dkChunks ?dk)" "fst ` set (dkChunks ?dk) = constructBlockFileChunkPath ` {j. j \<le> ?k}"
    using assms(3) wf(2) by (auto simp: dk keys_gomap_put tidy_def has_key_iff)
  have op: "openExistingStore env ?dk = Inr (Store_recover env ?s)"
    unfolding openedOn_def by (rule open_eq[OF assms(1) keys])
  have grown: "grown s ?s"
    by (simp add: grown_def dk)
  then have kp: "keeps env view ?s bs"
    using keeps_grown[OF chain_keeps[OF assms(2)]] by (simp add: dk)
  show ?thesis
  proof (cases "n = 0")
    case True
    have f: "length (fileContent (dkChunks ?dk) ?k) = currentOffset s"
      unfolding dk(1) using wf(1) True by simp
    have "tidy env view ?s bs"
      using assms(3) keys unfolding tidy_def openedOn_simps f dk(2) by blast
    from reopen_tidy[OF assms(1) kp wf(3) this] show ?thesis
      using op assms(6) nx(3) by auto
  next
    case False
    obtain loc where loc: "getLastBlockLocationInIndex env ?s = Inr (of_nat (length bs), Some loc)"
        "FileChunkNum loc = ?k" "Offset loc + LLength loc = currentOffset s"
      by (rule last_location[OF assms(3,4) wf(3), of ?s]) (simp add: dk, rule that)
    have "drop (stOffset (startAt ?s (Some loc))) (fileContent (dkChunks ?dk) (fileChunkNum (startAt ?s (Some loc)))) = take n c"
        "remainingBytes (startAt ?s (Some loc)) = int n"
      using loc(2,3) wf(1) assms(9) by (simp_all add: startAt_def dk)
    then obtain st where "nextBlockWithLocation env (dkChunks ?dk) (startAt ?s (Some loc)) = (st, Inl ErrUnexpectedEndOfBlockfile)"
      using readNextBlock_partial[OF assms(7,8) _ assms(9)] False by (fastforce simp: nextBlockWithLocation_def)
    then have "Store_recover env ?s = recoverPartial env ?s (of_nat (length bs)) (Some loc)"
      using recover_eq[OF assms(1) loc(1)] wf(2) loc(2) by (simp add: dk)
    moreover have "\<exists>s'. recoverPartial env ?s (of_nat (length bs)) (Some loc) = (s', Inr ()) \<and> serves env view s' bs"
      using loc(2,3) wf(1) by (intro truncate_back[OF assms(1) chain_keeps[OF assms(2)], where g = "take n c"]) (auto simp: dk)
    ultimately show ?thesis
      using op by auto
  qed
qed

text \<open>A part of the record in a chunk that was created for it.\<close>

lemma crash_partial_new:
  assumes "no_faults env" "holdsChain env view s bs" "tidy env view s bs" "bs \<noteq> []" "Suc (length bs) < 2 ^ 64"
    and "blockRecord env b = Inr c" "storable env b" "n < length c"
    and "moveToNextFileChunk env s = (s1, Inr ())" "\<not> canCurrentFileChunkHold s (length c)"
  shows "\<exists>s'. openExistingStore env (disk_of (writeCurrent s1 (take n c))) = Inr (s', Inr ()) \<and> serves env view s' bs"
proof -
  let ?dk = "disk_of (writeCurrent s1 (take n c))" and ?k = "currentChunkNum s + 1"
  let ?s = "openedOn ?dk ?k"
  note nx = next_chunk[OF assms(2,5)]
  have wf: "currentOffset s = length (currentFile s)" "has_key (chunkDir s) (constructBlockFileChunkPath (currentChunkNum s))"
      "length bs < 2 ^ 64" "wf_files s"
    using assms(2) by (simp_all add: holdsChain_def wf_files_def)
  have "(if canCurrentFileChunkHold s (length c) then (s, Inr ()) else moveToNextFileChunk env s) = (s1, Inr ())"
    using assms(9,10) by simp
  note ck = chooseChunk_keys[OF this assms(3) nx(1)]
  note mv = moveToNext_ok[OF assms(9) wf(4) nx(1)]
  have content: "fileContent (chunkDir s1) j = fileContent (chunkDir s) j" for j
    using ck(3) assms(10) by blast
  then have empty: "fileContent (chunkDir s1) ?k = []"
    using fileContent_absent[OF nx(4)] by simp
  have "filePos s1 = 0"
    using mv(2,1,7) empty by (simp add: positioned_def wf_files_def)
  then have dk: "dkChunks ?dk = gomap_put (chunkDir s1) (constructBlockFileChunkPath ?k) (take n c)"
      "dkIndex ?dk = blockIndexDB s" "dkHeader ?dk = blockHeaderDB s"
    using mv(4,5,7) empty by (simp_all add: disk_of_def writeCurrent_def writeAt_def)
  have keys: "wf_gomap (dkChunks ?dk)" "fst ` set (dkChunks ?dk) = constructBlockFileChunkPath ` {j. j \<le> ?k}"
    using ck(1,2) mv(7) by (auto simp: dk keys_gomap_put)
  have op: "openExistingStore env ?dk = Inr (Store_recover env ?s)"
    unfolding openedOn_def by (rule open_eq[OF assms(1) keys])
  obtain loc where loc: "getLastBlockLocationInIndex env ?s = Inr (of_nat (length bs), Some loc)"
      "FileChunkNum loc = currentChunkNum s" "Offset loc + LLength loc = currentOffset s"
    by (rule last_location[OF assms(3,4) wf(3), of ?s]) (simp add: dk, rule that)
  have neq: "currentChunkNum s \<noteq> ?k"
    using nx(3) by simp
  have st: "remainingBytes (startAt ?s (Some loc)) = 0" "fileChunkNum (startAt ?s (Some loc)) = currentChunkNum s"
    using loc(2,3) wf(1) neq by (simp_all add: startAt_def dk content)
  have key0: "has_key (dkChunks ?dk) x" if "has_key (chunkDir s) x" for x
    using mv(3) that by (simp add: dk grown_def)
  have drop: "\<exists>s'. dropLastChunk env (?s\<lparr>lastCommittedBlockNum := of_nat (length bs), currentOffset := m\<rparr>) (currentChunkNum s) = (s', Inr ()) \<and> serves env view s' bs" for m
    using wf(2) nx(4) key0 by (intro drop_back[OF assms(1) chain_keeps[OF assms(2)]]) (simp_all add: dk content)
  note rec = recover_eq[OF assms(1) loc(1)]
  show ?thesis
  proof (cases "n = 0")
    case True
    have "fileContent (dkChunks ?dk) ?k = []"
      unfolding dk(1) using True by simp
    then have "nextBlockWithLocation env (dkChunks ?dk) (startAt ?s (Some loc)) = (startAt ?s (Some loc), Inr None)"
      using st by (intro stream_none[OF assms(1)]) simp_all
    then have "Store_recover env ?s = recoverInSync env ?s (of_nat (length bs)) (Some loc)"
      using rec key0[OF wf(2)] loc(2) by simp
    moreover have "(of_nat (length bs) :: 64 word) \<noteq> 0"
    proof -
      have "unat (of_nat (length bs) :: 64 word) = length bs"
        unfolding unat_of_nat using wf(3) by (intro mod_less) simp
      then show ?thesis
        using assms(4) by auto
    qed
    ultimately have "Store_recover env ?s = dropLastChunk env (?s\<lparr>lastCommittedBlockNum := of_nat (length bs)\<rparr>) (currentChunkNum s)"
      using loc(2) by (simp add: recoverInSync_def)
    moreover have "?s\<lparr>lastCommittedBlockNum := of_nat (length bs)\<rparr> = ?s\<lparr>lastCommittedBlockNum := of_nat (length bs), currentOffset := currentOffset ?s\<rparr>"
      by simp
    ultimately show ?thesis
      using op drop by metis
  next
    case False
    have "nextBlockWithLocation env (dkChunks ?dk) (startAt ?s (Some loc)) = readNextBlock env (dkChunks ?dk)
        ((startAt ?s (Some loc))\<lparr>fileChunkNum := ?k, stOffset := 0, remainingBytes := int n\<rparr>)"
    proof -
      have "c \<noteq> []"
        using assms(8) by auto
      then show ?thesis
        using stream_move[OF assms(1) st(1), of "dkChunks ?dk"] st(2) False assms(8) by (simp add: dk)
    qed
    moreover obtain st' where "readNextBlock env (dkChunks ?dk) ((startAt ?s (Some loc))\<lparr>fileChunkNum := ?k, stOffset := 0, remainingBytes := int n\<rparr>)
        = (st', Inl ErrUnexpectedEndOfBlockfile)"
      using readNextBlock_partial[OF assms(6,7) _ assms(8)] False by (fastforce simp: dk)
    ultimately have "Store_recover env ?s = recoverPartial env ?s (of_nat (length bs)) (Some loc)"
      using rec key0[OF wf(2)] loc(2) by simp
    also have "\<dots> = dropLastChunk env (?s\<lparr>lastCommittedBlockNum := of_nat (length bs), currentOffset := Offset loc + LLength loc\<rparr>) (currentChunkNum s)"
      using loc(2) by (simp add: recoverPartial_def)
    finally show ?thesis
      using op drop by metis
  qed
qed

text \<open>The whole record written.\<close>

lemma crash_written:
  assumes "no_faults env" "holdsChain env view s bs" "tidy env view s bs" "bs \<noteq> []" "Suc (Suc (length bs)) < 2 ^ 64" "positioned s"
    and "blockRecord env b = Inr c" "storable env b" "block_number b = of_nat (Suc (length bs))"
    and "(if canCurrentFileChunkHold s (length c) then (s, Inr ()) else moveToNextFileChunk env s) = (s1, Inr ())"
    and "appendBlock env s1 (block_number b) c = (s2, Inr loc)"
    and "MarshalLocation (seCodec env) loc = Inr lb" "headerBatch env b = Inr hb" "validationBatch env b = Inr vb"
    and "dkChunks dk = chunkDir s2"
    and "view (dkIndex dk) = view (blockIndexDB s) \<or> view (dkIndex dk) = (view (blockIndexDB s))(blockKey env (block_number b) \<mapsto> lb)"
    and "view (dkHeader dk) = view (blockHeaderDB s) \<or> view (dkHeader dk) = apply_batch hb (view (blockHeaderDB s))"
  shows "\<exists>s'. openExistingStore env dk = Inr (s', Inr ()) \<and> serves env view s' (bs @ [b])
    \<and> (view (dkIndex dk) = view (blockIndexDB s) \<longrightarrow> filePos s' = 0 \<and> currentOffset s' = length (currentFile s')
        \<and> currentChunkNum s' = currentChunkNum s2 \<and> chunkDir s' = chunkDir s2)"
proof -
  have len: "Suc (length bs) < 2 ^ 64" "length bs < 2 ^ 64" and wf: "wf_files s" "currentOffset s = length (currentFile s)"
    using assms(2,5) by (simp_all add: holdsChain_def wf_files_def)
  note nx = next_chunk[OF assms(2) len(1)]
  note ck = chooseChunk_keys[OF assms(10,3) nx(1)]
  note ch = chooseChunk_ok[OF assms(10) wf(1) assms(6) nx(1)]
  note ap = appendBlock_ok[OF assms(11) ch(1,2)]
  let ?k = "currentChunkNum s1"
  let ?s = "openedOn dk ?k"
  have off: "currentOffset s1 = length (currentFile s1)"
    using ch(1) by (simp add: wf_files_def)
  have dir: "chunkDir s2 = gomap_put (chunkDir s1) (constructBlockFileChunkPath ?k) (currentFile s1 @ c)"
    using assms(11) ch(2) off by (auto simp: appendBlock_def Let_def writeCurrent_def positioned_def split: option.splits prod.splits)
  have keys: "wf_gomap (dkChunks dk)" "fst ` set (dkChunks dk) = constructBlockFileChunkPath ` {j. j \<le> ?k}"
    using ck(1,2) by (auto simp: assms(15) dir keys_gomap_put)
  have op: "openExistingStore env dk = Inr (Store_recover env ?s)"
    unfolding openedOn_def by (rule open_eq[OF assms(1) keys])
  have key: "has_key (dkChunks dk) (constructBlockFileChunkPath j) \<longleftrightarrow> j \<le> ?k" for j
    unfolding has_key_iff keys(2) by auto
  have "Suc (unat ?k) < 2 ^ 64"
    using ch(7) nx(1,2) assms(2,5) by (simp add: holdsChain_def)
  then have "?k < ?k + 1"
    by (simp add: word_less_nat_alt unat_word_ariths)
  then have free: "\<not> has_key (dkChunks dk) (constructBlockFileChunkPath (?k + 1))"
    using key by simp
  have grown: "grown s ?s"
    using grown_trans[OF ch(3) ap(3)] by (simp add: grown_def assms(15))
  have kp: "keeps env view ?s bs"
    unfolding keeps_def
  proof (intro allI impI)
    fix i assume i: "i < length bs"
    then have b: "block_number (bs ! i) = of_nat (Suc i)" "storable env (bs ! i)" "holdsBlock env view s (bs ! i)" "holdsHeader env view s (bs ! i)"
      using assms(2) by (simp_all add: holdsChain_def)
    then have neq: "block_number (bs ! i) \<noteq> block_number b"
      using block_numbers_differ[OF i len(1)] assms(9) by metis
    have "holdsBlock env view ?s (bs ! i)"
      using assms(16) neq by (intro holdsBlock_grown[OF b(3) grown]) (auto simp: encode_inj)
    moreover have "holdsHeader env view ?s (bs ! i)"
      using assms(17) headerBatch_other[OF assms(13) _ b(4) neq, of ?s] b(4) by (auto simp: holdsHeader_def)
    ultimately show "block_number (bs ! i) = of_nat (Suc i) \<and> storable env (bs ! i) \<and> holdsBlock env view ?s (bs ! i) \<and> holdsHeader env view ?s (bs ! i)"
      using b by blast
  qed
  have rec: "record_at (fileContent (dkChunks dk) ?k) (currentOffset s1) c"
    using ap(9) assms(15) by simp
  show ?thesis
  proof (cases "view (dkIndex dk) = (view (blockIndexDB s))(blockKey env (block_number b) \<mapsto> lb)")
    case True
    note lrt = location_rt[OF assms(12)]
    have own: "holdsBlock env view ?s b"
      unfolding holdsBlock_def using True lrt assms(7) ap(8) rec key by auto
    have dom: "dom (view (blockIndexDB ?s)) = (\<lambda>i. blockKey env (of_nat (Suc i))) ` {i. i < Suc (length bs)}"
      using assms(3,9) unfolding True openedOn_simps tidy_def by (simp add: lessThan_def[symmetric] lessThan_Suc)
    have gl: "getLocation env ?s (block_number b) = Inr loc"
      using True lrt by (simp add: getLocation_def get_view Let_def)
    have end_file: "FileChunkNum loc = currentChunkNum ?s" "Offset loc + LLength loc = length (currentFile ?s)"
      using ap(8) off by (simp_all add: assms(15) dir)
    have "\<exists>s'. Store_recover env ?s = (s', Inr ()) \<and> serves env view s' (bs @ [b])"
      by (rule recover_last_block[OF assms(1) kp own assms(8,9) len(1) assms(13,14) dom gl end_file]) (use free in simp)
    moreover have "view (dkIndex dk) \<noteq> view (blockIndexDB s)"
    proof -
      have "blockKey env (block_number b) \<notin> dom (view (blockIndexDB s))"
        using assms(3,9) block_numbers_differ[OF _ len(1)] by (auto simp: tidy_def encode_inj) blast
      moreover have "blockKey env (block_number b) \<in> dom (view (dkIndex dk))"
        unfolding True by simp
      ultimately show ?thesis
        by metis
    qed
    ultimately show ?thesis
      using op by auto
  next
    case False
    then have ix: "view (dkIndex dk) = view (blockIndexDB s)"
      using assms(16) by blast
    obtain l0 where l0: "getLastBlockLocationInIndex env ?s = Inr (of_nat (length bs), Some l0)"
        "FileChunkNum l0 = currentChunkNum s" "Offset l0 + LLength l0 = currentOffset s"
      by (rule last_location[OF assms(3,4) len(2), of ?s]) (simp add: ix, rule that)
    have start_key: "has_key (dkChunks dk) (constructBlockFileChunkPath (currentChunkNum s))"
      using grown wf(1) by (simp add: grown_def wf_files_def)
    have "\<exists>st b'. nextBlockWithLocation env (dkChunks dk) (startAt ?s (Some l0)) = (st, Inr (Some \<lparr>blBlock = b', blFileChunkNum = ?k,
        blockStartOffset = currentOffset s1, blockEndOffset = currentOffset s1 + length c\<rparr>)) \<and> beq b b' \<and> fileChunkNum st = ?k \<and> remainingBytes st = 0"
    proof (cases "canCurrentFileChunkHold s (length c)")
      case True
      then have s1: "s1 = s"
        using ck(3) by blast
      let ?st = "startAt ?s (Some l0)"
      have "fileChunkNum ?st = ?k" "stOffset ?st = currentOffset s1" "remainingBytes ?st = int (length c)"
          "drop (stOffset ?st) (fileContent (dkChunks dk) (fileChunkNum ?st)) = c"
        using l0(2,3) wf(2) by (simp_all add: startAt_def s1 assms(15) dir)
      then show ?thesis
        using readNextBlock_full[OF assms(7,8), of ?st "dkChunks dk"] record_nonempty[OF assms(7)] by (auto simp: nextBlockWithLocation_def)
    next
      case False
      then have k: "?k = currentChunkNum s + 1" "fileContent (chunkDir s1) j = fileContent (chunkDir s) j" for j
        using ck(3) by blast+
      then have empty: "currentFile s1 = []"
        using fileContent_absent[OF nx(4)] by simp
      have neq: "currentChunkNum s \<noteq> ?k"
        using nx(3) k(1) by auto
      have st: "remainingBytes (startAt ?s (Some l0)) = 0" "fileChunkNum (startAt ?s (Some l0)) = currentChunkNum s"
        using l0(2,3) wf(2) neq by (simp_all add: startAt_def assms(15) dir k(2))
      let ?st = "(startAt ?s (Some l0))\<lparr>fileChunkNum := ?k, stOffset := 0, remainingBytes := int (length c)\<rparr>"
      have f: "fileContent (dkChunks dk) ?k = c"
        using empty by (simp add: assms(15) dir)
      have "nextBlockWithLocation env (dkChunks dk) (startAt ?s (Some l0)) = readNextBlock env (dkChunks dk) ?st"
        using stream_move[OF assms(1) st(1), of "dkChunks dk"] st(2) f key record_nonempty[OF assms(7)] k(1) by simp
      then show ?thesis
        using readNextBlock_full[OF assms(7,8), of ?st "dkChunks dk"] f off empty by auto
    qed
    then obtain st b' where st: "nextBlockWithLocation env (dkChunks dk) (startAt ?s (Some l0)) = (st, Inr (Some \<lparr>blBlock = b', blFileChunkNum = ?k,
        blockStartOffset = currentOffset s1, blockEndOffset = currentOffset s1 + length c\<rparr>))" "beq b b'" "fileChunkNum st = ?k" "remainingBytes st = 0"
      by blast
    have "\<exists>s'. Store_recover env ?s = (s', Inr ()) \<and> serves env view s' (bs @ [b]) \<and> filePos s' = filePos ?s
        \<and> currentOffset s' = currentOffset s1 + length c \<and> currentChunkNum s' = currentChunkNum ?s \<and> chunkDir s' = chunkDir ?s"
      using start_key l0(2) st free rec key by (intro recover_new_block[OF assms(1) kp assms(7) st(2) assms(9) len(1) assms(13,14) l0(1)]) simp_all
    moreover have "filePos ?s = 0" "length (fileContent (dkChunks dk) ?k) = currentOffset s1 + length c"
        "currentChunkNum s2 = ?k" "dkChunks dk = chunkDir s2"
      using off ap(7) by (simp_all add: openedOn_def assms(15) dir)
    ultimately show ?thesis
      using op by auto
  qed
qed

text \<open>
  A part of the record only, and the databases updated or not. With the index as it was, the disk is
  that of a torn write after a store whose other databases have the entries already.
\<close>

lemma ahead_keeps:
  assumes "holdsChain env view s bs" "tidy env view s bs" "Suc (length bs) < 2 ^ 64" "block_number b = of_nat (Suc (length bs))"
    and "headerBatch env b = Inr hb" "view d2 = view (blockHeaderDB s) \<or> view d2 = apply_batch hb (view (blockHeaderDB s))"
  shows "holdsChain env view (s\<lparr>blockHeaderDB := d2, txValidationInfoDB := d3\<rparr>) bs" "tidy env view (s\<lparr>blockHeaderDB := d2, txValidationInfoDB := d3\<rparr>) bs"
proof -
  let ?s = "s\<lparr>blockHeaderDB := d2, txValidationInfoDB := d3\<rparr>"
  have "holdsHeader env view ?s (bs ! i)" if "i < length bs" for i
  proof -
    have "holdsHeader env view s (bs ! i)" "block_number (bs ! i) \<noteq> block_number b"
      using assms(1,4) that block_numbers_differ[OF that assms(3)] by (auto simp: holdsChain_def)
    then show ?thesis
      using assms(6) headerBatch_other[OF assms(5), of ?s s "bs ! i"] by (auto simp: holdsHeader_def)
  qed
  moreover have "holdsBlock env view ?s x \<longleftrightarrow> holdsBlock env view s x" for x
    by (simp add: holdsBlock_def)
  moreover have "wf_files ?s \<longleftrightarrow> wf_files s"
    by (simp add: wf_files_def)
  ultimately show "holdsChain env view ?s bs"
    using assms(1) by (simp add: holdsChain_def)
  show "tidy env view ?s bs"
    using assms(2) by (auto simp: tidy_def split: if_splits)
qed

lemma crash_index_ahead:
  assumes "no_faults env" "holdsChain env view s bs" "tidy env view s bs" "Suc (Suc (length bs)) < 2 ^ 64" "positioned s"
    and "block_number b = of_nat (Suc (length bs))" "n < length c"
    and "(if canCurrentFileChunkHold s (length c) then (s, Inr ()) else moveToNextFileChunk env s) = (s1, Inr ())"
    and "appendBlock env s1 (block_number b) c = (s2, Inr loc)" "MarshalLocation (seCodec env) loc = Inr lb"
    and "dkChunks dk = chunkDir (writeCurrent s1 (take n c))"
    and "view (dkIndex dk) = (view (blockIndexDB s))(blockKey env (block_number b) \<mapsto> lb)"
  shows "indexAhead env dk \<and> (\<exists>s' e. openExistingStore env dk = Inr (s', Inl e))"
proof -
  have len: "Suc (length bs) < 2 ^ 64" and wf: "wf_files s"
    using assms(2,4) by (simp_all add: holdsChain_def)
  note nx = next_chunk[OF assms(2) len]
  note ck = chooseChunk_keys[OF assms(8,3) nx(1)]
  note ch = chooseChunk_ok[OF assms(8) wf assms(5) nx(1)]
  note ap = appendBlock_ok[OF assms(9) ch(1,2)]
  let ?k = "currentChunkNum s1"
  have dir: "dkChunks dk = gomap_put (chunkDir s1) (constructBlockFileChunkPath ?k) (currentFile s1 @ take n c)"
    using ch(1,2) by (simp add: assms(11) writeCurrent_def positioned_def wf_files_def)
  have keys: "wf_gomap (dkChunks dk)" "fst ` set (dkChunks dk) = constructBlockFileChunkPath ` {j. j \<le> ?k}"
    using ck(1,2) by (auto simp: dir keys_gomap_put)
  have op: "openExistingStore env dk = Inr (Store_recover env (openedOn dk ?k))"
    unfolding openedOn_def by (rule open_eq[OF assms(1) keys])
  have dom: "dom (view (dkIndex dk)) = (\<lambda>i. blockKey env (of_nat (Suc i))) ` {i. i < Suc (length bs)}"
    using assms(3,6) unfolding assms(12) tidy_def by (simp add: lessThan_def[symmetric] lessThan_Suc)
  have last: "getLastBlockLocationInIndex env (openedOn dk j) = Inr (of_nat (Suc (length bs)), Some loc)" for j
    by (rule last_in_index(2)) (use dom len location_rt[OF assms(10)] assms(6,12) in \<open>simp_all del: of_nat_Suc\<close>)
  have short: "length (fileContent (dkChunks dk) (FileChunkNum loc)) < Offset loc + LLength loc"
    using ap(8) ch(1) assms(7) by (simp add: dir wf_files_def)
  then have "indexAhead env dk"
    by (simp add: indexAhead_def last)
  moreover obtain s' e where "Store_recover env (openedOn dk ?k) = (s', Inl e)"
    by (rule recover_behind_end[OF last]) (use short in simp_all)
  ultimately show ?thesis
    using op by auto
qed

lemma crash_recovery:
  assumes "no_faults env" "holdsChain env view s bs" "tidy env view s bs" "bs \<noteq> []" "Suc (Suc (length bs)) < 2 ^ 64" "positioned s"
    and "\<exists>hb vb. headerBatch env (last bs) = Inr hb \<and> validationBatch env (last bs) = Inr vb"
    and "storable env b" "block_number b = of_nat (Suc (length bs))" "commitCrash env s b dk"
  shows "(\<exists>s' bs'. openExistingStore env dk = Inr (s', Inr ()) \<and> serves env view s' bs' \<and> (bs' = bs \<or> bs' = bs @ [b]))
    \<or> (indexAhead env dk \<and> (\<exists>s' e. openExistingStore env dk = Inr (s', Inl e)))"
proof -
  have len: "Suc (length bs) < 2 ^ 64"
    using assms(5) by simp
  from assms(10) show ?thesis
  proof cases
    case untouched
    then show ?thesis
      using crash_untouched[OF assms(1-4) len assms(7)] by blast
  next
    case (partial c s1 n)
    then show ?thesis
      using crash_partial_here[OF assms(1-4) len assms(7) partial(2) assms(8) partial(4) assms(6)]
        crash_partial_new[OF assms(1-4) len partial(2) assms(8) partial(4), of s1]
      by (auto split: if_splits)
  next
    case (written c s1 s2 loc lb hb vb d1 d2 d3)
    have "view d1 = view (blockIndexDB s) \<or> view d1 = (view (blockIndexDB s))(blockKey env (block_number b) \<mapsto> lb)"
      using written(8) write_ok[of "blockIndexDB s"] by auto
    moreover have "view d2 = view (blockHeaderDB s) \<or> view d2 = apply_batch hb (view (blockHeaderDB s))"
      using written(9) write_ok[of "blockHeaderDB s"] by auto
    ultimately show ?thesis
      using crash_written[OF assms(1-6) written(2) assms(8,9) written(3-7), of dk] written(1) by auto
  next
    case (unsynced c s1 s2 loc n lb hb vb d1 d2 d3)
    show ?thesis
    proof (cases "d1 = blockIndexDB s")
      case True
      let ?put = "\<lambda>t. t\<lparr>blockHeaderDB := d2, txValidationInfoDB := d3\<rparr>"
      have "view d2 = view (blockHeaderDB s) \<or> view d2 = apply_batch hb (view (blockHeaderDB s))"
        using unsynced(10) write_ok[of "blockHeaderDB s"] by auto
      note kp = ahead_keeps[OF assms(2,3) len assms(9) unsynced(7) this, of d3]
      have pos: "positioned (?put s)"
        using assms(6) by (simp add: positioned_def)
      have "(if canCurrentFileChunkHold (?put s) (length c) then (?put s, Inr ()) else moveToNextFileChunk env (?put s)) = (?put s1, Inr ())"
        using unsynced(3) by (auto simp: canCurrentFileChunkHold_def moveToNextFileChunk_def Let_def split: if_splits prod.splits sum.splits option.splits)
      moreover have "blockIndexDB s1 = blockIndexDB s"
        using unsynced(3) by (auto simp: moveToNextFileChunk_def Let_def split: if_splits prod.splits sum.splits option.splits)
      then have "dk = disk_of (writeCurrent (?put s1) (take n c))"
        using unsynced(1) True by (simp add: disk_of_def writeCurrent_def)
      ultimately show ?thesis
        using crash_partial_here[OF assms(1) kp assms(4) len assms(7) unsynced(2) assms(8) unsynced(5) pos]
          crash_partial_new[OF assms(1) kp assms(4) len unsynced(2) assms(8) unsynced(5), of "?put s1"]
        by (auto split: if_splits)
    next
      case False
      then have "view d1 = (view (blockIndexDB s))(blockKey env (block_number b) \<mapsto> lb)"
        using unsynced(9) write_ok[of "blockIndexDB s"] by auto
      then show ?thesis
        using crash_index_ahead[OF assms(1-3,5,6,9) unsynced(5,3,4,6), of dk] unsynced(1) by simp
    qed
  qed
qed

end

end
