(* ===== verification/Block_Properties.thy ===== *)
theory Block_Properties
  imports Block_Crash State_Codec
begin

text \<open>
  Properties of the block store, for every key-value file and serialisation that meet their
  contracts, and a concrete store on which they are run.
\<close>

section \<open>Commits that succeed, fail, and go to the wrong place\<close>

context block_store
begin

lemma commit_succeeds:
  assumes "no_faults env" "\<And>p n c. ioWrite (seIO env) p n c = None" "block_number b = lastCommittedBlockNum s + 1"
    and "blockRecord env b = Inr c" "headerBatch env b = Inr hb" "validationBatch env b = Inr vb"
  shows "\<exists>s'. Store_Commit env s (Some b) = (s', Inr ())"
proof -
  obtain s1 where s1: "(if canCurrentFileChunkHold s (length c) then (s, Inr ()) else moveToNextFileChunk env s) = (s1, Inr ())"
  proof (cases "canCurrentFileChunkHold s (length c)")
    case False
    have "snd (moveToNextFileChunk env s) = Inr ()"
      using no_faultsD[OF assms(1)] by (simp add: moveToNextFileChunk_def openFileChunk_def Let_def)
    then show ?thesis
      using that False by (metis prod.collapse)
  qed (use that in simp)
  obtain s2 loc where s2: "appendBlock env s1 (block_number b) c = (s2, Inr loc)"
    using assms(2) by (auto simp: appendBlock_def Let_def)
  obtain s3 where s3: "storeMetadataInDB env s2 b loc = (s3, Inr ())"
    by (rule metadata_succeeds[OF assms(1,5,6)])
  have "Store_Commit env s (Some b) = (s3, Inr ())"
    unfolding Store_Commit_def using assms(3,4) s1 s2 s3 by simp
  then show ?thesis
    by blast
qed

lemma commitBlocks_batches:
  "commitBlocks env s bs = (s', Inr ()) \<Longrightarrow> b \<in> set bs \<Longrightarrow>
   \<exists>hb vb. headerBatch env b = Inr hb \<and> validationBatch env b = Inr vb"
proof (induction bs arbitrary: s)
  case (Cons x bs)
  then obtain s1 where s1: "Store_Commit env s (Some x) = (s1, Inr ())" "commitBlocks env s1 bs = (s', Inr ())"
    by (auto simp: sbind_Inr_iff)
  obtain t loc where "storeMetadataInDB env t x loc = (s1, Inr ())"
    using s1(1) by (auto simp: Store_Commit_def sbind_Inr_iff split: if_splits sum.splits)
  then show ?case
    using Cons.IH[OF s1(2)] Cons.prems(2) metadata_ok by (metis set_ConsD)
qed simp

text \<open>
  A write that does not start at the end of the file: the index has the end as the place of the
  block, where there is nothing.
\<close>

lemma misplaced_commit:
  assumes "Store_Commit env s (Some b) = (s', Inr ())" "blockRecord env b = Inr c" "canCurrentFileChunkHold s (length c)"
    and "currentOffset s = length (currentFile s)" "filePos s + length c \<le> length (currentFile s)" "\<And>p. ioRead (seIO env) p = None"
  shows "\<exists>e. snd (Store_Get env s' (block_number b)) = Inl e"
proof -
  obtain s2 loc where s2: "appendBlock env s (block_number b) c = (s2, Inr loc)" "storeMetadataInDB env s2 b loc = (s', Inr ())"
    using assms(1-3) by (auto simp: Store_Commit_def sbind_Inr_iff split: if_splits)
  have loc: "loc = \<lparr>FileChunkNum = currentChunkNum s, Offset = length (currentFile s), LLength = length c\<rparr>"
    and st: "s2 = (writeCurrent s c)\<lparr>currentOffset := currentOffset s + length c, lastCommittedBlockNum := block_number b\<rparr>"
    using s2(1) assms(4) by (auto simp: appendBlock_def Let_def split: option.splits prod.splits)
  from metadata_ok[OF s2(2)] obtain lb where m: "MarshalLocation (seCodec env) loc = Inr lb"
      "view (blockIndexDB s') = (view (blockIndexDB s2))(blockKey env (block_number b) \<mapsto> lb)"
      "chunkDir s' = chunkDir s2" "currentChunkNum s' = currentChunkNum s2" "lastCommittedBlockNum s' = lastCommittedBlockNum s2"
    by metis
  have gl: "getLocation env s' (block_number b) = Inr loc"
    using m(2) location_rt[OF m(1)] by (simp add: getLocation_def get_view Let_def)
  let ?f = "currentFile s'"
  have "length ?f = length (currentFile s)"
    using writeAt_inside[OF assms(5)] by (simp add: m(3,4) st writeCurrent_def)
  then have r: "wf_reader ?f (NewReader (Offset loc))" "pending ?f (NewReader (Offset loc)) = []"
    by (simp_all add: loc)
  obtain q where "readUvarintFrom ?f (NewReader (Offset loc)) = (q, Inl (Err ''EOF''))"
    using readUvarintFrom_eof[OF r] by blast
  then have "\<exists>e. snd (readBlockFromFile env (constructBlockFileChunkPath (currentChunkNum s')) ?f (Offset loc)) = Inl e"
    using assms(6) by (simp add: readBlockFromFile_def)
  moreover have "currentChunkNum s' = FileChunkNum loc" "lastCommittedBlockNum s' = block_number b"
    using m(4,5) by (simp_all add: st loc writeCurrent_def)
  ultimately show ?thesis
    using gl by (auto simp: Store_Get_def Let_def split: prod.splits)
qed

text \<open>Where reading a block of the current chunk leaves the file.\<close>

lemma get_position:
  assumes "Store_Get env s n = (s', r)" "holdsChain env view s bs" "1 \<le> n" "n \<le> lastCommittedBlockNum s" "\<And>p. ioRead (seIO env) p = None"
    and "getLocation env s n = Inr loc" "FileChunkNum loc = currentChunkNum s"
  shows "filePos s' \<le> Offset loc + LLength loc + bufSize" "s' = s\<lparr>filePos := filePos s'\<rparr>"
proof -
  have len: "length bs < 2 ^ 64" "lastCommittedBlockNum s = of_nat (length bs)"
    using assms(2) by (simp_all add: holdsChain_def)
  have "unat (of_nat (length bs) :: 64 word) = length bs"
    unfolding unat_of_nat using len(1) by (intro mod_less) simp
  then have i: "unat n - 1 < length bs" "Suc (unat n - 1) = unat n"
    using assms(3,4) len(2) by (simp_all add: word_le_nat_alt)
  let ?b = "bs ! (unat n - 1)"
  have b: "block_number ?b = n" "holdsBlock env view s ?b" "storable env ?b"
    using assms(2) i by (simp_all add: holdsChain_def)
  obtain lb loc' c where l: "view (blockIndexDB s) (blockKey env n) = Some lb"
      "UnmarshalLocation (seCodec env) lb = Inr loc'" "blockRecord env ?b = Inr c" "LLength loc' = length c"
      "record_at (fileContent (chunkDir s) (FileChunkNum loc')) (Offset loc') c"
    using b(1,2) unfolding holdsBlock_def by auto
  have "loc' = loc"
    using assms(6) l(1,2) by (simp add: getLocation_def get_view Let_def)
  note l = l[unfolded this]
  obtain pos b' where rd: "readBlockFromFile env (constructBlockFileChunkPath (currentChunkNum s)) (currentFile s) (Offset loc) = (pos, Inr b')"
      "pos \<le> Offset loc + length c + bufSize"
    using readBlock_ok[OF l(3) b(3) l(5) assms(5)] assms(7) by metis
  have "s' = s\<lparr>filePos := pos\<rparr>"
  proof -
    have "\<not> lastCommittedBlockNum s < n"
      using assms(4) by simp
    then show ?thesis
      using assms(1,6,7) rd(1) by (simp add: Store_Get_def Let_def)
  qed
  then show "filePos s' \<le> Offset loc + LLength loc + bufSize" "s' = s\<lparr>filePos := filePos s'\<rparr>"
    using rd(2) l(4) by simp_all
qed

text \<open>Where a commit puts a block, and what it leaves alone.\<close>

lemma commit_place:
  assumes "Store_Commit env s (Some b) = (s', Inr ())" "blockRecord env b = Inr c" "canCurrentFileChunkHold s (length c)"
  shows "currentOffset s' = currentOffset s + length c" "currentChunkNum s' = currentChunkNum s" "lastCommittedBlockNum s' = block_number b"
    "getLocation env s' (block_number b) = Inr \<lparr>FileChunkNum = currentChunkNum s, Offset = currentOffset s, LLength = length c\<rparr>"
    "m \<noteq> block_number b \<Longrightarrow> getLocation env s' m = getLocation env s m"
proof -
  obtain s2 loc where s2: "appendBlock env s (block_number b) c = (s2, Inr loc)" "storeMetadataInDB env s2 b loc = (s', Inr ())"
    using assms by (auto simp: Store_Commit_def sbind_Inr_iff split: if_splits)
  have loc: "loc = \<lparr>FileChunkNum = currentChunkNum s, Offset = currentOffset s, LLength = length c\<rparr>"
    and st: "s2 = (writeCurrent s c)\<lparr>currentOffset := currentOffset s + length c, lastCommittedBlockNum := block_number b\<rparr>"
    using s2(1) by (auto simp: appendBlock_def Let_def split: option.splits prod.splits)
  from metadata_ok[OF s2(2)] obtain lb where m: "MarshalLocation (seCodec env) loc = Inr lb"
      "view (blockIndexDB s') = (view (blockIndexDB s2))(blockKey env (block_number b) \<mapsto> lb)"
      "currentOffset s' = currentOffset s2" "currentChunkNum s' = currentChunkNum s2" "lastCommittedBlockNum s' = lastCommittedBlockNum s2"
    by metis
  show "currentOffset s' = currentOffset s + length c" "currentChunkNum s' = currentChunkNum s" "lastCommittedBlockNum s' = block_number b"
    by (simp_all add: m st writeCurrent_def)
  show "getLocation env s' (block_number b) = Inr \<lparr>FileChunkNum = currentChunkNum s, Offset = currentOffset s, LLength = length c\<rparr>"
    using m(2) location_rt[OF m(1)] by (simp add: getLocation_def get_view Let_def loc)
  show "getLocation env s' m = getLocation env s m" if "m \<noteq> block_number b"
    using m(2) that by (simp add: getLocation_def get_view Let_def encode_inj st writeCurrent_def)
qed

text \<open>A write that fails and is taken back.\<close>

lemma failed_write:
  assumes "holdsChain env view s bs" "positioned s" "blockRecord env b = Inr c" "block_number b = lastCommittedBlockNum s + 1"
    and "canCurrentFileChunkHold s (length c)" "ioWrite (seIO env) (constructBlockFileChunkPath (currentChunkNum s)) (filePos s) c = Some (n, e)"
    and "\<And>p m. ioTruncate (seIO env) p m = None"
  shows "\<exists>s' e'. Store_Commit env s (Some b) = (s', Inl e') \<and> holdsChain env view s' bs \<and> positioned s'"
proof -
  let ?path = "constructBlockFileChunkPath (currentChunkNum s)"
  have wf: "currentOffset s = length (currentFile s)"
    using assms(1) by (simp add: holdsChain_def wf_files_def)
  let ?s1 = "writeCurrent s (take n c)"
  have f1: "currentFile ?s1 = currentFile s @ take n c" "currentChunkNum ?s1 = currentChunkNum s"
    using assms(2) wf by (simp_all add: writeCurrent_def positioned_def)
  define s' where "s' = (if n > 0 then fst (truncateCurrent env ?s1 (currentOffset s)) else ?s1)"
  have tr: "fst (truncateCurrent env ?s1 (currentOffset s)) = ?s1\<lparr>chunkDir := gomap_put (chunkDir ?s1) ?path (currentFile s), filePos := currentOffset s\<rparr>"
    using assms(7) wf f1 by (simp add: truncateCurrent_def Let_def)
  have s': "fileContent (chunkDir s') k = fileContent (chunkDir s) k" "has_key (chunkDir s') x \<longleftrightarrow> has_key (chunkDir s) x"
      "filePos s' = currentOffset s" "currentOffset s' = currentOffset s" "currentChunkNum s' = currentChunkNum s"
      "lastCommittedBlockNum s' = lastCommittedBlockNum s" "blockIndexDB s' = blockIndexDB s" "blockHeaderDB s' = blockHeaderDB s" for k x
    using tr wf assms(1,2) by (auto simp: s'_def writeCurrent_def holdsChain_def wf_files_def positioned_def)
  have "grown s s'"
    by (simp add: grown_def s')
  then have "keeps env view s' bs"
    using keeps_grown[OF chain_keeps[OF assms(1)]] s'(7,8) by blast
  then have "holdsChain env view s' bs"
    using assms(1) by (simp add: holdsChain_def keeps_def wf_files_def s')
  moreover have "positioned s'"
    by (simp add: positioned_def s')
  moreover have "\<exists>e'. Store_Commit env s (Some b) = (s', Inl e')"
    using assms(3-6) by (simp add: Store_Commit_def appendBlock_def Let_def s'_def)
  ultimately show ?thesis
    by blast
qed

end

section \<open>A concrete serialisation\<close>

text \<open>Blocks that differ in their number only; no other block can be serialised.\<close>

definition tiny_header :: "64 word \<Rightarrow> BlockHeader" where
  "tiny_header n = \<lparr>BaseHeader = \<lparr>Number = n, PreviousBaseHeaderHash = None, LastCommittedBlockHash = None, LastCommittedBlockNum = 0\<rparr>,
     SkipchainHashes = [], TxMerkleTreeRootHash = None, StateMerkleTreeRootHash = None, HValidationInfo = [valid_info]\<rparr>"

definition tiny_block :: "64 word \<Rightarrow> Block" where
  "tiny_block n = \<lparr>Header = tiny_header n, BPayload = Some (Block_DataTxEnvelopes
     [\<lparr>DPayload = \<lparr>MustSignUserIds = [], DTxId = ''tx'' @ dec (unat n), DbOperations = []\<rparr>, Signatures = []\<rparr>]), BConsensusMetadata = None\<rparr>"

definition un_number :: "bytes \<Rightarrow> (64 word) res" where
  "un_number y = (case unvarint y of Some (k, []) \<Rightarrow> Inr (of_nat k) | _ \<Rightarrow> Inl (Err ''cannot decode''))"

lemma un_number_varint [simp]: "un_number (varint (unat n)) = Inr n"
  using unvarint_varint[of "unat n" "[]"] by (simp add: un_number_def)

definition wire_varint_decode :: "bytes \<Rightarrow> 64 word \<times> nat" where
  "wire_varint_decode b = (case unvarint b of None \<Rightarrow> (0, 0) | Some (n, r) \<Rightarrow> (of_nat n, length b - length r))"

definition tiny_codec :: "nat \<Rightarrow> block_codec" where
  "tiny_codec pad = \<lparr>EncodeVarint = (\<lambda>n. varint (unat n)), DecodeVarint = wire_varint_decode,
     MarshalBlock = (\<lambda>b. if b = tiny_block (block_number b) then Inr (varint (unat (block_number b))) else Inl (Err ''cannot encode'')),
     UnmarshalBlock = (\<lambda>y. rbind (un_number y) (\<lambda>n. Inr (tiny_block n))),
     MarshalLocation = (\<lambda>l. Inr (pb_encode [PVarint 1 (unat (FileChunkNum l)), PVarint 2 (Offset l), PVarint 3 (LLength l)])),
     UnmarshalLocation = decode_with (\<lambda>fs. Inr \<lparr>FileChunkNum = of_nat (get_varint 1 fs), Offset = get_varint 2 fs, LLength = get_varint 3 fs\<rparr>),
     MarshalTxInfo = (\<lambda>t. if TValidation t = valid_info then Inr (pb_encode [PVarint 1 (unat (TBlockNumber t)), PVarint 2 (unat (TTxIndex t))])
       else Inl (Err ''cannot encode'')),
     UnmarshalTxInfo = decode_with (\<lambda>fs. Inr \<lparr>TBlockNumber = of_nat (get_varint 1 fs), TTxIndex = of_nat (get_varint 2 fs), TValidation = valid_info\<rparr>),
     MarshalHeader = (\<lambda>h. if header_eq h (tiny_header (Number (BaseHeader h))) then Inr (varint (unat (Number (BaseHeader h)))) else Inl (Err ''cannot encode'')),
     UnmarshalHeader = (\<lambda>y. rbind (un_number y) (\<lambda>n. Inr (tiny_header n))),
     MarshalBaseHeader = (\<lambda>g. Inr (varint (unat (Number g)))),
     MarshalTxIDs = (\<lambda>ids. Inr (pb_encode (map (\<lambda>i. PBytes 1 (bytes_of_string i)) ids))),
     UnmarshalTxIDs = decode_with (\<lambda>fs. Inr (map string_of_bytes (rep_bytes 1 fs))),
     SnappyEncode = (\<lambda>y. y @ replicate pad 0),
     SnappyDecode = (\<lambda>z. if length z < pad then Inl (Err ''snappy: corrupt input'') else Inr (take (length z - pad) z))\<rparr>"

lemma slice_eq_trans: "slice_eq a b \<Longrightarrow> slice_eq b c \<Longrightarrow> slice_eq a c" and slice_eq_sym: "slice_eq a b \<Longrightarrow> slice_eq b a"
  by (simp_all add: slice_eq_def)

lemma header_eq_trans: "header_eq a b \<Longrightarrow> header_eq b c \<Longrightarrow> header_eq a c"
  unfolding header_eq_def base_eq_def by (auto simp: slice_eq_def intro: list_all2_trans[of slice_eq slice_eq slice_eq])

lemma header_eq_sym: "header_eq a b \<Longrightarrow> header_eq b a"
  unfolding header_eq_def base_eq_def by (auto simp: slice_eq_def list_all2_conv_all_nth)

lemma header_eq_refl [simp]: "header_eq a a"
  by (simp add: header_eq_def base_eq_def list_all2_refl)

lemma string_of_bytes_map [simp]: "map (string_of_bytes \<circ> bytes_of_string) ids = ids"
  by (induction ids) simp_all

interpretation tiny: block_serialization "tiny_codec pad" "(=)" for pad
proof
  fix n r
  show "EncodeVarint (tiny_codec pad) n = varint (unat n)"
    by (simp add: tiny_codec_def)
  show "DecodeVarint (tiny_codec pad) (varint (unat n) @ r) = (n, length (varint (unat n)))"
    by (simp add: tiny_codec_def wire_varint_decode_def unvarint_varint)
next
  fix b assume "unvarint b = None"
  then show "snd (DecodeVarint (tiny_codec pad) b) = 0"
    by (simp add: tiny_codec_def wire_varint_decode_def)
next
  fix b y assume "MarshalBlock (tiny_codec pad) b = Inr y"
  then show "\<exists>b'. UnmarshalBlock (tiny_codec pad) y = Inr b' \<and> b = b'"
    by (auto simp: tiny_codec_def split: if_splits)
next
  fix l y assume "MarshalLocation (tiny_codec pad) l = Inr y"
  then show "UnmarshalLocation (tiny_codec pad) y = Inr l"
    by (auto simp: tiny_codec_def decode_with_encode get_varint_def)
next
  fix t y assume "MarshalTxInfo (tiny_codec pad) t = Inr y"
  then show "UnmarshalTxInfo (tiny_codec pad) y = Inr t"
    by (auto simp: tiny_codec_def decode_with_encode get_varint_def split: if_splits)
next
  fix h y assume "MarshalHeader (tiny_codec pad) h = Inr y"
  then show "\<exists>h'. UnmarshalHeader (tiny_codec pad) y = Inr h' \<and> header_eq h h'"
    by (auto simp: tiny_codec_def split: if_splits)
next
  fix h h' assume eq: "header_eq h h'"
  then have "Number (BaseHeader h) = Number (BaseHeader h')"
    by (simp add: header_eq_def base_eq_def)
  moreover have "header_eq h x \<longleftrightarrow> header_eq h' x" for x
    using eq header_eq_trans header_eq_sym by blast
  ultimately show "MarshalHeader (tiny_codec pad) h = MarshalHeader (tiny_codec pad) h'"
    by (simp add: tiny_codec_def)
next
  fix g g' assume "base_eq g g'"
  then show "MarshalBaseHeader (tiny_codec pad) g = MarshalBaseHeader (tiny_codec pad) g'"
    by (simp add: tiny_codec_def base_eq_def)
next
  fix ids y assume "MarshalTxIDs (tiny_codec pad) ids = Inr y"
  then show "UnmarshalTxIDs (tiny_codec pad) y = Inr ids"
    by (auto simp: tiny_codec_def decode_with_encode rep_bytes_map)
next
  fix y
  show "SnappyDecode (tiny_codec pad) (SnappyEncode (tiny_codec pad) y) = Inr y"
    by (simp add: tiny_codec_def)
qed auto

text \<open>A system without failures, and a store on search trees.\<close>

definition calm :: io where
  "calm = \<lparr>ioExists = (\<lambda>_. None), ioOpen = (\<lambda>_. None), ioClose = (\<lambda>_. None), ioStat = (\<lambda>_. None), ioRead = (\<lambda>_. None),
     ioWrite = (\<lambda>_ _ _. None), ioTruncate = (\<lambda>_ _. None), ioRemove = (\<lambda>_. None), ioReadDir = None\<rparr>"

definition tiny_env :: "nat \<Rightarrow> memdb store_env" where
  "tiny_env pad = \<lparr>seDB = mem_ldb, seCodec = tiny_codec pad, seIO = calm, seHash = checksum\<rparr>"

lemma tiny_env_simps [simp]:
  "seDB (tiny_env pad) = mem_ldb" "seCodec (tiny_env pad) = tiny_codec pad" "seIO (tiny_env pad) = calm"
  by (simp_all add: tiny_env_def)

interpretation tiny_store: block_store "tiny_env pad" RBT.lookup "(=)" for pad
  by (simp add: block_store_def mem.leveldb_axioms tiny.block_serialization_axioms)

lemma tiny_no_faults: "no_faults (tiny_env pad)"
  by (simp add: no_faults_def calm_def mem_Write_def tiny_codec_def)

text \<open>Every tiny block can be committed after its predecessor.\<close>

lemma tiny_simps [simp]: "block_number (tiny_block n) = n" "Header (tiny_block n) = tiny_header n" "Number (BaseHeader (tiny_header n)) = n"
  by (simp_all add: tiny_block_def tiny_header_def)

definition tiny_record :: "nat \<Rightarrow> 64 word \<Rightarrow> bytes" where
  "tiny_record pad n = varint (unat (of_nat (length (varint (unat n)) + pad) :: 64 word)) @ varint (unat n) @ replicate pad 0"

lemma tiny_blockRecord: "blockRecord (tiny_env pad) (tiny_block n) = Inr (tiny_record pad n)"
  by (simp add: blockRecord_def tiny_codec_def Let_def tiny_record_def)

lemma tiny_batches:
  "\<exists>hb. headerBatch (tiny_env pad) (tiny_block n) = Inr hb" "\<exists>vb. validationBatch (tiny_env pad) (tiny_block n) = Inr vb"
proof -
  have "MarshalHeader (tiny_codec pad) (tiny_header n) = Inr (varint (unat n))"
    by (simp add: tiny_codec_def)
  moreover have "BlockPayloadToTxIDs (BPayload (tiny_block n)) = Inr [''tx'' @ dec (unat n)]"
    by (simp add: BlockPayloadToTxIDs_def tiny_block_def)
  moreover have "MarshalBaseHeader (tiny_codec pad) g = Inr (varint (unat (Number g)))"
      "MarshalTxIDs (tiny_codec pad) ids = Inr (pb_encode (map (\<lambda>i. PBytes 1 (bytes_of_string i)) ids))" for g ids
    by (simp_all add: tiny_codec_def)
  ultimately show "\<exists>hb. headerBatch (tiny_env pad) (tiny_block n) = Inr hb"
    by (auto simp: headerBatch_def Let_def)
  show "\<exists>vb. validationBatch (tiny_env pad) (tiny_block n) = Inr vb"
    by (auto simp: validationBatch_def validationAt_def tiny_block_def tiny_header_def tiny_codec_def)
qed

lemma tiny_storable: "pad \<le> 5000 \<Longrightarrow> storable (tiny_env pad) (tiny_block n)"
  using length_varint_word[of n] by (simp add: storable_def tiny_codec_def maxAlloc_def MaxVarintLen64_def)

lemma tiny_commit: "lastCommittedBlockNum s + 1 = n \<Longrightarrow> \<exists>s'. Store_Commit (tiny_env pad) s (Some (tiny_block n)) = (s', Inr ())"
  using tiny_batches[of pad n] tiny_store.commit_succeeds[OF tiny_no_faults _ _ tiny_blockRecord, of pad n s]
  by (auto simp: calm_def)

text \<open>A new store with the first tiny blocks, and where they are.\<close>

lemma tiny_record_length: "n < 128 \<Longrightarrow> length (tiny_record 0 n) = 2" "n < 128 \<Longrightarrow> length (tiny_record 5000 n) = 5003"
  by (simp_all add: tiny_record_def word_less_nat_alt varint.simps[of "unat n"] varint.simps)

lemma tiny_empty: "RBT.lookup (RBT.empty :: memdb) = Map.empty"
  by simp

lemma tiny_step:
  assumes "lastCommittedBlockNum s + 1 = n" "n < 128" "pad = 0 \<or> pad = 5000" "currentOffset s < 60000000"
  obtains s' where "Store_Commit (tiny_env pad) s (Some (tiny_block n)) = (s', Inr ())" "lastCommittedBlockNum s' = n"
    "currentOffset s' = currentOffset s + length (tiny_record pad n)" "currentChunkNum s' = currentChunkNum s"
    "getLocation (tiny_env pad) s' n = Inr \<lparr>FileChunkNum = currentChunkNum s, Offset = currentOffset s, LLength = length (tiny_record pad n)\<rparr>"
    "\<And>m. m \<noteq> n \<Longrightarrow> getLocation (tiny_env pad) s' m = getLocation (tiny_env pad) s m"
proof -
  obtain s' where s': "Store_Commit (tiny_env pad) s (Some (tiny_block n)) = (s', Inr ())"
    using tiny_commit[OF assms(1)] by blast
  have "canCurrentFileChunkHold s (length (tiny_record pad n))"
    using assms(2-4) by (auto simp: canCurrentFileChunkHold_def chunkSizeLimit_def tiny_record_length)
  from that[OF s'] tiny_store.commit_place[OF s' tiny_blockRecord this] show ?thesis
    by simp
qed

lemma tiny_one:
  obtains s where "commitBlocks (tiny_env 0) (openNewStore RBT.empty) [tiny_block 1] = (s, Inr ())"
    "lastCommittedBlockNum s = 1" "currentOffset s = 2" "currentChunkNum s = 0"
proof -
  obtain s where s: "Store_Commit (tiny_env 0) (openNewStore RBT.empty) (Some (tiny_block 1)) = (s, Inr ())"
      "lastCommittedBlockNum s = 1" "currentOffset s = 2" "currentChunkNum s = 0"
    by (rule tiny_step[of "openNewStore RBT.empty" 1 0]) (auto simp: openNewStore_def tiny_record_length intro: that)
  then show ?thesis
    using that by simp
qed

section \<open>Properties\<close>

text \<open>
  C15. For every sequence of blocks committed to a new store without an error: the height is their
  number, reading a number returns the block committed under it, reading its header returns its
  header, and the stored hash is the hash of the block.
\<close>

theorem block_store_correct:
  assumes "block_store env view beq" "commitBlocks env (openNewStore d) bs = (s, Inr ())" "view d = Map.empty"
    and "\<forall>b \<in> set bs. storable env b" "length bs < 2 ^ 64"
    and "\<forall>p. ioOpen (seIO env) p = None \<and> ioRead (seIO env) p = None"
  shows "Store_Height s = of_nat (length bs) \<and> (\<forall>i < length bs.
      (\<exists>s' b'. Store_Get env s (of_nat (Suc i)) = (s', Inr b') \<and> beq (bs ! i) b')
    \<and> (\<exists>h. Store_GetHeader env s (of_nat (Suc i)) = Inr h \<and> header_eq (Header (bs ! i)) h)
    \<and> (\<exists>x. ComputeBlockHash env (bs ! i) = Inr x \<and> Store_GetHash env s (of_nat (Suc i)) = Inr x))"
proof -
  note chain = block_store.committed_chain(1)[OF assms(1-5)]
  have "(\<exists>s' b'. Store_Get env s (of_nat (Suc i)) = (s', Inr b') \<and> beq (bs ! i) b')
    \<and> (\<exists>h. Store_GetHeader env s (of_nat (Suc i)) = Inr h \<and> header_eq (Header (bs ! i)) h)
    \<and> (\<exists>x. ComputeBlockHash env (bs ! i) = Inr x \<and> Store_GetHash env s (of_nat (Suc i)) = Inr x)" if "i < length bs" for i
  proof -
    have b: "block_number (bs ! i) = of_nat (Suc i)" "storable env (bs ! i)" "holdsBlock env view s (bs ! i)" "holdsHeader env view s (bs ! i)"
      using chain that by (simp_all add: holdsChain_def)
    have "unat (of_nat (Suc i) :: 64 word) = Suc i" "unat (of_nat (length bs) :: 64 word) = length bs"
      unfolding unat_of_nat using that assms(5) by (intro mod_less; simp)+
    then have "block_number (bs ! i) \<le> lastCommittedBlockNum s"
      using chain that b(1) by (simp add: holdsChain_def word_le_nat_alt del: of_nat_Suc)
    then have "\<exists>s' b'. Store_Get env s (block_number (bs ! i)) = (s', Inr b') \<and> beq (bs ! i) b'"
      using block_store.holds_read[OF assms(1) b(3,2)] assms(6) by simp
    moreover from b(4) obtain hb where "MarshalHeader (seCodec env) (Header (bs ! i)) = Inr hb"
        "view (blockHeaderDB s) (constructHeaderBytesKey env (block_number (bs ! i))) = Some hb"
        "view (blockHeaderDB s) (constructHeaderHashKey env (block_number (bs ! i))) = Some (seHash env hb)"
      unfolding holdsHeader_def by blast
    ultimately show ?thesis
      using assms(1) block_serialization.header_rt[of "seCodec env" beq "Header (bs ! i)" hb] leveldb.get_view[of "seDB env" view "blockHeaderDB s"]
      unfolding b(1)
      by (auto simp: block_store_def Store_GetHeader_def Store_GetHash_def headerDBGet_def Let_def ComputeBlockHash_def)
  qed
  then show ?thesis
    using chain by (simp add: Store_Height_def holdsChain_def)
qed

theorem block_store_correct_witness:
  "\<exists>s. commitBlocks (tiny_env 0) (openNewStore RBT.empty) [tiny_block 1, tiny_block 2] = (s, Inr ())
    \<and> Store_Height s = 2 \<and> (\<exists>s'. Store_Get (tiny_env 0) s 1 = (s', Inr (tiny_block 1)))
    \<and> (\<exists>s'. Store_Get (tiny_env 0) s 2 = (s', Inr (tiny_block 2)))"
proof -
  obtain s1 where s1: "commitBlocks (tiny_env 0) (openNewStore RBT.empty) [tiny_block 1] = (s1, Inr ())" "lastCommittedBlockNum s1 = 1"
    by (rule tiny_one)
  then obtain s2 where s2: "Store_Commit (tiny_env 0) s1 (Some (tiny_block 2)) = (s2, Inr ())"
    using tiny_commit[of s1 2 0] by auto
  have run: "commitBlocks (tiny_env 0) (openNewStore RBT.empty) [tiny_block 1, tiny_block 2] = (s2, Inr ())"
    using s1 s2 by (auto simp: sbind_Inr_iff)
  have pre: "RBT.lookup (RBT.empty :: memdb) = Map.empty" "\<forall>b \<in> set [tiny_block 1, tiny_block 2]. storable (tiny_env 0) b"
      "length [tiny_block 1, tiny_block 2] < 2 ^ 64" "\<forall>p. ioOpen (seIO (tiny_env 0)) p = None \<and> ioRead (seIO (tiny_env 0)) p = None"
    by (simp_all add: tiny_storable calm_def)
  note all = block_store_correct[OF tiny_store.block_store_axioms run pre]
  show ?thesis
    using run all[THEN conjunct2, THEN spec, of 0] all[THEN conjunct2, THEN spec, of 1] all[THEN conjunct1] by simp
qed



text \<open>
  C18. Reading moves the position at which the next block is written. After a block of the current
  chunk has been read that ends more than a read buffer and the new record before the end of the
  file, a successful commit puts the new block into the middle of the file, over older blocks, and
  the new block cannot be read.
\<close>

theorem read_then_commit_loses_block:
  assumes "block_store env view beq" "\<forall>p. ioRead (seIO env) p = None" "commitBlocks env (openNewStore d) bs = (s, Inr ())" "view d = Map.empty"
    and "\<forall>b \<in> set bs. storable env b" "length bs < 2 ^ 64"
    and "Store_Get env s n = (s1, Inr x)" "1 \<le> n" "n \<le> lastCommittedBlockNum s" "getLocation env s n = Inr loc"
    and "FileChunkNum loc = currentChunkNum s" "Store_Commit env s1 (Some b) = (s2, Inr ())" "blockRecord env b = Inr c"
    and "canCurrentFileChunkHold s (length c)" "Offset loc + LLength loc + bufSize + length c \<le> currentOffset s"
  shows "\<exists>e. snd (Store_Get env s2 (block_number b)) = Inl e"
proof -
  note chain = block_store.committed_chain(1)[OF assms(1,3-6)]
  have rd: "ioRead (seIO env) p = None" for p
    using assms(2) by blast
  note pos = block_store.get_position[OF assms(1,7) chain assms(8,9) rd assms(10,11)]
  have keep: "currentOffset s1 = currentOffset s" "currentFile s1 = currentFile s" "currentOffset s = length (currentFile s)"
      "canCurrentFileChunkHold s1 (length c)"
  proof -
    show "currentOffset s1 = currentOffset s" "currentFile s1 = currentFile s"
      by (subst pos(2), simp)+
    then show "canCurrentFileChunkHold s1 (length c)"
      using assms(14) by (simp add: canCurrentFileChunkHold_def)
    show "currentOffset s = length (currentFile s)"
      using chain by (simp add: holdsChain_def wf_files_def)
  qed
  have "filePos s1 + length c \<le> length (currentFile s1)"
    using pos(1) assms(15) keep by simp
  then show ?thesis
    using block_store.misplaced_commit[OF assms(1,12,13) keep(4) _ _ rd] keep by simp
qed

theorem read_then_commit_loses_block_witness:
  "\<exists>s s1 s2 e. commitBlocks (tiny_env 5000) (openNewStore RBT.empty) [tiny_block 1, tiny_block 2, tiny_block 3] = (s, Inr ())
    \<and> Store_Get (tiny_env 5000) s 1 = (s1, Inr (tiny_block 1))
    \<and> Store_Commit (tiny_env 5000) s1 (Some (tiny_block 4)) = (s2, Inr ())
    \<and> snd (Store_Get (tiny_env 5000) s2 4) = Inl e"
proof -
  let ?e = "tiny_env 5000"
  obtain s1 where s1: "Store_Commit ?e (openNewStore RBT.empty) (Some (tiny_block 1)) = (s1, Inr ())" "lastCommittedBlockNum s1 = 1"
      "currentOffset s1 = 5003" "currentChunkNum s1 = 0" "getLocation ?e s1 1 = Inr \<lparr>FileChunkNum = 0, Offset = 0, LLength = 5003\<rparr>"
    by (rule tiny_step[of "openNewStore RBT.empty" 1 5000]) (auto simp: openNewStore_def tiny_record_length intro: that)
  obtain s2 where s2: "Store_Commit ?e s1 (Some (tiny_block 2)) = (s2, Inr ())" "lastCommittedBlockNum s2 = 2"
      "currentOffset s2 = 10006" "currentChunkNum s2 = 0" "getLocation ?e s2 1 = getLocation ?e s1 1"
    by (rule tiny_step[of s1 2 5000]) (auto simp: s1 tiny_record_length intro: that)
  obtain s3 where s3: "Store_Commit ?e s2 (Some (tiny_block 3)) = (s3, Inr ())" "lastCommittedBlockNum s3 = 3"
      "currentOffset s3 = 15009" "currentChunkNum s3 = 0" "getLocation ?e s3 1 = getLocation ?e s2 1"
    by (rule tiny_step[of s2 3 5000]) (auto simp: s2 tiny_record_length intro: that)
  have run: "commitBlocks ?e (openNewStore RBT.empty) [tiny_block 1, tiny_block 2, tiny_block 3] = (s3, Inr ())"
    using s1 s2 s3 by simp
  have pre: "\<forall>b \<in> set [tiny_block 1, tiny_block 2, tiny_block 3]. storable ?e b" "length [tiny_block 1, tiny_block 2, tiny_block 3] < 2 ^ 64"
      "\<forall>p. ioRead (seIO ?e) p = None"
    by (simp_all add: tiny_storable calm_def)
  note chain = tiny_store.committed_chain(1)[OF run tiny_empty pre(1,2)]
  have loc: "getLocation ?e s3 1 = Inr \<lparr>FileChunkNum = 0, Offset = 0, LLength = 5003\<rparr>"
    using s1 s2 s3 by simp
  obtain t r where t: "Store_Get ?e s3 1 = (t, r)"
    by fastforce
  have "\<exists>b'. r = Inr b' \<and> [tiny_block 1, tiny_block 2, tiny_block 3] ! (unat (1 :: 64 word) - 1) = b'"
    by (rule tiny_store.get_keeps_chain(2)[OF t chain]) (simp_all add: s3 calm_def)
  then have r: "r = Inr (tiny_block 1)"
    by simp
  obtain u where u: "Store_Commit ?e t (Some (tiny_block 4)) = (u, Inr ())"
    using tiny_commit[of t 4 5000] tiny_store.Get_keeps(4)[OF t] s3(2) by auto
  have "\<exists>e. snd (Store_Get ?e u (block_number (tiny_block 4))) = Inl e"
    by (rule read_then_commit_loses_block[OF tiny_store.block_store_axioms pre(3) run tiny_empty pre(1,2) t[unfolded r] _ _ loc _ u tiny_blockRecord])
      (simp_all add: s3 canCurrentFileChunkHold_def chunkSizeLimit_def tiny_record_length bufSize_def)
  then show ?thesis
    using run t r u by auto
qed

text \<open>
  C19. Recovery of a block that was written but not indexed leaves the file at its beginning. The
  next commit, when its record is not longer than the file, overwrites the first blocks of the chunk
  and cannot be read.
\<close>

theorem recovered_store_loses_block:
  assumes "block_store env view beq" "no_faults env" "commitBlocks env (openNewStore d) bs = (s, Inr ())" "view d = Map.empty"
    and "\<forall>x \<in> set (bs @ [b]). storable env x" "Suc (Suc (length bs)) < 2 ^ 64" "bs \<noteq> []" "block_number b = of_nat (Suc (length bs))"
    and "blockRecord env b = Inr c" "canCurrentFileChunkHold s (length c)" "appendBlock env s (block_number b) c = (s2, Inr loc)"
    and "headerBatch env b = Inr hb" "validationBatch env b = Inr vb"
    and "openExistingStore env (disk_of s2) = Inr (s3, Inr ())" "Store_Commit env s3 (Some b3) = (s4, Inr ())"
    and "blockRecord env b3 = Inr c3" "length c3 \<le> currentOffset s2" "currentOffset s2 + length c3 < chunkSizeLimit"
  shows "\<exists>e. snd (Store_Get env s4 (block_number b3)) = Inl e"
proof -
  have st: "\<forall>x \<in> set bs. storable env x" "length bs < 2 ^ 64" "storable env b"
    using assms(5,6) by auto
  note chain = block_store.committed_chain[OF assms(1,3,4) st(1,2)]
  obtain lb where lb: "MarshalLocation (seCodec env) loc = Inr lb"
    using assms(2) unfolding no_faults_def by blast
  have choose: "(if canCurrentFileChunkHold s (length c) then (s, Inr ()) else moveToNextFileChunk env s) = (s, Inr ())"
    using assms(10) by simp
  have wf: "wf_files s"
    using chain(1) by (simp add: holdsChain_def)
  note ap = block_store.appendBlock_ok[OF assms(1,11) wf chain(2)]
  have "filePos s3 = 0 \<and> currentOffset s3 = length (currentFile s3) \<and> currentChunkNum s3 = currentChunkNum s2 \<and> chunkDir s3 = chunkDir s2"
    using block_store.crash_written[OF assms(1,2) chain(1,3) assms(7,6) chain(2) assms(9) st(3) assms(8) choose assms(11) lb assms(12,13), of "disk_of s2"]
      ap(4,5) assms(14) by (auto simp: disk_of_def)
  moreover have "length (currentFile s2) = currentOffset s2"
    using ap(1) by (simp add: wf_files_def)
  ultimately have s3: "filePos s3 + length c3 \<le> length (currentFile s3)" "currentOffset s3 = length (currentFile s3)"
      "canCurrentFileChunkHold s3 (length c3)"
    using assms(17,18) by (simp_all add: canCurrentFileChunkHold_def)
  show ?thesis
    using block_store.misplaced_commit[OF assms(1,15,16) s3(3,2,1)] no_faultsD(5)[OF assms(2)] by blast
qed

theorem recovered_store_loses_block_witness:
  "\<exists>s s2 s3 s4 loc e. commitBlocks (tiny_env 0) (openNewStore RBT.empty) [tiny_block 1] = (s, Inr ())
    \<and> appendBlock (tiny_env 0) s 2 (tiny_record 0 2) = (s2, Inr loc) \<and> openExistingStore (tiny_env 0) (disk_of s2) = Inr (s3, Inr ())
    \<and> Store_Commit (tiny_env 0) s3 (Some (tiny_block 3)) = (s4, Inr ()) \<and> snd (Store_Get (tiny_env 0) s4 3) = Inl e"
proof -
  let ?e = "tiny_env 0"
  obtain s where s: "commitBlocks ?e (openNewStore RBT.empty) [tiny_block 1] = (s, Inr ())" "currentOffset s = 2" "lastCommittedBlockNum s = 1"
    by (rule tiny_one)
  obtain s2 loc where s2: "appendBlock ?e s (block_number (tiny_block 2)) (tiny_record 0 2) = (s2, Inr loc)" "currentOffset s2 = 4"
    using s(2) by (auto simp: appendBlock_def calm_def Let_def tiny_record_length)
  obtain hb vb where hb: "headerBatch ?e (tiny_block 2) = Inr hb" "validationBatch ?e (tiny_block 2) = Inr vb"
    using tiny_batches by blast
  have pre: "\<forall>x \<in> set ([tiny_block 1] @ [tiny_block 2]). storable ?e x" "Suc (Suc (length [tiny_block 1])) < 2 ^ 64" "[tiny_block 1] \<noteq> []"
      "block_number (tiny_block 2) = of_nat (Suc (length [tiny_block 1]))" "canCurrentFileChunkHold s (length (tiny_record 0 2))"
      "\<forall>x \<in> set [tiny_block 1]. storable ?e x" "length [tiny_block 1] < 2 ^ 64" "storable ?e (tiny_block 2)"
    by (simp_all add: tiny_storable canCurrentFileChunkHold_def chunkSizeLimit_def s(2) tiny_record_length)
  note chain = tiny_store.committed_chain[OF s(1) tiny_empty pre(6,7)]
  obtain lb where lb: "MarshalLocation (seCodec ?e) loc = Inr lb"
    using tiny_no_faults unfolding no_faults_def by blast
  have choose: "(if canCurrentFileChunkHold s (length (tiny_record 0 2)) then (s, Inr ()) else moveToNextFileChunk ?e s) = (s, Inr ())"
    using pre(5) by simp
  have wf: "wf_files s"
    using chain(1) by (simp add: holdsChain_def)
  note ap = tiny_store.appendBlock_ok[OF s2(1) wf chain(2)]
  obtain s3 where s3: "openExistingStore ?e (disk_of s2) = Inr (s3, Inr ())" "serves ?e RBT.lookup s3 ([tiny_block 1] @ [tiny_block 2])"
    using tiny_store.crash_written[OF tiny_no_faults chain(1,3) pre(3,2) chain(2) tiny_blockRecord pre(8,4) choose s2(1) lb hb, of "disk_of s2"] ap(4,5)
    by (auto simp: disk_of_def)
  then obtain s4 where s4: "Store_Commit ?e s3 (Some (tiny_block 3)) = (s4, Inr ())"
    using tiny_commit[of s3 3 0] by (auto simp: serves_def)
  have "\<exists>e. snd (Store_Get ?e s4 (block_number (tiny_block 3))) = Inl e"
    by (rule recovered_store_loses_block[OF tiny_store.block_store_axioms tiny_no_faults s(1) tiny_empty pre(1-4) tiny_blockRecord pre(5) s2(1) hb s3(1) s4 tiny_blockRecord])
      (simp_all add: s2(2) tiny_record_length chunkSizeLimit_def)
  then show ?thesis
    using s(1) s2(1) s3(1) s4 by auto
qed

text \<open>
  C20. A commit whose write to the chunk file fails reports an error, and after the written part has
  been cut off the store holds the same blocks and the next commit goes to the right place.
\<close>

theorem failed_write_keeps_chain:
  assumes "block_store env view beq" "commitBlocks env (openNewStore d) bs = (s, Inr ())" "view d = Map.empty"
    and "\<forall>b \<in> set bs. storable env b" "length bs < 2 ^ 64" "block_number b = of_nat (Suc (length bs))"
    and "blockRecord env b = Inr c" "canCurrentFileChunkHold s (length c)"
    and "ioWrite io (constructBlockFileChunkPath (currentChunkNum s)) (filePos s) c = Some (n, e)" "\<forall>p m. ioTruncate io p m = None"
  shows "\<exists>s' e'. Store_Commit (env\<lparr>seIO := io\<rparr>) s (Some b) = (s', Inl e') \<and> holdsChain env view s' bs \<and> positioned s'"
proof -
  note chain = block_store.committed_chain[OF assms(1-5)]
  let ?env = "env\<lparr>seIO := io\<rparr>"
  have bs: "block_store ?env view beq"
    using assms(1) by (simp add: block_store_def)
  have same: "holdsChain ?env view x bs \<longleftrightarrow> holdsChain env view x bs" for x
    by (simp add: holdsChain_def holdsBlock_def holdsHeader_def storable_def blockRecord_def constructHeaderBytesKey_def
        constructHeaderHashKey_def constructHeaderBaseHashKey_def constructBlockTxsIDKey_def)
  have "blockRecord ?env b = Inr c" "block_number b = lastCommittedBlockNum s + 1"
    using assms(6,7) chain(1) by (simp_all add: blockRecord_def holdsChain_def)
  from block_store.failed_write[OF bs chain(1)[folded same] chain(2) this assms(8), of n e] show ?thesis
    using assms(9,10) same by simp
qed

theorem failed_write_keeps_chain_witness:
  "\<exists>s s' e'. commitBlocks (tiny_env 0) (openNewStore RBT.empty) [tiny_block 1] = (s, Inr ())
    \<and> Store_Commit ((tiny_env 0)\<lparr>seIO := calm\<lparr>ioWrite := (\<lambda>p n c. Some (1, Err ''disk full''))\<rparr>\<rparr>) s (Some (tiny_block 2)) = (s', Inl e')
    \<and> holdsChain (tiny_env 0) RBT.lookup s' [tiny_block 1] \<and> positioned s'"
proof -
  obtain s where s: "commitBlocks (tiny_env 0) (openNewStore RBT.empty) [tiny_block 1] = (s, Inr ())" "currentOffset s = 2"
    by (rule tiny_one)
  have pre: "\<forall>x \<in> set [tiny_block 1]. storable (tiny_env 0) x" "length [tiny_block 1] < 2 ^ 64"
      "block_number (tiny_block 2) = of_nat (Suc (length [tiny_block 1]))" "canCurrentFileChunkHold s (length (tiny_record 0 2))"
    by (simp_all add: tiny_storable canCurrentFileChunkHold_def chunkSizeLimit_def s(2) tiny_record_length)
  from failed_write_keeps_chain[OF tiny_store.block_store_axioms s(1) tiny_empty pre(1-3) tiny_blockRecord pre(4),
      of "calm\<lparr>ioWrite := (\<lambda>p n c. Some (1, Err ''disk full''))\<rparr>" 1 "Err ''disk full''"]
  show ?thesis
    using s(1) by (auto simp: calm_def)
qed

text \<open>
  C21. The loop that computes the skip list links of a block ends for every block number, and the
  links of block \<open>n > 1\<close> are the earlier blocks \<open>n - 2 ^ i\<close>, \<open>i = 0, \<dots>, k\<close>, where \<open>2 ^ k\<close> is the
  largest power of two that divides \<open>n - 1\<close>; the subtractions do not wrap.
\<close>

theorem skip_list_links: "\<exists>ls. CalculateSkipListLinks n = Some ls \<and> (if n \<le> 1 then ls = [] else
    (\<exists>k. 2 ^ k dvd unat n - 1 \<and> \<not> 2 ^ Suc k dvd unat n - 1 \<and> 2 ^ k < unat n \<and> map unat ls = map (\<lambda>i. unat n - 2 ^ i) [0..<Suc k]))"
proof (cases "1 < n")
  case True
  obtain ls k where l: "CalculateSkipListLinks n = Some ls" "2 ^ k dvd unat n - 1" "\<not> 2 ^ Suc k dvd unat n - 1"
    "2 ^ k \<le> unat n - 1" "map unat ls = map (\<lambda>i. unat n - 2 ^ i) [0..<Suc k]"
    by (rule CalculateSkipListLinks_eq[OF True]) (rule that)
  have "0 < unat n"
    using True by (simp add: word_less_nat_alt)
  then have "2 ^ k < unat n"
    using l(4) by linarith
  then show ?thesis
    using l True by (auto simp del: upt_Suc)
next
  case False
  then have "CalculateSkipListLinks n = Some []" "n \<le> 1"
    by (simp_all add: CalculateSkipListLinks_def)
  then show ?thesis
    by simp
qed

text \<open>
  C17. A crash while the very first block is being written: with a proper part of its record in the
  file and nothing in the databases, opening the store dereferences a nil location and panics.
\<close>

theorem torn_first_block_panics:
  assumes "block_store env view beq" "no_faults env" "blockRecord env b = Inr c" "storable env b" "0 < n" "n < length c" "view d = Map.empty"
  shows "\<exists>s'. openExistingStore env (disk_of (writeCurrent (openNewStore d) (take n c))) = Inr (s', Inl (Panic ''nil pointer dereference''))"
proof -
  let ?dk = "disk_of (writeCurrent (openNewStore d) (take n c))"
  let ?s = "openedOn ?dk 0"
  have dk: "dkChunks ?dk = gomap_put [] (constructBlockFileChunkPath 0) (take n c)" "dkIndex ?dk = d"
    by (simp_all add: disk_of_def writeCurrent_def openNewStore_def fileContent_def writeAt_def gomap_put_def)
  have keys: "wf_gomap (dkChunks ?dk)" "fst ` set (dkChunks ?dk) = constructBlockFileChunkPath ` {k. k \<le> 0}"
    unfolding dk(1) by (simp_all add: wf_gomap_def gomap_put_def)
  have "openExistingStore env ?dk = Inr (Store_recover env ?s)"
    unfolding openedOn_def by (rule block_store.open_eq[OF assms(1,2) keys])
  moreover have gl: "getLastBlockLocationInIndex env ?s = Inr (0, None)"
    using assms(7) by (intro block_store.last_in_index(1)[OF assms(1), of _ 0]) (simp_all add: dk(2))
  moreover have "has_key (chunkDir ?s) (constructBlockFileChunkPath (case None of None \<Rightarrow> currentChunkNum ?s | Some loc \<Rightarrow> FileChunkNum loc))"
    unfolding openedOn_simps dk(1) by (simp add: has_key_def)
  note rec = block_store.recover_eq[OF assms(1,2) gl this]
  have "drop (stOffset (startAt ?s None)) (fileContent (dkChunks ?dk) (fileChunkNum (startAt ?s None))) = take n c"
      "remainingBytes (startAt ?s None) = int n"
    using assms(6) by (simp_all add: startAt_def dk)
  then obtain st where "nextBlockWithLocation env (chunkDir ?s) (startAt ?s None) = (st, Inl ErrUnexpectedEndOfBlockfile)"
    using block_store.readNextBlock_partial[OF assms(1,3-6)] assms(5) by (fastforce simp: nextBlockWithLocation_def)
  then have "Store_recover env ?s = recoverPartial env ?s 0 None"
    using rec by simp
  ultimately show ?thesis
    by (simp add: recoverPartial_def)
qed

theorem torn_first_block_panics_witness:
  "\<exists>s'. openExistingStore (tiny_env 0) (disk_of (writeCurrent (openNewStore RBT.empty) (take 1 (tiny_record 0 1))))
     = Inr (s', Inl (Panic ''nil pointer dereference''))"
  using torn_first_block_panics[OF tiny_store.block_store_axioms tiny_no_faults tiny_blockRecord tiny_storable _ _ tiny_empty, of 0 1 1]
  by (simp add: tiny_record_length)

end
