(* ===== verification/Tx_Queues.thy ===== *)
theory Tx_Queues
  imports Block_Store
begin

text \<open>
  The queues of the transaction pipeline, \<^verbatim>\<open>internal/queue\<close>: the bounded queue, completion promises,
  the table of pending transactions, and the barrier between the block replicator and the block
  processor. A channel operation that would block has no result in the given state.
\<close>

section \<open>Queue\<close>

record 'a Queue =
  entries :: "'a list"
  capacity :: nat
  qclosed :: bool

definition Queue_New :: "nat \<Rightarrow> 'a Queue" where
  "Queue_New sz = \<lparr>entries = [], capacity = sz, qclosed = False\<rparr>"

definition Queue_Size :: "'a Queue \<Rightarrow> nat" where
  "Queue_Size q = length (entries q)"

definition Queue_IsFull :: "'a Queue \<Rightarrow> bool" where
  "Queue_IsFull q \<longleftrightarrow> Queue_Size q = capacity q"

definition Queue_IsEmpty :: "'a Queue \<Rightarrow> bool" where
  "Queue_IsEmpty q \<longleftrightarrow> Queue_Size q = 0"

definition Queue_Capacity :: "'a Queue \<Rightarrow> nat" where
  "Queue_Capacity q = capacity q"

text \<open>Sending on a full channel blocks; on a closed one it panics.\<close>

definition Queue_Enqueue :: "'a Queue \<Rightarrow> 'a \<Rightarrow> 'a Queue res option" where
  "Queue_Enqueue q e =
     (if qclosed q then Some (Inl (Panic ''send on closed channel''))
      else if Queue_IsFull q then None
      else Some (Inr (q\<lparr>entries := entries q @ [e]\<rparr>)))"

text \<open>Receiving: the head, nil from a closed and drained channel, otherwise it blocks.\<close>

definition Queue_Dequeue :: "'a Queue \<Rightarrow> ('a Queue \<times> 'a option) option" where
  "Queue_Dequeue q = (case entries q of
     e # es \<Rightarrow> Some (q\<lparr>entries := es\<rparr>, Some e)
   | [] \<Rightarrow> if qclosed q then Some (q, None) else None)"

text \<open>\<^verbatim>\<open>DequeueWithWaitLimit\<close>: the timer fires when no entry came.\<close>

definition DequeueWithWaitLimit :: "'a Queue \<Rightarrow> 'a Queue \<times> 'a option" where
  "DequeueWithWaitLimit q = (case Queue_Dequeue q of Some r \<Rightarrow> r | None \<Rightarrow> (q, None))"

definition Queue_Close :: "'a Queue \<Rightarrow> 'a Queue res" where
  "Queue_Close q = (if qclosed q then Inl (Panic ''close of closed channel'') else Inr (q\<lparr>qclosed := True\<rparr>))"

section \<open>Promises\<close>

record TxReceipt =
  RHeader :: BlockHeader
  RTxIndex :: "64 word"

datatype promise_result = PReceipt TxReceipt | PError go_error

text \<open>The channel of a promise: it holds one result and is closed after it was put in.\<close>

record CompletionPromise =
  resultCh :: "promise_result option"
  promiseClosed :: bool
  promiseTimeout :: int

definition NewCompletionPromise :: "int \<Rightarrow> CompletionPromise option" where
  "NewCompletionPromise timeout =
     (if timeout \<le> 0 then None else Some \<lparr>resultCh = None, promiseClosed = False, promiseTimeout = timeout\<rparr>)"

text \<open>\<^verbatim>\<open>done\<close> and \<^verbatim>\<open>error\<close>.\<close>

definition promise_put :: "promise_result \<Rightarrow> CompletionPromise option \<Rightarrow> CompletionPromise option res" where
  "promise_put r p = (case p of
     None \<Rightarrow> Inr None
   | Some s \<Rightarrow> if promiseClosed s then Inl (Panic ''send on closed channel'')
       else Inr (Some (s\<lparr>resultCh := Some r, promiseClosed := True\<rparr>)))"

text \<open>
  \<^verbatim>\<open>Wait\<close>: \<open>expired\<close> says whether the timer fired before a result came. A result that is there is
  received; the receipt is nil for an asynchronous transaction.
\<close>

definition promise_Wait :: "bool \<Rightarrow> CompletionPromise option \<Rightarrow> (CompletionPromise option \<times> TxReceipt option res) option" where
  "promise_Wait expired p = (case p of
     None \<Rightarrow> Some (None, Inr None)
   | Some s \<Rightarrow>
       if expired then Some (p, Inl (TimeoutErr ''timeout has occurred while waiting for the transaction receipt''))
       else case resultCh s of
         Some (PReceipt r) \<Rightarrow> Some (Some (s\<lparr>resultCh := None\<rparr>), Inr (Some r))
       | Some (PError e) \<Rightarrow> Some (Some (s\<lparr>resultCh := None\<rparr>), Inl e)
       | None \<Rightarrow> if promiseClosed s then Some (p, Inl (ClosedError ''closed: promise consumed'')) else None)"

section \<open>Pending transactions\<close>

text \<open>
  The table maps a transaction id to the promise its submitter waits on. Promises live in a heap, so
  that the submitter sees what is put into them; \<open>None\<close> is the nil promise of an asynchronous
  submission.
\<close>

type_synonym heap = "nat \<Rightarrow> CompletionPromise"

record PendingTxs =
  ptxs :: "(string, nat option) gomap"
  pheap :: heap

definition PendingTxs_Add :: "PendingTxs \<Rightarrow> string \<Rightarrow> nat option \<Rightarrow> PendingTxs" where
  "PendingTxs_Add p txID pr = p\<lparr>ptxs := gomap_put (ptxs p) txID pr\<rparr>"

definition PendingTxs_Has :: "PendingTxs \<Rightarrow> string \<Rightarrow> bool" where
  "PendingTxs_Has p txID = has_key (ptxs p) txID"

definition PendingTxs_Empty :: "PendingTxs \<Rightarrow> bool" where
  "PendingTxs_Empty p \<longleftrightarrow> ptxs p = []"

text \<open>Putting a result to a transaction and removing it; an unknown id gives the nil promise.\<close>

definition settle :: "PendingTxs \<Rightarrow> string \<Rightarrow> promise_result \<Rightarrow> PendingTxs res" where
  "settle p txID r =
     (case map_of (ptxs p) txID of
        Some (Some a) \<Rightarrow>
          rbind (promise_put r (Some (pheap p a))) (\<lambda>s.
          Inr \<lparr>ptxs = gomap_delete (ptxs p) txID, pheap = (case s of None \<Rightarrow> pheap p | Some x \<Rightarrow> (pheap p)(a := x))\<rparr>)
      | _ \<Rightarrow> Inr (p\<lparr>ptxs := gomap_delete (ptxs p) txID\<rparr>))"

fun doneLoop :: "PendingTxs \<Rightarrow> BlockHeader \<Rightarrow> nat \<Rightarrow> string list \<Rightarrow> PendingTxs res" where
  "doneLoop p hdr i [] = Inr p"
| "doneLoop p hdr i (txID # ids) =
     rbind (settle p txID (PReceipt \<lparr>RHeader = hdr, RTxIndex = of_nat i\<rparr>)) (\<lambda>p. doneLoop p hdr (Suc i) ids)"

definition DoneWithReceipt :: "PendingTxs \<Rightarrow> string list \<Rightarrow> BlockHeader \<Rightarrow> PendingTxs res" where
  "DoneWithReceipt p txIDs blockHeader = doneLoop p blockHeader 0 txIDs"

fun ReleaseWithError :: "PendingTxs \<Rightarrow> string list \<Rightarrow> go_error \<Rightarrow> PendingTxs res" where
  "ReleaseWithError p [] err = Inr p"
| "ReleaseWithError p (txID # ids) err = rbind (settle p txID (PError err)) (\<lambda>p. ReleaseWithError p ids err)"

section \<open>Facts on pending transactions\<close>

text \<open>Different transactions wait on different promises, and no waiting promise has a result yet.\<close>

definition wf_pending :: "PendingTxs \<Rightarrow> bool" where
  "wf_pending p \<longleftrightarrow> wf_gomap (ptxs p)
     \<and> (\<forall>t u a. map_of (ptxs p) t = Some (Some a) \<longrightarrow> map_of (ptxs p) u = Some (Some a) \<longrightarrow> t = u)
     \<and> (\<forall>t a. map_of (ptxs p) t = Some (Some a) \<longrightarrow> \<not> promiseClosed (pheap p a) \<and> resultCh (pheap p a) = None)"

lemma settle_ok:
  assumes "wf_pending p"
  obtains p' where "settle p t r = Inr p'" "wf_pending p'" "ptxs p' = gomap_delete (ptxs p) t"
    "\<And>a. map_of (ptxs p) t = Some (Some a) \<Longrightarrow> resultCh (pheap p' a) = Some r"
    "\<And>a. map_of (ptxs p) t \<noteq> Some (Some a) \<Longrightarrow> pheap p' a = pheap p a"
proof (cases "\<exists>a. map_of (ptxs p) t = Some (Some a)")
  case True
  then obtain a where a: "map_of (ptxs p) t = Some (Some a)"
    by blast
  have open_a: "\<not> promiseClosed (pheap p a)"
    using assms a by (simp add: wf_pending_def)
  let ?p = "\<lparr>ptxs = gomap_delete (ptxs p) t, pheap = (pheap p)(a := (pheap p a)\<lparr>resultCh := Some r, promiseClosed := True\<rparr>)\<rparr>"
  have "settle p t r = Inr ?p"
    using a open_a by (simp add: settle_def promise_put_def)
  moreover have "wf_pending ?p"
    unfolding wf_pending_def
  proof (intro conjI allI impI)
    show "wf_gomap (ptxs ?p)"
      using assms by (simp add: wf_pending_def)
    fix u v b
    assume "map_of (ptxs ?p) u = Some (Some b)" "map_of (ptxs ?p) v = Some (Some b)"
    then show "u = v"
      using assms by (simp add: wf_pending_def split: if_splits)
  next
    fix u b assume "map_of (ptxs ?p) u = Some (Some b)"
    then have u: "map_of (ptxs p) u = Some (Some b)" "u \<noteq> t"
      by (auto split: if_splits)
    then have "b \<noteq> a"
      using assms a unfolding wf_pending_def by blast
    then show "\<not> promiseClosed (pheap ?p b)" "resultCh (pheap ?p b) = None"
      using assms u(1) by (simp_all add: wf_pending_def)
  qed
  ultimately show ?thesis
    using that a by simp
next
  case False
  then have "settle p t r = Inr (p\<lparr>ptxs := gomap_delete (ptxs p) t\<rparr>)"
    by (auto simp: settle_def split: option.splits)
  moreover have "wf_pending (p\<lparr>ptxs := gomap_delete (ptxs p) t\<rparr>)"
    using assms by (simp add: wf_pending_def)
  ultimately show ?thesis
    using that False by simp
qed

lemma doneLoop_keeps:
  assumes "wf_pending p"
  shows "\<exists>p'. doneLoop p hdr i ids = Inr p' \<and> wf_pending p' \<and> (\<forall>t. map_of (ptxs p') t = (if t \<in> set ids then None else map_of (ptxs p) t))
    \<and> (\<forall>a. (\<forall>t \<in> set ids. map_of (ptxs p) t \<noteq> Some (Some a)) \<longrightarrow> pheap p' a = pheap p a)"
  using assms
proof (induction ids arbitrary: p i)
  case (Cons t ids)
  obtain q where q: "settle p t (PReceipt \<lparr>RHeader = hdr, RTxIndex = of_nat i\<rparr>) = Inr q" "wf_pending q" "ptxs q = gomap_delete (ptxs p) t"
      "\<And>a. map_of (ptxs p) t \<noteq> Some (Some a) \<Longrightarrow> pheap q a = pheap p a"
    by (rule settle_ok[OF Cons.prems]) (rule that)
  from Cons.IH[OF q(2), of "Suc i"] show ?case
    by (auto simp: q(1,3,4))
qed auto

lemma ReleaseWithError_keeps:
  assumes "wf_pending p"
  shows "\<exists>p'. ReleaseWithError p ids e = Inr p' \<and> wf_pending p' \<and> (\<forall>t. map_of (ptxs p') t = (if t \<in> set ids then None else map_of (ptxs p) t))
    \<and> (\<forall>a. (\<forall>t \<in> set ids. map_of (ptxs p) t \<noteq> Some (Some a)) \<longrightarrow> pheap p' a = pheap p a)"
  using assms
proof (induction ids arbitrary: p)
  case (Cons t ids)
  obtain q where q: "settle p t (PError e) = Inr q" "wf_pending q" "ptxs q = gomap_delete (ptxs p) t"
      "\<And>a. map_of (ptxs p) t \<noteq> Some (Some a) \<Longrightarrow> pheap q a = pheap p a"
    by (rule settle_ok[OF Cons.prems]) (rule that)
  from Cons.IH[OF q(2)] show ?case
    by (auto simp: q(1,3,4))
qed auto

lemma doneLoop_ok:
  assumes "wf_pending p" "distinct ids"
  shows "\<exists>p'. doneLoop p hdr i ids = Inr p' \<and> wf_pending p' \<and> (\<forall>t. map_of (ptxs p') t = (if t \<in> set ids then None else map_of (ptxs p) t))
    \<and> (\<forall>j < length ids. \<forall>a. map_of (ptxs p) (ids ! j) = Some (Some a) \<longrightarrow>
         resultCh (pheap p' a) = Some (PReceipt \<lparr>RHeader = hdr, RTxIndex = of_nat (i + j)\<rparr>))
    \<and> (\<forall>a. (\<forall>t \<in> set ids. map_of (ptxs p) t \<noteq> Some (Some a)) \<longrightarrow> pheap p' a = pheap p a)"
  using assms
proof (induction ids arbitrary: p i)
  case (Cons t ids)
  let ?r = "PReceipt \<lparr>RHeader = hdr, RTxIndex = of_nat i\<rparr>"
  obtain q where q: "settle p t ?r = Inr q" "wf_pending q" "ptxs q = gomap_delete (ptxs p) t"
    "\<And>a. map_of (ptxs p) t = Some (Some a) \<Longrightarrow> resultCh (pheap q a) = Some ?r"
    "\<And>a. map_of (ptxs p) t \<noteq> Some (Some a) \<Longrightarrow> pheap q a = pheap p a"
    by (rule settle_ok[OF Cons.prems(1)]) (rule that)
  from Cons.IH[OF q(2), of "Suc i"] Cons.prems(2) obtain p' where p': "doneLoop q hdr (Suc i) ids = Inr p'" "wf_pending p'"
      "\<And>u. map_of (ptxs p') u = (if u \<in> set ids then None else map_of (ptxs q) u)"
      "\<And>j a. j < length ids \<Longrightarrow> map_of (ptxs q) (ids ! j) = Some (Some a) \<Longrightarrow>
         resultCh (pheap p' a) = Some (PReceipt \<lparr>RHeader = hdr, RTxIndex = of_nat (Suc i + j)\<rparr>)"
      "\<And>a. (\<forall>u \<in> set ids. map_of (ptxs q) u \<noteq> Some (Some a)) \<Longrightarrow> pheap p' a = pheap q a"
    by auto
  have inj: "u = t" if "map_of (ptxs p) u = Some (Some a)" "map_of (ptxs p) t = Some (Some a)" for u a
    using Cons.prems(1) that unfolding wf_pending_def by blast
  have "resultCh (pheap p' a) = Some (PReceipt \<lparr>RHeader = hdr, RTxIndex = of_nat (i + j)\<rparr>)"
    if j: "j < length (t # ids)" "map_of (ptxs p) ((t # ids) ! j) = Some (Some a)" for j a
  proof (cases j)
    case 0
    have "map_of (ptxs q) u \<noteq> Some (Some a)" for u
      using inj[of u a] j(2) 0 by (auto simp: q(3))
    then have "pheap p' a = pheap q a"
      using p'(5) by simp
    then show ?thesis
      using q(4) j(2) 0 by simp
  next
    case (Suc k)
    then have "map_of (ptxs q) (ids ! k) = Some (Some a)"
      using j Cons.prems(2) by (auto simp: q(3))
    then show ?thesis
      using p'(4)[of k a] j Suc by simp
  qed
  moreover have "pheap p' a = pheap p a" if "\<forall>u \<in> set (t # ids). map_of (ptxs p) u \<noteq> Some (Some a)" for a
    using that p'(5)[of a] q(5)[of a] by (simp add: q(3))
  ultimately show ?case
    using q(1) p'(1-3) by (auto simp: q(3))
qed auto

end
