(* ===== verification/Queue_Barrier.thy ===== *)
theory Queue_Barrier
  imports Tx_Queues
begin

text \<open>
  \<^verbatim>\<open>internal/queue/onequeuebarrier.go\<close>: the rendezvous between the go-routine of the block replicator,
  which calls \<^verbatim>\<open>EnqueueWait\<close>, and that of the block processor, which loops over \<^verbatim>\<open>Dequeue\<close>, the
  processing of the entry, and \<^verbatim>\<open>Reply\<close>. The state says where in these calls each of them stands; a step
  is one communication on the unbuffered channels, one return, or the closing of the stop channel. A
  \<^verbatim>\<open>select\<close> with two ready cases may take either.
\<close>

datatype ('e, 'r) producer =
    PIdle
  | PEnqueue 'e                \<comment> \<open>in the first select of EnqueueWait\<close>
  | PAwait 'e                  \<comment> \<open>in the second select\<close>
  | PReturned 'e "'r res"

datatype ('e, 'r) consumer =
    CIdle
  | CDequeue                   \<comment> \<open>in the select of Dequeue\<close>
  | CProcess 'e
  | CReply 'e 'r               \<comment> \<open>in the select of Reply, for the entry it dequeued\<close>
  | CStopped

record ('e, 'r) OneQueueBarrier =
  prod :: "('e, 'r) producer"
  cons :: "('e, 'r) consumer"
  stopCh :: bool

definition NewOneQueueBarrier :: "('e, 'r) OneQueueBarrier" where
  "NewOneQueueBarrier = \<lparr>prod = PIdle, cons = CIdle, stopCh = False\<rparr>"

definition barrierClosed :: go_error where
  "barrierClosed = ClosedError ''closed''"

text \<open>The calls of the producer: the next \<^verbatim>\<open>EnqueueWait\<close> once the last one returned.\<close>

definition EnqueueWait_call :: "'e \<Rightarrow> ('e, 'r) OneQueueBarrier \<Rightarrow> ('e, 'r) OneQueueBarrier option" where
  "EnqueueWait_call e b = (case prod b of
     PIdle \<Rightarrow> Some (b\<lparr>prod := PEnqueue e\<rparr>)
   | PReturned _ _ \<Rightarrow> Some (b\<lparr>prod := PEnqueue e\<rparr>)
   | _ \<Rightarrow> None)"

definition Barrier_Close :: "('e, 'r) OneQueueBarrier \<Rightarrow> ('e, 'r) OneQueueBarrier \<times> unit res" where
  "Barrier_Close b = (if stopCh b then (b, Inl barrierClosed) else (b\<lparr>stopCh := True\<rparr>, Inr ()))"

text \<open>\<open>process\<close> is what the consumer replies to an entry.\<close>

inductive barrierStep :: "('e \<Rightarrow> 'r) \<Rightarrow> ('e, 'r) OneQueueBarrier \<Rightarrow> ('e, 'r) OneQueueBarrier \<Rightarrow> bool"
  for process :: "'e \<Rightarrow> 'r" where
  dequeue_call: "cons b = CIdle \<Longrightarrow> barrierStep process b (b\<lparr>cons := CDequeue\<rparr>)"
| entry_sent: "prod b = PEnqueue e \<Longrightarrow> cons b = CDequeue \<Longrightarrow>
    barrierStep process b (b\<lparr>prod := PAwait e, cons := CProcess e\<rparr>)"
| reply_call: "cons b = CProcess e \<Longrightarrow> barrierStep process b (b\<lparr>cons := CReply e (process e)\<rparr>)"
| reply_sent: "prod b = PAwait e \<Longrightarrow> cons b = CReply e' r \<Longrightarrow>
    barrierStep process b (b\<lparr>prod := PReturned e (Inr r), cons := CIdle\<rparr>)"
| enqueue_stopped: "stopCh b \<Longrightarrow> prod b = PEnqueue e \<Longrightarrow> barrierStep process b (b\<lparr>prod := PReturned e (Inl barrierClosed)\<rparr>)"
| await_stopped: "stopCh b \<Longrightarrow> prod b = PAwait e \<Longrightarrow> barrierStep process b (b\<lparr>prod := PReturned e (Inl barrierClosed)\<rparr>)"
| dequeue_stopped: "stopCh b \<Longrightarrow> cons b = CDequeue \<Longrightarrow> barrierStep process b (b\<lparr>cons := CStopped\<rparr>)"
| reply_stopped: "stopCh b \<Longrightarrow> cons b = CReply e r \<Longrightarrow> barrierStep process b (b\<lparr>cons := CStopped\<rparr>)"
| close: "Barrier_Close b = (b', Inr ()) \<Longrightarrow> barrierStep process b b'"

inductive_cases barrierStepE: "barrierStep process b b'"

inductive barrierReach :: "('e \<Rightarrow> 'r) \<Rightarrow> ('e, 'r) OneQueueBarrier \<Rightarrow> bool" for process :: "'e \<Rightarrow> 'r" where
  reach_new: "barrierReach process NewOneQueueBarrier"
| reach_call: "barrierReach process b \<Longrightarrow> EnqueueWait_call e b = Some b' \<Longrightarrow> barrierReach process b'"
| reach_step: "barrierReach process b \<Longrightarrow> barrierStep process b b' \<Longrightarrow> barrierReach process b'"

text \<open>Where the consumer may stand, given where the producer stands.\<close>

definition barrierInv :: "('e \<Rightarrow> 'r) \<Rightarrow> ('e, 'r) OneQueueBarrier \<Rightarrow> bool" where
  "barrierInv process b \<longleftrightarrow>
     (case cons b of
        CProcess e \<Rightarrow> stopCh b \<or> prod b = PAwait e
      | CReply e r \<Rightarrow> r = process e \<and> (stopCh b \<or> prod b = PAwait e)
      | CStopped \<Rightarrow> stopCh b
      | _ \<Rightarrow> True)
   \<and> (case prod b of
        PAwait e \<Rightarrow> cons b = CProcess e \<or> cons b = CReply e (process e) \<or> cons b = CStopped
      | PReturned e (Inr r) \<Rightarrow> r = process e
      | PReturned e (Inl x) \<Rightarrow> stopCh b \<and> x = barrierClosed
      | _ \<Rightarrow> True)"

lemma barrierInv_call:
  assumes "barrierInv process b" "EnqueueWait_call e b = Some b'"
  shows "barrierInv process b'"
  using assms
  by (cases "cons b"; cases "prod b") (auto simp: barrierInv_def EnqueueWait_call_def)

lemma barrierInv_step:
  assumes "barrierStep process b b'" "barrierInv process b"
  shows "barrierInv process b'"
  using assms
proof cases
  case (close)
  then show ?thesis
    using assms(2) by (cases "cons b"; cases "prod b") (auto simp: barrierInv_def Barrier_Close_def split: if_splits sum.splits)
qed (use assms(2) in \<open>(cases "cons b"; cases "prod b"; auto simp: barrierInv_def split: sum.splits)+\<close>)

lemma barrierInv_reach:
  assumes "barrierReach process b"
  shows "barrierInv process b"
  using assms
proof induction
  case reach_new
  then show ?case
    by (simp add: barrierInv_def NewOneQueueBarrier_def)
qed (blast intro: barrierInv_call barrierInv_step)+

text \<open>The producer is inside a call; how many steps can still happen before it returns.\<close>

definition calling :: "('e, 'r) OneQueueBarrier \<Rightarrow> 'e option" where
  "calling b = (case prod b of PEnqueue e \<Rightarrow> Some e | PAwait e \<Rightarrow> Some e | _ \<Rightarrow> None)"

definition stepsLeft :: "('e, 'r) OneQueueBarrier \<Rightarrow> nat" where
  "stepsLeft b = (if stopCh b then 0 else 1)
     + (case cons b of CIdle \<Rightarrow> 5 | CDequeue \<Rightarrow> 4 | CProcess _ \<Rightarrow> 3 | CReply _ _ \<Rightarrow> 2 | CStopped \<Rightarrow> 1)"

lemma barrier_progress:
  assumes "barrierInv process b" "calling b = Some e"
  shows "\<exists>b'. barrierStep process b b'"
proof -
  consider "cons b = CIdle" | x where "cons b = CProcess x" | x r where "cons b = CReply x r" | "cons b = CDequeue" | "cons b = CStopped"
    by (cases "cons b") auto
  then show ?thesis
  proof cases
    case 3
    show ?thesis
    proof (cases "prod b")
      case (PAwait y)
      then show ?thesis
        using 3 by (blast intro: reply_sent)
    qed (use assms 3 in \<open>auto simp: barrierInv_def calling_def intro: reply_stopped\<close>)
  next
    case 4
    then show ?thesis
      using assms by (cases "prod b") (auto simp: barrierInv_def calling_def intro: entry_sent)
  next
    case 5
    then show ?thesis
      using assms by (cases "prod b") (auto simp: barrierInv_def calling_def intro: enqueue_stopped await_stopped)
  qed (blast intro: dequeue_call reply_call)+
qed

lemma step_calling:
  assumes "barrierStep process b b'" "calling b = Some e"
  shows "(calling b' = Some e \<and> stepsLeft b' < stepsLeft b) \<or> (\<exists>r. prod b' = PReturned e r)"
  using assms
proof cases
  case (close)
  then show ?thesis
    using assms(2) by (auto simp: stepsLeft_def calling_def Barrier_Close_def split: if_splits)
qed (use assms(2) in \<open>auto simp: calling_def stepsLeft_def\<close>)

text \<open>A run: consecutive steps.\<close>

definition barrierRun :: "('e \<Rightarrow> 'r) \<Rightarrow> ('e, 'r) OneQueueBarrier list \<Rightarrow> bool" where
  "barrierRun process bs \<longleftrightarrow> successively (barrierStep process) bs"

lemma run_returns:
  assumes "barrierRun process (b # bs)" "calling b = Some e" "stepsLeft b \<le> length bs"
  shows "\<exists>b' \<in> set bs. \<exists>r. prod b' = PReturned e r"
  using assms
proof (induction bs arbitrary: b)
  case Nil
  then show ?case
    by (simp add: stepsLeft_def split: consumer.splits)
next
  case (Cons c bs)
  have "barrierStep process b c" "barrierRun process (c # bs)"
    using Cons.prems(1) by (auto simp: barrierRun_def)
  from step_calling[OF this(1) Cons.prems(2)] show ?case
  proof
    assume "calling c = Some e \<and> stepsLeft c < stepsLeft b"
    then show ?thesis
      using Cons.IH[of c] Cons.prems(3) \<open>barrierRun process (c # bs)\<close> by auto
  qed auto
qed

lemma run_reach:
  assumes "barrierReach process b" "barrierRun process (b # bs)" "b' \<in> set bs"
  shows "barrierReach process b'"
  using assms by (induction bs arbitrary: b) (auto simp: barrierRun_def intro: reach_step)

lemma stepsLeft_bound: "stepsLeft b \<le> 6"
  by (simp add: stepsLeft_def split: consumer.splits)

end
