(* ===== verification/Tx_Pipeline.thy ===== *)
theory Tx_Pipeline
  imports Queue_Barrier
begin

text \<open>
  The path of a transaction to a proposed block: \<^verbatim>\<open>SubmitTransaction\<close> and \<^verbatim>\<open>PostBlockCommitProcessing\<close>
  of \<^verbatim>\<open>internal/bcdb/transaction_processor.go\<close>, the loop of \<^verbatim>\<open>internal/txreorderer\<close> and that of
  \<^verbatim>\<open>internal/blockcreator\<close>. The go-routines interleave at their channel operations; where a send may
  block, what is still to be sent is part of the state.
\<close>

section \<open>Transaction ids\<close>

datatype tx =
    TxData DataTxEnvelope
  | TxUser UserAdministrationTxEnvelope
  | TxDB DBAdministrationTxEnvelope
  | TxConfig ConfigTxEnvelope
  | TxOther                    \<comment> \<open>a value of any other type\<close>

definition txIDOf :: "tx \<Rightarrow> string res" where
  "txIDOf t = (case t of
     TxData e \<Rightarrow> Inr (DTxId (DPayload e))
   | TxUser e \<Rightarrow> Inr (UTxId (UPayload e))
   | TxDB e \<Rightarrow> Inr (DATxId (DAPayload e))
   | TxConfig e \<Rightarrow> Inr (CTxId (CPayload e))
   | TxOther \<Rightarrow> Inl (Err ''unexpected transaction type''))"

text \<open>\<^verbatim>\<open>constants.SafeURLSegmentNZ\<close>: the regular expression, one character or percent triple at a time.\<close>

definition alnum :: "char \<Rightarrow> bool" where
  "alnum c \<longleftrightarrow> c \<in> set ''0123456789ABCDEFGHIJKLMNOPQRSTUVWXYZabcdefghijklmnopqrstuvwxyz''"

definition xdigit :: "char \<Rightarrow> bool" where
  "xdigit c \<longleftrightarrow> c \<in> set ''0123456789ABCDEFabcdef''"

definition segmentChar :: "char \<Rightarrow> bool" where
  "segmentChar c \<longleftrightarrow> alnum c \<or> c \<in> set ''-._~'' \<or> c \<in> set ''!$&'' \<or> c = CHR 0x27 \<or> c \<in> set ''()*+,;='' \<or> c \<in> set '':@''"

fun urlSegment :: "string \<Rightarrow> bool" where
  "urlSegment [] = True"
| "urlSegment (c # cs) =
     (if c = CHR 0x25 then (case cs of a # b # ds \<Rightarrow> xdigit a \<and> xdigit b \<and> urlSegment ds | _ \<Rightarrow> False)
      else segmentChar c \<and> urlSegment cs)"

definition SafeURLSegmentNZ :: "string \<Rightarrow> unit res" where
  "SafeURLSegmentNZ s = (if s \<noteq> [] \<and> urlSegment s then Inr () else Inl (Err ''un-safe for a URL segment''))"

section \<open>Reorderer and block creator\<close>

text \<open>\<open>outgoing\<close>: batches the loop is about to send on the batch queue, in order.\<close>

record TxReorderer =
  pendingDataTxs :: "DataTxEnvelope list"
  maxTxCountPerBatch :: "32 word"
  outgoing :: "Payload list"

definition enqueueAndResetPendingDataTxBatch :: "TxReorderer \<Rightarrow> TxReorderer" where
  "enqueueAndResetPendingDataTxBatch r =
     (if pendingDataTxs r = [] then r
      else r\<lparr>outgoing := outgoing r @ [Block_DataTxEnvelopes (pendingDataTxs r)], pendingDataTxs := []\<rparr>)"

definition enqueueAlone :: "TxReorderer \<Rightarrow> Payload \<Rightarrow> TxReorderer" where
  "enqueueAlone r p = (let r = enqueueAndResetPendingDataTxBatch r in r\<lparr>outgoing := outgoing r @ [p]\<rparr>)"

definition reorderTx :: "TxReorderer \<Rightarrow> tx \<Rightarrow> TxReorderer" where
  "reorderTx r t = (case t of
     TxData env \<Rightarrow>
       (let r = r\<lparr>pendingDataTxs := pendingDataTxs r @ [env]\<rparr> in
        if (of_nat (length (pendingDataTxs r)) :: 32 word) = maxTxCountPerBatch r
        then enqueueAndResetPendingDataTxBatch r else r)
   | TxUser env \<Rightarrow> enqueueAlone r (Block_UserAdministrationTxEnvelope env)
   | TxDB env \<Rightarrow> enqueueAlone r (Block_DbAdministrationTxEnvelope env)
   | TxConfig env \<Rightarrow> enqueueAlone r (Block_ConfigTxEnvelope env)
   | TxOther \<Rightarrow> r)"

record BlockCreator =
  nextProposalNumber :: "64 word"
  assembled :: "Block option"

definition numberedHeader :: "64 word \<Rightarrow> BlockHeader" where
  "numberedHeader n = \<lparr>BaseHeader = \<lparr>Number = n, PreviousBaseHeaderHash = None, LastCommittedBlockHash = None, LastCommittedBlockNum = 0\<rparr>,
     SkipchainHashes = [], TxMerkleTreeRootHash = None, StateMerkleTreeRootHash = None, HValidationInfo = []\<rparr>"

definition BootstrapBlock :: "ConfigTxEnvelope \<Rightarrow> Block" where
  "BootstrapBlock t = \<lparr>Header = numberedHeader 1, BPayload = Some (Block_ConfigTxEnvelope t), BConsensusMetadata = None\<rparr>"

definition assembleBlock :: "BlockCreator \<Rightarrow> Payload \<Rightarrow> BlockCreator" where
  "assembleBlock b batch =
     b\<lparr>assembled := Some \<lparr>Header = numberedHeader (nextProposalNumber b), BPayload = Some batch, BConsensusMetadata = None\<rparr>\<rparr>"

text \<open>What the loop does with the result of \<^verbatim>\<open>Submit\<close>; a nil error is \<open>None\<close>.\<close>

definition afterSubmit :: "BlockCreator \<Rightarrow> PendingTxs \<Rightarrow> Block \<Rightarrow> go_error option \<Rightarrow> (BlockCreator \<times> PendingTxs) res" where
  "afterSubmit b p block err = (let done = b\<lparr>assembled := None\<rparr> in
     case err of
       None \<Rightarrow> Inr (done\<lparr>nextProposalNumber := nextProposalNumber b + 1\<rparr>, p)
     | Some (ClosedError _) \<Rightarrow> Inr (done, p)
     | Some (NotLeaderError l h) \<Rightarrow>
         (case BlockPayloadToTxIDs (BPayload block) of
            Inr txIDs \<Rightarrow> rbind (ReleaseWithError p txIDs (NotLeaderError l h)) (\<lambda>p. Inr (done, p))
          | Inl _ \<Rightarrow> Inr (done, p))
     | Some e \<Rightarrow> Inl (Panic ''block submission to block-replicator failed''))"

section \<open>Transaction processor\<close>

record transactionProcessor =
  txQueue :: "tx Queue"
  txBatchQueue :: "Payload Queue"
  txReorderer :: TxReorderer
  blockCreator :: BlockCreator
  pendingTxs :: PendingTxs
  nextPromise :: nat
  lockHolder :: "(string \<times> int) option"

definition isTxIDDuplicate :: "(string \<Rightarrow> bool res) \<Rightarrow> transactionProcessor \<Rightarrow> string \<Rightarrow> bool res" where
  "isTxIDDuplicate doesTxIDExist tp txID =
     (if PendingTxs_Has (pendingTxs tp) txID then Inr True else doesTxIDExist txID)"

text \<open>
  \<^verbatim>\<open>SubmitTransaction\<close> up to the sending of the transaction on the queue: the checks, with the error each
  of them returns; the mutex is held when it succeeds. \<open>leader\<close> is the answer of \<^verbatim>\<open>IsLeader\<close>, \<open>marshal\<close> that
  of \<^verbatim>\<open>json.MarshalIndent\<close>.
\<close>

definition submitEnqueue ::
  "go_error option \<Rightarrow> (string \<Rightarrow> bool res) \<Rightarrow> (tx \<Rightarrow> unit res) \<Rightarrow> transactionProcessor \<Rightarrow> tx \<Rightarrow> int \<Rightarrow> transactionProcessor res" where
  "submitEnqueue leader doesTxIDExist marshal tp tx timeout =
     rbind (txIDOf tx) (\<lambda>txID.
     case SafeURLSegmentNZ txID of
       Inl e \<Rightarrow> Inl (BadRequestError (''bad TxId: '' @ go_error_string e))
     | Inr _ \<Rightarrow>
       (case leader of
          Some e \<Rightarrow> Inl e
        | None \<Rightarrow>
          rbind (isTxIDDuplicate doesTxIDExist tp txID) (\<lambda>duplicate.
          if duplicate then Inl (DuplicateTxIDError txID)
          else if Queue_IsFull (txQueue tp) then Inl (Err ''transaction queue is full'')
          else rbind (wrap ''failed to marshal transaction'' (marshal tx)) (\<lambda>_.
            case Queue_Enqueue (txQueue tp) tx of
              Some (Inr q) \<Rightarrow> Inr (tp\<lparr>txQueue := q, lockHolder := Some (txID, timeout)\<rparr>)
            | Some (Inl e) \<Rightarrow> Inl e
            | None \<Rightarrow> Inl (Panic ''unreachable: the queue has room''))))) "

text \<open>The rest of the critical section: the promise is made and registered.\<close>

definition submitAdd :: "transactionProcessor \<Rightarrow> (transactionProcessor \<times> nat option) option" where
  "submitAdd tp = (case lockHolder tp of
     None \<Rightarrow> None
   | Some (txID, timeout) \<Rightarrow>
       (case NewCompletionPromise timeout of
          None \<Rightarrow> Some (tp\<lparr>pendingTxs := PendingTxs_Add (pendingTxs tp) txID None, lockHolder := None\<rparr>, None)
        | Some pr \<Rightarrow>
            (let a = nextPromise tp; p = (pendingTxs tp)\<lparr>pheap := (pheap (pendingTxs tp))(a := pr)\<rparr> in
             Some (tp\<lparr>pendingTxs := PendingTxs_Add p txID (Some a), nextPromise := Suc a, lockHolder := None\<rparr>, Some a))))"

definition PostBlockCommitProcessing :: "PendingTxs \<Rightarrow> Block \<Rightarrow> PendingTxs res" where
  "PostBlockCommitProcessing p block =
     (case BPayload block of
        Some (Block_DataTxEnvelopes envs) \<Rightarrow> DoneWithReceipt p (map (\<lambda>e. DTxId (DPayload e)) envs) (Header block)
      | Some (Block_UserAdministrationTxEnvelope e) \<Rightarrow> DoneWithReceipt p [UTxId (UPayload e)] (Header block)
      | Some (Block_DbAdministrationTxEnvelope e) \<Rightarrow> DoneWithReceipt p [DATxId (DAPayload e)] (Header block)
      | Some (Block_ConfigTxEnvelope e) \<Rightarrow> DoneWithReceipt p [CTxId (CPayload e)] (Header block)
      | None \<Rightarrow> Inl (Err ''unexpected transaction envelope in the block''))"

text \<open>\<^verbatim>\<open>ClusterStatus\<close>: the node id of the leader among the active peers, and all their node ids.\<close>

definition ClusterStatus :: "64 word \<Rightarrow> PeerConfig list \<Rightarrow> string \<times> string list" where
  "ClusterStatus leaderID peers =
     (fold (\<lambda>peer leader. if RaftId peer = leaderID then NodeId peer else leader) peers '''', map NodeId peers)"

end
