(* ===== verification/Tx_Flow.thy ===== *)
theory Tx_Flow
  imports Tx_Pipeline
begin

text \<open>
  The interleaving of the go-routines of the transaction pipeline: submitters, the reorderer, the block
  creator, the proposing and committing of blocks, and the commit listener; and of these with blocks the
  cluster commits that are not proposals of this node. The first invariant is about the order and the
  batches, the second about the identity of the transactions on their way.
\<close>

section \<open>The step relation\<close>

text \<open>
  \<open>proposals\<close> are the blocks \<^verbatim>\<open>Submit\<close> has accepted and that are not committed, \<open>notifying\<close> those whose
  commit event is still to be delivered. \<open>accepted\<close> and \<open>taken\<close> record the transactions sent on the queue and
  the batches received by the block creator.

  \<open>flowStep\<close> puts together the operations of the earlier theories, one rule per go-routine and operation: \<open>submit\<close>
  and \<open>add\<close> the two halves of \<^verbatim>\<open>SubmitTransaction\<close>; \<open>tick\<close>, \<open>dequeue\<close> and \<open>push\<close> the loop of the reorderer; \<open>assemble\<close> and \<open>propose\<close>
  that of the block creator; \<open>decline\<close> and \<open>lose\<close> a proposal the replicator gives up, with and without its transactions
  being released; \<open>commit\<close> and \<open>notify\<close> the commit of the oldest proposal and its event.
\<close>

record flow =
  tp :: transactionProcessor
  proposals :: "Block list"
  notifying :: "Block list"
  committedIDs :: "string list"
  accepted :: "tx list"
  taken :: "Payload list"

definition payloadTxs :: "Payload \<Rightarrow> tx list" where
  "payloadTxs p = (case p of
     Block_DataTxEnvelopes es \<Rightarrow> map TxData es
   | Block_UserAdministrationTxEnvelope e \<Rightarrow> [TxUser e]
   | Block_DbAdministrationTxEnvelope e \<Rightarrow> [TxDB e]
   | Block_ConfigTxEnvelope e \<Rightarrow> [TxConfig e])"

definition blockTxs :: "Block \<Rightarrow> tx list" where
  "blockTxs b = (case BPayload b of None \<Rightarrow> [] | Some p \<Rightarrow> payloadTxs p)"

definition idOf :: "tx \<Rightarrow> string" where
  "idOf t = (case txIDOf t of Inr i \<Rightarrow> i | Inl _ \<Rightarrow> [])"

definition blockIDs :: "Block \<Rightarrow> string list" where
  "blockIDs b = map idOf (blockTxs b)"

definition flow_start :: "nat \<Rightarrow> nat \<Rightarrow> 32 word \<Rightarrow> 64 word \<Rightarrow> string list \<Rightarrow> flow" where
  "flow_start queueLen batchLen maxTx next ids =
     \<lparr>tp = \<lparr>txQueue = Queue_New queueLen, txBatchQueue = Queue_New batchLen,
        txReorderer = \<lparr>pendingDataTxs = [], maxTxCountPerBatch = maxTx, outgoing = []\<rparr>,
        blockCreator = \<lparr>nextProposalNumber = next, assembled = None\<rparr>,
        pendingTxs = \<lparr>ptxs = [], pheap = \<lambda>_. \<lparr>resultCh = None, promiseClosed = False, promiseTimeout = 0\<rparr>\<rparr>,
        nextPromise = 0, lockHolder = None\<rparr>,
      proposals = [], notifying = [], committedIDs = ids, accepted = [], taken = []\<rparr>"

inductive flowStep :: "flow \<Rightarrow> flow \<Rightarrow> bool" where
  submit: "lockHolder (tp s) = None \<Longrightarrow>
    submitEnqueue leader (\<lambda>t. Inr (t \<in> set (committedIDs s))) marshal (tp s) tx timeout = Inr tp' \<Longrightarrow>
    flowStep s (s\<lparr>tp := tp', accepted := accepted s @ [tx]\<rparr>)"
| add: "submitAdd (tp s) = Some (tp', a) \<Longrightarrow> flowStep s (s\<lparr>tp := tp'\<rparr>)"
| tick: "outgoing (txReorderer (tp s)) = [] \<Longrightarrow>
    flowStep s (s\<lparr>tp := (tp s)\<lparr>txReorderer := enqueueAndResetPendingDataTxBatch (txReorderer (tp s))\<rparr>\<rparr>)"
| dequeue: "outgoing (txReorderer (tp s)) = [] \<Longrightarrow> DequeueWithWaitLimit (txQueue (tp s)) = (q, Some tx) \<Longrightarrow>
    flowStep s (s\<lparr>tp := (tp s)\<lparr>txQueue := q, txReorderer := reorderTx (txReorderer (tp s)) tx\<rparr>\<rparr>)"
| push: "outgoing (txReorderer (tp s)) = p # ps \<Longrightarrow> Queue_Enqueue (txBatchQueue (tp s)) p = Some (Inr q) \<Longrightarrow>
    flowStep s (s\<lparr>tp := (tp s)\<lparr>txBatchQueue := q, txReorderer := (txReorderer (tp s))\<lparr>outgoing := ps\<rparr>\<rparr>\<rparr>)"
| assemble: "assembled (blockCreator (tp s)) = None \<Longrightarrow> Queue_Dequeue (txBatchQueue (tp s)) = Some (q, Some p) \<Longrightarrow>
    flowStep s (s\<lparr>tp := (tp s)\<lparr>txBatchQueue := q, blockCreator := assembleBlock (blockCreator (tp s)) p\<rparr>, taken := taken s @ [p]\<rparr>)"
| propose: "assembled (blockCreator (tp s)) = Some b \<Longrightarrow> afterSubmit (blockCreator (tp s)) (pendingTxs (tp s)) b err = Inr (bc, p) \<Longrightarrow>
    flowStep s (s\<lparr>tp := (tp s)\<lparr>blockCreator := bc, pendingTxs := p\<rparr>,
      proposals := proposals s @ (if err = None then [b] else [])\<rparr>)"
| decline: "proposals s = us @ b # vs \<Longrightarrow> BlockPayloadToTxIDs (BPayload b) = Inr ids \<Longrightarrow>
    ReleaseWithError (pendingTxs (tp s)) ids e = Inr p \<Longrightarrow>
    flowStep s (s\<lparr>tp := (tp s)\<lparr>pendingTxs := p\<rparr>, proposals := us @ vs\<rparr>)"
| lose: "proposals s = us @ b # vs \<Longrightarrow> flowStep s (s\<lparr>proposals := us @ vs\<rparr>)"
| commit: "proposals s = b # bs \<Longrightarrow>
    flowStep s (s\<lparr>proposals := bs, committedIDs := committedIDs s @ blockIDs b, notifying := notifying s @ [b\<lparr>Header := h\<rparr>]\<rparr>)"
| notify: "notifying s = b # bs \<Longrightarrow> PostBlockCommitProcessing (pendingTxs (tp s)) b = Inr p \<Longrightarrow>
    flowStep s (s\<lparr>tp := (tp s)\<lparr>pendingTxs := p\<rparr>, notifying := bs\<rparr>)"

text \<open>
  The cluster also commits blocks that this node does not count among its proposals: blocks of another
  leader, and blocks of its own that were released or lost and are delivered after all. Their ids are
  collected in the third argument of \<open>clusterReach\<close>.
\<close>

definition otherCommit :: "flow \<Rightarrow> Block \<Rightarrow> flow" where
  "otherCommit s b = s\<lparr>committedIDs := committedIDs s @ blockIDs b, notifying := notifying s @ [b]\<rparr>"

inductive flowReach :: "flow \<Rightarrow> flow \<Rightarrow> bool" for s0 :: flow where
  flow_init: "flowReach s0 s0"
| flow_next: "flowReach s0 s \<Longrightarrow> flowStep s s' \<Longrightarrow> flowReach s0 s'"

inductive clusterReach :: "flow \<Rightarrow> flow \<Rightarrow> string set \<Rightarrow> bool" for s0 :: flow where
  cluster_init: "clusterReach s0 s0 {}"
| cluster_own: "clusterReach s0 s out \<Longrightarrow> flowStep s s' \<Longrightarrow> clusterReach s0 s' out"
| cluster_other: "clusterReach s0 s out \<Longrightarrow> BPayload b \<noteq> None \<Longrightarrow>
    clusterReach s0 (otherCommit s b) (out \<union> set (blockIDs b))"

lemma flow_cluster: "flowReach s0 s \<Longrightarrow> clusterReach s0 s {}"
  by (induction rule: flowReach.induct) (auto intro: clusterReach.intros)

section \<open>Order and batches\<close>

definition queuedTxs :: "flow \<Rightarrow> tx list" where
  "queuedTxs s = concat (map payloadTxs (entries (txBatchQueue (tp s)) @ outgoing (txReorderer (tp s))))
     @ map TxData (pendingDataTxs (txReorderer (tp s))) @ entries (txQueue (tp s))"

definition batchOK :: "32 word \<Rightarrow> Payload \<Rightarrow> bool" where
  "batchOK m p = (case p of Block_DataTxEnvelopes es \<Rightarrow> es \<noteq> [] \<and> (m = 0 \<or> length es \<le> unat m) | _ \<Rightarrow> True)"

definition orderInv :: "flow \<Rightarrow> bool" where
  "orderInv s \<longleftrightarrow> accepted s = concat (map payloadTxs (taken s)) @ queuedTxs s
     \<and> TxOther \<notin> set (entries (txQueue (tp s)))
     \<and> (\<forall>p \<in> set (taken s @ entries (txBatchQueue (tp s)) @ outgoing (txReorderer (tp s))). batchOK (maxTxCountPerBatch (txReorderer (tp s))) p)
     \<and> (maxTxCountPerBatch (txReorderer (tp s)) = 0 \<or>
        length (pendingDataTxs (txReorderer (tp s))) < unat (maxTxCountPerBatch (txReorderer (tp s))))"

lemma submitEnqueue_effect:
  assumes "submitEnqueue l d m t tx timeout = Inr t'"
  obtains txID where "txIDOf tx = Inr txID" "\<not> PendingTxs_Has (pendingTxs t) txID" "d txID = Inr False" "txID \<noteq> []"
    "t' = t\<lparr>txQueue := (txQueue t)\<lparr>entries := entries (txQueue t) @ [tx]\<rparr>, lockHolder := Some (txID, timeout)\<rparr>"
  using assms
  by (auto simp: submitEnqueue_def rbind_Inr_iff isTxIDDuplicate_def SafeURLSegmentNZ_def Queue_Enqueue_def
      split: sum.splits option.splits if_splits)

lemma submitAdd_frame:
  assumes "submitAdd t = Some (t', a)"
  shows "txQueue t' = txQueue t" "txBatchQueue t' = txBatchQueue t" "txReorderer t' = txReorderer t" "blockCreator t' = blockCreator t"
  using assms by (auto simp: submitAdd_def Let_def split: option.splits)

lemma payloadTxs_simps [simp]:
  "payloadTxs (Block_DataTxEnvelopes es) = map TxData es"
  "payloadTxs (Block_UserAdministrationTxEnvelope u) = [TxUser u]"
  "payloadTxs (Block_DbAdministrationTxEnvelope d) = [TxDB d]"
  "payloadTxs (Block_ConfigTxEnvelope c) = [TxConfig c]"
  by (simp_all add: payloadTxs_def)

definition reordererTxs :: "TxReorderer \<Rightarrow> tx list" where
  "reordererTxs r = concat (map payloadTxs (outgoing r)) @ map TxData (pendingDataTxs r)"

definition reordererOK :: "TxReorderer \<Rightarrow> bool" where
  "reordererOK r \<longleftrightarrow> (\<forall>p \<in> set (outgoing r). batchOK (maxTxCountPerBatch r) p)
     \<and> (maxTxCountPerBatch r = 0 \<or> length (pendingDataTxs r) < unat (maxTxCountPerBatch r))"

lemma flush_ok:
  assumes "\<forall>p \<in> set (outgoing r). batchOK (maxTxCountPerBatch r) p"
    "maxTxCountPerBatch r = 0 \<or> length (pendingDataTxs r) \<le> unat (maxTxCountPerBatch r)"
  shows "reordererTxs (enqueueAndResetPendingDataTxBatch r) = reordererTxs r" "reordererOK (enqueueAndResetPendingDataTxBatch r)"
    "maxTxCountPerBatch (enqueueAndResetPendingDataTxBatch r) = maxTxCountPerBatch r"
    "pendingDataTxs (enqueueAndResetPendingDataTxBatch r) = []"
  using assms
  by (auto simp: enqueueAndResetPendingDataTxBatch_def reordererTxs_def reordererOK_def batchOK_def
      unat_gt_0 split: Payload.splits)

lemma full_batch:
  assumes "n < unat (m :: 32 word)"
  shows "(of_nat (Suc n) :: 32 word) = m \<longleftrightarrow> Suc n = unat m"
proof -
  have "unat m < 2 ^ 32"
    using unsigned_less[of m] by simp
  then have "unat (of_nat (Suc n) :: 32 word) = Suc n"
    unfolding unat_of_nat using assms by (intro mod_less) simp
  then show ?thesis
    by (metis unsigned_word_eqI)
qed

lemma reorderTx_ok:
  assumes "reordererOK r" "t \<noteq> TxOther"
  shows "reordererTxs (reorderTx r t) = reordererTxs r @ [t]" "reordererOK (reorderTx r t)"
    "maxTxCountPerBatch (reorderTx r t) = maxTxCountPerBatch r"
proof -
  have alone: "reordererTxs (enqueueAlone r p) = reordererTxs r @ payloadTxs p \<and> reordererOK (enqueueAlone r p)
      \<and> maxTxCountPerBatch (enqueueAlone r p) = maxTxCountPerBatch r" if "batchOK (maxTxCountPerBatch r) p" for p
    using flush_ok[of r] assms(1) that by (auto simp: enqueueAlone_def Let_def reordererTxs_def reordererOK_def)
  have data: "reordererTxs (reorderTx r (TxData e)) = reordererTxs r @ [TxData e] \<and> reordererOK (reorderTx r (TxData e))
      \<and> maxTxCountPerBatch (reorderTx r (TxData e)) = maxTxCountPerBatch r" for e
  proof -
    let ?r = "r\<lparr>pendingDataTxs := pendingDataTxs r @ [e]\<rparr>"
    have pre: "\<forall>p \<in> set (outgoing ?r). batchOK (maxTxCountPerBatch ?r) p"
      "maxTxCountPerBatch ?r = 0 \<or> length (pendingDataTxs ?r) \<le> unat (maxTxCountPerBatch ?r)"
      using assms(1) by (auto simp: reordererOK_def)
    have "reordererTxs ?r = reordererTxs r @ [TxData e]"
      by (simp add: reordererTxs_def)
    moreover have "reordererOK ?r" if "(of_nat (Suc (length (pendingDataTxs r))) :: 32 word) \<noteq> maxTxCountPerBatch r"
      using assms(1) that full_batch[of "length (pendingDataTxs r)" "maxTxCountPerBatch r"] unfolding reordererOK_def by auto
    ultimately show ?thesis
      using flush_ok[OF pre] by (simp add: reorderTx_def Let_def)
  qed
  show "reordererTxs (reorderTx r t) = reordererTxs r @ [t]" "reordererOK (reorderTx r t)"
    "maxTxCountPerBatch (reorderTx r t) = maxTxCountPerBatch r"
    using assms(2) alone data by (cases t; auto simp: reorderTx_def batchOK_def)+
qed

lemma orderInv_alt:
  "orderInv s \<longleftrightarrow>
     accepted s = concat (map payloadTxs (taken s @ entries (txBatchQueue (tp s)))) @ reordererTxs (txReorderer (tp s)) @ entries (txQueue (tp s))
     \<and> TxOther \<notin> set (entries (txQueue (tp s)))
     \<and> (\<forall>p \<in> set (taken s @ entries (txBatchQueue (tp s))). batchOK (maxTxCountPerBatch (txReorderer (tp s))) p)
     \<and> reordererOK (txReorderer (tp s))"
  by (auto simp: orderInv_def queuedTxs_def reordererTxs_def reordererOK_def)

lemma Dequeue_effect:
  "Queue_Dequeue q = Some (q', Some x) \<longleftrightarrow> (\<exists>es. entries q = x # es \<and> q' = q\<lparr>entries := es\<rparr>)"
  "DequeueWithWaitLimit q = (q', Some x) \<longleftrightarrow> (\<exists>es. entries q = x # es \<and> q' = q\<lparr>entries := es\<rparr>)"
  by (auto simp: Queue_Dequeue_def DequeueWithWaitLimit_def split: list.splits if_splits)

lemma Enqueue_effect: "Queue_Enqueue q x = Some (Inr q') \<Longrightarrow> q' = q\<lparr>entries := entries q @ [x]\<rparr>"
  by (simp add: Queue_Enqueue_def split: if_splits)

lemma orderInv_step:
  assumes "flowStep s s'" "orderInv s"
  shows "orderInv s'"
  using assms
proof cases
  case (submit leader marshal tx timeout tp')
  from submit(3) show ?thesis
    by (rule submitEnqueue_effect) (use assms(2) submit(1) in \<open>auto simp: orderInv_alt txIDOf_def\<close>)
next
  case (add tp' a)
  then show ?thesis
    using assms(2) submitAdd_frame[OF add(2)] by (simp add: orderInv_alt)
next
  case tick
  then show ?thesis
    using assms(2) flush_ok[of "txReorderer (tp s)"] by (auto simp: orderInv_alt reordererOK_def)
next
  case (dequeue q tx)
  from dequeue(3) obtain es where es: "entries (txQueue (tp s)) = tx # es" "q = (txQueue (tp s))\<lparr>entries := es\<rparr>"
    by (auto simp: Dequeue_effect)
  then have "tx \<noteq> TxOther"
    using assms(2) by (auto simp: orderInv_alt)
  then show ?thesis
    using assms(2) reorderTx_ok[of "txReorderer (tp s)" tx] es dequeue(1) by (simp add: orderInv_alt)
next
  case (push p ps q)
  then show ?thesis
    using assms(2) Enqueue_effect[OF push(3)] by (auto simp: orderInv_alt reordererTxs_def reordererOK_def)
next
  case (assemble q p)
  then show ?thesis
    using assms(2) by (auto simp: orderInv_alt Dequeue_effect)
qed (simp_all add: orderInv_alt)

lemma otherCommit_simps [simp]:
  "tp (otherCommit s b) = tp s" "proposals (otherCommit s b) = proposals s" "accepted (otherCommit s b) = accepted s"
  "taken (otherCommit s b) = taken s" "committedIDs (otherCommit s b) = committedIDs s @ blockIDs b"
  "notifying (otherCommit s b) = notifying s @ [b]"
  by (simp_all add: otherCommit_def)

lemma orderInv_other: "orderInv (otherCommit s b) = orderInv s"
  by (simp add: orderInv_alt)

section \<open>Every transaction at most once\<close>

definition flyingTxs :: "flow \<Rightarrow> tx list" where
  "flyingTxs s = concat (map blockTxs (proposals s))
     @ (case assembled (blockCreator (tp s)) of None \<Rightarrow> [] | Some b \<Rightarrow> blockTxs b) @ queuedTxs s"

definition flyingIDs :: "flow \<Rightarrow> string list" where
  "flyingIDs s = map idOf (flyingTxs s)"

definition holderIDs :: "flow \<Rightarrow> string set" where
  "holderIDs s = (case lockHolder (tp s) of None \<Rightarrow> {} | Some (t, _) \<Rightarrow> {t})"

definition pendingInv :: "transactionProcessor \<Rightarrow> bool" where
  "pendingInv t \<longleftrightarrow> wf_pending (pendingTxs t) \<and> (\<forall>i a. map_of (ptxs (pendingTxs t)) i = Some (Some a) \<longrightarrow> a < nextPromise t)"

text \<open>The ids that no block but the node's proposals has carried.\<close>

abbreviation own :: "string set \<Rightarrow> string list \<Rightarrow> string list" where
  "own out \<equiv> filter (\<lambda>t. t \<notin> out)"

definition onceInv :: "string set \<Rightarrow> flow \<Rightarrow> bool" where
  "onceInv out s \<longleftrightarrow> distinct (own out (flyingIDs s @ committedIDs s))
     \<and> set (flyingIDs s) - out \<subseteq> dom (map_of (ptxs (pendingTxs (tp s)))) \<union> holderIDs s
     \<and> (\<forall>b \<in> set (notifying s). BPayload b \<noteq> None \<and> set (blockIDs b) \<subseteq> set (committedIDs s))
     \<and> (\<forall>b \<in> set (proposals s). BPayload b \<noteq> None)
     \<and> (\<forall>b. assembled (blockCreator (tp s)) = Some b \<longrightarrow> BPayload b \<noteq> None)
     \<and> pendingInv (tp s)"

lemma queuedTxs_alt:
  "queuedTxs s = concat (map payloadTxs (entries (txBatchQueue (tp s)))) @ reordererTxs (txReorderer (tp s)) @ entries (txQueue (tp s))"
  by (simp add: queuedTxs_def reordererTxs_def)

lemma dataTxIDs_ids: "dataTxIDs i es = Inr ids \<Longrightarrow> ids = map (\<lambda>e. DTxId (DPayload e)) es"
  by (induction es arbitrary: i ids) (auto simp: rbind_Inr_iff split: if_splits)

lemma payload_ids: "BlockPayloadToTxIDs (BPayload b) = Inr ids \<Longrightarrow> ids = blockIDs b"
  by (auto simp: BlockPayloadToTxIDs_def blockIDs_def blockTxs_def idOf_def txIDOf_def oneTxID_def rbind_Inr_iff
      dest!: dataTxIDs_ids split: option.splits Payload.splits if_splits)

text \<open>What removing ids from the table of pending transactions keeps.\<close>

lemma pendingInv_remove:
  assumes "pendingInv t" "wf_pending p" "\<forall>i. map_of (ptxs p) i = (if i \<in> set ids then None else map_of (ptxs (pendingTxs t)) i)"
    "pendingTxs t' = p" "nextPromise t' = nextPromise t"
  shows "pendingInv t'"
  using assms by (auto simp: pendingInv_def split: if_splits)

lemma afterSubmit_effect:
  assumes "afterSubmit bc p b err = Inr (bc', p')" "wf_pending p"
  shows "assembled bc' = None \<and> wf_pending p' \<and>
    (p' = p \<or> (err \<noteq> None \<and> (\<forall>i. map_of (ptxs p') i = (if i \<in> set (blockIDs b) then None else map_of (ptxs p) i))
       \<and> (\<forall>a. (\<forall>i \<in> set (blockIDs b). map_of (ptxs p) i \<noteq> Some (Some a)) \<longrightarrow> pheap p' a = pheap p a)))"
proof -
  have "wf_pending q \<and> (\<forall>i. map_of (ptxs q) i = (if i \<in> set ids then None else map_of (ptxs p) i))
      \<and> (\<forall>a. (\<forall>i \<in> set ids. map_of (ptxs p) i \<noteq> Some (Some a)) \<longrightarrow> pheap q a = pheap p a)"
    if "ReleaseWithError p ids e = Inr q" for ids e q
    using ReleaseWithError_keeps[OF assms(2), of ids e] that by auto
  then show ?thesis
    using assms by (auto simp: afterSubmit_def Let_def rbind_Inr_iff dest!: payload_ids
        split: option.splits go_error.splits sum.splits)
qed

lemma PostBlock_ids:
  assumes "BPayload b \<noteq> None"
  shows "PostBlockCommitProcessing p b = DoneWithReceipt p (blockIDs b) (Header b)"
  using assms by (auto simp: PostBlockCommitProcessing_def blockIDs_def blockTxs_def idOf_def txIDOf_def comp_def split: option.splits Payload.splits)

lemma submitAdd_once:
  assumes "submitAdd t = Some (t', a)" "pendingInv t"
  obtains i x where "lockHolder t = Some (i, x)" "lockHolder t' = None" "pendingInv t'"
    "dom (map_of (ptxs (pendingTxs t'))) = insert i (dom (map_of (ptxs (pendingTxs t))))"
proof -
  from assms(1) obtain i x where h: "lockHolder t = Some (i, x)"
    by (auto simp: submitAdd_def split: option.splits)
  have "pendingInv t' \<and> lockHolder t' = None \<and> dom (map_of (ptxs (pendingTxs t'))) = insert i (dom (map_of (ptxs (pendingTxs t))))"
  proof (cases "NewCompletionPromise x")
    case None
    then show ?thesis
      using assms h by (auto simp: submitAdd_def pendingInv_def wf_pending_def PendingTxs_Add_def split: if_splits)
  next
    case (Some pr)
    then have "\<not> promiseClosed pr \<and> resultCh pr = None"
      by (auto simp: NewCompletionPromise_def split: if_splits)
    moreover have "j = k" if "map_of (ptxs (pendingTxs t)) j = Some (Some c)" "map_of (ptxs (pendingTxs t)) k = Some (Some c)" for j k c
      using assms(2) that unfolding pendingInv_def wf_pending_def by blast
    moreover have "map_of (ptxs (pendingTxs t)) u \<noteq> Some (Some (nextPromise t))" for u
      using assms(2) by (auto simp: pendingInv_def)
    ultimately show ?thesis
      using assms h Some
      by (auto simp: submitAdd_def Let_def pendingInv_def wf_pending_def PendingTxs_Add_def less_Suc_eq split: if_splits)
  qed
  then show ?thesis
    using that h by blast
qed

text \<open>The steps between the queues only move transactions along.\<close>

lemma onceInv_frame:
  assumes "onceInv out s" "flyingTxs s' = flyingTxs s" "committedIDs s' = committedIDs s" "notifying s' = notifying s"
    "pendingTxs (tp s') = pendingTxs (tp s)" "nextPromise (tp s') = nextPromise (tp s)" "lockHolder (tp s') = lockHolder (tp s)"
    "\<forall>b \<in> set (proposals s'). BPayload b \<noteq> None" "\<forall>b. assembled (blockCreator (tp s')) = Some b \<longrightarrow> BPayload b \<noteq> None"
  shows "onceInv out s'"
  using assms by (simp add: onceInv_def flyingIDs_def holderIDs_def pendingInv_def)

text \<open>Transactions that leave the pipeline are the only ones whose entries may be removed.\<close>

lemma onceInv_drop:
  assumes inv: "onceInv out s" and fly: "flyingTxs s = us @ vs @ ws" "flyingTxs s' = us @ ws"
    and com: "committedIDs s' = committedIDs s" "notifying s' = notifying s"
    and pend: "nextPromise (tp s') = nextPromise (tp s)" "lockHolder (tp s') = lockHolder (tp s)" "wf_pending (pendingTxs (tp s'))"
    and keep: "pendingTxs (tp s') = pendingTxs (tp s) \<or> (\<forall>i. map_of (ptxs (pendingTxs (tp s'))) i
        = (if i \<in> set (map idOf vs) then None else map_of (ptxs (pendingTxs (tp s))) i))"
    and blocks: "\<forall>b \<in> set (proposals s'). BPayload b \<noteq> None" "\<forall>b. assembled (blockCreator (tp s')) = Some b \<longrightarrow> BPayload b \<noteq> None"
  shows "onceInv out s'"
proof -
  have d: "distinct (own out (map idOf (us @ vs @ ws) @ committedIDs s))"
    using inv by (simp add: onceInv_def flyingIDs_def fly)
  have "pendingInv (tp s')"
    using keep inv pend pendingInv_remove[of "tp s" "pendingTxs (tp s')" "map idOf vs" "tp s'"]
    by (auto simp: onceInv_def pendingInv_def)
  moreover have "set (flyingIDs s') - out \<subseteq> dom (map_of (ptxs (pendingTxs (tp s')))) \<union> holderIDs s'"
  proof
    fix i assume i: "i \<in> set (flyingIDs s') - out"
    then have "i \<in> dom (map_of (ptxs (pendingTxs (tp s)))) \<union> holderIDs s" "i \<notin> set (map idOf vs)"
      using inv d by (auto simp: onceInv_def flyingIDs_def fly)
    then show "i \<in> dom (map_of (ptxs (pendingTxs (tp s')))) \<union> holderIDs s'"
      using keep pend(2) by (auto simp: holderIDs_def dom_def)
  qed
  moreover have "distinct (own out (flyingIDs s' @ committedIDs s'))"
    using d com by (auto simp: flyingIDs_def fly)
  ultimately show ?thesis
    using inv com blocks by (simp add: onceInv_def)
qed

lemma onceInv_submit:
  assumes "onceInv out s" "lockHolder (tp s) = None" "submitEnqueue l (\<lambda>t. Inr (t \<in> set (committedIDs s))) m (tp s) tx timeout = Inr tp'"
  shows "onceInv out (s\<lparr>tp := tp', accepted := xs\<rparr>)"
proof -
  obtain i where i: "txIDOf tx = Inr i" "\<not> PendingTxs_Has (pendingTxs (tp s)) i" "i \<notin> set (committedIDs s)"
    "tp' = (tp s)\<lparr>txQueue := (txQueue (tp s))\<lparr>entries := entries (txQueue (tp s)) @ [tx]\<rparr>, lockHolder := Some (i, timeout)\<rparr>"
    by (rule submitEnqueue_effect[OF assms(3)]) (use that in auto)
  have "flyingIDs (s\<lparr>tp := tp', accepted := xs\<rparr>) = flyingIDs s @ [i]"
    by (simp add: flyingIDs_def flyingTxs_def queuedTxs_def i(1,4) idOf_def)
  moreover have "i \<notin> set (flyingIDs s) - out"
    using assms(1,2) i(2) by (auto simp: onceInv_def holderIDs_def PendingTxs_Has_def has_key_def)
  ultimately show ?thesis
    using assms(1,2) i by (auto simp: onceInv_def holderIDs_def pendingInv_def)
qed

lemma blockIDs_header [simp]: "blockIDs (b\<lparr>Header := h\<rparr>) = blockIDs b"
  by (simp add: blockIDs_def blockTxs_def)

lemma onceInv_step:
  assumes "flowStep s s'" "onceInv out s" "orderInv s"
  shows "onceInv out s'"
  using assms(1)
proof cases
  case (submit leader marshal tx timeout tp')
  then show ?thesis
    using onceInv_submit assms(2) by simp
next
  case (add tp' a)
  have "pendingInv (tp s)"
    using assms(2) by (simp add: onceInv_def)
  from submitAdd_once[OF add(2) this] obtain i x where i: "lockHolder (tp s) = Some (i, x)" "lockHolder tp' = None" "pendingInv tp'"
    "dom (map_of (ptxs (pendingTxs tp'))) = insert i (dom (map_of (ptxs (pendingTxs (tp s)))))" .
  have "flyingIDs s' = flyingIDs s"
    using submitAdd_frame[OF add(2)] add(1) by (simp add: flyingIDs_def flyingTxs_def queuedTxs_def)
  then show ?thesis
    using assms(2) add(1) i submitAdd_frame[OF add(2)] by (auto simp: onceInv_def holderIDs_def)
next
  case tick
  have "reordererTxs (enqueueAndResetPendingDataTxBatch (txReorderer (tp s))) = reordererTxs (txReorderer (tp s))"
    using assms(3) flush_ok(1)[of "txReorderer (tp s)"] by (auto simp: orderInv_alt reordererOK_def)
  then show ?thesis
    by (intro onceInv_frame[OF assms(2)]) (use tick assms(2) in \<open>simp_all add: flyingTxs_def queuedTxs_alt onceInv_def\<close>)
next
  case (dequeue q tx)
  from dequeue(3) obtain es where es: "entries (txQueue (tp s)) = tx # es" "q = (txQueue (tp s))\<lparr>entries := es\<rparr>"
    by (auto simp: Dequeue_effect)
  have "reordererTxs (reorderTx (txReorderer (tp s)) tx) = reordererTxs (txReorderer (tp s)) @ [tx]"
    using assms(3) es(1) by (intro reorderTx_ok(1)) (auto simp: orderInv_alt)
  then show ?thesis
    by (intro onceInv_frame[OF assms(2)]) (use dequeue(1) es assms(2) in \<open>simp_all add: flyingTxs_def queuedTxs_alt onceInv_def\<close>)
next
  case (push p ps q)
  then show ?thesis
    by (intro onceInv_frame[OF assms(2)])
      (use Enqueue_effect[OF push(3)] push assms(2) in \<open>simp_all add: flyingTxs_def queuedTxs_alt reordererTxs_def onceInv_def\<close>)
next
  case (assemble q p)
  then obtain es where "entries (txBatchQueue (tp s)) = p # es" "q = (txBatchQueue (tp s))\<lparr>entries := es\<rparr>"
    by (auto simp: Dequeue_effect)
  then show ?thesis
    by (intro onceInv_frame[OF assms(2)])
      (use assemble assms(2) in \<open>simp_all add: flyingTxs_def queuedTxs_alt assembleBlock_def blockTxs_def onceInv_def\<close>)
next
  case (propose b err bc p)
  have e: "assembled bc = None" "wf_pending p"
    "p = pendingTxs (tp s) \<or> (err \<noteq> None \<and> (\<forall>i. map_of (ptxs p) i = (if i \<in> set (blockIDs b) then None else map_of (ptxs (pendingTxs (tp s))) i)))"
    using afterSubmit_effect[OF propose(3)] assms(2) by (auto simp: onceInv_def pendingInv_def)
  have b: "BPayload b \<noteq> None" "\<forall>b \<in> set (proposals s). BPayload b \<noteq> None"
    using assms(2) propose(2) by (auto simp: onceInv_def)
  show ?thesis
  proof (cases err)
    case None
    then have "p = pendingTxs (tp s)"
      using e(3) by simp
    then show ?thesis
      using None e(1) b propose(1,2) by (intro onceInv_frame[OF assms(2)]) (auto simp: flyingTxs_def queuedTxs_def)
  next
    case (Some x)
    let ?us = "concat (map blockTxs (proposals s))" and ?ws = "queuedTxs s"
    show ?thesis
      by (rule onceInv_drop[OF assms(2), where us = ?us and vs = "blockTxs b" and ws = ?ws])
        (use Some e b propose(1,2) in \<open>auto simp: flyingTxs_def queuedTxs_def blockIDs_def\<close>)
  qed
next
  case (decline us b vs ids e p)
  have ids: "ids = blockIDs b"
    using payload_ids decline(3) by simp
  have p: "wf_pending p" "\<forall>i. map_of (ptxs p) i = (if i \<in> set ids then None else map_of (ptxs (pendingTxs (tp s))) i)"
    using ReleaseWithError_keeps[of "pendingTxs (tp s)" ids e] decline(4) assms(2) by (auto simp: onceInv_def pendingInv_def)
  show ?thesis
    by (rule onceInv_drop[OF assms(2), where us = "concat (map blockTxs us)" and vs = "blockTxs b"
          and ws = "concat (map blockTxs vs) @ (case assembled (blockCreator (tp s)) of None \<Rightarrow> [] | Some b \<Rightarrow> blockTxs b) @ queuedTxs s"])
      (use decline(1,2) ids p assms(2) in \<open>auto simp: flyingTxs_def queuedTxs_def blockIDs_def onceInv_def\<close>)
next
  case (lose us b vs)
  show ?thesis
    by (rule onceInv_drop[OF assms(2), where us = "concat (map blockTxs us)" and vs = "blockTxs b"
          and ws = "concat (map blockTxs vs) @ (case assembled (blockCreator (tp s)) of None \<Rightarrow> [] | Some b \<Rightarrow> blockTxs b) @ queuedTxs s"])
      (use lose assms(2) in \<open>auto simp: flyingTxs_def queuedTxs_def onceInv_def pendingInv_def\<close>)
next
  case (commit b bs h)
  have "flyingIDs s = blockIDs b @ flyingIDs s'"
    using commit by (simp add: flyingIDs_def flyingTxs_def queuedTxs_def blockIDs_def)
  then show ?thesis
    using assms(2) commit by (auto simp: onceInv_def holderIDs_def)
next
  case (notify b bs p)
  have b: "BPayload b \<noteq> None" "set (blockIDs b) \<subseteq> set (committedIDs s)" "pendingInv (tp s)"
    using assms(2) notify(2) by (auto simp: onceInv_def)
  have p: "wf_pending p" "\<forall>i. map_of (ptxs p) i = (if i \<in> set (blockIDs b) then None else map_of (ptxs (pendingTxs (tp s))) i)"
    using doneLoop_keeps[of "pendingTxs (tp s)" "Header b" 0 "blockIDs b"] notify(3) b
    by (auto simp: PostBlock_ids DoneWithReceipt_def pendingInv_def)
  have fly: "flyingIDs s' = flyingIDs s"
    using notify(1) by (simp add: flyingIDs_def flyingTxs_def queuedTxs_def)
  have "pendingInv (tp s')"
    using notify(1) p by (intro pendingInv_remove[OF b(3) p]) simp_all
  moreover have "(set (flyingIDs s) - out) \<inter> set (blockIDs b) = {}"
    using assms(2) b(2) by (auto simp: onceInv_def)
  ultimately show ?thesis
    using assms(2) notify(1,2) p(2) fly by (auto simp: onceInv_def holderIDs_def)
qed

lemma onceInv_other:
  assumes "onceInv out s" "BPayload b \<noteq> None"
  shows "onceInv (out \<union> set (blockIDs b)) (otherCommit s b)"
proof -
  have fly: "flyingIDs (otherCommit s b) = flyingIDs s" "holderIDs (otherCommit s b) = holderIDs s"
    by (simp_all add: flyingIDs_def flyingTxs_def queuedTxs_def holderIDs_def)
  have "own (out \<union> set (blockIDs b)) (flyingIDs s @ committedIDs s @ blockIDs b)
      = filter (\<lambda>t. t \<notin> set (blockIDs b)) (own out (flyingIDs s @ committedIDs s))"
    by (auto simp: conj_commute filter_empty_conv)
  then have "distinct (own (out \<union> set (blockIDs b)) (flyingIDs s @ committedIDs s @ blockIDs b))"
    using assms(1) unfolding onceInv_def by (simp only: distinct_filter)
  then show ?thesis
    using assms unfolding onceInv_def fly otherCommit_simps by auto
qed

section \<open>Stranded promises\<close>

text \<open>
  A transaction that is committed, whose commit event has been delivered, and that is still pending with
  an open promise.
\<close>

definition stranded :: "flow \<Rightarrow> string \<Rightarrow> nat \<Rightarrow> bool" where
  "stranded s t a \<longleftrightarrow> t \<in> set (committedIDs s) \<and> (\<forall>b \<in> set (notifying s). t \<notin> set (blockIDs b)) \<and> t \<notin> holderIDs s
     \<and> map_of (ptxs (pendingTxs (tp s))) t = Some (Some a)
     \<and> resultCh (pheap (pendingTxs (tp s)) a) = None \<and> \<not> promiseClosed (pheap (pendingTxs (tp s)) a)"

lemma stranded_frame:
  assumes "stranded s t a" "t \<in> set (committedIDs s')" "\<forall>b \<in> set (notifying s'). t \<notin> set (blockIDs b)" "holderIDs s' \<subseteq> holderIDs s"
    "map_of (ptxs (pendingTxs (tp s'))) t = Some (Some a)" "pheap (pendingTxs (tp s')) a = pheap (pendingTxs (tp s)) a"
  shows "stranded s' t a"
  using assms by (auto simp: stranded_def)

text \<open>Only a block that holds the transaction could settle it, and no block on its way does.\<close>

lemma other_promise:
  assumes "stranded s t a" "onceInv out s" "t \<notin> set ids"
  shows "\<forall>i \<in> set ids. map_of (ptxs (pendingTxs (tp s))) i \<noteq> Some (Some a)"
  using assms unfolding stranded_def onceInv_def pendingInv_def wf_pending_def by blast

lemma committed_not_flying:
  assumes "onceInv out s" "t \<in> set (committedIDs s) - out" "set (blockIDs b) \<subseteq> set (flyingIDs s)"
  shows "t \<notin> set (blockIDs b)"
  using assms by (auto simp: onceInv_def)

lemma stranded_step:
  assumes "flowStep s s'" "onceInv out s" "stranded s t a" "t \<notin> out"
  shows "stranded s' t a"
  using assms(1)
proof cases
  case (submit leader marshal tx timeout tp')
  obtain i where "\<not> PendingTxs_Has (pendingTxs (tp s)) i"
    "tp' = (tp s)\<lparr>txQueue := (txQueue (tp s))\<lparr>entries := entries (txQueue (tp s)) @ [tx]\<rparr>, lockHolder := Some (i, timeout)\<rparr>"
    by (rule submitEnqueue_effect[OF submit(3)]) (use that in auto)
  then show ?thesis
    using assms(3) submit(1) by (auto simp: stranded_def holderIDs_def PendingTxs_Has_def has_key_def)
next
  case (add tp' c)
  have "a < nextPromise (tp s)"
    using assms(2,3) by (auto simp: onceInv_def pendingInv_def stranded_def)
  then show ?thesis
    using assms(3) add by (auto simp: stranded_def holderIDs_def submitAdd_def PendingTxs_Add_def Let_def split: option.splits)
next
  case (propose b err bc p)
  have "set (blockIDs b) \<subseteq> set (flyingIDs s)"
    using propose(2) by (auto simp: flyingIDs_def flyingTxs_def blockIDs_def)
  then have t: "t \<notin> set (blockIDs b)"
    using committed_not_flying assms(2-4) by (auto simp: stranded_def)
  have "map_of (ptxs p) t = map_of (ptxs (pendingTxs (tp s))) t \<and> pheap p a = pheap (pendingTxs (tp s)) a"
    using afterSubmit_effect[OF propose(3)] assms(2) other_promise[OF assms(3,2) t] t by (auto simp: onceInv_def pendingInv_def)
  then show ?thesis
    using assms(3) propose(1) by (intro stranded_frame[OF assms(3)]) (auto simp: stranded_def holderIDs_def)
next
  case (decline us b vs ids e p)
  have "set (blockIDs b) \<subseteq> set (flyingIDs s)"
    using decline(2) by (auto simp: flyingIDs_def flyingTxs_def blockIDs_def)
  then have t: "t \<notin> set ids"
    using committed_not_flying assms(2-4) payload_ids[OF decline(3)] by (auto simp: stranded_def)
  have "map_of (ptxs p) t = map_of (ptxs (pendingTxs (tp s))) t \<and> pheap p a = pheap (pendingTxs (tp s)) a"
    using ReleaseWithError_keeps[of "pendingTxs (tp s)" ids e] decline(4) assms(2) other_promise[OF assms(3,2) t] t
    by (auto simp: onceInv_def pendingInv_def)
  then show ?thesis
    using assms(3) decline(1) by (intro stranded_frame[OF assms(3)]) (auto simp: stranded_def holderIDs_def)
next
  case (commit b bs h)
  have "set (blockIDs b) \<subseteq> set (flyingIDs s)"
    using commit(2) by (auto simp: flyingIDs_def flyingTxs_def blockIDs_def)
  then have "t \<notin> set (blockIDs b)"
    using committed_not_flying assms(2-4) by (auto simp: stranded_def)
  then show ?thesis
    using assms(3) commit(1) by (intro stranded_frame[OF assms(3)]) (auto simp: stranded_def holderIDs_def)
next
  case (notify b bs p)
  have b: "BPayload b \<noteq> None" "t \<notin> set (blockIDs b)"
    using assms(2,3) notify(2) by (auto simp: onceInv_def stranded_def)
  have "map_of (ptxs p) t = map_of (ptxs (pendingTxs (tp s))) t \<and> pheap p a = pheap (pendingTxs (tp s)) a"
    using doneLoop_keeps[of "pendingTxs (tp s)" "Header b" 0 "blockIDs b"] notify(3) b assms(2) other_promise[OF assms(3,2) b(2)]
    by (auto simp: PostBlock_ids DoneWithReceipt_def onceInv_def pendingInv_def)
  then show ?thesis
    using assms(3) notify(1,2) by (intro stranded_frame[OF assms(3)]) (auto simp: stranded_def holderIDs_def)
qed (use assms(3) in \<open>simp_all add: stranded_def holderIDs_def\<close>)

lemma stranded_other:
  assumes "stranded s t a" "t \<notin> set (blockIDs b)"
  shows "stranded (otherCommit s b) t a"
  using assms by (simp add: stranded_def holderIDs_def)

section \<open>Reachable states\<close>

lemma flow_start_inv:
  assumes "distinct ids"
  shows "orderInv (flow_start q m n k ids)" "onceInv {} (flow_start q m n k ids)"
  using assms
  by (simp_all add: flow_start_def orderInv_def onceInv_def queuedTxs_def flyingIDs_def flyingTxs_def holderIDs_def
      pendingInv_def wf_pending_def wf_gomap_def Queue_New_def unat_gt_0)

lemma cluster_inv_from:
  assumes "clusterReach s0 s out" "orderInv s0" "onceInv {} s0"
  shows "orderInv s \<and> onceInv out s"
  using assms
proof induction
  case (cluster_own s out s')
  then show ?case
    using orderInv_step onceInv_step by blast
next
  case (cluster_other s out b)
  then show ?case
    using onceInv_other by (simp add: orderInv_other)
qed simp

lemma cluster_inv:
  assumes "clusterReach (flow_start q m n k ids) s out" "distinct ids"
  shows "orderInv s \<and> onceInv out s"
  using cluster_inv_from[OF assms(1)] flow_start_inv[OF assms(2)] by blast

lemma maxTx_step:
  assumes "flowStep s s'"
  shows "maxTxCountPerBatch (txReorderer (tp s')) = maxTxCountPerBatch (txReorderer (tp s))"
  using assms
proof cases
  case (submit leader marshal tx timeout tp')
  from submit(3) show ?thesis
    by (rule submitEnqueue_effect) (simp add: submit(1))
next
  case (add tp' a)
  then show ?thesis
    using submitAdd_frame[OF add(2)] by simp
qed (simp_all add: enqueueAndResetPendingDataTxBatch_def reorderTx_def enqueueAlone_def Let_def split: tx.split)

lemma maxTx_reach:
  assumes "clusterReach (flow_start q m n k ids) s out"
  shows "maxTxCountPerBatch (txReorderer (tp s)) = n"
  using assms
  by induction (simp_all add: flow_start_def maxTx_step)

lemma stranded_forever:
  assumes "clusterReach s s' out" "onceInv {} s" "orderInv s" "stranded s t a" "t \<notin> out"
  shows "stranded s' t a"
  using assms(1,5)
proof induction
  case cluster_init
  then show ?case
    using assms by simp
next
  case (cluster_own s' out s'')
  then show ?case
    using cluster_inv_from[OF cluster_own(1) assms(3,2)] stranded_step by blast
next
  case (cluster_other s' out b)
  then show ?case
    using stranded_other by blast
qed

end
