(* ===== verification/Tx_Properties.thy ===== *)
theory Tx_Properties
  imports Tx_Flow
begin

text \<open>
  The properties of the transaction pipeline: order and size of the batches, at most one commit of every
  transaction id that only the node proposes, the receipts of a committed block, the promise that a fast commit strands, and the
  return of every call on the queue barrier.
\<close>

section \<open>A run of the pipeline\<close>

definition one_tx :: tx where
  "one_tx = TxData \<lparr>DPayload = \<lparr>MustSignUserIds = [], DTxId = ''t'', DbOperations = []\<rparr>, Signatures = []\<rparr>"

definition one_batch :: Payload where
  "one_batch = Block_DataTxEnvelopes [\<lparr>DPayload = \<lparr>MustSignUserIds = [], DTxId = ''t'', DbOperations = []\<rparr>, Signatures = []\<rparr>]"

definition one_block :: Block where
  "one_block = \<lparr>Header = numberedHeader 1, BPayload = Some one_batch, BConsensusMetadata = None\<rparr>"

text \<open>The states of a pipeline with queues of length one and batches of one transaction.\<close>

definition run_state ::
  "tx list \<Rightarrow> Payload list \<Rightarrow> Payload list \<Rightarrow> 64 word \<Rightarrow> Block option \<Rightarrow> PendingTxs \<Rightarrow> nat \<Rightarrow> (string \<times> int) option \<Rightarrow>
   Block list \<Rightarrow> Block list \<Rightarrow> string list \<Rightarrow> tx list \<Rightarrow> Payload list \<Rightarrow> flow" where
  "run_state txs out batches n blk p np lock props notif com acc tak =
     \<lparr>tp = \<lparr>txQueue = \<lparr>entries = txs, capacity = 1, qclosed = False\<rparr>, txBatchQueue = \<lparr>entries = batches, capacity = 1, qclosed = False\<rparr>,
        txReorderer = \<lparr>pendingDataTxs = [], maxTxCountPerBatch = 1, outgoing = out\<rparr>,
        blockCreator = \<lparr>nextProposalNumber = n, assembled = blk\<rparr>, pendingTxs = p, nextPromise = np, lockHolder = lock\<rparr>,
      proposals = props, notifying = notif, committedIDs = com, accepted = acc, taken = tak\<rparr>"

definition no_pending :: PendingTxs where
  "no_pending = \<lparr>ptxs = [], pheap = \<lambda>_. \<lparr>resultCh = None, promiseClosed = False, promiseTimeout = 0\<rparr>\<rparr>"

definition one_pending :: PendingTxs where
  "one_pending = \<lparr>ptxs = [(''t'', Some 0)],
     pheap = (pheap no_pending)(0 := \<lparr>resultCh = None, promiseClosed = False, promiseTimeout = 1\<rparr>)\<rparr>"

lemmas run_defs = run_state_def one_tx_def one_batch_def one_block_def no_pending_def one_pending_def

lemma run_start: "flow_start 1 1 1 1 [] = run_state [] [] [] 1 None no_pending 0 None [] [] [] [] []"
  by (simp add: flow_start_def Queue_New_def run_defs)

lemma run_submit:
  "flowStep (run_state [] [] [] 1 None no_pending 0 None [] [] [] [] [])
     (run_state [one_tx] [] [] 1 None no_pending 0 (Some (''t'', 1)) [] [] [] [one_tx] [])"
  using flowStep.submit[of "run_state [] [] [] 1 None no_pending 0 None [] [] [] [] []" None "\<lambda>_. Inr ()" one_tx 1]
  by (simp add: run_defs submitEnqueue_def txIDOf_def SafeURLSegmentNZ_def segmentChar_def alnum_def isTxIDDuplicate_def
      PendingTxs_Has_def has_key_def Queue_IsFull_def Queue_Size_def Queue_Enqueue_def wrap_def)

lemma run_dequeue:
  "flowStep (run_state [one_tx] [] [] 1 None p k l [] [] [] [one_tx] [])
     (run_state [] [one_batch] [] 1 None p k l [] [] [] [one_tx] [])"
  using flowStep.dequeue[of "run_state [one_tx] [] [] 1 None p k l [] [] [] [one_tx] []" "\<lparr>entries = [], capacity = 1, qclosed = False\<rparr>" one_tx]
  by (simp add: run_defs DequeueWithWaitLimit_def Queue_Dequeue_def reorderTx_def enqueueAndResetPendingDataTxBatch_def)

lemma run_push:
  "flowStep (run_state [] [one_batch] [] 1 None p k l [] [] [] [one_tx] [])
     (run_state [] [] [one_batch] 1 None p k l [] [] [] [one_tx] [])"
  using flowStep.push[of "run_state [] [one_batch] [] 1 None p k l [] [] [] [one_tx] []" one_batch "[]"
      "\<lparr>entries = [one_batch], capacity = 1, qclosed = False\<rparr>"]
  by (simp add: run_state_def Queue_Enqueue_def Queue_IsFull_def Queue_Size_def)

lemma run_assemble:
  "flowStep (run_state [] [] [one_batch] 1 None p k l [] [] [] [one_tx] [])
     (run_state [] [] [] 1 (Some one_block) p k l [] [] [] [one_tx] [one_batch])"
  using flowStep.assemble[of "run_state [] [] [one_batch] 1 None p k l [] [] [] [one_tx] []"
      "\<lparr>entries = [], capacity = 1, qclosed = False\<rparr>" one_batch]
  by (simp add: run_state_def Queue_Dequeue_def assembleBlock_def one_block_def)

lemma run_propose:
  "flowStep (run_state [] [] [] 1 (Some one_block) p k l [] [] [] [one_tx] [one_batch])
     (run_state [] [] [] 2 None p k l [one_block] [] [] [one_tx] [one_batch])"
  using flowStep.propose[of "run_state [] [] [] 1 (Some one_block) p k l [] [] [] [one_tx] [one_batch]" one_block None]
  by (simp add: run_state_def afterSubmit_def Let_def)

lemma run_commit:
  "flowStep (run_state [] [] [] 2 None p k l [one_block] [] [] [one_tx] [one_batch])
     (run_state [] [] [] 2 None p k l [] [one_block] [''t''] [one_tx] [one_batch])"
  using flowStep.commit[of "run_state [] [] [] 2 None p k l [one_block] [] [] [one_tx] [one_batch]" one_block "[]" "Header one_block"]
  by (simp add: run_defs blockIDs_def blockTxs_def idOf_def txIDOf_def)

lemma run_notify:
  "flowStep (run_state [] [] [] 2 None no_pending k l [] [one_block] [''t''] [one_tx] [one_batch])
     (run_state [] [] [] 2 None no_pending k l [] [] [''t''] [one_tx] [one_batch])"
  using flowStep.notify[of "run_state [] [] [] 2 None no_pending k l [] [one_block] [''t''] [one_tx] [one_batch]" one_block "[]" no_pending]
  by (simp add: run_defs PostBlockCommitProcessing_def DoneWithReceipt_def settle_def gomap_delete_def)

lemma run_add:
  "flowStep (run_state [] [] [] 2 None no_pending 0 (Some (''t'', 1)) [] [] [''t''] [one_tx] [one_batch])
     (run_state [] [] [] 2 None one_pending 1 None [] [] [''t''] [one_tx] [one_batch])"
  using flowStep.add[of "run_state [] [] [] 2 None no_pending 0 (Some (''t'', 1)) [] [] [''t''] [one_tx] [one_batch]"]
  by (simp add: run_defs submitAdd_def NewCompletionPromise_def PendingTxs_Add_def gomap_put_def Let_def)

lemma run_queued: "flowReach (flow_start 1 1 1 1 []) (run_state [one_tx] [] [] 1 None no_pending 0 (Some (''t'', 1)) [] [] [] [one_tx] [])"
  unfolding run_start by (rule flow_next[OF flow_init run_submit])

lemma run_committed:
  "flowReach (flow_start 1 1 1 1 [])
     (run_state [] [] [] 2 None no_pending 0 (Some (''t'', 1)) [] [one_block] [''t''] [one_tx] [one_batch])"
  by (intro flow_next[OF _ run_commit] flow_next[OF _ run_propose] flow_next[OF _ run_assemble]
      flow_next[OF _ run_push] flow_next[OF _ run_dequeue] run_queued)

lemma run_stranded:
  "flowReach (flow_start 1 1 1 1 []) (run_state [] [] [] 2 None one_pending 1 None [] [] [''t''] [one_tx] [one_batch])"
  by (rule flow_next[OF flow_next[OF run_committed run_notify] run_add])

text \<open>A block of another leader, and a run in which another leader commits a transaction that is under way here too.\<close>

definition other_block :: Block where
  "other_block = \<lparr>Header = numberedHeader 2,
     BPayload = Some (Block_DataTxEnvelopes [\<lparr>DPayload = \<lparr>MustSignUserIds = [], DTxId = ''u'', DbOperations = []\<rparr>, Signatures = []\<rparr>]),
     BConsensusMetadata = None\<rparr>"

lemma other_block: "BPayload other_block \<noteq> None" "blockIDs other_block = [''u'']"
  by (simp_all add: other_block_def blockIDs_def blockTxs_def idOf_def txIDOf_def)

lemma two_leaders_commit_twice: "\<exists>s. clusterReach (flow_start 1 1 1 1 []) s {''t''} \<and> committedIDs s = [''t'', ''t'']"
proof -
  let ?s = "run_state [] [] [] 2 None no_pending 0 (Some (''t'', 1)) [one_block] [] [] [one_tx] [one_batch]"
  have ids: "BPayload one_block \<noteq> None" "blockIDs one_block = [''t'']"
    by (simp_all add: run_defs blockIDs_def blockTxs_def idOf_def txIDOf_def)
  have "flowReach (flow_start 1 1 1 1 []) ?s"
    by (intro flow_next[OF _ run_propose] flow_next[OF _ run_assemble] flow_next[OF _ run_push] flow_next[OF _ run_dequeue] run_queued)
  from cluster_other[OF flow_cluster[OF this] ids(1)]
  have reach: "clusterReach (flow_start 1 1 1 1 []) (otherCommit ?s one_block) {''t''}"
    by (simp add: ids(2))
  have "proposals (otherCommit ?s one_block) = [one_block]" "committedIDs (otherCommit ?s one_block) = [''t'']"
    by (simp_all add: run_state_def ids(2))
  then show ?thesis
    using cluster_own[OF reach flowStep.commit[of "otherCommit ?s one_block" one_block "[]" "Header one_block"]]
    by (intro exI conjI) (assumption, simp add: ids(2))
qed

lemma own_once: "distinct (own out xs) \<Longrightarrow> t \<notin> out \<Longrightarrow> count_list xs t \<le> 1"
  by (induction xs) (auto simp: count_list_0_iff split: if_splits)

section \<open>Properties\<close>

text \<open>
  C30. In every reachable state of the pipeline, also with blocks of other leaders committed in between, the transactions sent on the queue are, in the order in
  which they were submitted, those of the batches the block creator has received followed by those of the
  batch queue, the batch in preparation and the transaction queue: none is lost, duplicated or overtaken.
  Every batch of data transactions is non-empty and, when a maximum is configured, not longer than it.
\<close>

theorem pipeline_order:
  assumes "clusterReach (flow_start queueLen batchLen maxTx next []) s out"
  shows "accepted s = concat (map payloadTxs (taken s)) @ queuedTxs s
    \<and> (\<forall>p \<in> set (taken s @ entries (txBatchQueue (tp s))). case p of
         Block_DataTxEnvelopes es \<Rightarrow> es \<noteq> [] \<and> (maxTx = 0 \<or> length es \<le> unat maxTx) | _ \<Rightarrow> True)"
  using cluster_inv[OF assms] maxTx_reach[OF assms] by (auto simp: orderInv_def batchOK_def)

theorem pipeline_order_witness:
  "flowReach (flow_start 1 1 1 1 []) (run_state [] [] [] 2 None no_pending 0 (Some (''t'', 1)) [] [one_block] [''t''] [one_tx] [one_batch])
   \<and> [one_tx] = concat (map payloadTxs [one_batch])"
  using pipeline_order[OF flow_cluster[OF run_committed]] run_committed by (simp add: run_state_def queuedTxs_def)

text \<open>
  C31. Starting from a ledger whose transaction ids are distinct, no interleaving of submissions, commits,
  refusals and losses of proposals, with any blocks of other leaders or released blocks committed in
  between, makes the pipeline carry an id twice, carry an id that is committed, or commit an id twice,
  except for the ids of those other blocks; and the commit listener never panics on a promise that already
  has its result. The exception is needed: \<open>two_leaders_commit_twice\<close> is a run with one.
\<close>

theorem pipeline_once:
  assumes "clusterReach (flow_start queueLen batchLen maxTx next ids) s out" "distinct ids"
  shows "(\<forall>t. t \<notin> out \<longrightarrow> count_list (flyingIDs s @ committedIDs s) t \<le> 1)
    \<and> (\<forall>b \<in> set (notifying s). \<exists>p. PostBlockCommitProcessing (pendingTxs (tp s)) b = Inr p)"
proof -
  have inv: "onceInv out s"
    using cluster_inv[OF assms] by simp
  have "\<exists>p. PostBlockCommitProcessing (pendingTxs (tp s)) b = Inr p" if "b \<in> set (notifying s)" for b
    using inv that doneLoop_keeps[of "pendingTxs (tp s)" "Header b" 0 "blockIDs b"]
    by (auto simp: onceInv_def pendingInv_def PostBlock_ids DoneWithReceipt_def)
  then show ?thesis
    using inv own_once unfolding onceInv_def by blast
qed

theorem pipeline_once_witness:
  "clusterReach (flow_start 1 1 1 1 [])
     (otherCommit (run_state [] [] [] 2 None no_pending 0 (Some (''t'', 1)) [] [one_block] [''t''] [one_tx] [one_batch]) other_block) {''u''}
   \<and> count_list [''t'', ''u''] ''t'' \<le> 1 \<and> (\<exists>p. PostBlockCommitProcessing no_pending one_block = Inr p)"
proof -
  let ?s = "run_state [] [] [] 2 None no_pending 0 (Some (''t'', 1)) [] [one_block] [''t''] [one_tx] [one_batch]"
  have reach: "clusterReach (flow_start 1 1 1 1 []) (otherCommit ?s other_block) {''u''}"
    using cluster_other[OF flow_cluster[OF run_committed] other_block(1)] by (simp add: other_block(2))
  have "committedIDs (otherCommit ?s other_block) = [''t'', ''u'']" "flyingIDs (otherCommit ?s other_block) = []"
    by (simp_all add: run_state_def other_block(2) flyingIDs_def flyingTxs_def queuedTxs_def)
  then show ?thesis
    using pipeline_once[OF reach] reach by (simp add: run_state_def)
qed

text \<open>
  C32. When a block commits, the submitter of each of its transactions gets, from \<^verbatim>\<open>Wait\<close> before the
  timeout, the receipt with the header of the block and the position of the transaction in it; the
  transactions of the block are no longer pending, and all others keep their entries and promises.
\<close>

theorem commit_resolves_promises:
  assumes "wf_pending p" "distinct ids"
  shows "\<exists>p'. DoneWithReceipt p ids hdr = Inr p'
    \<and> (\<forall>j < length ids. \<forall>a. map_of (ptxs p) (ids ! j) = Some (Some a) \<longrightarrow>
         (\<exists>q. promise_Wait False (Some (pheap p' a)) = Some (q, Inr (Some \<lparr>RHeader = hdr, RTxIndex = of_nat j\<rparr>))))
    \<and> (\<forall>t. PendingTxs_Has p' t \<longleftrightarrow> PendingTxs_Has p t \<and> t \<notin> set ids)
    \<and> (\<forall>t a. t \<notin> set ids \<longrightarrow> map_of (ptxs p) t = Some (Some a) \<longrightarrow> map_of (ptxs p') t = Some (Some a) \<and> pheap p' a = pheap p a)"
proof -
  obtain p' where p': "doneLoop p hdr 0 ids = Inr p'"
      "\<And>t. map_of (ptxs p') t = (if t \<in> set ids then None else map_of (ptxs p) t)"
      "\<And>j a. j < length ids \<Longrightarrow> map_of (ptxs p) (ids ! j) = Some (Some a) \<Longrightarrow>
         resultCh (pheap p' a) = Some (PReceipt \<lparr>RHeader = hdr, RTxIndex = of_nat j\<rparr>)"
      "\<And>a. (\<forall>t \<in> set ids. map_of (ptxs p) t \<noteq> Some (Some a)) \<Longrightarrow> pheap p' a = pheap p a"
    using doneLoop_ok[OF assms, of hdr 0] by auto
  have "pheap p' a = pheap p a" if "t \<notin> set ids" "map_of (ptxs p) t = Some (Some a)" for t a
    using assms(1) that by (intro p'(4)) (auto simp: wf_pending_def)
  then show ?thesis
    using p' by (auto simp: DoneWithReceipt_def promise_Wait_def PendingTxs_Has_def has_key_def)
qed

theorem commit_resolves_promises_witness:
  "\<exists>p'. DoneWithReceipt one_pending [''t''] (Header one_block) = Inr p' \<and> \<not> PendingTxs_Has p' ''t''
     \<and> (\<exists>q. promise_Wait False (Some (pheap p' 0)) = Some (q, Inr (Some \<lparr>RHeader = Header one_block, RTxIndex = 0\<rparr>)))"
proof -
  have "wf_pending one_pending"
    by (simp add: wf_pending_def wf_gomap_def one_pending_def)
  then show ?thesis
    using commit_resolves_promises[of one_pending "[''t'']" "Header one_block"] by (auto simp: one_pending_def)
qed

text \<open>
  C33. \<^verbatim>\<open>SubmitTransaction\<close> sends the transaction on the queue before it registers its promise, and the commit
  listener does not take the mutex. So there is a run in which the transaction is committed and its commit
  event delivered before the promise is registered; from then on, however the pipeline continues and
  whatever other blocks are committed that do not carry its id again, the id stays pending and \<^verbatim>\<open>Wait\<close> on its promise does not return before the timeout, although the transaction
  is committed.
\<close>

theorem early_commit_strands_promise:
  "\<exists>s. flowReach (flow_start 1 1 1 1 []) s \<and> lockHolder (tp s) = None \<and> notifying s = [] \<and> flyingTxs s = []
     \<and> (\<forall>s' out. clusterReach s s' out \<and> ''t'' \<notin> out \<longrightarrow> ''t'' \<in> set (committedIDs s') \<and> PendingTxs_Has (pendingTxs (tp s')) ''t''
         \<and> promise_Wait False (Some (pheap (pendingTxs (tp s')) 0)) = None)"
proof -
  let ?s = "run_state [] [] [] 2 None one_pending 1 None [] [] [''t''] [one_tx] [one_batch]"
  have "onceInv {} ?s" "orderInv ?s"
    using cluster_inv[OF flow_cluster[OF run_stranded]] by simp_all
  moreover have "stranded ?s ''t'' 0"
    by (simp add: stranded_def run_state_def one_pending_def no_pending_def holderIDs_def)
  ultimately have "stranded s' ''t'' 0" if "clusterReach ?s s' out" "''t'' \<notin> out" for s' out
    using stranded_forever[OF that(1) _ _ _ that(2)] by blast
  then have "\<forall>s' out. clusterReach ?s s' out \<and> ''t'' \<notin> out \<longrightarrow> ''t'' \<in> set (committedIDs s') \<and> PendingTxs_Has (pendingTxs (tp s')) ''t''
         \<and> promise_Wait False (Some (pheap (pendingTxs (tp s')) 0)) = None"
    by (auto simp: stranded_def PendingTxs_Has_def has_key_def promise_Wait_def)
  then show ?thesis
    using run_stranded by (intro exI[of _ ?s]) (simp add: run_state_def flyingTxs_def queuedTxs_def)
qed

theorem early_commit_strands_promise_witness:
  "\<exists>s. flowReach (flow_start 1 1 1 1 []) s \<and> ''t'' \<in> set (committedIDs s)
     \<and> promise_Wait False (Some (pheap (pendingTxs (tp s)) 0)) = None"
proof -
  obtain s where "flowReach (flow_start 1 1 1 1 []) s"
    "\<forall>s' out. clusterReach s s' out \<and> ''t'' \<notin> out \<longrightarrow> ''t'' \<in> set (committedIDs s') \<and> PendingTxs_Has (pendingTxs (tp s')) ''t''
         \<and> promise_Wait False (Some (pheap (pendingTxs (tp s')) 0)) = None"
    using early_commit_strands_promise by blast
  then show ?thesis
    using cluster_init by blast
qed

text \<open>
  C34. A call of \<^verbatim>\<open>EnqueueWait\<close> never gets stuck: in every reachable state of the barrier in which the
  producer is inside the call some step is possible, and under every schedule the call has returned after
  at most six steps, with the reply computed for the entry of this very call, or with the closed error
  after the barrier was closed.
\<close>

theorem barrier_returns:
  assumes "barrierReach process b" "calling b = Some e"
  shows "(\<exists>b'. barrierStep process b b')
    \<and> (\<forall>bs. barrierRun process (b # bs) \<and> 6 \<le> length bs \<longrightarrow>
         (\<exists>b' \<in> set bs. prod b' = PReturned e (Inr (process e)) \<or> (stopCh b' \<and> prod b' = PReturned e (Inl barrierClosed))))"
proof -
  have "\<exists>b' \<in> set bs. prod b' = PReturned e (Inr (process e)) \<or> (stopCh b' \<and> prod b' = PReturned e (Inl barrierClosed))"
    if run: "barrierRun process (b # bs)" "6 \<le> length bs" for bs
  proof -
    obtain b' r where b': "b' \<in> set bs" "prod b' = PReturned e r"
      using run_returns[OF run(1) assms(2)] run(2) stepsLeft_bound[of b] by fastforce
    then show ?thesis
      using barrierInv_reach[OF run_reach[OF assms(1) run(1) b'(1)]] by (auto simp: barrierInv_def split: sum.splits)
  qed
  then show ?thesis
    using barrier_progress[OF barrierInv_reach[OF assms(1)] assms(2)] by blast
qed

theorem barrier_returns_witness:
  "barrierReach (\<lambda>n::nat. n + 1) \<lparr>prod = PEnqueue 4, cons = CIdle, stopCh = False\<rparr>
   \<and> (\<exists>b'. barrierStep (\<lambda>n::nat. n + 1) \<lparr>prod = PEnqueue 4, cons = CIdle, stopCh = False\<rparr> b')"
proof -
  have reach: "barrierReach (\<lambda>n::nat. n + 1) \<lparr>prod = PEnqueue 4, cons = CIdle, stopCh = False\<rparr>"
    by (rule reach_call[OF reach_new, where e = 4]) (simp add: EnqueueWait_call_def NewOneQueueBarrier_def)
  then show ?thesis
    using barrier_returns[OF reach, of 4] by (simp add: calling_def)
qed

end
