(* ===== verification/Block_Replicator.thy ===== *)
theory Block_Replicator
  imports Tx_Pipeline Cluster_Config
begin

text \<open>
  \<^verbatim>\<open>internal/replication/blockreplicator.go\<close>: leadership, the numbering and proposing of blocks, and the
  delivery of committed Raft entries to the block processor. The Raft node, its storage and the transport
  are other libraries: their answers are arguments. The state of the block processor is the type
  \<open>'w\<close>, and \<open>process\<close> is what one \<^verbatim>\<open>EnqueueWait\<close> on the barrier does with it.
\<close>

section \<open>State\<close>

record BlockReplicator =
  raftID :: "64 word"
  clusterConfig :: ClusterConfig
  joinExistingCluster :: bool
  finishedJoin :: bool
  lastKnownLeader :: "64 word"
  lastKnownLeaderHost :: string
  justElectedInFlightBlocks :: bool
  lastProposedBlockNumber :: "64 word"
  lastProposedBlockHeaderBaseHash :: slice
  lastCommittedBlock :: "Block option"
  numInFlightBlocks :: "32 word"
  inFlightConfigBlockNumber :: "64 word"
  appliedIndex :: "64 word"
  sizeLimit :: "64 word"
  accDataSize :: "64 word"
  lastSnapBlockNum :: "64 word"
  confState :: "64 word list"

text \<open>The number of a block that may be nil: the generated accessors give zero.\<close>

definition blockNumberOf :: "Block option \<Rightarrow> 64 word" where
  "blockNumberOf b = (case b of None \<Rightarrow> 0 | Some b \<Rightarrow> block_number b)"

section \<open>Leadership\<close>

definition isLeader :: "BlockReplicator \<Rightarrow> go_error option" where
  "isLeader br = (if lastKnownLeader br = raftID br then None
     else Some (NotLeaderError (unat (lastKnownLeader br)) (lastKnownLeaderHost br)))"

definition isLeaderReady :: "BlockReplicator \<Rightarrow> go_error option" where
  "isLeaderReady br = (if lastKnownLeader br = raftID br
     then (if justElectedInFlightBlocks br then Some (NotLeaderError 0 []) else None)
     else Some (NotLeaderError (unat (lastKnownLeader br)) (lastKnownLeaderHost br)))"

definition GetClusterStatus :: "BlockReplicator \<Rightarrow> 64 word" where
  "GetClusterStatus br = (if lastKnownLeader br = raftID br \<and> justElectedInFlightBlocks br then 0 else lastKnownLeader br)"

text \<open>
  \<^verbatim>\<open>Submit\<close>: the propose channel has room for one block; when it is full the call waits for room or for the
  stop channel. \<open>preferSend\<close> is the choice of the \<^verbatim>\<open>select\<close> when both are ready.
\<close>

definition Replicator_Submit :: "BlockReplicator \<Rightarrow> bool \<Rightarrow> bool \<Rightarrow> Block list \<Rightarrow> Block \<Rightarrow> Block list res option" where
  "Replicator_Submit br stopped preferSend proposeCh block = (case isLeaderReady br of
     Some e \<Rightarrow> Some (Inl e)
   | None \<Rightarrow>
       if length proposeCh < 1 \<and> (preferSend \<or> \<not> stopped) then Some (Inr (proposeCh @ [block]))
       else if stopped then Some (Inl (ClosedError ''block replicator closed''))
       else None)"

fun memberWithRaftID :: "PeerConfig option list \<Rightarrow> 64 word \<Rightarrow> string res" where
  "memberWithRaftID [] i = Inr []"
| "memberWithRaftID (None # ms) i = nilPointer"
| "memberWithRaftID (Some m # ms) i = (if RaftId m = i then Inr (NodeId m) else memberWithRaftID ms i)"

fun nodeWithID :: "NodeConfig option list \<Rightarrow> string \<Rightarrow> string res" where
  "nodeWithID [] i = Inr []"
| "nodeWithID (None # ns) i = nilPointer"
| "nodeWithID (Some n # ns) i = (if NId n = i then Inr (NAddress n @ '':'' @ dec (unat (NPort n))) else nodeWithID ns i)"

definition nodeHostPortFromRaftID :: "BlockReplicator \<Rightarrow> 64 word \<Rightarrow> string res" where
  "nodeHostPortFromRaftID br i =
     (if i = 0 then Inr []
      else case ConsensusConf (clusterConfig br) of
        None \<Rightarrow> nilPointer
      | Some c \<Rightarrow> rbind (memberWithRaftID (Members c) i) (\<lambda>nodeID.
          if nodeID = [] then Inr [] else nodeWithID (Nodes (clusterConfig br)) nodeID))"

definition resetLastProposed :: "'d store_env \<Rightarrow> BlockReplicator \<Rightarrow> BlockReplicator res" where
  "resetLastProposed env br = (case lastCommittedBlock br of
     None \<Rightarrow> nilPointer
   | Some b \<Rightarrow> (case ComputeBlockBaseHash env b of
       Inl e \<Rightarrow> Inl (Panic ''Error computing base header hash of last commited block'')
     | Inr hs \<Rightarrow> Inr (br\<lparr>lastProposedBlockNumber := block_number b, lastProposedBlockHeaderBaseHash := Some hs\<rparr>)))"

text \<open>\<open>lastIndex\<close> is the last index of the Raft log in memory.\<close>

definition processLeaderJustElected :: "'d store_env \<Rightarrow> 64 word \<Rightarrow> BlockReplicator \<Rightarrow> BlockReplicator res" where
  "processLeaderJustElected env lastIndex br =
     (if \<not> justElectedInFlightBlocks br then Inr br
      else if lastIndex > appliedIndex br then Inr br
      else resetLastProposed env (br\<lparr>justElectedInFlightBlocks := False\<rparr>))"

definition processLeaderChanges :: "'d store_env \<Rightarrow> 64 word \<Rightarrow> 64 word \<Rightarrow> BlockReplicator \<Rightarrow> BlockReplicator res" where
  "processLeaderChanges env lastIndex leader br =
     (if leader = lastKnownLeader br then Inr br
      else
        let lostLeadership = lastKnownLeader br = raftID br;
            assumedLeadership = leader = raftID br;
            br1 = (if \<not> lostLeadership \<and> assumedLeadership \<and> lastIndex > appliedIndex br
                   then br\<lparr>justElectedInFlightBlocks := True\<rparr> else br) in
        rbind (if lostLeadership \<or> assumedLeadership
               then rbind (resetLastProposed env br1) (\<lambda>br. Inr (br\<lparr>numInFlightBlocks := 0, inFlightConfigBlockNumber := 0\<rparr>))
               else Inr br1) (\<lambda>br2.
        rbind (nodeHostPortFromRaftID br2 leader) (\<lambda>host.
        Inr (br2\<lparr>lastKnownLeader := leader, lastKnownLeaderHost := host\<rparr>))))"

section \<open>Proposing\<close>

definition insertBlockBaseHeader :: "'d store_env \<Rightarrow> BlockReplicator \<Rightarrow> Block \<Rightarrow> Block res" where
  "insertBlockBaseHeader env br proposedBlock =
     (let blockNum = lastProposedBlockNumber br + 1;
          base = \<lparr>Number = blockNum, PreviousBaseHeaderHash = lastProposedBlockHeaderBaseHash br,
                  LastCommittedBlockHash = None, LastCommittedBlockNum = 0\<rparr>;
          withBase = (\<lambda>base. proposedBlock\<lparr>Header := \<lparr>BaseHeader = base, SkipchainHashes = [], TxMerkleTreeRootHash = None,
                  StateMerkleTreeRootHash = None, HValidationInfo = []\<rparr>\<rparr>) in
      if blockNum > 1 then
        (case lastCommittedBlock br of
           None \<Rightarrow> nilPointer
         | Some b \<Rightarrow> (case ComputeBlockHash env b of
             Inl e \<Rightarrow> Inl (Panic ''Error while creating block header for proposed block'')
           | Inr hs \<Rightarrow> Inr (withBase (base\<lparr>LastCommittedBlockHash := Some hs, LastCommittedBlockNum := block_number b\<rparr>))))
      else Inr (withBase base))"

definition releasePendingTXs :: "PendingTxs \<Rightarrow> Block \<Rightarrow> go_error \<Rightarrow> PendingTxs res" where
  "releasePendingTXs p block reasonErr = (case BlockPayloadToTxIDs (BPayload block) of
     Inl _ \<Rightarrow> Inr p
   | Inr txIDs \<Rightarrow> ReleaseWithError p txIDs reasonErr)"

text \<open>The numbered block and its bytes, or nothing when the node is not a ready leader.\<close>

definition prepareProposal ::
  "'d store_env \<Rightarrow> BlockReplicator \<Rightarrow> PendingTxs \<Rightarrow> Block \<Rightarrow> (PendingTxs \<times> (Block \<times> bytes) option) res" where
  "prepareProposal env br p block = (case isLeaderReady br of
     Some e \<Rightarrow> rbind (releasePendingTXs p block e) (\<lambda>p. Inr (p, None))
   | None \<Rightarrow> rbind (insertBlockBaseHeader env br block) (\<lambda>b.
       case MarshalBlock (seCodec env) b of
         Inl e \<Rightarrow> Inl (Panic ''Error marshaling a block'')
       | Inr bs \<Rightarrow> Inr (p, Some (b, bs))))"

text \<open>What is handed to Raft: a message, or a change of the membership with the block as its context.\<close>

record ConfChangeV2 =
  ccChanges :: "(bool \<times> 64 word) list"   \<comment> \<open>true: a node is added\<close>
  ccContext :: slice

datatype proposal = ProposeNormal bytes | ProposeConfChange ConfChangeV2

definition membershipChange :: "bytes \<Rightarrow> PeerConfig list \<Rightarrow> PeerConfig list \<Rightarrow> ConfChangeV2" where
  "membershipChange blockBytes addedPeers removedPeers =
     \<lparr>ccChanges = map (\<lambda>p. (True, RaftId p)) addedPeers @ map (\<lambda>p. (False, RaftId p)) removedPeers, ccContext = Some blockBytes\<rparr>"

text \<open>
  \<^verbatim>\<open>proposeRegular\<close> and \<^verbatim>\<open>proposeMembershipConfigChange\<close>: \<open>raft\<close> answers the proposal; a refused block has
  its transactions released.
\<close>

definition proposeWith ::
  "'d store_env \<Rightarrow> (proposal \<Rightarrow> go_error option) \<Rightarrow> (bytes \<Rightarrow> proposal) \<Rightarrow> BlockReplicator \<Rightarrow> PendingTxs \<Rightarrow> Block
   \<Rightarrow> (PendingTxs \<times> Block option) res" where
  "proposeWith env raft msg br p block =
     rbind (prepareProposal env br p block) (\<lambda>(p, prep). case prep of
       None \<Rightarrow> Inr (p, None)
     | Some (b, bs) \<Rightarrow> (case raft (msg bs) of
         Some e \<Rightarrow> rbind (releasePendingTXs p b e) (\<lambda>p. Inr (p, None))
       | None \<Rightarrow> Inr (p, Some b)))"

definition proposeRegular where
  "proposeRegular env raft br p block = proposeWith env raft ProposeNormal br p block"

definition proposeMembershipConfigChange where
  "proposeMembershipConfigChange env raft br p block addedPeers removedPeers =
     proposeWith env raft (\<lambda>bs. ProposeConfChange (membershipChange bs addedPeers removedPeers)) br p block"

text \<open>
  The body of \<^verbatim>\<open>runProposeLoop\<close> up to the proposal: a config transaction is validated first, and declined with
  an error to its submitter. The result is the block to be recorded by \<^verbatim>\<open>updateLastProposal\<close>, if it was proposed.
\<close>

definition declineProposal :: "PendingTxs \<Rightarrow> Block \<Rightarrow> go_error \<Rightarrow> (PendingTxs \<times> Block option) res" where
  "declineProposal p block e = rbind (releasePendingTXs p block e) (\<lambda>p. Inr (p, None))"

definition proposeBlock ::
  "'d store_env \<Rightarrow> (proposal \<Rightarrow> go_error option) \<Rightarrow> (ConfigTxEnvelope \<Rightarrow> ValidationInfo res) \<Rightarrow> BlockReplicator \<Rightarrow> PendingTxs \<Rightarrow> Block
   \<Rightarrow> (PendingTxs \<times> Block option) res" where
  "proposeBlock env raft validate br p block = (case BPayload block of
     Some (Block_ConfigTxEnvelope t) \<Rightarrow>
       (case validate t of
          Inl e \<Rightarrow> declineProposal p block e
        | Inr v \<Rightarrow>
            if VFlag v \<noteq> VALID then declineProposal p block (BadRequestError (''Invalid config tx, reason: '' @ ReasonIfInvalid v))
            else (case NewConfig (CPayload t) of
              None \<Rightarrow> nilPointer
            | Some new \<Rightarrow>
                let (_, consensus, _, _) = ClassifyClusterReConfig (clusterConfig br) new in
                if \<not> consensus then proposeRegular env raft br p block
                else (case (ConsensusConf (clusterConfig br), ConsensusConf new) of
                  (Some cur, Some upd) \<Rightarrow>
                    (case detectPeerConfigChanges cur upd of
                       Inl (Panic m) \<Rightarrow> Inl (Panic m)
                     | Inl e \<Rightarrow> declineProposal p block e
                     | Inr (added, removed, _) \<Rightarrow>
                         if length added + length removed > 0
                         then proposeMembershipConfigChange env raft br p block added removed
                         else proposeRegular env raft br p block)
                | _ \<Rightarrow> nilPointer)))
   | _ \<Rightarrow> proposeRegular env raft br p block)"

text \<open>The conditions \<^verbatim>\<open>updateLastProposal\<close> waits on, and the update before it starts to wait.\<close>

definition maxInflight :: "BlockReplicator \<Rightarrow> 32 word res" where
  "maxInflight br = (case ConsensusConf (clusterConfig br) of
     None \<Rightarrow> nilPointer
   | Some c \<Rightarrow> (case RaftConf c of None \<Rightarrow> nilPointer | Some r \<Rightarrow> Inr (MaxInflightBlocks r)))"

definition tooManyInFlightBlocks :: "BlockReplicator \<Rightarrow> bool res" where
  "tooManyInFlightBlocks br = rbind (maxInflight br) (\<lambda>m. Inr (numInFlightBlocks br > m))"

definition inFlightConfig :: "BlockReplicator \<Rightarrow> bool" where
  "inFlightConfig br \<longleftrightarrow> inFlightConfigBlockNumber br > 0"

definition proposeLoopWaits :: "BlockReplicator \<Rightarrow> bool res" where
  "proposeLoopWaits br = rbind (tooManyInFlightBlocks br) (\<lambda>t. Inr (t \<or> inFlightConfig br))"

definition updateLastProposal :: "'d store_env \<Rightarrow> BlockReplicator \<Rightarrow> Block \<Rightarrow> BlockReplicator res" where
  "updateLastProposal env br block =
     (if isLeader br \<noteq> None then Inr br
      else (case ComputeBlockBaseHash env block of
        Inl e \<Rightarrow> Inl (Panic ''Failed to compute last block base hash'')
      | Inr hs \<Rightarrow>
          let br = br\<lparr>lastProposedBlockNumber := block_number block, lastProposedBlockHeaderBaseHash := Some hs,
                      numInFlightBlocks := numInFlightBlocks br + 1\<rparr> in
          if IsConfigBlock block then
            (if inFlightConfigBlockNumber br > 0
             then Inl (Panic ''A config block was proposed, but there is still a config block in-flight!'')
             else Inr (br\<lparr>inFlightConfigBlockNumber := block_number block\<rparr>))
          else Inr br))"

end
