(* ===== verification/Raft_Storage.thy ===== *)
theory Raft_Storage
  imports Orion_Prelude
begin

text \<open>
  \<^verbatim>\<open>internal/replication/storage.go\<close>: what the replicator persists of Raft. The write-ahead log, the snapshot
  files and the in-memory log belong to the etcd libraries and are arguments; modelled is the order of
  the calls, the bookkeeping of the snapshots and the selection of the files to purge.
\<close>

datatype entry_type = EntryNormal | EntryConfChange | EntryConfChangeV2

record raft_entry =
  eTerm :: "64 word"
  eIndex :: "64 word"
  eType :: entry_type
  eData :: slice

record raft_snapshot =
  snapData :: slice
  snapVoters :: "64 word list"
  snapIndex :: "64 word"
  snapTerm :: "64 word"

text \<open>The operations of the libraries, on the in-memory log \<open>'m\<close>.\<close>

record 'm raft_libs =
  walSave :: "raft_entry list \<Rightarrow> go_error option"
  walSaveSnapshot :: "64 word \<Rightarrow> 64 word \<Rightarrow> go_error option"
  snapSave :: "raft_snapshot \<Rightarrow> go_error option"
  walReleaseLockTo :: "64 word \<Rightarrow> go_error option"
  msSnapshot :: "'m \<Rightarrow> raft_snapshot"
  msLastIndex :: "'m \<Rightarrow> 64 word"
  msCreateSnapshot :: "'m \<Rightarrow> 64 word \<Rightarrow> 64 word list \<Rightarrow> slice \<Rightarrow> 'm \<times> raft_snapshot res"
  msApplySnapshot :: "'m \<Rightarrow> raft_snapshot \<Rightarrow> 'm \<times> unit res"
  msAppend :: "'m \<Rightarrow> raft_entry list \<Rightarrow> 'm \<times> unit res"
  msCompact :: "'m \<Rightarrow> 64 word \<Rightarrow> 'm \<times> unit res"
  IsEmptySnap :: "raft_snapshot \<Rightarrow> bool"
  ErrSnapOutOfDate :: go_error
  ErrCompacted :: go_error

record 'm RaftStorage =
  SnapshotCatchUpEntries :: "64 word"
  MemoryStorage :: 'm
  snapshotIndex :: "64 word list"

definition MaxSnapshotFiles :: nat where "MaxSnapshotFiles = 4"

section \<open>Storing\<close>

definition failWith :: "string \<Rightarrow> go_error option \<Rightarrow> unit res" where
  "failWith msg e = (case e of None \<Rightarrow> Inr () | Some x \<Rightarrow> Inl (Err (msg @ go_error_string x)))"

definition saveSnap :: "'m raft_libs \<Rightarrow> raft_snapshot \<Rightarrow> unit res" where
  "saveSnap libs sn =
     rbind (failWith ''failed to save snapshot to WAL: '' (walSaveSnapshot libs (snapIndex sn) (snapTerm sn))) (\<lambda>_.
     rbind (failWith ''failed to save snapshot to disk: '' (snapSave libs sn)) (\<lambda>_.
     case walReleaseLockTo libs (snapIndex sn) of None \<Rightarrow> Inr () | Some e \<Rightarrow> Inl e))"

text \<open>An out-of-date snapshot is only logged; any other error ends the process.\<close>

definition RaftStorage_ApplySnapshot :: "'m raft_libs \<Rightarrow> 'm RaftStorage \<Rightarrow> raft_snapshot \<Rightarrow> 'm RaftStorage \<times> unit res" where
  "RaftStorage_ApplySnapshot libs rs sn = (case msApplySnapshot libs (MemoryStorage rs) sn of
     (m, Inr _) \<Rightarrow> (rs\<lparr>MemoryStorage := m\<rparr>, Inr ())
   | (m, Inl e) \<Rightarrow> (rs\<lparr>MemoryStorage := m\<rparr>, if e = ErrSnapOutOfDate libs then Inr () else Inl (Panic ''Unexpected programming error'')))"

definition RaftStorage_Store ::
  "'m raft_libs \<Rightarrow> 'm RaftStorage \<Rightarrow> raft_entry list \<Rightarrow> raft_snapshot \<Rightarrow> 'm RaftStorage \<times> unit res" where
  "RaftStorage_Store libs rs es sn = (case walSave libs es of
     Some e \<Rightarrow> (rs, Inl e)
   | None \<Rightarrow>
       sbind (if IsEmptySnap libs sn then (rs, Inr ())
              else case saveSnap libs sn of
                Inl e \<Rightarrow> (rs, Inl e)
              | Inr _ \<Rightarrow> RaftStorage_ApplySnapshot libs rs sn) (\<lambda>rs _.
       case msAppend libs (MemoryStorage rs) es of (m, r) \<Rightarrow> (rs\<lparr>MemoryStorage := m\<rparr>, r)))"

section \<open>Snapshots\<close>

text \<open>The bookkeeping of \<^verbatim>\<open>gc\<close>: the indices of the newest snapshots are kept.\<close>

definition gcIndex :: "64 word list \<Rightarrow> 64 word list" where
  "gcIndex is = (if length is < MaxSnapshotFiles then is else drop (length is - MaxSnapshotFiles) is)"

definition TakeSnapshot :: "'m raft_libs \<Rightarrow> 'm RaftStorage \<Rightarrow> 64 word \<Rightarrow> 64 word list \<Rightarrow> slice \<Rightarrow> 'm RaftStorage \<times> unit res" where
  "TakeSnapshot libs rs i cs d = (case msCreateSnapshot libs (MemoryStorage rs) i cs d of
     (m, Inl e) \<Rightarrow> (rs\<lparr>MemoryStorage := m\<rparr>, Inl (Err (''failed to create snapshot from MemoryStorage: '' @ go_error_string e)))
   | (m, Inr sn) \<Rightarrow>
       let rs = rs\<lparr>MemoryStorage := m\<rparr> in
       (case saveSnap libs sn of
          Inl e \<Rightarrow> (rs, Inl e)
        | Inr _ \<Rightarrow>
            let rs = rs\<lparr>snapshotIndex := snapshotIndex rs @ [snapIndex sn]\<rparr> in
            sbind (if i > SnapshotCatchUpEntries rs then
                (case msCompact libs (MemoryStorage rs) (i - SnapshotCatchUpEntries rs) of
                   (m, Inr _) \<Rightarrow> (rs\<lparr>MemoryStorage := m\<rparr>, Inr ())
                 | (m, Inl e) \<Rightarrow> (rs\<lparr>MemoryStorage := m\<rparr>,
                     if e = ErrCompacted libs then Inr () else Inl (Panic ''Failed to purge raft entries'')))
              else (rs, Inr ())) (\<lambda>rs _.
            (rs\<lparr>snapshotIndex := gcIndex (snapshotIndex rs)\<rparr>, Inr ()))))"

text \<open>
  The files \<^verbatim>\<open>purgeWAL\<close> and \<^verbatim>\<open>purgeSnap\<close> remove, from a listing of the directory in the order of the walk;
  \<open>index\<close> reads the index in the name of a log segment. The walk ends at the first segment that is not
  older than the oldest snapshot kept; the last of the older segments is kept. \<open>lockable\<close> says whether
  the file can be locked: the first that cannot ends the purging.
\<close>

definition hasSuffix :: "string \<Rightarrow> string \<Rightarrow> bool" where
  "hasSuffix s suf \<longleftrightarrow> length suf \<le> length s \<and> drop (length s - length suf) s = suf"

definition purgeFiles :: "(string \<Rightarrow> bool) \<Rightarrow> string list \<Rightarrow> string list" where
  "purgeFiles lockable files = takeWhile lockable files"

definition purgeWAL :: "(string \<Rightarrow> bool) \<Rightarrow> (string \<Rightarrow> 64 word) \<Rightarrow> 64 word \<Rightarrow> string list \<Rightarrow> string list" where
  "purgeWAL lockable index retain listing =
     (let files = takeWhile (\<lambda>f. index f < retain) (filter (\<lambda>f. hasSuffix f ''.wal'') listing) in
      if length files \<le> 1 then [] else purgeFiles lockable (butlast files))"

definition purgeSnap :: "(string \<Rightarrow> bool) \<Rightarrow> string list \<Rightarrow> string list" where
  "purgeSnap lockable listing =
     (let files = filter (\<lambda>f. hasSuffix f ''.snap'') listing; l = length files in
      if l \<le> MaxSnapshotFiles then [] else purgeFiles lockable (take (l - MaxSnapshotFiles) files))"

lemma gcIndex_keeps:
  "length (gcIndex is) \<le> MaxSnapshotFiles" "is \<noteq> [] \<Longrightarrow> last (gcIndex is) = last is" "is \<noteq> [] \<Longrightarrow> gcIndex is \<noteq> []"
  by (auto simp: gcIndex_def MaxSnapshotFiles_def)

lemma purgeSnap_newest:
  assumes "distinct listing" "f \<in> set (purgeSnap lockable listing)"
  shows "MaxSnapshotFiles \<le> length (filter (\<lambda>f. hasSuffix f ''.snap'') (tl (dropWhile (\<lambda>g. g \<noteq> f) listing)))"
proof -
  let ?P = "\<lambda>f. hasSuffix f ''.snap''"
  let ?l = "length (filter ?P listing)"
  have f: "f \<in> set (take (?l - MaxSnapshotFiles) (filter ?P listing))"
    using assms(2) by (auto simp: purgeSnap_def purgeFiles_def Let_def dest: set_takeWhileD split: if_splits)
  then have "f \<in> set listing" "?P f"
    by (auto dest: in_set_takeD)
  then obtain us vs where l: "listing = us @ f # vs" "f \<notin> set us"
    by (meson split_list_first)
  have "f \<notin> set vs"
    using assms(1) l by auto
  have "length (filter ?P us) < ?l - MaxSnapshotFiles"
  proof (rule ccontr)
    assume "\<not> length (filter ?P us) < ?l - MaxSnapshotFiles"
    then have "take (?l - MaxSnapshotFiles) (filter ?P listing) = take (?l - MaxSnapshotFiles) (filter ?P us)"
      by (simp add: l)
    then show False
      using f l(2) by (auto dest: in_set_takeD)
  qed
  moreover have "dropWhile (\<lambda>g. g \<noteq> f) listing = f # vs"
    using l by (subst l(1), subst dropWhile_append2) auto
  ultimately show ?thesis
    using l \<open>?P f\<close> by simp
qed

end
