(* ===== verification/Replicator_Delivery.thy ===== *)
theory Replicator_Delivery
  imports Block_Replicator Raft_Storage
begin

text \<open>
  The second half of \<^verbatim>\<open>internal/replication/blockreplicator.go\<close>: the commit of one block through the barrier,
  the delivery of committed Raft entries, and the pulling of missing blocks from other nodes.
\<close>

section \<open>Commit of a block\<close>

definition setLastCommittedBlock :: "BlockReplicator \<Rightarrow> Block \<Rightarrow> BlockReplicator res" where
  "setLastCommittedBlock br block =
     (let br = br\<lparr>lastCommittedBlock := Some block\<rparr>;
          br = (if numInFlightBlocks br > 0 then br\<lparr>numInFlightBlocks := numInFlightBlocks br - 1\<rparr> else br) in
      if inFlightConfigBlockNumber br > 0 \<and> IsConfigBlock block then
        (if inFlightConfigBlockNumber br = block_number block then Inr (br\<lparr>inFlightConfigBlockNumber := 0\<rparr>)
         else Inl (Panic ''A config block committed, but it is not the one expected to be in-flight!''))
      else Inr br)"

text \<open>\<open>updatePeers\<close> is the answer of the transport to the new peers.\<close>

definition updateClusterConfig :: "(ClusterConfig \<Rightarrow> go_error option) \<Rightarrow> BlockReplicator \<Rightarrow> ClusterConfig \<Rightarrow> BlockReplicator res" where
  "updateClusterConfig updatePeers br config =
     (case (ConsensusConf (clusterConfig br), ConsensusConf config) of
        (Some cur, Some upd) \<Rightarrow>
          rbind (wrap ''failed to detect peer config changes'' (detectPeerConfigChanges cur upd)) (\<lambda>_.
          case updatePeers config of
            Some e \<Rightarrow> Inl (wrap_error ''failed to update peers on transport'' e)
          | None \<Rightarrow> Inr (br\<lparr>clusterConfig := config\<rparr>))
      | _ \<Rightarrow> nilPointer)"

text \<open>
  What delivery works on: the replicator, its storage, and the state of the block processor at the other
  end of the barrier. \<open>process\<close> is one \<^verbatim>\<open>EnqueueWait\<close>: it returns the block, whose header the processor has
  completed, and a new cluster configuration if the block was a valid configuration block.
\<close>

record ('m, 'w) delivery =
  rep :: BlockReplicator
  storage :: "'m RaftStorage"
  world :: 'w

type_synonym 'w processor = "'w \<Rightarrow> Block \<Rightarrow> 'w \<times> (Block \<times> ClusterConfig option) res"

definition commitBlock ::
  "'w processor \<Rightarrow> (ClusterConfig \<Rightarrow> go_error option) \<Rightarrow> bool \<Rightarrow> ('m, 'w) delivery \<Rightarrow> Block \<Rightarrow> ('m, 'w) delivery \<times> unit res" where
  "commitBlock process updatePeers updateConfig s block = (case process (world s) block of
     (w, Inl e) \<Rightarrow> (s\<lparr>world := w\<rparr>, Inl e)
   | (w, Inr (block, reConfig)) \<Rightarrow>
       let s = s\<lparr>world := w\<rparr> in
       (case setLastCommittedBlock (rep s) block of
          Inl e \<Rightarrow> (s, Inl e)
        | Inr br \<Rightarrow>
            let s = s\<lparr>rep := br\<rparr> in
            (case reConfig of
               None \<Rightarrow> (s, Inr ())
             | Some config \<Rightarrow>
                 if \<not> updateConfig then (s, Inr ())
                 else (case updateClusterConfig updatePeers (rep s) config of
                   Inl e \<Rightarrow> (s, Inl (Panic ''Failed to update to ClusterConfig during commitBlock''))
                 | Inr br \<Rightarrow> (s\<lparr>rep := br\<rparr>, Inr ())))))"

section \<open>Delivery of committed entries\<close>

text \<open>Serialisation of membership changes and their effect on the voters, of the Raft library.\<close>

record raft_node =
  unmarshalCC :: "bytes \<Rightarrow> (nat \<times> 64 word) res"       \<comment> \<open>kind of the change and node\<close>
  unmarshalCCV2 :: "bytes \<Rightarrow> ConfChangeV2 res"
  applyCC :: "64 word list \<Rightarrow> nat \<times> 64 word \<Rightarrow> 64 word list"
  applyCCV2 :: "64 word list \<Rightarrow> (bool \<times> 64 word) list \<Rightarrow> 64 word list"

definition ConfChangeAddNode :: nat where "ConfChangeAddNode = 0"
definition ConfChangeRemoveNode :: nat where "ConfChangeRemoveNode = 1"

definition withMetadata :: "Block \<Rightarrow> raft_entry \<Rightarrow> Block" where
  "withMetadata b e = b\<lparr>BConsensusMetadata := Some \<lparr>RaftTerm = eTerm e, RaftIndex = eIndex e\<rparr>\<rparr>"

text \<open>What handling one entry leads to.\<close>

datatype outcome = Applied | Skipped | Stop

definition commitEntry ::
  "'d store_env \<Rightarrow> 'w processor \<Rightarrow> (ClusterConfig \<Rightarrow> go_error option) \<Rightarrow> ('m, 'w) delivery \<Rightarrow> raft_entry \<Rightarrow> bytes
   \<Rightarrow> ('m, 'w) delivery \<times> outcome res" where
  "commitEntry env process updatePeers s e bs = (case UnmarshalBlock (seCodec env) bs of
     Inl x \<Rightarrow> (s, Inl (Panic ''Error unmarshaling entry''))
   | Inr block \<Rightarrow> (case commitBlock process updatePeers True s (withMetadata block e) of
       (s, Inr _) \<Rightarrow> (s, Inr Applied)
     | (s, Inl (Panic m)) \<Rightarrow> (s, Inl (Panic m))
     | (s, Inl x) \<Rightarrow> (s, Inr Stop)))"

definition applyNormal ::
  "'d store_env \<Rightarrow> 'w processor \<Rightarrow> (ClusterConfig \<Rightarrow> go_error option) \<Rightarrow> ('m, 'w) delivery \<Rightarrow> raft_entry \<Rightarrow> ('m, 'w) delivery \<times> outcome res" where
  "applyNormal env process updatePeers s e =
     (if slen (eData e) = 0 then (s, Inr Applied)
      else
        let s = s\<lparr>rep := (rep s)\<lparr>accDataSize := accDataSize (rep s) + of_nat (slen (eData e))\<rparr>\<rparr> in
        if eIndex e \<le> appliedIndex (rep s) then (s, Inr Applied)
        else commitEntry env process updatePeers s e (content (eData e)))"

definition applyConfChange :: "raft_node \<Rightarrow> ('m, 'w) delivery \<Rightarrow> raft_entry \<Rightarrow> ('m, 'w) delivery \<times> outcome res" where
  "applyConfChange node s e = (case unmarshalCC node (content (eData e)) of
     Inl _ \<Rightarrow> (s, Inr Skipped)
   | Inr cc \<Rightarrow>
       let s = s\<lparr>rep := (rep s)\<lparr>confState := applyCC node (confState (rep s)) cc\<rparr>\<rparr> in
       if fst cc = ConfChangeAddNode \<or> fst cc = ConfChangeRemoveNode then (s, Inr Applied)
       else (s, Inl (Panic ''Programming error, encountered unsupported raft config change'')))"

definition applyConfChangeV2 ::
  "'d store_env \<Rightarrow> raft_node \<Rightarrow> 'w processor \<Rightarrow> (ClusterConfig \<Rightarrow> go_error option) \<Rightarrow> ('m, 'w) delivery \<Rightarrow> raft_entry
   \<Rightarrow> ('m, 'w) delivery \<times> outcome res" where
  "applyConfChangeV2 env node process updatePeers s e = (case unmarshalCCV2 node (content (eData e)) of
     Inl _ \<Rightarrow> (s, Inr Skipped)
   | Inr cc \<Rightarrow>
       let committed =
         (if eIndex e \<le> appliedIndex (rep s) then (s, Inr Applied)
          else (case ccContext cc of
            None \<Rightarrow> (s, Inr Applied)
          | Some ctx \<Rightarrow> commitEntry env process updatePeers s e ctx)) in
       sbind committed (\<lambda>s oc.
         if oc = Stop then (s, Inr Stop)
         else
           let s = s\<lparr>rep := (rep s)\<lparr>confState := applyCCV2 node (confState (rep s)) (ccChanges cc)\<rparr>\<rparr> in
           if raftID (rep s) \<in> set (confState (rep s)) then (s, Inr Applied) else (s, Inr Stop)))"

definition applyEntry ::
  "'d store_env \<Rightarrow> raft_node \<Rightarrow> 'w processor \<Rightarrow> (ClusterConfig \<Rightarrow> go_error option) \<Rightarrow> ('m, 'w) delivery \<Rightarrow> raft_entry
   \<Rightarrow> ('m, 'w) delivery \<times> outcome res" where
  "applyEntry env node process updatePeers s e = (case eType e of
     EntryNormal \<Rightarrow> applyNormal env process updatePeers s e
   | EntryConfChange \<Rightarrow> applyConfChange node s e
   | EntryConfChangeV2 \<Rightarrow> applyConfChangeV2 env node process updatePeers s e)"

text \<open>
  The loop; \<open>position\<close> is the last non-empty normal entry seen. An entry that cannot be decoded is skipped
  without advancing the applied index.
\<close>

fun deliverLoop ::
  "'d store_env \<Rightarrow> raft_node \<Rightarrow> 'w processor \<Rightarrow> (ClusterConfig \<Rightarrow> go_error option) \<Rightarrow> nat \<Rightarrow> nat \<Rightarrow> ('m, 'w) delivery \<Rightarrow> raft_entry list
   \<Rightarrow> ('m, 'w) delivery \<times> (nat \<times> bool) res" where
  "deliverLoop env node process updatePeers i position s [] = (s, Inr (position, True))"
| "deliverLoop env node process updatePeers i position s (e # es) =
     (let position = (if eType e = EntryNormal \<and> slen (eData e) \<noteq> 0 then i else position) in
      sbind (applyEntry env node process updatePeers s e) (\<lambda>s oc. case oc of
        Stop \<Rightarrow> (s, Inr (position, False))
      | Skipped \<Rightarrow> deliverLoop env node process updatePeers (Suc i) position s es
      | Applied \<Rightarrow>
          let s = (if appliedIndex (rep s) < eIndex e then s\<lparr>rep := (rep s)\<lparr>appliedIndex := eIndex e\<rparr>\<rparr> else s) in
          deliverLoop env node process updatePeers (Suc i) position s es))"

text \<open>The block at the position, as the data of a snapshot.\<close>

definition snapshotBlock :: "'d store_env \<Rightarrow> raft_node \<Rightarrow> raft_entry \<Rightarrow> (slice \<times> 64 word) res" where
  "snapshotBlock env node e = (case eType e of
     EntryNormal \<Rightarrow> (case UnmarshalBlock (seCodec env) (content (eData e)) of
         Inl _ \<Rightarrow> Inl (Panic ''Error unmarshaling Normal entry'')
       | Inr b \<Rightarrow> Inr (eData e, block_number b))
   | EntryConfChangeV2 \<Rightarrow> (case unmarshalCCV2 node (content (eData e)) of
         Inl _ \<Rightarrow> Inl (Panic ''Error unmarshaling ConfChangeV2 entry'')
       | Inr cc \<Rightarrow> (case ccContext cc of
           None \<Rightarrow> Inr (None, 0)
         | Some ctx \<Rightarrow> (case UnmarshalBlock (seCodec env) ctx of
             Inl _ \<Rightarrow> Inl (Panic ''Error unmarshaling entry'')
           | Inr b \<Rightarrow> Inr (Some ctx, block_number b))))
   | EntryConfChange \<Rightarrow> Inr (None, 0))"

definition snapshotIfNeeded ::
  "'d store_env \<Rightarrow> raft_node \<Rightarrow> 'm raft_libs \<Rightarrow> ('m, 'w) delivery \<Rightarrow> raft_entry \<Rightarrow> ('m, 'w) delivery \<times> unit res" where
  "snapshotIfNeeded env node libs s e =
     (if accDataSize (rep s) < sizeLimit (rep s) then (s, Inr ())
      else (case snapshotBlock env node e of
        Inl x \<Rightarrow> (s, Inl x)
      | Inr (None, _) \<Rightarrow> (s, Inr ())
      | Inr (Some d, n) \<Rightarrow> (case TakeSnapshot libs (storage s) (appliedIndex (rep s)) (confState (rep s)) (Some d) of
          (st, Inl x) \<Rightarrow> (s\<lparr>storage := st\<rparr>, Inl (Panic ''Failed to create snapshot''))
        | (st, Inr _) \<Rightarrow> (s\<lparr>storage := st, rep := (rep s)\<lparr>accDataSize := 0, lastSnapBlockNum := n\<rparr>\<rparr>, Inr ()))))"

definition deliverEntries ::
  "'d store_env \<Rightarrow> raft_node \<Rightarrow> 'm raft_libs \<Rightarrow> 'w processor \<Rightarrow> (ClusterConfig \<Rightarrow> go_error option) \<Rightarrow> ('m, 'w) delivery \<Rightarrow> raft_entry list
   \<Rightarrow> ('m, 'w) delivery \<times> bool res" where
  "deliverEntries env node libs process updatePeers s es =
     (if es = [] then (s, Inr True)
      else if eIndex (hd es) > appliedIndex (rep s) + 1 then (s, Inl (Panic ''First index of committed entry should <= appliedIndex+1''))
      else sbind (deliverLoop env node process updatePeers 0 0 s es) (\<lambda>s (position, ok).
        if \<not> ok then (s, Inr False)
        else sbind (snapshotIfNeeded env node libs s (es ! position)) (\<lambda>s _. (s, Inr True))))"

section \<open>Catching up\<close>

text \<open>The commits of one answer to a request for blocks; the next block number advances with each of them.\<close>

fun commitPulled ::
  "'w processor \<Rightarrow> (ClusterConfig \<Rightarrow> go_error option) \<Rightarrow> bool \<Rightarrow> 64 word \<Rightarrow> ('m, 'w) delivery \<Rightarrow> Block list \<Rightarrow> ('m, 'w) delivery \<times> (64 word) res" where
  "commitPulled process updatePeers updateConfig nextBlockNumber s [] = (s, Inr nextBlockNumber)"
| "commitPulled process updatePeers updateConfig nextBlockNumber s (b # bs) =
     sbind (commitBlock process updatePeers updateConfig s b) (\<lambda>s _.
     commitPulled process updatePeers updateConfig (nextBlockNumber + 1) s bs)"

text \<open>
  \<^verbatim>\<open>catchUpToBlock\<close>: \<open>pull\<close> is what the \<open>k\<close>-th call of \<^verbatim>\<open>PullBlocks\<close> answers, or the closed error when the
  server stops first. The loop ends only when enough blocks have come.
\<close>

definition pullError :: "go_error \<Rightarrow> go_error" where
  "pullError e = (case e of ClosedError m \<Rightarrow> ClosedError m | _ \<Rightarrow> wrap_error ''failed to pull blocks from cluster'' e)"

partial_function (option) catchUpToBlock ::
  "(nat \<Rightarrow> 64 word \<Rightarrow> 64 word \<Rightarrow> Block list res) \<Rightarrow> 'w processor \<Rightarrow> (ClusterConfig \<Rightarrow> go_error option) \<Rightarrow> bool \<Rightarrow> 64 word
   \<Rightarrow> nat \<Rightarrow> 64 word \<Rightarrow> ('m, 'w) delivery \<Rightarrow> (('m, 'w) delivery \<times> unit res) option" where
  "catchUpToBlock pull process updatePeers updateConfig target k nextBlockNumber s =
     (if \<not> nextBlockNumber \<le> target then Some (s, Inr ())
      else (case pull k nextBlockNumber target of
        Inl e \<Rightarrow> Some (s, Inl (pullError e))
      | Inr blocks \<Rightarrow> (case commitPulled process updatePeers updateConfig nextBlockNumber s blocks of
          (s, Inl e) \<Rightarrow> Some (s, Inl e)
        | (s, Inr next) \<Rightarrow> catchUpToBlock pull process updatePeers updateConfig target (Suc k) next s)))"

declare catchUpToBlock.simps [code]

definition lastBlockNumber :: "('m, 'w) delivery \<Rightarrow> 64 word" where
  "lastBlockNumber s = blockNumberOf (lastCommittedBlock (rep s))"

text \<open>\<^verbatim>\<open>catchUp\<close> to a snapshot: a closed server is not an error.\<close>

definition catchUp ::
  "'d store_env \<Rightarrow> (nat \<Rightarrow> 64 word \<Rightarrow> 64 word \<Rightarrow> Block list res) \<Rightarrow> 'w processor \<Rightarrow> (ClusterConfig \<Rightarrow> go_error option) \<Rightarrow> ('m, 'w) delivery
   \<Rightarrow> raft_snapshot \<Rightarrow> (('m, 'w) delivery \<times> unit res) option" where
  "catchUp env pull process updatePeers s snap =
     (if snapIndex snap \<le> appliedIndex (rep s) then Some (s, Inr ())
      else (case UnmarshalBlock (seCodec env) (content (snapData snap)) of
        Inl e \<Rightarrow> Some (s, Inl (Err (''failed to unmarshal snapshot data to block: '' @ go_error_string e)))
      | Inr snapBlock \<Rightarrow>
          if lastBlockNumber s \<ge> block_number snapBlock then Some (s, Inr ())
          else
            let s1 = s\<lparr>rep := (rep s)\<lparr>confState := snapVoters snap, appliedIndex := snapIndex snap\<rparr>\<rparr> in
            (case catchUpToBlock pull process updatePeers True (block_number snapBlock) 0 (lastBlockNumber s + 1) s1 of
               None \<Rightarrow> None
             | Some (s, Inl (ClosedError _)) \<Rightarrow> Some (s, Inr ())
             | Some r \<Rightarrow> Some r)))"

definition onBoard ::
  "(nat \<Rightarrow> 64 word \<Rightarrow> 64 word \<Rightarrow> Block list res) \<Rightarrow> 'w processor \<Rightarrow> (ClusterConfig \<Rightarrow> go_error option) \<Rightarrow> ('m, 'w) delivery \<Rightarrow> Block
   \<Rightarrow> (('m, 'w) delivery \<times> unit res) option" where
  "onBoard pull process updatePeers s joinBlock =
     (if lastBlockNumber s \<ge> block_number joinBlock then Some (s, Inr ())
      else (case catchUpToBlock pull process updatePeers False (block_number joinBlock) 0 (lastBlockNumber s + 1) s of
        None \<Rightarrow> None
      | Some (s, Inl e) \<Rightarrow> Some (s, Inl e)
      | Some (s, Inr _) \<Rightarrow>
          Some (if lastBlockNumber s > 1
                then s\<lparr>rep := (rep s)\<lparr>appliedIndex := (case lastCommittedBlock (rep s) of
                       None \<Rightarrow> 0
                     | Some b \<Rightarrow> (case BConsensusMetadata b of None \<Rightarrow> 0 | Some m \<Rightarrow> RaftIndex m))\<rparr>\<rparr>
                else s, Inr ())))"

section \<open>Incoming messages\<close>

definition isOnBoarding :: "BlockReplicator \<Rightarrow> bool" where
  "isOnBoarding br \<longleftrightarrow> joinExistingCluster br \<and> \<not> finishedJoin br"

fun anyMember :: "PeerConfig option list \<Rightarrow> 64 word \<Rightarrow> bool res" where
  "anyMember [] i = Inr False"
| "anyMember (None # ms) i = nilPointer"
| "anyMember (Some m # ms) i = (if RaftId m = i then Inr True else anyMember ms i)"

definition isIDRemoved :: "BlockReplicator \<Rightarrow> 64 word \<Rightarrow> bool res" where
  "isIDRemoved br i = (case ConsensusConf (clusterConfig br) of
     None \<Rightarrow> Inr True
   | Some c \<Rightarrow> rbind (anyMember (Members c) i) (\<lambda>b. Inr (\<not> b)))"

text \<open>\<^verbatim>\<open>Process\<close>: \<open>step\<close> is the answer of the Raft node to the message.\<close>

definition Replicator_Process :: "BlockReplicator \<Rightarrow> 64 word \<Rightarrow> unit res \<Rightarrow> unit res" where
  "Replicator_Process br from step =
     (if isOnBoarding br then Inl (Err ''rejected raft message, not ready, on-boarding in progress (503)'')
      else rbind (isIDRemoved br from) (\<lambda>removed.
        if removed then Inl (Err ''rejected raft message from removed peer (403)'') else step))"

section \<open>One turn of the event loop\<close>

record raft_ready =
  rdEntries :: "raft_entry list"
  rdSnapshot :: raft_snapshot
  rdCommitted :: "raft_entry list"
  rdLeader :: "(64 word) option"

text \<open>
  The case \<^verbatim>\<open>rd := <-br.raftNode.Ready()\<close>; the result says whether the loop goes on. Nothing: a catch-up that
  does not end.
\<close>

definition stepLeader ::
  "'d store_env \<Rightarrow> 'm raft_libs \<Rightarrow> (64 word) option \<Rightarrow> ('m, 'w) delivery \<Rightarrow> ('m, 'w) delivery \<times> bool res" where
  "stepLeader env libs leader s =
     (let lastIndex = msLastIndex libs (MemoryStorage (storage s)) in
      case rbind (processLeaderJustElected env lastIndex (rep s)) (\<lambda>br.
           case leader of None \<Rightarrow> Inr br | Some l \<Rightarrow> processLeaderChanges env lastIndex l br) of
        Inl e \<Rightarrow> (s, Inl e)
      | Inr br \<Rightarrow> (s\<lparr>rep := br\<rparr>, Inr True))"

definition handleReady ::
  "'d store_env \<Rightarrow> raft_node \<Rightarrow> 'm raft_libs \<Rightarrow> (nat \<Rightarrow> 64 word \<Rightarrow> 64 word \<Rightarrow> Block list res) \<Rightarrow> 'w processor \<Rightarrow> (ClusterConfig \<Rightarrow> go_error option)
   \<Rightarrow> ('m, 'w) delivery \<Rightarrow> raft_ready \<Rightarrow> (('m, 'w) delivery \<times> bool res) option" where
  "handleReady env node libs pull process updatePeers s rd =
     (case RaftStorage_Store libs (storage s) (rdEntries rd) (rdSnapshot rd) of
        (st, Inl e) \<Rightarrow> Some (s\<lparr>storage := st\<rparr>, Inl (Panic ''Failed to persist etcd/raft data''))
      | (st, Inr _) \<Rightarrow>
          (case (if IsEmptySnap libs (rdSnapshot rd) then Some (s\<lparr>storage := st\<rparr>, Inr ())
                 else catchUp env pull process updatePeers (s\<lparr>storage := st\<rparr>) (rdSnapshot rd)) of
             None \<Rightarrow> None
           | Some (s, Inl e) \<Rightarrow> Some (s, Inl (Panic ''Failed to catch-up to snapshot''))
           | Some (s, Inr _) \<Rightarrow>
               Some (sbind (deliverEntries env node libs process updatePeers s (rdCommitted rd)) (\<lambda>s ok.
                 if \<not> ok then (s, Inr False) else stepLeader env libs (rdLeader rd) s))))"

text \<open>After the loop: nothing is in flight and there is no leader, so that the propose loop stops waiting.\<close>

definition stopReplicating :: "BlockReplicator \<Rightarrow> BlockReplicator" where
  "stopReplicating br =
     br\<lparr>lastKnownLeader := 0, lastKnownLeaderHost := [], numInFlightBlocks := 0, inFlightConfigBlockNumber := 0\<rparr>"

end
