(* ===== verification/Replicator_Start.thy ===== *)
theory Replicator_Start
  imports Replicator_Delivery "HOL-Library.List_Lexorder" "HOL-Library.Char_ord"
begin

text \<open>
  How a replicator starts: the Raft storage from what is on disk (\<^verbatim>\<open>CreateStorage\<close> of
  \<^verbatim>\<open>internal/replication/storage.go\<close>), the state from the ledger and the last snapshot
  (\<^verbatim>\<open>NewBlockReplicator\<close>), the snapshot a node writes when its on-boarding is complete, and the catch-up
  before the first turn of the event loop.
\<close>

section \<open>The Raft storage on disk\<close>

record hard_state =
  hsTerm :: "64 word"
  hsVote :: "64 word"
  hsCommit :: "64 word"

text \<open>The write-ahead log and the snapshot files of the etcd libraries, on a disk \<open>'f\<close>.\<close>

record 'f disk_ops =
  walExist :: "'f \<Rightarrow> bool"
  walCreate :: "'f \<Rightarrow> 'f \<times> unit res"
  walOpen :: "'f \<Rightarrow> 64 word \<times> 64 word \<Rightarrow> 'f \<times> unit res"
  walReadAll :: "'f \<Rightarrow> (hard_state \<times> raft_entry list) res"
  walClose :: "'f \<Rightarrow> 'f \<times> unit res"
  walRepair :: "'f \<Rightarrow> 'f \<times> bool"
  ErrExist :: go_error
  ErrUnexpectedEOF :: go_error
  mkSnapDir :: "'f \<Rightarrow> 'f \<times> unit res"
  snapLoad :: "'f \<Rightarrow> raft_snapshot res"
  ErrNoSnapshot :: go_error
  snapFiles :: "'f \<Rightarrow> string list res"
  snapRead :: "'f \<Rightarrow> string \<Rightarrow> raft_snapshot res"
  renameSnap :: "'f \<Rightarrow> string \<Rightarrow> string \<Rightarrow> 'f \<times> unit res"

text \<open>Open and read the log; a log that ends in the middle of a record is repaired, once.\<close>

function readWAL :: "'f disk_ops \<Rightarrow> 64 word \<times> 64 word \<Rightarrow> bool \<Rightarrow> 'f \<Rightarrow> 'f \<times> (hard_state \<times> raft_entry list) res" where
  "readWAL d walsnap repaired f = (case walOpen d f walsnap of
     (f, Inl e) \<Rightarrow> (f, Inl (Err (''failed to open WAL: '' @ go_error_string e)))
   | (f, Inr _) \<Rightarrow> (case walReadAll d f of
       Inr r \<Rightarrow> (f, Inr r)
     | Inl e \<Rightarrow> (case walClose d f of
         (f, Inl c) \<Rightarrow> (f, Inl (Err (''failed to close erroneous WAL: '' @ go_error_string c)))
       | (f, Inr _) \<Rightarrow>
           if repaired \<or> e \<noteq> ErrUnexpectedEOF d then (f, Inl (Err (''failed to read WAL and cannot repair: '' @ go_error_string e)))
           else (case walRepair d f of
             (f, False) \<Rightarrow> (f, Inl (Err (''failed to repair WAL: '' @ go_error_string e)))
           | (f, True) \<Rightarrow> readWAL d walsnap True f))))"
  by pat_completeness auto
termination
  by (relation "measure (\<lambda>(d, w, repaired, f). if repaired then 0 else 1)") auto

declare readWAL.simps [simp del]

definition createOrReadWAL :: "'f disk_ops \<Rightarrow> raft_snapshot option \<Rightarrow> 'f \<Rightarrow> 'f \<times> (hard_state \<times> raft_entry list) res" where
  "createOrReadWAL d snapshot f =
     sbind (if walExist d f then (f, Inr ())
            else (case walCreate d f of
              (f, Inl e) \<Rightarrow> (f, if e = ErrExist d then Inl (Panic ''programming error, we've just checked that WAL does not exist'')
                               else Inl (Err (''failed to initialize WAL: '' @ go_error_string e)))
            | (f, Inr _) \<Rightarrow> (case walClose d f of
                (f, Inl e) \<Rightarrow> (f, Inl (Err (''failed to close the WAL just created: '' @ go_error_string e)))
              | (f, Inr _) \<Rightarrow> (f, Inr ())))) (\<lambda>f _.
     readWAL d (case snapshot of None \<Rightarrow> (0, 0) | Some s \<Rightarrow> (snapIndex s, snapTerm s)) False f)"

text \<open>The indices of the snapshot files that can be read; the others are renamed, if that is possible.\<close>

fun readSnapshots :: "'f disk_ops \<Rightarrow> 'f \<Rightarrow> string list \<Rightarrow> 'f \<times> 64 word list" where
  "readSnapshots d f [] = (f, [])"
| "readSnapshots d f (x # xs) = (case snapRead d f x of
     Inr s \<Rightarrow> (case readSnapshots d f xs of (f, is) \<Rightarrow> (f, snapIndex s # is))
   | Inl _ \<Rightarrow> readSnapshots d (fst (renameSnap d f x (x @ ''.broken''))) xs)"

definition ListSnapshots :: "'f disk_ops \<Rightarrow> 'f \<Rightarrow> 'f \<times> 64 word list" where
  "ListSnapshots d f = (case snapFiles d f of
     Inl _ \<Rightarrow> (f, [])
   | Inr names \<Rightarrow> readSnapshots d f (sort (filter (\<lambda>n. hasSuffix n ''.snap'') names)))"

definition CreateStorage ::
  "'f disk_ops \<Rightarrow> 'm raft_libs \<Rightarrow> ('m \<Rightarrow> hard_state \<Rightarrow> 'm) \<Rightarrow> 'm \<Rightarrow> 'f \<Rightarrow> 'f \<times> 'm RaftStorage res" where
  "CreateStorage d libs setHardState newMemory f =
     sbind (case mkSnapDir d f of
        (f, Inl e) \<Rightarrow> (f, Inl (Err (''failed to mkdir for snapshot: '' @ go_error_string e)))
      | (f, Inr _) \<Rightarrow> (case snapLoad d f of
          Inr s \<Rightarrow> (f, Inr (Some s))
        | Inl e \<Rightarrow> (f, if e = ErrNoSnapshot d then Inr None else Inl (Err (''failed to load snapshot: '' @ go_error_string e))))) (\<lambda>f snapshot.
     case createOrReadWAL d snapshot f of
       (f, Inl (Panic m)) \<Rightarrow> (f, Inl (Panic m))
     | (f, Inl e) \<Rightarrow> (f, Inl (Err (''failed to create or read WAL: '' @ go_error_string e)))
     | (f, Inr (st, ents)) \<Rightarrow>
         (case (case snapshot of None \<Rightarrow> (newMemory, Inr ()) | Some s \<Rightarrow> msApplySnapshot libs newMemory s) of
            (m, Inl e) \<Rightarrow> (f, Inl (Err (''Failed to apply snapshot to memory: '' @ go_error_string e)))
          | (m, Inr _) \<Rightarrow>
              let m = fst (msAppend libs (setHardState m st) ents) in
              (case ListSnapshots d f of
                 (f, is) \<Rightarrow> (f, Inr \<lparr>SnapshotCatchUpEntries = 0, MemoryStorage = m, snapshotIndex = is\<rparr>))))"

section \<open>A new replicator\<close>

fun memberRaftID :: "string \<Rightarrow> PeerConfig option list \<Rightarrow> (64 word) res" where
  "memberRaftID i [] = Inl (Err (''node ID '' @ i @ '' is not in Consensus members''))"
| "memberRaftID i (None # ms) = nilPointer"
| "memberRaftID i (Some m # ms) = (if NodeId m = i then Inr (RaftId m) else memberRaftID i ms)"

definition MemberRaftID :: "string \<Rightarrow> ClusterConfig \<Rightarrow> (64 word) res" where
  "MemberRaftID i c = (case ConsensusConf c of None \<Rightarrow> nilPointer | Some k \<Rightarrow> memberRaftID i (Members k))"

definition DefaultSnapshotCatchUpEntries :: "64 word" where "DefaultSnapshotCatchUpEntries = 4"

text \<open>What the constructor is given: the configuration, the join block and the ledger.\<close>

record replicator_conf =
  rcIdentity :: string
  rcCluster :: ClusterConfig
  rcJoinBlock :: "Block option"
  rcHeight :: "(64 word) res"
  rcGet :: "64 word \<Rightarrow> Block res"
  rcMarshal :: "Block option \<Rightarrow> bytes res"   \<comment> \<open>\<^verbatim>\<open>proto.Marshal\<close> of a block pointer\<close>
  rcChecksum :: "bytes \<Rightarrow> 64 word"             \<comment> \<open>\<^verbatim>\<open>crc64.Checksum\<close>\<close>

text \<open>How the Raft node starts: again, on a new cluster with its peers, or only after on-boarding.\<close>

datatype raft_start = RestartNode | StartNode "64 word list" bool | AfterOnBoarding

record 'm replicator_start =
  rsRep :: BlockReplicator
  rsStorage :: "'m RaftStorage"
  rsNode :: raft_start

definition snapshotState :: "'d store_env \<Rightarrow> 'm raft_libs \<Rightarrow> 'm RaftStorage \<Rightarrow> (64 word \<times> 64 word list) res" where
  "snapshotState env libs rs =
     (let s = msSnapshot libs (MemoryStorage rs) in
      if IsEmptySnap libs s then Inr (0, [])
      else rbind (wrap ''failed to unmarshal snapshot block'' (UnmarshalBlock (seCodec env) (content (snapData s)))) (\<lambda>b.
           Inr (block_number b, snapVoters s)))"

text \<open>The last block of the ledger: the proposals continue after it, and delivery after the entry it came from.\<close>

definition resumeFrom :: "'d store_env \<Rightarrow> replicator_conf \<Rightarrow> BlockReplicator \<Rightarrow> (64 word \<times> BlockReplicator) res" where
  "resumeFrom env conf br = (case rcHeight conf of
     Inl _ \<Rightarrow> Inl (Panic ''Failed to read block height'')
   | Inr height \<Rightarrow>
       if height = 0 then Inr (height, br)
       else (case rcGet conf height of
         Inl _ \<Rightarrow> Inl (Panic ''Failed to read last block'')
       | Inr b \<Rightarrow> (case ComputeBlockBaseHash env b of
           Inl _ \<Rightarrow> Inl (Panic ''Failed to compute last block base hash'')
         | Inr hs \<Rightarrow>
             let br = br\<lparr>lastCommittedBlock := Some b, lastProposedBlockNumber := block_number b, lastProposedBlockHeaderBaseHash := Some hs\<rparr> in
             Inr (height, if height > 1 then br\<lparr>appliedIndex := (case BConsensusMetadata b of None \<Rightarrow> 0 | Some m \<Rightarrow> RaftIndex m)\<rparr> else br))))"

definition startMode :: "replicator_conf \<Rightarrow> bool \<Rightarrow> BlockReplicator \<Rightarrow> raft_start res" where
  "startMode conf haveWAL br =
     (if haveWAL then Inr RestartNode
      else if joinExistingCluster br then Inr AfterOnBoarding
      else rbind (raftPeers (clusterConfig br)) (\<lambda>startPeers.
        case rcMarshal conf (lastCommittedBlock br) of
          Inl _ \<Rightarrow> Inl (Panic ''Failed to read genesis block'')
        | Inr bs \<Rightarrow>
            if startPeers = [] then Inl (Panic ''integer divide by zero'')
            else Inr (StartNode startPeers (startPeers ! (unat (rcChecksum conf bs) mod length startPeers) = raftID br))))"

definition newReplicator ::
  "'d store_env \<Rightarrow> 'm raft_libs \<Rightarrow> replicator_conf \<Rightarrow> 64 word \<Rightarrow> bool \<Rightarrow> 'm RaftStorage \<Rightarrow> 'm replicator_start res" where
  "newReplicator env libs conf raftId haveWAL rs =
     rbind (snapshotState env libs rs) (\<lambda>(snapBlkNum, voters).
     case ConsensusConf (rcCluster conf) of
       None \<Rightarrow> nilPointer
     | Some consensus \<Rightarrow> (case RaftConf consensus of
         None \<Rightarrow> nilPointer
       | Some raft \<Rightarrow>
           rbind (resumeFrom env conf \<lparr>raftID = raftId, clusterConfig = rcCluster conf, joinExistingCluster = False, finishedJoin = False,
             lastKnownLeader = 0, lastKnownLeaderHost = [], justElectedInFlightBlocks = False, lastProposedBlockNumber = 0,
             lastProposedBlockHeaderBaseHash = None, lastCommittedBlock = None, numInFlightBlocks = 0, inFlightConfigBlockNumber = 0,
             appliedIndex = 0, sizeLimit = SnapshotIntervalSize raft, accDataSize = 0, lastSnapBlockNum = snapBlkNum, confState = voters\<rparr>) (\<lambda>(height, br).
           let br = br\<lparr>joinExistingCluster := rcJoinBlock conf \<noteq> None \<and> height < blockNumberOf (rcJoinBlock conf)\<rparr> in
           rbind (startMode conf haveWAL br) (\<lambda>mode.
           Inr \<lparr>rsRep = br, rsStorage = rs, rsNode = mode\<rparr>))))"

definition NewBlockReplicator ::
  "'d store_env \<Rightarrow> 'f disk_ops \<Rightarrow> 'm raft_libs \<Rightarrow> ('m \<Rightarrow> hard_state \<Rightarrow> 'm) \<Rightarrow> 'm \<Rightarrow> replicator_conf \<Rightarrow> 'f \<Rightarrow> 'f \<times> 'm replicator_start res" where
  "NewBlockReplicator env d libs setHardState newMemory conf f =
     (case MemberRaftID (rcIdentity conf) (rcCluster conf) of
        Inl e \<Rightarrow> (f, Inl e)
      | Inr raftId \<Rightarrow> (case CreateStorage d libs setHardState newMemory f of
          (f, Inl (Panic m)) \<Rightarrow> (f, Inl (Panic m))
        | (f, Inl e) \<Rightarrow> (f, Inl (Err (''failed to restore persisted raft data: '' @ go_error_string e)))
        | (f1, Inr rs) \<Rightarrow> (f1, newReplicator env libs conf raftId (walExist d f) (rs\<lparr>SnapshotCatchUpEntries := DefaultSnapshotCatchUpEntries\<rparr>))))"

section \<open>After on-boarding, and before the event loop\<close>

fun memberIDs :: "PeerConfig option list \<Rightarrow> 64 word list res" where
  "memberIDs [] = Inr []"
| "memberIDs (None # ms) = nilPointer"
| "memberIDs (Some m # ms) = rbind (memberIDs ms) (\<lambda>is. Inr (RaftId m # is))"

text \<open>
  The state after on-boarding is stored as a snapshot of the join block, so that Raft starts there. The
  result says whether replication starts; nothing: the on-boarding does not end.
\<close>

definition joinSnapshot :: "'m raft_libs \<Rightarrow> (Block \<Rightarrow> bytes res) \<Rightarrow> Block \<Rightarrow> ('m, 'w) delivery \<Rightarrow> ('m, 'w) delivery \<times> bool res" where
  "joinSnapshot libs marshal joinBlock s = (case marshal joinBlock of
     Inl _ \<Rightarrow> (s, Inl (Panic ''Failed to marshal join block''))
   | Inr d \<Rightarrow> (case memberIDs (case ConsensusConf (clusterConfig (rep s)) of None \<Rightarrow> [] | Some c \<Rightarrow> Members c) of
       Inl e \<Rightarrow> (s, Inl e)
     | Inr ids \<Rightarrow>
         let voters = sort ids;
             metadata = (case BConsensusMetadata joinBlock of None \<Rightarrow> \<lparr>RaftTerm = 0, RaftIndex = 0\<rparr> | Some m \<Rightarrow> m) in
         (case RaftStorage_Store libs (storage s) []
             \<lparr>snapData = Some d, snapVoters = voters, snapIndex = RaftIndex metadata, snapTerm = RaftTerm metadata\<rparr> of
            (st, Inl e) \<Rightarrow> (s\<lparr>storage := st, rep := (rep s)\<lparr>confState := voters\<rparr>\<rparr>, Inl (Panic ''Failed to store join block as snapshot in raft storage''))
          | (st, Inr _) \<Rightarrow> (s\<lparr>storage := st, rep := (rep s)\<lparr>confState := voters, finishedJoin := True\<rparr>\<rparr>, Inr True))))"

definition startOnBoarding ::
  "'m raft_libs \<Rightarrow> (Block \<Rightarrow> bytes res) \<Rightarrow> (nat \<Rightarrow> 64 word \<Rightarrow> 64 word \<Rightarrow> Block list res) \<Rightarrow> 'w processor \<Rightarrow> (ClusterConfig \<Rightarrow> go_error option)
   \<Rightarrow> Block \<Rightarrow> ('m, 'w) delivery \<Rightarrow> (('m, 'w) delivery \<times> bool res) option" where
  "startOnBoarding libs marshal pull process updatePeers joinBlock s = (case onBoard pull process updatePeers s joinBlock of
     None \<Rightarrow> None
   | Some (s, Inl (ClosedError _)) \<Rightarrow> Some (s, Inr False)
   | Some (s, Inl _) \<Rightarrow> Some (s, Inl (Panic ''Failed to on-board to join-block''))
   | Some (s, Inr _) \<Rightarrow> Some (joinSnapshot libs marshal joinBlock s))"

definition catchUpToLastSnapshot ::
  "'d store_env \<Rightarrow> 'm raft_libs \<Rightarrow> (nat \<Rightarrow> 64 word \<Rightarrow> 64 word \<Rightarrow> Block list res) \<Rightarrow> 'w processor \<Rightarrow> (ClusterConfig \<Rightarrow> go_error option)
   \<Rightarrow> ('m, 'w) delivery \<Rightarrow> (('m, 'w) delivery \<times> unit res) option" where
  "catchUpToLastSnapshot env libs pull process updatePeers s =
     (let lastSnapshot = msSnapshot libs (MemoryStorage (storage s)) in
      if IsEmptySnap libs lastSnapshot then Some (s, Inr ())
      else (case catchUp env pull process updatePeers s lastSnapshot of
        None \<Rightarrow> None
      | Some (s, Inl _) \<Rightarrow> Some (s, Inl (Panic ''Failed to catch-up to last snapshot''))
      | Some (s, Inr _) \<Rightarrow> Some (s, Inr ())))"

text \<open>\<^verbatim>\<open>Close\<close>: the first call stops the loops and forgets the leader, a later one is an error.\<close>

definition Replicator_Close :: "bool \<Rightarrow> BlockReplicator \<Rightarrow> BlockReplicator \<times> unit res" where
  "Replicator_Close closed br =
     (if closed then (br, Inl (ClosedError ''block replicator already closed''))
      else (br\<lparr>lastKnownLeader := 0, lastKnownLeaderHost := []\<rparr>, Inr ()))"

end
