(* ===== verification/Identity_Entries.thy ===== *)
theory Identity_Entries
  imports Identity Cluster_Config
begin

text \<open>
  \<^verbatim>\<open>internal/identity/db_entries.go\<close>: the world state updates and provenance entries for users, cluster
  administrators and nodes. A Go map is iterated in the order of its association list, so the writes for
  new administrators and nodes come in that order.
\<close>

section \<open>Provenance entries\<close>

record KeyWithVersion =
  PKey :: string
  PVersion :: "Version option"

record TxDataForProvenance =
  IsValid :: bool
  PDBName :: string
  PUserID :: string
  PTxID :: string
  PReads :: "KeyWithVersion list"
  PWrites :: "KVWithMetadata list"
  PDeletes :: "(string, Version option) gomap"
  OldVersionOfWrites :: "(string, Version option) gomap"

definition txData :: "string \<Rightarrow> string \<Rightarrow> string \<Rightarrow> TxDataForProvenance" where
  "txData dbName userID txID = \<lparr>IsValid = True, PDBName = dbName, PUserID = userID, PTxID = txID,
     PReads = [], PWrites = [], PDeletes = [], OldVersionOfWrites = []\<rparr>"

definition invalidTx :: "string \<Rightarrow> TxDataForProvenance" where
  "invalidTx txID = \<lparr>IsValid = False, PDBName = [], PUserID = [], PTxID = txID,
     PReads = [], PWrites = [], PDeletes = [], OldVersionOfWrites = []\<rparr>"

text \<open>A write whose old version is recorded when the key exists, and a delete, whose key has to exist.\<close>

definition recordWrite :: "(string \<Rightarrow> Version option res) \<Rightarrow> TxDataForProvenance \<Rightarrow> KVWithMetadata \<Rightarrow> TxDataForProvenance res" where
  "recordWrite version t kv =
     (let t = t\<lparr>PWrites := PWrites t @ [kv]\<rparr> in
      case version (KVKey kv) of
        Inr v \<Rightarrow> Inr (t\<lparr>OldVersionOfWrites := gomap_put (OldVersionOfWrites t) (KVKey kv) v\<rparr>)
      | Inl e \<Rightarrow> if is_notfound e then Inr t else Inl e)"

definition recordDelete :: "(string \<Rightarrow> Version option res) \<Rightarrow> TxDataForProvenance \<Rightarrow> string \<Rightarrow> TxDataForProvenance res" where
  "recordDelete version t k = rbind (version k) (\<lambda>v. Inr (t\<lparr>PDeletes := gomap_put (PDeletes t) k v\<rparr>))"

fun foldRes :: "('a \<Rightarrow> 'b \<Rightarrow> 'a res) \<Rightarrow> 'a \<Rightarrow> 'b list \<Rightarrow> 'a res" where
  "foldRes f a [] = Inr a"
| "foldRes f a (x # xs) = rbind (f a x) (\<lambda>a. foldRes f a xs)"

definition collectRes :: "('a \<Rightarrow> 'b res) \<Rightarrow> 'a list \<Rightarrow> 'b list res" where
  "collectRes f xs = foldRes (\<lambda>ys x. rbind (f x) (\<lambda>y. Inr (ys @ [y]))) [] xs"

section \<open>User administration\<close>

definition versioned :: "Version \<Rightarrow> AccessControl option \<Rightarrow> Metadata option" where
  "versioned version acl = Some \<lparr>MVersion = Some version, MAccessControl = acl\<rparr>"

text \<open>A nil write or user is a nil pointer dereference.\<close>

definition userOf :: "UserWrite option \<Rightarrow> (User \<times> AccessControl option) res" where
  "userOf w = (case w of
     None \<Rightarrow> nilPointer
   | Some w \<Rightarrow> (case UWUser w of None \<Rightarrow> nilPointer | Some u \<Rightarrow> Inr (u, UWAcl w)))"

definition userEntry :: "id_codec \<Rightarrow> Version \<Rightarrow> string \<Rightarrow> UserWrite option \<Rightarrow> KVWithMetadata res" where
  "userEntry ic version prefix w =
     rbind (userOf w) (\<lambda>(u, acl).
     rbind (wrap ''error while marshaling user'' (MarshalUser ic u)) (\<lambda>bs.
     Inr \<lparr>KVKey = prefix @ UId u, KVValue = Some bs, KVMetadata = versioned version acl\<rparr>))"

definition deletedUser :: "string \<Rightarrow> UserDelete option \<Rightarrow> string res" where
  "deletedUser prefix d = (case d of None \<Rightarrow> nilPointer | Some d \<Rightarrow> Inr (prefix @ UDUserId d))"

definition ConstructDBEntriesForUserAdminTx :: "id_codec \<Rightarrow> UserAdministrationTx \<Rightarrow> Version \<Rightarrow> DBUpdates res" where
  "ConstructDBEntriesForUserAdminTx ic tx version =
     rbind (collectRes (userEntry ic version UserNamespace) (UserWrites tx)) (\<lambda>ws.
     rbind (collectRes (deletedUser UserNamespace) (UserDeletes tx)) (\<lambda>ds.
     Inr \<lparr>Writes = ws, Deletes = ds\<rparr>))"

definition ConstructProvenanceEntriesForUserAdminTx ::
  "id_codec \<Rightarrow> UserAdministrationTx \<Rightarrow> Version \<Rightarrow> DB \<Rightarrow> TxDataForProvenance res" where
  "ConstructProvenanceEntriesForUserAdminTx ic tx version db =
     (let t = (txData UsersDBName (UTUserId tx) (UTxId tx))
            \<lparr>PReads := map (\<lambda>r. \<lparr>PKey = URUserId r, PVersion = URVersion r\<rparr>) (UserReads tx)\<rparr> in
      rbind (foldRes (\<lambda>t w. rbind (userEntry ic version [] w) (recordWrite (GetUserVersion db ic) t)) t (UserWrites tx)) (\<lambda>t.
      foldRes (\<lambda>t d. rbind (deletedUser [] d) (recordDelete (GetUserVersion db ic) t)) t (UserDeletes tx)))"

section \<open>Administrators and nodes of the configuration\<close>

fun adminMap :: "(string, AdminEntry) gomap \<Rightarrow> AdminEntry option list \<Rightarrow> (string, AdminEntry) gomap res" where
  "adminMap m [] = Inr m"
| "adminMap m (None # as) = nilPointer"
| "adminMap m (Some a # as) = adminMap (gomap_put m (AId a) a) as"

text \<open>The loop over the old members: what is unchanged needs no write, what is gone is deleted.\<close>

fun compareAdmins ::
  "(string, AdminEntry) gomap \<Rightarrow> AdminEntry option list \<Rightarrow> string list \<Rightarrow> ((string, AdminEntry) gomap \<times> string list) res" where
  "compareAdmins new [] deletes = Inr (new, deletes)"
| "compareAdmins new (None # as) deletes = nilPointer"
| "compareAdmins new (Some a # as) deletes = (case map_of new (AId a) of
     Some n \<Rightarrow> compareAdmins (if admin_eq (Some a) (Some n) then gomap_delete new (AId a) else new) as deletes
   | None \<Rightarrow> compareAdmins new as (deletes @ [UserNamespace @ AId a]))"

definition adminEntry :: "id_codec \<Rightarrow> Version \<Rightarrow> AdminEntry \<Rightarrow> KVWithMetadata res" where
  "adminEntry ic version a =
     (case MarshalUser ic \<lparr>UId = AId a, UCertificate = ACertificate a, UPrivilege = Some \<lparr>DbPermission = [], Admin = True\<rparr>\<rparr> of
        Inl _ \<Rightarrow> Inl (Err ''error marshaling admin user'')
      | Inr bs \<Rightarrow> Inr \<lparr>KVKey = UserNamespace @ AId a, KVValue = Some bs, KVMetadata = versioned version None\<rparr>)"

definition updatesOrNil :: "KVWithMetadata list \<Rightarrow> string list \<Rightarrow> DBUpdates option" where
  "updatesOrNil ws ds = (if ws = [] \<and> ds = [] then None else Some \<lparr>Writes = ws, Deletes = ds\<rparr>)"

definition ConstructDBEntriesForClusterAdmins ::
  "id_codec \<Rightarrow> AdminEntry option list \<Rightarrow> AdminEntry option list \<Rightarrow> Version \<Rightarrow> DBUpdates option res" where
  "ConstructDBEntriesForClusterAdmins ic oldAdmins newAdmins version =
     rbind (adminMap [] newAdmins) (\<lambda>newAdms.
     rbind (compareAdmins newAdms oldAdmins []) (\<lambda>(newAdms, deletes).
     rbind (collectRes (adminEntry ic version) (map snd newAdms)) (\<lambda>ws.
     Inr (updatesOrNil ws deletes))))"

fun nodeMap :: "(string, NodeConfig) gomap \<Rightarrow> NodeConfig option list \<Rightarrow> (string, NodeConfig) gomap res" where
  "nodeMap m [] = Inr m"
| "nodeMap m (None # ns) = nilPointer"
| "nodeMap m (Some n # ns) = nodeMap (gomap_put m (NId n) n) ns"

fun compareNodes ::
  "(string, NodeConfig) gomap \<Rightarrow> NodeConfig option list \<Rightarrow> string list \<Rightarrow> ((string, NodeConfig) gomap \<times> string list) res" where
  "compareNodes new [] deletes = Inr (new, deletes)"
| "compareNodes new (None # ns) deletes = nilPointer"
| "compareNodes new (Some o' # ns) deletes = (case map_of new (NId o') of
     Some n \<Rightarrow> compareNodes (if node_eq (Some o') (Some n) then gomap_delete new (NId o') else new) ns deletes
   | None \<Rightarrow> compareNodes new ns (deletes @ [NodeNamespace @ NId o']))"

definition nodeEntry :: "id_codec \<Rightarrow> Version \<Rightarrow> NodeConfig \<Rightarrow> KVWithMetadata res" where
  "nodeEntry ic version n = rbind (MarshalNodeConfig ic n) (\<lambda>bs.
     Inr \<lparr>KVKey = NodeNamespace @ NId n, KVValue = Some bs, KVMetadata = versioned version None\<rparr>)"

definition ConstructDBEntriesForNodes ::
  "id_codec \<Rightarrow> NodeConfig option list \<Rightarrow> NodeConfig option list \<Rightarrow> Version \<Rightarrow> DBUpdates option res" where
  "ConstructDBEntriesForNodes ic oldNodes newNodes version =
     rbind (nodeMap [] newNodes) (\<lambda>nodes.
     rbind (compareNodes nodes oldNodes []) (\<lambda>(nodes, deletes).
     rbind (collectRes (nodeEntry ic version) (map snd nodes)) (\<lambda>ws.
     Inr (updatesOrNil ws deletes))))"

text \<open>
  \<^verbatim>\<open>strings.Split(ckey, "\0")[1]\<close>: the text between the first and the second zero byte; without any zero byte
  the index is out of range.
\<close>

definition secondPart :: "string \<Rightarrow> string res" where
  "secondPart ckey = (case dropWhile (\<lambda>c. c \<noteq> CHR 0x00) ckey of
     [] \<Rightarrow> Inl (Panic ''index out of range'')
   | _ # rest \<Rightarrow> Inr (takeWhile (\<lambda>c. c \<noteq> CHR 0x00) rest))"

definition memberEntries ::
  "(string \<Rightarrow> Version option res) \<Rightarrow> (string \<Rightarrow> Version option res) \<Rightarrow> TxDataForProvenance \<Rightarrow> DBUpdates option \<Rightarrow> TxDataForProvenance res" where
  "memberEntries version deletedVersion t updates = (case updates of
     None \<Rightarrow> Inr t
   | Some u \<Rightarrow>
       rbind (foldRes (\<lambda>t kv. rbind (secondPart (KVKey kv)) (\<lambda>i. recordWrite version t (kv\<lparr>KVKey := i\<rparr>))) t (Writes u)) (\<lambda>t.
       foldRes (\<lambda>t k. rbind (secondPart k) (recordDelete deletedVersion t)) t (Deletes u)))"

definition ConstructProvenanceEntriesForClusterAdmins ::
  "id_codec \<Rightarrow> string \<Rightarrow> string \<Rightarrow> DBUpdates option \<Rightarrow> DB \<Rightarrow> TxDataForProvenance res" where
  "ConstructProvenanceEntriesForClusterAdmins ic userID txID adminUpdates db =
     memberEntries (GetUserVersion db ic) (GetUserVersion db ic) (txData UsersDBName userID txID) adminUpdates"

text \<open>The error of a failed lookup of a node is wrapped, unless the node is new.\<close>

definition nodeVersion :: "DB \<Rightarrow> id_codec \<Rightarrow> string \<Rightarrow> Version option res" where
  "nodeVersion db ic n = (case GetNodeVersion db ic n of
     Inl e \<Rightarrow> if is_notfound e then Inl e else Inl (wrap_error ''error while fetching a node version'' e)
   | Inr v \<Rightarrow> Inr v)"

definition ConstructProvenanceEntriesForNodes ::
  "id_codec \<Rightarrow> string \<Rightarrow> string \<Rightarrow> DBUpdates option \<Rightarrow> DB \<Rightarrow> TxDataForProvenance res" where
  "ConstructProvenanceEntriesForNodes ic userID txID nodeUpdates db =
     memberEntries (nodeVersion db ic) (\<lambda>n. wrap ''error while fetching a node version'' (GetNodeVersion db ic n)) (txData ConfigDBName userID txID) nodeUpdates"

section \<open>Facts\<close>

lemma secondPart_namespace: "CHR 0x00 \<notin> set i \<Longrightarrow> secondPart (CHR 0x00 # i) = Inr i"
  by (auto simp: secondPart_def takeWhile_eq_all_conv)

lemma foldRes_append: "foldRes f a (xs @ ys) = rbind (foldRes f a xs) (\<lambda>a. foldRes f a ys)"
  by (induction xs arbitrary: a) (auto simp: rbind_assoc)

lemma collectRes_ok:
  assumes "collectRes f xs = Inr ys"
  shows "list_all2 (\<lambda>x y. f x = Inr y) xs ys"
proof -
  have "list_all2 (\<lambda>x y. f x = Inr y) (us @ xs) ys"
    if "foldRes (\<lambda>ys x. rbind (f x) (\<lambda>y. Inr (ys @ [y]))) vs xs = Inr ys" "list_all2 (\<lambda>x y. f x = Inr y) us vs" for us vs
    using that
  proof (induction xs arbitrary: us vs)
    case (Cons x xs)
    then obtain y where "f x = Inr y" "foldRes (\<lambda>ys x. rbind (f x) (\<lambda>y. Inr (ys @ [y]))) (vs @ [y]) xs = Inr ys"
      by (auto simp: rbind_Inr_iff)
    then show ?case
      using Cons.IH[of "vs @ [y]" "us @ [x]"] Cons.prems(2) by (simp add: list_all2_appendI)
  qed simp
  from this[of "[]" "[]"] assms show ?thesis
    by (simp add: collectRes_def)
qed

end
