(* ===== verification/Committer.thy ===== *)
theory Committer
  imports Identity_Entries State_Index MPTrie
begin

text \<open>
  \<^verbatim>\<open>internal/blockprocessor/committer.go\<close>, the pure part: the world state updates and the provenance entries
  of a block, and their application to the state trie. Go maps are association lists; where the code
  iterates a map the order is that of the list. Processing a database administration transaction removes
  entries from the transaction itself, so the block is part of the result.
\<close>

section \<open>Data transactions\<close>

definition updatesOf :: "(string, DBUpdates) gomap \<Rightarrow> string \<Rightarrow> DBUpdates" where
  "updatesOf m db = (case map_of m db of None \<Rightarrow> \<lparr>Writes = [], Deletes = []\<rparr> | Some u \<Rightarrow> u)"

definition dataWriteEntry :: "Version \<Rightarrow> DataWrite option \<Rightarrow> KVWithMetadata res" where
  "dataWriteEntry version w = (case w of
     None \<Rightarrow> nilPointer
   | Some w \<Rightarrow> Inr \<lparr>KVKey = WKey w, KVValue = WValue w, KVMetadata = versioned version (WAcl w)\<rparr>)"

definition dataDeleteKey :: "DataDelete option \<Rightarrow> string res" where
  "dataDeleteKey d = (case d of None \<Rightarrow> nilPointer | Some d \<Rightarrow> Inr (DKey d))"

definition addOperation :: "Version \<Rightarrow> (string, DBUpdates) gomap \<Rightarrow> DBOperation \<Rightarrow> (string, DBUpdates) gomap res" where
  "addOperation version m ops =
     rbind (collectRes (dataWriteEntry version) (DataWrites ops)) (\<lambda>ws.
     rbind (collectRes dataDeleteKey (DataDeletes ops)) (\<lambda>ds.
     let u = updatesOf m (DbName ops) in
     Inr (gomap_put m (DbName ops) \<lparr>Writes = Writes u @ ws, Deletes = Deletes u @ ds\<rparr>)))"

definition AddDBEntriesForDataTx :: "DataTx \<Rightarrow> Version \<Rightarrow> (string, DBUpdates) gomap \<Rightarrow> (string, DBUpdates) gomap res" where
  "AddDBEntriesForDataTx tx version m = foldRes (addOperation version) m (DbOperations tx)"

text \<open>The old version of a written key is recorded when it has one.\<close>

definition recordDataWrite :: "DB \<Rightarrow> string \<Rightarrow> Version \<Rightarrow> TxDataForProvenance \<Rightarrow> DataWrite option \<Rightarrow> TxDataForProvenance res" where
  "recordDataWrite db dbName version t w =
     rbind (dataWriteEntry version w) (\<lambda>kv.
     rbind (GetVersion db dbName (KVKey kv)) (\<lambda>v.
     let t = t\<lparr>PWrites := PWrites t @ [kv]\<rparr> in
     Inr (if v = None then t else t\<lparr>OldVersionOfWrites := gomap_put (OldVersionOfWrites t) (KVKey kv) v\<rparr>)))"

definition provenanceOfOperation :: "DB \<Rightarrow> DataTx \<Rightarrow> Version \<Rightarrow> DBOperation \<Rightarrow> TxDataForProvenance res" where
  "provenanceOfOperation db tx version ops =
     (case MustSignUserIds tx of
        [] \<Rightarrow> Inl (Panic ''index out of range'')
      | userID # _ \<Rightarrow>
          let t = (txData (DbName ops) userID (DTxId tx))
                \<lparr>PReads := map (\<lambda>r. \<lparr>PKey = RKey r, PVersion = RVersion r\<rparr>) (DataReads ops)\<rparr> in
          rbind (foldRes (recordDataWrite db (DbName ops) version) t (DataWrites ops)) (\<lambda>t.
          foldRes (\<lambda>t d. rbind (dataDeleteKey d) (recordDelete (GetVersion db (DbName ops)) t)) t (DataDeletes ops)))"

definition constructProvenanceEntriesForDataTx :: "DB \<Rightarrow> DataTx \<Rightarrow> Version \<Rightarrow> TxDataForProvenance list res" where
  "constructProvenanceEntriesForDataTx db tx version = collectRes (provenanceOfOperation db tx version) (DbOperations tx)"

section \<open>Database administration\<close>

definition dbEntry :: "string \<Rightarrow> slice \<Rightarrow> Version \<Rightarrow> KVWithMetadata" where
  "dbEntry dbName val version = \<lparr>KVKey = dbName, KVValue = val, KVMetadata = versioned version None\<rparr>"

text \<open>The attributes of an index; a nil map and an empty one are the same once a block was serialised.\<close>

definition attributesOf :: "DBIndex option \<Rightarrow> (string, int) gomap" where
  "attributesOf i = (case i of None \<Rightarrow> [] | Some x \<Rightarrow> AttributeAndType x)"

definition indexValue :: "((string, int) gomap \<Rightarrow> bytes res) \<Rightarrow> string \<Rightarrow> DBIndex option \<Rightarrow> slice res" where
  "indexValue marshal dbName i =
     rbind (wrap (''error while marshaling index for database ['' @ dbName @ '']'') (marshal (attributesOf i))) (\<lambda>bs. Inr (Some bs))"

text \<open>The index definitions of new databases are removed from the map, which is that of the transaction.\<close>

fun createEntriesForNewDBs ::
  "((string, int) gomap \<Rightarrow> bytes res) \<Rightarrow> string list \<Rightarrow> (string, DBIndex option) gomap \<Rightarrow> Version
   \<Rightarrow> (KVWithMetadata list \<times> (string, DBIndex option) gomap) res" where
  "createEntriesForNewDBs marshal [] dbsIndex version = Inr ([], dbsIndex)"
| "createEntriesForNewDBs marshal (dbName # dbs) dbsIndex version =
     (case map_of dbsIndex dbName of
        None \<Rightarrow> rbind (createEntriesForNewDBs marshal dbs dbsIndex version) (\<lambda>(kvs, rest).
          Inr (dbEntry dbName None version # kvs, rest))
      | Some dbIndex \<Rightarrow>
          rbind (indexValue marshal dbName dbIndex) (\<lambda>val.
          rbind (createEntriesForNewDBs marshal dbs (gomap_delete dbsIndex dbName) version) (\<lambda>(kvs, rest).
          Inr (dbEntry dbName val version # dbEntry (IndexDB dbName) None version # kvs, rest))))"

fun createEntriesForIndexUpdates ::
  "((string, int) gomap \<Rightarrow> bytes res) \<Rightarrow> (string, DBIndex option) gomap \<Rightarrow> DB \<Rightarrow> Version \<Rightarrow> (KVWithMetadata list \<times> string list) res" where
  "createEntriesForIndexUpdates marshal [] db version = Inr ([], [])"
| "createEntriesForIndexUpdates marshal ((dbName, dbIndex) # rest) db version =
     (let indexExist = Exist db (IndexDB dbName);
          deleteExistingIndex = attributesOf dbIndex = [] in
      if \<not> indexExist \<and> deleteExistingIndex then createEntriesForIndexUpdates marshal rest db version
      else if deleteExistingIndex then
        rbind (createEntriesForIndexUpdates marshal rest db version) (\<lambda>(kvs, dels).
        Inr (dbEntry dbName None version # kvs, IndexDB dbName # dels))
      else
        rbind (indexValue marshal dbName dbIndex) (\<lambda>val.
        rbind (createEntriesForIndexUpdates marshal rest db version) (\<lambda>(kvs, dels).
        Inr ((if indexExist then [] else [dbEntry (IndexDB dbName) None version]) @ dbEntry dbName val version # kvs, dels))))"

definition constructDBEntriesForDBAdminTx ::
  "((string, int) gomap \<Rightarrow> bytes res) \<Rightarrow> DBAdministrationTx \<Rightarrow> Version \<Rightarrow> DB \<Rightarrow> (DBUpdates \<times> DBAdministrationTx) res" where
  "constructDBEntriesForDBAdminTx marshal tx version db =
     rbind (createEntriesForNewDBs marshal (CreateDbs tx) (DbsIndex tx) version) (\<lambda>(toCreateDBs, rest).
     rbind (createEntriesForIndexUpdates marshal rest db version) (\<lambda>(indexForExistingDBs, toDeleteIndexDBs).
     Inr (\<lparr>Writes = toCreateDBs @ indexForExistingDBs, Deletes = DeleteDbs tx @ toDeleteIndexDBs\<rparr>, tx\<lparr>DbsIndex := rest\<rparr>)))"

section \<open>Configuration\<close>

record dbEntriesForConfigTx =
  adminUpdates :: "DBUpdates option"
  nodeUpdates :: "DBUpdates option"
  configUpdates :: DBUpdates

definition maxRaftID :: "64 word \<Rightarrow> PeerConfig option list \<Rightarrow> 64 word" where
  "maxRaftID old members = fold (\<lambda>m mx. max mx (case m of None \<Rightarrow> 0 | Some p \<Rightarrow> RaftId p)) members old"

definition oldMaxRaftID :: "ClusterConfig \<Rightarrow> 64 word" where
  "oldMaxRaftID c = (case ConsensusConf c of
     None \<Rightarrow> 0
   | Some cc \<Rightarrow> (case RaftConf cc of None \<Rightarrow> 0 | Some r \<Rightarrow> MaxRaftId r))"

text \<open>The new configuration with the largest Raft ID ever used; a missing consensus or Raft part panics.\<close>

definition withMaxRaftID :: "ClusterConfig \<Rightarrow> ClusterConfig \<Rightarrow> ClusterConfig res" where
  "withMaxRaftID old new = (case ConsensusConf new of
     None \<Rightarrow> nilPointer
   | Some cc \<Rightarrow> (case RaftConf cc of
       None \<Rightarrow> nilPointer
     | Some r \<Rightarrow> Inr (new\<lparr>ConsensusConf := Some (cc\<lparr>RaftConf := Some (r\<lparr>MaxRaftId := maxRaftID (oldMaxRaftID old) (Members cc)\<rparr>)\<rparr>)\<rparr>)))"

definition constructDBEntriesForConfigTx ::
  "id_codec \<Rightarrow> (ClusterConfig \<Rightarrow> bytes res) \<Rightarrow> ConfigTx \<Rightarrow> ClusterConfig \<Rightarrow> Version \<Rightarrow> dbEntriesForConfigTx res" where
  "constructDBEntriesForConfigTx ic marshalConfig tx oldConfig version = (case NewConfig tx of
     None \<Rightarrow> nilPointer
   | Some new \<Rightarrow>
       rbind (ConstructDBEntriesForClusterAdmins ic (Admins oldConfig) (Admins new) version) (\<lambda>au.
       rbind (ConstructDBEntriesForNodes ic (Nodes oldConfig) (Nodes new) version) (\<lambda>nu.
       rbind (withMaxRaftID oldConfig new) (\<lambda>clone.
       rbind (wrap ''error while marshaling new configuration'' (marshalConfig clone)) (\<lambda>bs.
       Inr \<lparr>adminUpdates = au, nodeUpdates = nu,
            configUpdates = \<lparr>Writes = [\<lparr>KVKey = ConfigKey, KVValue = Some bs, KVMetadata = versioned version None\<rparr>], Deletes = []\<rparr>\<rparr>)))))"

definition constructProvenanceEntriesForConfigTx ::
  "id_codec \<Rightarrow> (ClusterConfig \<Rightarrow> bytes res) \<Rightarrow> ConfigTx \<Rightarrow> Version \<Rightarrow> dbEntriesForConfigTx \<Rightarrow> DB \<Rightarrow> TxDataForProvenance list res" where
  "constructProvenanceEntriesForConfigTx ic marshalConfig tx version updates db = (case NewConfig tx of
     None \<Rightarrow> nilPointer
   | Some new \<Rightarrow>
       rbind (wrap ''error while marshaling new cluster configuration'' (marshalConfig new)) (\<lambda>bs.
       let cfg = (txData ConfigDBName (CUserId tx) (CTxId tx))
             \<lparr>PWrites := [\<lparr>KVKey = ConfigKey, KVValue = Some bs, KVMetadata = versioned version None\<rparr>],
              OldVersionOfWrites := (case ReadOldConfigVersion tx of None \<Rightarrow> [] | Some v \<Rightarrow> [(ConfigKey, Some v)])\<rparr> in
       rbind (wrap ''error while constructing provenance entries for cluster admins''
                (ConstructProvenanceEntriesForClusterAdmins ic (CUserId tx) (CTxId tx) (adminUpdates updates) db)) (\<lambda>admins.
       rbind (wrap ''error while constructing provenance entries for nodes''
                (ConstructProvenanceEntriesForNodes ic (CUserId tx) (CTxId tx) (nodeUpdates updates) db)) (\<lambda>nodes.
       Inr [cfg, admins, nodes]))))"

section \<open>All entries of a block\<close>

record entry_env =
  eeIds :: id_codec
  eeMarshalConfig :: "ClusterConfig \<Rightarrow> bytes res"
  eeMarshalIndex :: "(string, int) gomap \<Rightarrow> bytes res"
  eeProvenance :: bool                    \<comment> \<open>whether there is a provenance store\<close>

type_synonym db_entries = "(string, DBUpdates) gomap \<times> TxDataForProvenance list"

definition versionAt :: "Block \<Rightarrow> nat \<Rightarrow> Version" where
  "versionAt block txNum = \<lparr>BlockNum = block_number block, TxNum = of_nat txNum\<rparr>"

fun dataEntries ::
  "entry_env \<Rightarrow> DB \<Rightarrow> Block \<Rightarrow> DataTxEnvelope list \<Rightarrow> nat \<Rightarrow> ValidationInfo list \<Rightarrow> db_entries \<Rightarrow> db_entries res" where
  "dataEntries env db block txs txNum [] acc = Inr acc"
| "dataEntries env db block txs txNum (v # vs) (m, prov) =
     (if txNum \<ge> length txs then Inl (Panic ''index out of range'')
      else
        let tx = DPayload (txs ! txNum) in
        if VFlag v \<noteq> VALID then
          dataEntries env db block txs (Suc txNum) vs (m, prov @ (if eeProvenance env then [invalidTx (DTxId tx)] else []))
        else
          rbind (if eeProvenance env then constructProvenanceEntriesForDataTx db tx (versionAt block txNum) else Inr []) (\<lambda>pData.
          rbind (AddDBEntriesForDataTx tx (versionAt block txNum) m) (\<lambda>m.
          dataEntries env db block txs (Suc txNum) vs (m, prov @ pData))))"

definition userAdminEntries :: "entry_env \<Rightarrow> DB \<Rightarrow> Block \<Rightarrow> UserAdministrationTx \<Rightarrow> ValidationInfo \<Rightarrow> db_entries res" where
  "userAdminEntries env db block tx v =
     (if VFlag v \<noteq> VALID then Inr ([], if eeProvenance env then [invalidTx (UTxId tx)] else [])
      else
        rbind (wrap ''error while creating entries for the user admin transaction''
                 (ConstructDBEntriesForUserAdminTx (eeIds env) tx (versionAt block 0))) (\<lambda>u.
        rbind (if eeProvenance env
               then rbind (wrap ''error while creating provenance entries for the user admin transaction''
                      (ConstructProvenanceEntriesForUserAdminTx (eeIds env) tx (versionAt block 0) db)) (\<lambda>p. Inr [p])
               else Inr []) (\<lambda>prov.
        Inr ([(UsersDBName, u)], prov))))"

definition configEntries :: "entry_env \<Rightarrow> DB \<Rightarrow> Block \<Rightarrow> ConfigTx \<Rightarrow> ValidationInfo \<Rightarrow> db_entries res" where
  "configEntries env db block tx v =
     (if VFlag v \<noteq> VALID then Inr ([], [invalidTx (CTxId tx)])
      else
        rbind (wrap ''error while fetching committed configuration'' (GetConfig db)) (\<lambda>(committed, _).
        rbind (wrap ''error while constructing entries for the config transaction''
                 (constructDBEntriesForConfigTx (eeIds env) (eeMarshalConfig env) tx committed (versionAt block 0))) (\<lambda>es.
        let cfg = (case nodeUpdates es of
                     None \<Rightarrow> configUpdates es
                   | Some n \<Rightarrow> \<lparr>Writes = Writes (configUpdates es) @ Writes n, Deletes = Deletes (configUpdates es) @ Deletes n\<rparr>);
            m = (case adminUpdates es of None \<Rightarrow> [(ConfigDBName, cfg)] | Some a \<Rightarrow> [(ConfigDBName, cfg), (UsersDBName, a)]) in
        rbind (if eeProvenance env
               then wrap ''error while creating provenance entries for the config transaction''
                      (constructProvenanceEntriesForConfigTx (eeIds env) (eeMarshalConfig env) tx (versionAt block 0) es db)
               else Inr []) (\<lambda>prov.
        Inr (m, prov)))))"

definition firstInfo :: "Block \<Rightarrow> ValidationInfo res" where
  "firstInfo block = (case HValidationInfo (Header block) of [] \<Rightarrow> Inl (Panic ''index out of range'') | v # _ \<Rightarrow> Inr v)"

definition constructDBAndProvenanceEntries :: "entry_env \<Rightarrow> DB \<Rightarrow> Block \<Rightarrow> (db_entries \<times> Block) res" where
  "constructDBAndProvenanceEntries env db block = (case BPayload block of
     Some (Block_DataTxEnvelopes txs) \<Rightarrow>
       rbind (dataEntries env db block txs 0 (HValidationInfo (Header block)) ([], [])) (\<lambda>r. Inr (r, block))
   | Some (Block_UserAdministrationTxEnvelope e) \<Rightarrow>
       rbind (firstInfo block) (\<lambda>v. rbind (userAdminEntries env db block (UPayload e) v) (\<lambda>r. Inr (r, block)))
   | Some (Block_DbAdministrationTxEnvelope e) \<Rightarrow>
       rbind (firstInfo block) (\<lambda>v.
       if VFlag v \<noteq> VALID then Inr (([], []), block)
       else rbind (wrap ''error while creating entries for db admin transaction''
                     (constructDBEntriesForDBAdminTx (eeMarshalIndex env) (DAPayload e) (versionAt block 0) db)) (\<lambda>(u, tx).
            Inr (([(DatabasesDBName, u)], []), block\<lparr>BPayload := Some (Block_DbAdministrationTxEnvelope (e\<lparr>DAPayload := tx\<rparr>))\<rparr>)))
   | Some (Block_ConfigTxEnvelope e) \<Rightarrow>
       rbind (firstInfo block) (\<lambda>v. rbind (configEntries env db block (CPayload e) v) (\<lambda>r. Inr (r, block)))
   | None \<Rightarrow> Inr (([], []), block))"

section \<open>The state trie\<close>

definition trieWrite :: "'s StoreOps \<Rightarrow> digest \<Rightarrow> string \<Rightarrow> 's MPTrie \<Rightarrow> KVWithMetadata \<Rightarrow> 's MPTrie \<times> unit res" where
  "trieWrite ops h dbName t kv = MPTrie_Update ops h t (content (ConstructCompositeKey h dbName (KVKey kv))) (KVValue kv)"

definition trieDelete :: "'s StoreOps \<Rightarrow> digest \<Rightarrow> string \<Rightarrow> 's MPTrie \<Rightarrow> string \<Rightarrow> 's MPTrie \<times> unit res" where
  "trieDelete ops h dbName t k =
     sbind (MPTrie_Delete ops h t (content (ConstructCompositeKey h dbName k))) (\<lambda>t _. (t, Inr ()))"

definition ApplyBlockOnStateTrie ::
  "'s StoreOps \<Rightarrow> digest \<Rightarrow> 's MPTrie \<Rightarrow> (string, DBUpdates) gomap \<Rightarrow> 's MPTrie \<times> unit res" where
  "ApplyBlockOnStateTrie ops h t updates =
     forEach (\<lambda>t (dbName, u).
       sbind (forEach (trieWrite ops h dbName) t (Writes u)) (\<lambda>t _.
       forEach (trieDelete ops h dbName) t (Deletes u))) t updates"

end
