(* ===== verification/Replicator_Log.thy ===== *)
theory Replicator_Log
  imports Replicator_Delivery
begin

text \<open>
  The ledger behind the barrier follows the Raft log: whatever the Raft node delivers, and however often it
  delivers it again, the blocks handed to the block processor are those of the log, in its order, each once.
\<close>

section \<open>The contract of the block processor\<close>

text \<open>
  \<open>ledger\<close> is the sequence of what the processor has committed, each block by a \<open>key\<close> that completing its
  header does not change. A reply means the block was committed; after an error it may or may not have been.
\<close>

locale block_processor =
  fixes process :: "'w processor" and ledger :: "'w \<Rightarrow> 'k list" and key :: "Block \<Rightarrow> 'k"
  assumes process_reply: "process w b = (w', Inr (b', c)) \<Longrightarrow> ledger w' = ledger w @ [key b] \<and> key b' = key b"
    and process_error: "process w b = (w', Inl e) \<Longrightarrow> ledger w' = ledger w \<or> ledger w' = ledger w @ [key b]"

text \<open>The block an entry of the log carries.\<close>

definition decodedBlock :: "'d store_env \<Rightarrow> raft_entry \<Rightarrow> bytes \<Rightarrow> Block list" where
  "decodedBlock env e bs = (case UnmarshalBlock (seCodec env) bs of Inl _ \<Rightarrow> [] | Inr b \<Rightarrow> [withMetadata b e])"

definition entryBlock :: "'d store_env \<Rightarrow> raft_node \<Rightarrow> raft_entry \<Rightarrow> Block list" where
  "entryBlock env node e = (case eType e of
     EntryNormal \<Rightarrow> if slen (eData e) = 0 then [] else decodedBlock env e (content (eData e))
   | EntryConfChange \<Rightarrow> []
   | EntryConfChangeV2 \<Rightarrow> (case unmarshalCCV2 node (content (eData e)) of
       Inl _ \<Rightarrow> []
     | Inr cc \<Rightarrow> (case ccContext cc of None \<Rightarrow> [] | Some ctx \<Rightarrow> decodedBlock env e ctx)))"

definition newBlock :: "'d store_env \<Rightarrow> raft_node \<Rightarrow> 64 word \<Rightarrow> raft_entry \<Rightarrow> Block list" where
  "newBlock env node a e = (if eIndex e > a then entryBlock env node e else [])"

lemma setLastCommittedBlock_frame:
  assumes "setLastCommittedBlock br b = Inr br'"
  shows "appliedIndex br' = appliedIndex br" "lastCommittedBlock br' = Some b"
  using assms by (auto simp: setLastCommittedBlock_def Let_def split: if_splits)

lemma updateClusterConfig_frame:
  assumes "updateClusterConfig u br c = Inr br'"
  shows "br' = br\<lparr>clusterConfig := c\<rparr>"
  using assms by (auto simp: updateClusterConfig_def rbind_Inr_iff nilPointer_def split: option.splits prod.splits)

lemma commitBlock_applied:
  assumes "commitBlock process u upd s b = (s', r)"
  shows "appliedIndex (rep s') = appliedIndex (rep s)"
  using assms
  by (auto simp: commitBlock_def Let_def dest!: setLastCommittedBlock_frame(1) updateClusterConfig_frame
      split: prod.splits sum.splits option.splits if_splits)

lemma commitEntry_cases:
  assumes "commitEntry env process u s e bs = (s', r)"
  obtains (undecodable) m where "decodedBlock env e bs = []" "s' = s" "r = Inl (Panic m)"
  | (committed) b r' where "decodedBlock env e bs = [b]" "commitBlock process u True s b = (s', r')"
      "r \<noteq> Inr Skipped" "r = Inr Applied \<longleftrightarrow> r' = Inr ()"
proof (cases "UnmarshalBlock (seCodec env) bs")
  case (Inl x)
  then show ?thesis
    using assms undecodable by (auto simp: commitEntry_def decodedBlock_def)
next
  case (Inr b)
  obtain s1 r' where c: "commitBlock process u True s (withMetadata b e) = (s1, r')"
    by fastforce
  have "s1 = s'" "r \<noteq> Inr Skipped" "r = Inr Applied \<longleftrightarrow> r' = Inr ()"
    using assms Inr c by (auto simp: commitEntry_def split: sum.splits go_error.splits)
  then show ?thesis
    using committed[of "withMetadata b e" r'] c Inr by (simp add: decodedBlock_def)
qed

text \<open>What handling an entry adds to the ledger: all of \<open>bs\<close> when it was applied, nothing or all of it otherwise.\<close>

definition adds :: "('w \<Rightarrow> 'k list) \<Rightarrow> ('m, 'w) delivery \<Rightarrow> ('m, 'w) delivery \<Rightarrow> outcome res \<Rightarrow> 'k list \<Rightarrow> bool" where
  "adds ledger s s' r bs \<longleftrightarrow> appliedIndex (rep s') = appliedIndex (rep s)
     \<and> (ledger (world s') = ledger (world s) \<or> ledger (world s') = ledger (world s) @ bs)
     \<and> (r = Inr Applied \<or> r = Inr Skipped \<longrightarrow> ledger (world s') = ledger (world s) @ bs)"

text \<open>Membership changes in the log can be decoded; the others are never skipped.\<close>

definition decodable :: "raft_node \<Rightarrow> raft_entry \<Rightarrow> bool" where
  "decodable node e = (case eType e of
     EntryNormal \<Rightarrow> True
   | EntryConfChange \<Rightarrow> \<not> isl (unmarshalCC node (content (eData e)))
   | EntryConfChangeV2 \<Rightarrow> \<not> isl (unmarshalCCV2 node (content (eData e))))"

lemma commitEntry_not_skipped: "commitEntry env process u s e bs = (s', r) \<Longrightarrow> r \<noteq> Inr Skipped"
  by (auto simp: commitEntry_def split: sum.splits prod.splits go_error.splits)

lemma not_skipped:
  assumes "decodable node e" "applyEntry env node process u s e = (s', r)"
  shows "r \<noteq> Inr Skipped"
proof (cases "eType e")
  case EntryNormal
  then show ?thesis
    using assms by (auto simp: applyEntry_def applyNormal_def Let_def dest: commitEntry_not_skipped split: if_splits)
next
  case EntryConfChange
  then show ?thesis
    using assms by (auto simp: applyEntry_def applyConfChange_def decodable_def Let_def split: sum.splits if_splits)
next
  case EntryConfChangeV2
  then obtain cc where cc: "unmarshalCCV2 node (content (eData e)) = Inr cc"
    using assms(1) by (cases "unmarshalCCV2 node (content (eData e))") (auto simp: decodable_def)
  show ?thesis
    using assms(2) EntryConfChangeV2 cc by (auto simp: applyEntry_def applyConfChangeV2_def Let_def sbind_def split: prod.splits sum.splits if_splits)
qed

context block_processor
begin

lemma commitBlock_ledger:
  assumes "commitBlock process u upd s b = (s', r)"
  shows "r = Inr () \<Longrightarrow> ledger (world s') = ledger (world s) @ [key b]"
    "ledger (world s') = ledger (world s) \<or> ledger (world s') = ledger (world s) @ [key b]"
proof -
  obtain w c where p: "process (world s) b = (w, c)"
    by fastforce
  have w: "world s' = w"
    using assms p by (auto simp: commitBlock_def Let_def split: sum.splits option.splits if_splits)
  show "ledger (world s') = ledger (world s) \<or> ledger (world s') = ledger (world s) @ [key b]"
    using p w process_reply process_error by (cases c) (blast, metis prod.exhaust)
  show "ledger (world s') = ledger (world s) @ [key b]" if "r = Inr ()"
    using p w that assms process_reply by (cases c) (auto simp: commitBlock_def)
qed

lemma commitEntry_adds:
  assumes "commitEntry env process u s e bs = (s', r)"
  shows "adds ledger s s' r (map key (decodedBlock env e bs))" "r \<noteq> Inr Skipped"
  using assms
proof (atomize (full), cases rule: commitEntry_cases)
  case (committed b r')
  then show "adds ledger s s' r (map key (decodedBlock env e bs)) \<and> r \<noteq> Inr Skipped"
    using commitBlock_applied[OF committed(2)] commitBlock_ledger[OF committed(2)] by (auto simp: adds_def)
qed (simp add: adds_def)

lemma applyNormal_adds:
  assumes "applyNormal env process u s e = (s', r)" "eType e = EntryNormal"
  shows "adds ledger s s' r (map key (newBlock env node (appliedIndex (rep s)) e))"
proof (cases "slen (eData e) = 0 \<or> eIndex e \<le> appliedIndex (rep s)")
  case True
  then show ?thesis
    using assms by (auto simp: applyNormal_def newBlock_def entryBlock_def adds_def Let_def split: if_splits)
next
  case False
  let ?s = "s\<lparr>rep := (rep s)\<lparr>accDataSize := accDataSize (rep s) + of_nat (slen (eData e))\<rparr>\<rparr>"
  have "commitEntry env process u ?s e (content (eData e)) = (s', r)"
    using assms(1) False by (simp add: applyNormal_def Let_def)
  from commitEntry_adds(1)[OF this] show ?thesis
    using False assms(2) by (auto simp: adds_def newBlock_def entryBlock_def not_le)
qed

lemma applyConfChangeV2_adds:
  assumes "applyConfChangeV2 env node process u s e = (s', r)" "eType e = EntryConfChangeV2"
  shows "adds ledger s s' r (map key (newBlock env node (appliedIndex (rep s)) e))"
proof (cases "unmarshalCCV2 node (content (eData e))")
  case (Inl x)
  then show ?thesis
    using assms by (auto simp: applyConfChangeV2_def newBlock_def entryBlock_def adds_def)
next
  case (Inr cc)
  let ?c = "if eIndex e \<le> appliedIndex (rep s) then (s, Inr Applied)
     else (case ccContext cc of None \<Rightarrow> (s, Inr Applied) | Some ctx \<Rightarrow> commitEntry env process u s e ctx)"
  obtain s1 r1 where c: "?c = (s1, r1)"
    by fastforce
  have a: "adds ledger s s1 r1 (map key (newBlock env node (appliedIndex (rep s)) e))" "r1 \<noteq> Inr Skipped"
    using c Inr assms(2) commitEntry_adds[of env u s e _ s1 r1]
    by (auto simp: newBlock_def entryBlock_def adds_def split: if_splits option.splits)
  show ?thesis
  proof (cases r1)
    case (Inl x)
    then show ?thesis
      using assms(1) a Inr c by (auto simp: applyConfChangeV2_def Let_def adds_def)
  next
    case (Inr oc)
    then show ?thesis
      using assms(1) a \<open>unmarshalCCV2 node (content (eData e)) = Inr cc\<close> c
      by (cases oc) (auto simp: applyConfChangeV2_def Let_def adds_def split: if_splits)
  qed
qed

lemma applyEntry_adds:
  assumes "applyEntry env node process u s e = (s', r)"
  shows "adds ledger s s' r (map key (newBlock env node (appliedIndex (rep s)) e))"
proof (cases "eType e")
  case EntryConfChange
  then show ?thesis
    using assms
    by (auto simp: applyEntry_def applyConfChange_def newBlock_def entryBlock_def adds_def Let_def split: sum.splits if_splits)
qed (use assms applyNormal_adds applyConfChangeV2_adds in \<open>auto simp: applyEntry_def\<close>)

text \<open>
  The loop: the ledger grows by the blocks of a prefix of the entries, of all of them when the loop runs
  through; the applied index is then at least that of every entry, unless an entry was skipped.
\<close>

lemma deliverLoop_adds:
  assumes "deliverLoop env node process u i p s es = (s', r)" "sorted_wrt (<) (map eIndex es)" "\<forall>e \<in> set es. decodable node e"
  shows "\<exists>k \<le> length es. ledger (world s') = ledger (world s) @ map key (concat (map (newBlock env node (appliedIndex (rep s))) (take k es)))
    \<and> (\<forall>q. r = Inr (q, True) \<longrightarrow> k = length es \<and> appliedIndex (rep s') = Max (insert (appliedIndex (rep s)) (eIndex ` set es)))"
  using assms
proof (induction es arbitrary: i p s)
  case Nil
  then show ?case
    by simp
next
  case (Cons e es)
  let ?a = "appliedIndex (rep s)"
  obtain s1 r1 where e: "applyEntry env node process u s e = (s1, r1)"
    by fastforce
  have a: "adds ledger s s1 r1 (map key (newBlock env node ?a e))"
    by (rule applyEntry_adds[OF e])
  show ?case
  proof (cases "r1 = Inr Applied")
    case True
    let ?s = "if appliedIndex (rep s1) < eIndex e then s1\<lparr>rep := (rep s1)\<lparr>appliedIndex := eIndex e\<rparr>\<rparr> else s1"
    let ?p = "if eType e = EntryNormal \<and> slen (eData e) \<noteq> 0 then i else p"
    have s: "ledger (world ?s) = ledger (world s) @ map key (newBlock env node ?a e)" "appliedIndex (rep ?s) = max ?a (eIndex e)"
      using a True by (auto simp: adds_def max_def)
    have run: "deliverLoop env node process u (Suc i) ?p ?s es = (s', r)"
      using Cons.prems(1) e True by (simp add: Let_def)
    have same: "newBlock env node (max ?a (eIndex e)) x = newBlock env node ?a x" if "x \<in> set es" for x
      using Cons.prems(2) that by (auto simp: newBlock_def)
    obtain k where k: "k \<le> length es"
      "ledger (world s') = ledger (world ?s) @ map key (concat (map (newBlock env node (max ?a (eIndex e))) (take k es)))"
      "\<forall>q. r = Inr (q, True) \<longrightarrow> k = length es \<and> appliedIndex (rep s') = Max (insert (max ?a (eIndex e)) (eIndex ` set es))"
      using Cons.IH[OF run] Cons.prems(2,3) unfolding s(2) by auto
    have "concat (map (newBlock env node (max ?a (eIndex e))) (take k es)) = concat (map (newBlock env node ?a) (take k es))"
      using same by (intro arg_cong[where f = concat] map_cong refl) (auto dest: in_set_takeD)
    moreover have "Max (insert (max ?a (eIndex e)) (eIndex ` set es)) = Max (insert ?a (eIndex ` set (e # es)))"
      by (cases "set es = {}") (auto simp: max.assoc)
    ultimately show ?thesis
      using k s(1) by (intro exI[of _ "Suc k"]) auto
  next
    case False
    then have "r1 \<noteq> Inr Skipped"
      using Cons.prems(3) by (intro not_skipped[OF _ e]) simp
    then have r: "s' = s1" "\<forall>q. r \<noteq> Inr (q, True)"
      using Cons.prems(1) e False by (cases r1; auto simp: Let_def split: outcome.splits)+
    consider "ledger (world s1) = ledger (world s)" | "ledger (world s1) = ledger (world s) @ map key (newBlock env node ?a e)"
      using a by (auto simp: adds_def)
    then show ?thesis
      using r by cases (auto intro: exI[of _ 0] exI[of _ 1])
  qed
qed

end

section \<open>The Raft log\<close>

text \<open>A log from its first entry on, with the indices Raft gives them.\<close>

definition raftLog :: "raft_node \<Rightarrow> raft_entry list \<Rightarrow> bool" where
  "raftLog node L \<longleftrightarrow> length L < 2 ^ 64 - 1 \<and> (\<forall>i < length L. eIndex (L ! i) = of_nat (Suc i) \<and> decodable node (L ! i))"

definition logBlocks :: "'d store_env \<Rightarrow> raft_node \<Rightarrow> raft_entry list \<Rightarrow> nat \<Rightarrow> Block list" where
  "logBlocks env node L n = concat (map (entryBlock env node) (take n L))"

text \<open>The replicator has applied the first \<open>n\<close> entries of the log.\<close>

definition followsLog ::
  "'d store_env \<Rightarrow> raft_node \<Rightarrow> raft_entry list \<Rightarrow> ('w \<Rightarrow> 'k list) \<Rightarrow> (Block \<Rightarrow> 'k) \<Rightarrow> 'k list \<Rightarrow> nat \<Rightarrow> ('m, 'w) delivery \<Rightarrow> bool" where
  "followsLog env node L ledger key base n s \<longleftrightarrow> n \<le> length L \<and> appliedIndex (rep s) = of_nat n
     \<and> ledger (world s) = base @ map key (logBlocks env node L n)"

lemma of_nat_less_64:
  assumes "n < 2 ^ 64" "m < 2 ^ 64"
  shows "(of_nat n :: 64 word) < of_nat m \<longleftrightarrow> n < m" "(of_nat n :: 64 word) = of_nat m \<longleftrightarrow> n = m"
proof -
  have u: "unat (of_nat k :: 64 word) = k" if "k < 2 ^ 64" for k
    unfolding unat_of_nat using that by (intro mod_less) simp
  show "(of_nat n :: 64 word) < of_nat m \<longleftrightarrow> n < m"
    using u[OF assms(1)] u[OF assms(2)] by (simp add: word_less_nat_alt)
  show "(of_nat n :: 64 word) = of_nat m \<longleftrightarrow> n = m"
    using u[OF assms(1)] u[OF assms(2)] by metis
qed

lemma logBlocks_Suc: "i < length L \<Longrightarrow> logBlocks env node L (Suc i) = logBlocks env node L i @ entryBlock env node (L ! i)"
  by (simp add: logBlocks_def take_Suc_conv_app_nth)

lemma log_slice:
  assumes "raftLog node L" "i \<le> n" "n \<le> length L" "i + k \<le> length L"
  shows "logBlocks env node L n @ concat (map (newBlock env node (of_nat n)) (take k (drop i L))) = logBlocks env node L (max n (i + k))"
  using assms(4)
proof (induction k)
  case 0
  then show ?case
    using assms(2) by (simp add: max_def)
next
  case (Suc k)
  have ik: "i + k < length L" "take (Suc k) (drop i L) = take k (drop i L) @ [L ! (i + k)]"
    using Suc.prems by (simp_all add: take_Suc_conv_app_nth)
  have "newBlock env node (of_nat n) (L ! (i + k)) = (if n < Suc (i + k) then entryBlock env node (L ! (i + k)) else [])"
    using assms(1,3) ik(1) of_nat_less_64(1)[of n "Suc (i + k)"] by (simp add: newBlock_def raftLog_def)
  then have new: "concat (map (newBlock env node (of_nat n)) (take (Suc k) (drop i L))) =
      concat (map (newBlock env node (of_nat n)) (take k (drop i L))) @ (if n < Suc (i + k) then entryBlock env node (L ! (i + k)) else [])"
    unfolding ik(2) by simp
  have IH: "logBlocks env node L n @ concat (map (newBlock env node (of_nat n)) (take k (drop i L))) = logBlocks env node L (max n (i + k))"
    using Suc by simp
  have "max n (i + Suc k) = (if n < Suc (i + k) then Suc (max n (i + k)) else max n (i + k))" "n < Suc (i + k) \<Longrightarrow> max n (i + k) = i + k"
    by auto
  then show ?case
    unfolding new append_assoc[symmetric] IH using logBlocks_Suc[OF ik(1), of env node] by auto
qed

lemma log_sorted:
  assumes "raftLog node L"
  shows "sorted_wrt (<) (map eIndex (take j (drop i L)))" "\<forall>e \<in> set (take j (drop i L)). decodable node e"
proof -
  have "sorted_wrt (<) (map eIndex L)"
    using assms by (auto simp: sorted_wrt_iff_nth_less raftLog_def of_nat_less_64(1) simp del: of_nat_Suc)
  then show "sorted_wrt (<) (map eIndex (take j (drop i L)))"
    by (simp add: take_map[symmetric] drop_map[symmetric] sorted_wrt_take sorted_wrt_drop)
  show "\<forall>e \<in> set (take j (drop i L)). decodable node e"
    using assms by (auto simp: raftLog_def in_set_conv_nth dest!: in_set_takeD in_set_dropD)
qed

lemma snapshot_frame:
  assumes "snapshotIfNeeded env node libs s e = (s', r)"
  shows "world s' = world s" "appliedIndex (rep s') = appliedIndex (rep s)"
  using assms by (auto simp: snapshotIfNeeded_def split: if_splits sum.splits prod.splits option.splits)

lemma log_max_index:
  assumes "raftLog node L" "n \<le> length L" "0 < j" "i + j \<le> length L"
  shows "Max (insert (of_nat n) (eIndex ` set (take j (drop i L)))) = (of_nat (max n (i + j)) :: 64 word)"
proof (rule Max_eqI)
  have idx: "eIndex (L ! m) = of_nat (Suc m)" "Suc m < 2 ^ 64" if "m < length L" for m
    using assms(1) that by (auto simp: raftLog_def)
  have n: "n < 2 ^ 64"
    using assms(1,2) by (auto simp: raftLog_def)
  fix y assume "y \<in> insert (of_nat n) (eIndex ` set (take j (drop i L)))"
  then consider "y = of_nat n" | m where "m < j" "y = of_nat (Suc (i + m))"
    using assms(4) idx by (auto simp: in_set_conv_nth simp del: of_nat_Suc)
  then show "y \<le> of_nat (max n (i + j))"
  proof cases
    case 1
    then show ?thesis
      using assms(4) n idx(2)[of "i + j - 1"] assms(3) of_nat_less_64(1)[of "max n (i + j)" n]
      by (auto simp: not_less[symmetric] max_def)
  next
    case (2 m)
    then show ?thesis
      using assms(4) n idx(2)[of "i + j - 1"] idx(2)[of "i + m"] assms(3) of_nat_less_64(1)[of "max n (i + j)" "Suc (i + m)"]
      by (auto simp: not_less[symmetric] max_def simp del: of_nat_Suc)
  qed
next
  have "L ! (i + j - 1) \<in> set (take j (drop i L))"
    using assms(3,4) by (auto simp: in_set_conv_nth intro: exI[of _ "j - 1"])
  moreover have "eIndex (L ! (i + j - 1)) = of_nat (i + j)"
    using assms(1,3,4) by (auto simp: raftLog_def simp del: of_nat_Suc dest!: spec[of _ "i + j - 1"])
  ultimately have "of_nat (i + j) \<in> eIndex ` set (take j (drop i L))"
    by (metis imageI)
  then show "of_nat (max n (i + j)) \<in> insert (of_nat n) (eIndex ` set (take j (drop i L)))"
    by (simp add: max_def del: of_nat_add)
qed simp

text \<open>
  Pulling the chain of the cluster: every request is answered by some of the blocks asked for, in order.
\<close>

definition servesChain :: "(nat \<Rightarrow> 64 word \<Rightarrow> 64 word \<Rightarrow> Block list res) \<Rightarrow> (nat \<Rightarrow> Block) \<Rightarrow> nat \<Rightarrow> bool" where
  "servesChain pull chain T \<longleftrightarrow> (\<forall>k i. 0 < i \<and> i \<le> T \<longrightarrow>
     (\<exists>len. 0 < len \<and> i + len \<le> Suc T \<and> pull k (of_nat i) (of_nat T) = Inr (map chain [i..<i + len])))"

text \<open>The processor alone on a sequence of blocks, up to the first one it fails on.\<close>

fun processAll :: "'w processor \<Rightarrow> 'w \<Rightarrow> Block list \<Rightarrow> 'w \<times> Block list res" where
  "processAll process w [] = (w, Inr [])"
| "processAll process w (b # bs) = (case process w b of
     (w, Inl e) \<Rightarrow> (w, Inl e)
   | (w, Inr (b, _)) \<Rightarrow> (case processAll process w bs of (w, Inl e) \<Rightarrow> (w, Inl e) | (w, Inr bs) \<Rightarrow> (w, Inr (b # bs))))"

lemma processAll_append:
  "processAll process w (bs @ cs) = (case processAll process w bs of
     (w, Inl e) \<Rightarrow> (w, Inl e)
   | (w, Inr bs) \<Rightarrow> (case processAll process w cs of (w, Inl e) \<Rightarrow> (w, Inl e) | (w, Inr cs) \<Rightarrow> (w, Inr (bs @ cs))))"
  by (induction bs arbitrary: w) (auto split: prod.splits sum.splits)

lemma processAll_length: "processAll process w bs = (w', Inr cs) \<Longrightarrow> length cs = length bs"
  by (induction bs arbitrary: w cs) (auto split: prod.splits sum.splits)

text \<open>
  On-boarding does not touch the configuration: it does with the replicator and the processor what the
  processor alone does with the blocks.
\<close>

definition onboarded :: "'w processor \<Rightarrow> ('m, 'w) delivery \<Rightarrow> Block list \<Rightarrow> ('m, 'w) delivery \<Rightarrow> 'a res \<Rightarrow> 'a \<Rightarrow> bool" where
  "onboarded process s bs s' r x \<longleftrightarrow> inFlightConfigBlockNumber (rep s') = 0 \<and> world s' = fst (processAll process (world s) bs)
     \<and> (case snd (processAll process (world s) bs) of
          Inl e \<Rightarrow> r = Inl e
        | Inr cs \<Rightarrow> r = Inr x \<and> lastCommittedBlock (rep s') = (if cs = [] then lastCommittedBlock (rep s) else Some (last cs)))"

lemma commitBlock_onboarding:
  assumes "inFlightConfigBlockNumber (rep s) = 0" "commitBlock process u False s b = (s', r)"
  shows "onboarded process s [b] s' r ()"
proof -
  have ok: "\<exists>br. setLastCommittedBlock (rep s) b' = Inr br \<and> inFlightConfigBlockNumber br = 0 \<and> lastCommittedBlock br = Some b'" for b'
    using assms(1) by (cases "0 < numInFlightBlocks (rep s)") (simp_all add: setLastCommittedBlock_def Let_def)
  show ?thesis
  proof (cases "process (world s) b")
    case (Pair w x)
    show ?thesis
    proof (cases x)
      case (Inl e)
      then show ?thesis
        using assms Pair by (auto simp: commitBlock_def onboarded_def)
    next
      case (Inr y)
      obtain b' c where y: "y = (b', c)"
        by fastforce
      obtain br where "setLastCommittedBlock (rep s) b' = Inr br" "inFlightConfigBlockNumber br = 0" "lastCommittedBlock br = Some b'"
        using ok by blast
      then show ?thesis
        using assms(2) Pair Inr y by (cases c) (auto simp: commitBlock_def onboarded_def)
    qed
  qed
qed

lemma onboarded_append:
  assumes "onboarded process s bs s1 (Inr x) x" "onboarded process s1 cs s2 r y"
  shows "onboarded process s (bs @ cs) s2 r y"
  using assms by (auto simp: onboarded_def processAll_append split: sum.splits prod.splits if_splits)

lemma onboarded_error:
  assumes "onboarded process s bs s1 (Inl e) x"
  shows "onboarded process s (bs @ cs) s1 (Inl e) y"
  using assms by (auto simp: onboarded_def processAll_append split: sum.splits prod.splits)

lemma onboarded_value: "onboarded process s bs s' (Inr z) x \<Longrightarrow> z = x"
  by (auto simp: onboarded_def split: sum.splits)

lemma commitPulled_onboarding:
  assumes "inFlightConfigBlockNumber (rep s) = 0"
  shows "\<exists>s' r. commitPulled process u False n s bs = (s', r) \<and> onboarded process s bs s' r (n + of_nat (length bs))"
  using assms
proof (induction bs arbitrary: n s)
  case Nil
  then show ?case
    by (simp add: onboarded_def)
next
  case (Cons b bs)
  obtain s1 r1 where c: "commitBlock process u False s b = (s1, r1)"
    by fastforce
  note one = commitBlock_onboarding[OF Cons.prems c]
  show ?case
  proof (cases r1)
    case (Inl e)
    then show ?thesis
      using c onboarded_error[of process s "[b]" s1 e "()" bs] one by simp
  next
    case (Inr x)
    have "inFlightConfigBlockNumber (rep s1) = 0"
      using one by (simp add: onboarded_def)
    from Cons.IH[OF this, of "n + 1"] show ?thesis
      using c Inr onboarded_append[of process s "[b]" s1 "()" bs] one by (auto simp: add.assoc)
  qed
qed

lemma catchUpToBlock_onboarding:
  assumes pulls: "servesChain pull chain T" and T: "T < 2 ^ 64 - 1"
    and "inFlightConfigBlockNumber (rep s) = 0" "0 < i" "i \<le> Suc T"
  shows "\<exists>s' r. catchUpToBlock pull process u False (of_nat T) k (of_nat i) s = Some (s', r)
    \<and> onboarded process s (map chain [i..<Suc T]) s' r ()"
  using assms(3-5)
proof (induction "Suc T - i" arbitrary: i k s rule: less_induct)
  case less
  have le: "(of_nat i :: 64 word) \<le> of_nat T \<longleftrightarrow> i \<le> T"
    using of_nat_less_64(1)[of T i] T less.prems(3) by (auto simp: not_less[symmetric])
  show ?case
  proof (cases "i \<le> T")
    case False
    then show ?thesis
      using le less.prems(1) by (subst catchUpToBlock.simps) (simp add: onboarded_def)
  next
    case True
    obtain len where len: "0 < len" "i + len \<le> Suc T" "pull k (of_nat i) (of_nat T) = Inr (map chain [i..<i + len])"
      using pulls less.prems(2) True unfolding servesChain_def by blast
    let ?bs = "map chain [i..<i + len]"
    have whole: "map chain [i..<Suc T] = ?bs @ map chain [i + len..<Suc T]"
      using len(2) upt_add_eq_append[of i "i + len" "Suc T - (i + len)"] by (simp flip: map_append)
    obtain s1 r1 where s1: "commitPulled process u False (of_nat i) s ?bs = (s1, r1)" "onboarded process s ?bs s1 r1 (of_nat (i + len))"
      using commitPulled_onboarding[OF less.prems(1), of process u "of_nat i" ?bs] by auto
    show ?thesis
    proof (cases r1)
      case (Inl e)
      then show ?thesis
        using le True len(3) s1 onboarded_error unfolding whole by (subst catchUpToBlock.simps) fastforce
    next
      case (Inr n)
      have n: "n = of_nat (i + len)"
        using onboarded_value[OF s1(2)[unfolded Inr]] .
      have on: "onboarded process s ?bs s1 (Inr n) n"
        using s1(2) unfolding Inr n .
      have "Suc T - (i + len) < Suc T - i" "0 < i + len" "inFlightConfigBlockNumber (rep s1) = 0"
        using len True s1(2) by (simp_all add: onboarded_def)
      from less.hyps[OF this(1,3,2) len(2), of "Suc k"] obtain s2 r where s2:
          "catchUpToBlock pull process u False (of_nat T) (Suc k) n s1 = Some (s2, r)"
          "onboarded process s1 (map chain [i + len..<Suc T]) s2 r ()"
        unfolding n by blast
      then show ?thesis
        using le True len(3) s1(1) Inr onboarded_append[OF on s2(2)] unfolding whole by (subst catchUpToBlock.simps) simp
    qed
  qed
qed

context block_processor
begin

lemma deliverEntries_follows:
  assumes follows: "followsLog env node L ledger key base n s" and log: "raftLog node L" and bounds: "i \<le> n" "0 < j" "i + j \<le> length L"
    and run: "deliverEntries env node libs process u s (take j (drop i L)) = (s', r)"
  shows "r = Inr True \<Longrightarrow> followsLog env node L ledger key base (max n (i + j)) s'"
    "\<exists>m. n \<le> m \<and> m \<le> length L \<and> ledger (world s') = base @ map key (logBlocks env node L m)"
proof -
  let ?es = "take j (drop i L)"
  have n: "n \<le> length L" "appliedIndex (rep s) = of_nat n" "ledger (world s) = base @ map key (logBlocks env node L n)"
    using follows by (simp_all add: followsLog_def)
  have ne: "?es \<noteq> []"
    using bounds by simp
  have "eIndex (hd ?es) = of_nat (Suc i)"
    using log bounds by (simp add: hd_drop_conv_nth raftLog_def)
  moreover have "(of_nat n :: 64 word) + 1 = of_nat (Suc n)"
    by simp
  moreover have "\<not> (of_nat (Suc n) :: 64 word) < of_nat (Suc i)"
    using of_nat_less_64(1)[of "Suc n" "Suc i"] log n(1) bounds(1) by (auto simp: raftLog_def)
  ultimately have first: "\<not> eIndex (hd ?es) > appliedIndex (rep s) + 1"
    unfolding n(2) by (simp add: add.commute)
  obtain s1 r1 where loop: "deliverLoop env node process u 0 0 s ?es = (s1, r1)"
    by fastforce
  obtain k where k: "k \<le> length ?es" "ledger (world s1) = ledger (world s) @ map key (concat (map (newBlock env node (of_nat n)) (take k ?es)))"
      "\<forall>q. r1 = Inr (q, True) \<longrightarrow> k = length ?es \<and> appliedIndex (rep s1) = Max (insert (of_nat n) (eIndex ` set ?es))"
    using deliverLoop_adds[OF loop log_sorted[OF log]] unfolding n(2) by blast
  have kj: "k \<le> j" "take k ?es = take k (drop i L)"
    using k(1) by (simp_all add: min_absorb1)
  then have "logBlocks env node L (max n (i + k)) = logBlocks env node L n @ concat (map (newBlock env node (of_nat n)) (take k ?es))"
    using log_slice[OF log bounds(1) n(1), of k env] bounds(3) by simp
  then have led: "ledger (world s1) = base @ map key (logBlocks env node L (max n (i + k)))"
    using k(2) n(3) by simp
  have s': "world s' = world s1 \<and> appliedIndex (rep s') = appliedIndex (rep s1)" "r = Inr True \<Longrightarrow> \<exists>q. r1 = Inr (q, True)"
    using run loop ne first snapshot_frame
    by (auto simp: deliverEntries_def sbind_def split: sum.splits prod.splits if_splits; blast)+
  show "\<exists>m. n \<le> m \<and> m \<le> length L \<and> ledger (world s') = base @ map key (logBlocks env node L m)"
    using led s'(1) k(1) n(1) bounds(3) by (intro exI[of _ "max n (i + k)"]) auto
  show "followsLog env node L ledger key base (max n (i + j)) s'" if "r = Inr True"
    using s'(2)[OF that] k(3) s'(1) led log_max_index[OF log n(1) bounds(2,3)] n(1) bounds(3)
    by (auto simp: followsLog_def)
qed

text \<open>What processing a sequence of blocks does to the ledger.\<close>

lemma processAll_ledger:
  "processAll process w bs = (w', r) \<Longrightarrow> (case r of
     Inl _ \<Rightarrow> \<exists>k \<le> length bs. ledger w' = ledger w @ map key (take k bs)
   | Inr cs \<Rightarrow> ledger w' = ledger w @ map key bs \<and> map key cs = map key bs)"
proof (induction bs arbitrary: w w' r)
  case (Cons b bs)
  obtain w1 x where p: "process w b = (w1, x)"
    by fastforce
  show ?case
  proof (cases x)
    case (Inl e)
    then have "\<exists>k \<le> Suc (length bs). ledger w' = ledger w @ map key (take k (b # bs))"
      using p Cons.prems process_error by (fastforce intro: exI[of _ 0] exI[of _ 1])
    moreover have "r = Inl e"
      using Inl p Cons.prems by simp
    ultimately show ?thesis
      by simp
  next
    case (Inr y)
    obtain b' c where y: "y = (b', c)"
      by fastforce
    obtain w2 q where q: "processAll process w1 bs = (w2, q)"
      by fastforce
    have led: "ledger w1 = ledger w @ [key b]" "key b' = key b"
      using process_reply p Inr y by auto
    have r: "w' = w2" "r = (case q of Inl e \<Rightarrow> Inl e | Inr cs \<Rightarrow> Inr (b' # cs))"
      using Cons.prems p Inr y q by (auto split: sum.splits)
    show ?thesis
    proof (cases q)
      case (Inl e)
      then obtain k where "k \<le> length bs" "ledger w2 = ledger w1 @ map key (take k bs)"
        using Cons.IH[OF q] by auto
      then show ?thesis
        using Inl r led by (auto intro!: exI[of _ "Suc k"])
    qed (use Cons.IH[OF q] r led in auto)
  qed
qed simp

end

end
