(* ===== verification/Block_Processor.thy ===== *)
theory Block_Processor
  imports Committer Validator MTree Replicator_Log
begin

text \<open>
  \<^verbatim>\<open>internal/blockprocessor/processor.go\<close> and the stateful part of \<^verbatim>\<open>committer.go\<close>: the validation and commit of
  a block to the block store, the provenance store, the world state and the state trie, in this order; the
  recovery of the stores that are behind after a crash; and the hashes of the transactions
  (\<^verbatim>\<open>internal/mtree/hash.go\<close>).
\<close>

section \<open>The stores of a node\<close>

record ('d, 'e, 's, 'p, 'c) node_env =
  neStore :: "'d store_env"
  neLdb :: "'e ldb"
  neCodec :: state_codec
  neUnmarshalConfig :: "bytes \<Rightarrow> ClusterConfig res"
  neFiles :: "'e files"
  neTrie :: "'s StoreOps"
  neTrieFuel :: nat
  neEntries :: entry_env
  neJson :: json_parsers
  neValidator :: "'c Validator"
  neProvCommit :: "'p \<Rightarrow> 64 word \<Rightarrow> TxDataForProvenance list \<Rightarrow> 'p \<times> unit res"
  neTxJson :: "tx \<Rightarrow> bytes res"
  neInfoJson :: "ValidationInfo \<Rightarrow> bytes res"

text \<open>\<open>history\<close> records the blocks the block store has accepted.\<close>

record ('d, 'e, 's, 'p) node =
  blockStore :: "'d Store"
  worldState :: "'e LevelDB"
  provenanceStore :: "'p option"
  trieStore :: 's
  stateTrie :: "'s MPTrie option"
  history :: "Block list"

abbreviation neHash :: "('d, 'e, 's, 'p, 'c) node_env \<Rightarrow> digest" where
  "neHash env \<equiv> seHash (neStore env)"

definition worldDB :: "('d, 'e, 's, 'p, 'c) node_env \<Rightarrow> ('d, 'e, 's, 'p) node \<Rightarrow> DB" where
  "worldDB env n = LevelDB_DB (neLdb env) (neCodec env) (neUnmarshalConfig env) (worldState n)"

definition entriesFor :: "('d, 'e, 's, 'p, 'c) node_env \<Rightarrow> ('d, 'e, 's, 'p) node \<Rightarrow> Block \<Rightarrow> (db_entries \<times> Block) res" where
  "entriesFor env n block =
     constructDBAndProvenanceEntries ((neEntries env)\<lparr>eeProvenance := provenanceStore n \<noteq> None\<rparr>) (worldDB env n) block"

section \<open>Transaction hashes\<close>

definition calculateTxHash :: "('d, 'e, 's, 'p, 'c) node_env \<Rightarrow> tx \<Rightarrow> ValidationInfo \<Rightarrow> slice res" where
  "calculateTxHash env t v =
     rbind (wrap ''can't serialize msg to json'' (neTxJson env t)) (\<lambda>payloadBytes.
     rbind (wrap ''can't validationInfo msg to json'' (neInfoJson env v)) (\<lambda>valBytes.
     Inr (ComputeSHA256Hash (neHash env) (payloadBytes @ valBytes))))"

fun dataTxHashes :: "('d, 'e, 's, 'p, 'c) node_env \<Rightarrow> DataTxEnvelope list \<Rightarrow> ValidationInfo list \<Rightarrow> slice list res" where
  "dataTxHashes env [] vs = Inr []"
| "dataTxHashes env (t # ts) [] = Inl (Panic ''index out of range'')"
| "dataTxHashes env (t # ts) (v # vs) =
     rbind (wrap ''can't calculate msg hash'' (calculateTxHash env (TxData t) v)) (\<lambda>hs.
     rbind (dataTxHashes env ts vs) (\<lambda>rest. Inr (hs # rest)))"

definition singleTxHash :: "('d, 'e, 's, 'p, 'c) node_env \<Rightarrow> Block \<Rightarrow> tx \<Rightarrow> slice list res" where
  "singleTxHash env block t =
     rbind (firstInfo block) (\<lambda>v. rbind (wrap ''can't calculate msg hash'' (calculateTxHash env t v)) (\<lambda>hs. Inr [hs]))"

definition calculateBlockTxHashes :: "('d, 'e, 's, 'p, 'c) node_env \<Rightarrow> Block \<Rightarrow> slice list res" where
  "calculateBlockTxHashes env block = (case BPayload block of
     Some (Block_DataTxEnvelopes txs) \<Rightarrow> dataTxHashes env txs (HValidationInfo (Header block))
   | Some (Block_UserAdministrationTxEnvelope e) \<Rightarrow> singleTxHash env block (TxUser e)
   | Some (Block_DbAdministrationTxEnvelope e) \<Rightarrow> singleTxHash env block (TxDB e)
   | Some (Block_ConfigTxEnvelope e) \<Rightarrow> singleTxHash env block (TxConfig e)
   | None \<Rightarrow> Inl (Err ''unexpected transaction envelope in the block''))"

definition BuildTreeForBlockTx :: "('d, 'e, 's, 'p, 'c) node_env \<Rightarrow> Block \<Rightarrow> Node option res" where
  "BuildTreeForBlockTx env block = rbind (calculateBlockTxHashes env block) (\<lambda>hs. Inr (prepareAndBuildTree (neHash env) hs))"

section \<open>The committer\<close>

text \<open>An error the code panics with.\<close>

definition panicOn :: "'a res \<Rightarrow> 'a res" where
  "panicOn r = (case r of Inl e \<Rightarrow> Inl (Panic (go_error_string e)) | Inr x \<Rightarrow> Inr x)"

definition panicSnd :: "'a \<times> 'b res \<Rightarrow> 'a \<times> 'b res" where
  "panicSnd x = (fst x, panicOn (snd x))"

definition commitToProvenanceStore ::
  "('d, 'e, 's, 'p, 'c) node_env \<Rightarrow> ('d, 'e, 's, 'p) node \<Rightarrow> 64 word \<Rightarrow> TxDataForProvenance list \<Rightarrow> ('d, 'e, 's, 'p) node \<times> unit res" where
  "commitToProvenanceStore env n blockNum prov = (case provenanceStore n of
     None \<Rightarrow> (n, Inr ())
   | Some p \<Rightarrow> (case neProvCommit env p blockNum prov of
       (p, r) \<Rightarrow> (n\<lparr>provenanceStore := Some p\<rparr>, wrap ''failed to commit block to provenance store'' r)))"

definition commitToStateDB ::
  "('d, 'e, 's, 'p, 'c) node_env \<Rightarrow> ('d, 'e, 's, 'p) node \<Rightarrow> 64 word \<Rightarrow> (string, DBUpdates) gomap \<Rightarrow> ('d, 'e, 's, 'p) node \<times> unit res" where
  "commitToStateDB env n blockNum dbsUpdates =
     (case ConstructIndexEntries (neJson env) dbsUpdates (worldDB env n) of
        Inl e \<Rightarrow> (n, Inl (wrap_error ''failed to create index updates'' e))
      | Inr indexUpdates \<Rightarrow>
          (case LevelDB_Commit (neLdb env) (neCodec env) (neFiles env) (worldState n)
                  (fold (\<lambda>(db, u) m. gomap_put m db u) indexUpdates dbsUpdates) blockNum of
             (l, r) \<Rightarrow> (n\<lparr>worldState := l\<rparr>, wrap ''failed to commit block to state database'' r)))"

definition commitToDBs ::
  "('d, 'e, 's, 'p, 'c) node_env \<Rightarrow> ('d, 'e, 's, 'p) node \<Rightarrow> db_entries \<Rightarrow> Block \<Rightarrow> ('d, 'e, 's, 'p) node \<times> unit res" where
  "commitToDBs env n es block =
     sbind (case commitToProvenanceStore env n (block_number block) (snd es) of
              (n, r) \<Rightarrow> (n, wrap ''error while committing block to the block store'' r)) (\<lambda>n _.
     commitToStateDB env n (block_number block) (fst es))"

text \<open>The trie works on the trie store; both change together.\<close>

definition withTrie ::
  "('s MPTrie \<Rightarrow> 's MPTrie \<times> unit res) \<Rightarrow> ('d, 'e, 's, 'p) node \<Rightarrow> ('d, 'e, 's, 'p) node \<times> unit res" where
  "withTrie f n = (case stateTrie n of
     None \<Rightarrow> (n, Inl (Panic ''nil pointer dereference''))
   | Some t \<Rightarrow> (case f t of (t, r) \<Rightarrow> (n\<lparr>stateTrie := Some t, trieStore := store t\<rparr>, r)))"

definition trieOff :: "('d, 'e, 's, 'p, 'c) node_env \<Rightarrow> ('d, 'e, 's, 'p) node \<Rightarrow> bool" where
  "trieOff env n = IsDisabled (neTrie env) (trieStore n)"

definition applyBlockOnStateTrie where
  "applyBlockOnStateTrie env n updates = withTrie (\<lambda>t. ApplyBlockOnStateTrie (neTrie env) (neHash env) t updates) n"

definition commitTrie where
  "commitTrie env n height = withTrie (\<lambda>t. MPTrie_Commit (neTrie env) (neHash env) (neTrieFuel env) t height) n"

definition commitToBlockStore ::
  "('d, 'e, 's, 'p, 'c) node_env \<Rightarrow> ('d, 'e, 's, 'p) node \<Rightarrow> Block \<Rightarrow> ('d, 'e, 's, 'p) node \<times> unit res" where
  "commitToBlockStore env n block = (case Store_Commit (neStore env) (blockStore n) (Some block) of
     (s, Inl e) \<Rightarrow> (n\<lparr>blockStore := s\<rparr>, Inl (wrap_error ''failed to commit block to block store'' e))
   | (s, Inr _) \<Rightarrow> (n\<lparr>blockStore := s, history := history n @ [block]\<rparr>, Inr ()))"

definition committer_commitBlock ::
  "('d, 'e, 's, 'p, 'c) node_env \<Rightarrow> ('d, 'e, 's, 'p) node \<Rightarrow> Block \<Rightarrow> ('d, 'e, 's, 'p) node \<times> Block res" where
  "committer_commitBlock env n block = (case entriesFor env n block of
     Inl e \<Rightarrow> (n, Inl (wrap_error ''error while constructing database and provenance entries for block'' e))
   | Inr (es, block) \<Rightarrow>
       sbind (if trieOff env n then (n, Inr ()) else panicSnd (applyBlockOnStateTrie env n (fst es))) (\<lambda>n _.
       (case MPTrie_Hash (neHash env) (stateTrie n) of
          Inl e \<Rightarrow> (n, Inl (Panic (go_error_string e)))
        | Inr rootHash \<Rightarrow>
            let block = block\<lparr>Header := (Header block)\<lparr>StateMerkleTreeRootHash := rootHash\<rparr>\<rparr> in
            sbind (case commitToBlockStore env n block of (n, r) \<Rightarrow> (n, wrap ''error while committing block to the block store'' r)) (\<lambda>n _.
            sbind (commitToDBs env n es block) (\<lambda>n _.
            sbind (if trieOff env n then (n, Inr ()) else commitTrie env n (block_number block)) (\<lambda>n _. (n, Inr block)))))))"

section \<open>Validation and commit\<close>

text \<open>The block with the header completed, as it is stored.\<close>

definition validateAndCommit ::
  "('d, 'e, 's, 'p, 'c) node_env \<Rightarrow> ('d, 'e, 's, 'p) node \<Rightarrow> Block \<Rightarrow> ('d, 'e, 's, 'p) node \<times> Block res" where
  "validateAndCommit env n block =
     (case ValidateBlock ((neValidator env)\<lparr>VDB := worldDB env n\<rparr>) block of
        Inl e \<Rightarrow> (n, if block_number block > 1 then panicOn (Inl e) else Inl e)
      | Inr validationInfo \<Rightarrow>
          let block = block\<lparr>Header := (Header block)\<lparr>HValidationInfo := validationInfo\<rparr>\<rparr> in
          (case panicOn (AddSkipListLinks (neStore env) (blockStore n) block) of
             Inl e \<Rightarrow> (n, Inl e)
           | Inr block \<Rightarrow> (case panicOn (BuildTreeForBlockTx env block) of
               Inl e \<Rightarrow> (n, Inl e)
             | Inr tree \<Rightarrow>
                 (case committer_commitBlock env n (block\<lparr>Header := (Header block)\<lparr>TxMerkleTreeRootHash := Hash tree\<rparr>\<rparr>) of
                    (n, r) \<Rightarrow> (n, panicOn r)))))"

text \<open>
  One turn of the loop of \<^verbatim>\<open>Start\<close>, between \<^verbatim>\<open>Dequeue\<close> and \<^verbatim>\<open>Reply\<close>: the reply is the new configuration of a
  valid configuration block.
\<close>

definition reConfigOf :: "Block \<Rightarrow> ClusterConfig option" where
  "reConfigOf block = (case BPayload block of
     Some (Block_ConfigTxEnvelope e) \<Rightarrow> (case HValidationInfo (Header block) of
         v # _ \<Rightarrow> if VFlag v = VALID then NewConfig (CPayload e) else None
       | [] \<Rightarrow> None)
   | _ \<Rightarrow> None)"

definition processBlock :: "('d, 'e, 's, 'p, 'c) node_env \<Rightarrow> ('d, 'e, 's, 'p) node processor" where
  "processBlock env n block = (case validateAndCommit env n block of
     (n, Inl e) \<Rightarrow> (n, panicOn (Inl e))
   | (n, Inr block) \<Rightarrow> (n, Inr (block, reConfigOf block)))"

section \<open>Recovery\<close>

text \<open>A block store that is one block ahead of the world state: the block is applied again.\<close>

definition recoverWorldStateDBIfNeeded ::
  "('d, 'e, 's, 'p, 'c) node_env \<Rightarrow> ('d, 'e, 's, 'p) node \<Rightarrow> ('d, 'e, 's, 'p) node \<times> unit res" where
  "recoverWorldStateDBIfNeeded env n =
     (let blockStoreHeight = Store_Height (blockStore n) in
      case LevelDB_Height (neLdb env) (worldState n) of
        Inl e \<Rightarrow> (n, Inl e)
      | Inr stateDBHeight \<Rightarrow>
          if stateDBHeight = blockStoreHeight then (n, Inr ())
          else if stateDBHeight > blockStoreHeight then
            (n, Inl (Err ''the height of state database is higher than the height of block store. The node cannot be recovered''))
          else if blockStoreHeight - stateDBHeight > 1 then
            (n, Inl (Err ''the difference between the height of the block store and the state database cannot be greater than 1 block. The node cannot be recovered''))
          else (case Store_Get (neStore env) (blockStore n) blockStoreHeight of
            (s, Inl e) \<Rightarrow> (n\<lparr>blockStore := s\<rparr>, Inl e)
          | (s, Inr block) \<Rightarrow>
              let n = n\<lparr>blockStore := s\<rparr> in
              (case entriesFor env n block of
                 Inl e \<Rightarrow> (n, Inl e)
               | Inr (es, block) \<Rightarrow> commitToDBs env n es block)))"

text \<open>
  \<^verbatim>\<open>loadStateTrie\<close>: the height of the trie and of the block store, and the trie with the root recorded in the
  header of the lower of the two. An error of the trie store other than not-found is dropped; the height
  is then zero.
\<close>

definition loadStateTrie ::
  "('d, 'e, 's, 'p, 'c) node_env \<Rightarrow> ('d, 'e, 's, 'p) node \<Rightarrow> ('d, 'e, 's, 'p) node \<times> (64 word \<times> 64 word) res" where
  "loadStateTrie env n =
     (let blockStoreHeight = Store_Height (blockStore n);
          create = (\<lambda>rootHash trieHeight. case NewTrie (neTrie env) (neHash env) rootHash (trieStore n) of
            (s, Inl e) \<Rightarrow> (n\<lparr>trieStore := s\<rparr>, Inl e)
          | (s, Inr t) \<Rightarrow> (n\<lparr>trieStore := s, stateTrie := Some t\<rparr>, Inr (trieHeight, blockStoreHeight))) in
      if blockStoreHeight = 0 then create None 0
      else if Height (neTrie env) (trieStore n) = Inl LdbErrNotFound then create None 0
      else
        let trieStoreHeight = (case Height (neTrie env) (trieStore n) of Inr k \<Rightarrow> k | Inl _ \<Rightarrow> 0) in
        if trieStoreHeight > blockStoreHeight then
          (n, Inl (Err ''height of block store is smalled that height of trie store, check underline database''))
        else (case Store_GetHeader (neStore env) (blockStore n) trieStoreHeight of
          Inl e \<Rightarrow> (n, Inl e)
        | Inr hdr \<Rightarrow> create (StateMerkleTreeRootHash hdr) trieStoreHeight))"

definition initAndRecoverStateTrieIfNeeded ::
  "('d, 'e, 's, 'p, 'c) node_env \<Rightarrow> ('d, 'e, 's, 'p) node \<Rightarrow> ('d, 'e, 's, 'p) node \<times> unit res" where
  "initAndRecoverStateTrieIfNeeded env n =
     sbind (loadStateTrie env n) (\<lambda>n (trieStoreHeight, blockStoreHeight).
     if blockStoreHeight = trieStoreHeight then (n, Inr ())
     else if trieStoreHeight + 1 = blockStoreHeight then
       (case Store_Get (neStore env) (blockStore n) blockStoreHeight of
          (s, Inl e) \<Rightarrow> (n\<lparr>blockStore := s\<rparr>, Inl e)
        | (s, Inr block) \<Rightarrow>
            let n = n\<lparr>blockStore := s\<rparr> in
            (case entriesFor env n block of
               Inl e \<Rightarrow> (n, Inl e)
             | Inr (es, _) \<Rightarrow>
                 sbind (applyBlockOnStateTrie env n (fst es)) (\<lambda>n _. commitTrie env n blockStoreHeight)))
     else (n, Inl (Err ''the difference between the height of the block store and the state trie store cannot be greater than 1 block. The node cannot be recovered'')))"

definition Processor_Bootstrap ::
  "('d, 'e, 's, 'p, 'c) node_env \<Rightarrow> bool \<Rightarrow> ('d, 'e, 's, 'p) node \<Rightarrow> Block \<Rightarrow> ('d, 'e, 's, 'p) node \<times> Block res" where
  "Processor_Bootstrap env disabled n configBlock =
     sbind (if \<not> disabled
            then (case initAndRecoverStateTrieIfNeeded env n of (n, r) \<Rightarrow> (n, wrap ''error while recovering node state trie'' r))
            else (n\<lparr>trieStore := SetDisabled (neTrie env) (trieStore n) True\<rparr>, Inr ())) (\<lambda>n _.
     validateAndCommit env n configBlock)"

text \<open>What \<^verbatim>\<open>Start\<close> does before its loop.\<close>

definition startRecovery ::
  "('d, 'e, 's, 'p, 'c) node_env \<Rightarrow> ('d, 'e, 's, 'p) node \<Rightarrow> ('d, 'e, 's, 'p) node \<times> unit res" where
  "startRecovery env n =
     panicSnd (sbind (recoverWorldStateDBIfNeeded env n) (\<lambda>n _.
       if trieOff env n then (n, Inr ()) else initAndRecoverStateTrieIfNeeded env n))"

section \<open>Listeners\<close>

type_synonym listeners = "(string, Block \<Rightarrow> unit res) gomap"

definition listeners_add :: "listeners \<Rightarrow> string \<Rightarrow> (Block \<Rightarrow> unit res) \<Rightarrow> listeners res" where
  "listeners_add ls name l = (if has_key ls name then Inl (Err (''the listener ['' @ name @ ''] is already registered''))
     else Inr (gomap_put ls name l))"

fun listeners_invoke :: "listeners \<Rightarrow> Block \<Rightarrow> unit res" where
  "listeners_invoke [] block = Inr ()"
| "listeners_invoke ((name, l) # ls) block =
     rbind (wrap (''error while invoking listener ['' @ name @ '']'') (l block)) (\<lambda>_. listeners_invoke ls block)"

section \<open>The contract with the replicator\<close>

text \<open>The part of a block that processing it keeps: the base header the replicator gave it.\<close>

definition baseOf :: "Block \<Rightarrow> BlockHeaderBase" where
  "baseOf b = BaseHeader (Header b)"

definition ledgerOf :: "('d, 'e, 's, 'p) node \<Rightarrow> BlockHeaderBase list" where
  "ledgerOf n = map baseOf (history n)"

lemma baseOf_simps [simp]:
  "baseOf (b\<lparr>Header := (Header b)\<lparr>HValidationInfo := v\<rparr>\<rparr>) = baseOf b"
  "baseOf (b\<lparr>Header := (Header b)\<lparr>SkipchainHashes := hs\<rparr>\<rparr>) = baseOf b"
  "baseOf (b\<lparr>Header := (Header b)\<lparr>TxMerkleTreeRootHash := x\<rparr>\<rparr>) = baseOf b"
  "baseOf (b\<lparr>Header := (Header b)\<lparr>StateMerkleTreeRootHash := x\<rparr>\<rparr>) = baseOf b"
  "baseOf (b\<lparr>BPayload := p\<rparr>) = baseOf b"
  by (simp_all add: baseOf_def)

lemma entries_base: "entriesFor env n b = Inr (es, b') \<Longrightarrow> baseOf b' = baseOf b"
  by (auto simp: entriesFor_def constructDBAndProvenanceEntries_def rbind_Inr_iff split: option.splits Payload.splits if_splits)

text \<open>The steps of a commit besides the block store leave the history alone.\<close>

lemma history_frames:
  "history (fst (commitToProvenanceStore env n k prov)) = history n"
  "history (fst (commitToStateDB env n k u)) = history n"
  "history (fst (withTrie f n)) = history n"
  by (auto simp: commitToProvenanceStore_def commitToStateDB_def withTrie_def split: option.splits prod.splits sum.splits)

lemma commitToDBs_history: "history (fst (commitToDBs env n es b)) = history n"
proof -
  obtain n1 r where p: "commitToProvenanceStore env n (block_number b) (snd es) = (n1, r)"
    by fastforce
  then have "history n1 = history n"
    using history_frames(1)[of env n "block_number b" "snd es"] by simp
  then show ?thesis
    using p history_frames(2)[of env n1] by (cases r) (simp_all add: commitToDBs_def)
qed

lemma commitToBlockStore_history:
  assumes "commitToBlockStore env n b = (n', r)"
  shows "history n' = history n @ (case r of Inr _ \<Rightarrow> [b] | Inl _ \<Rightarrow> [])"
  using assms by (auto simp: commitToBlockStore_def split: prod.splits sum.splits)

text \<open>A step that either keeps the history or appends a block with the base header of \<open>b\<close>; the latter if it succeeds.\<close>

definition commits :: "('d, 'e, 's, 'p) node \<Rightarrow> Block \<Rightarrow> ('d, 'e, 's, 'p) node \<times> Block res \<Rightarrow> bool" where
  "commits n b x \<longleftrightarrow> (case x of
     (n', Inl _) \<Rightarrow> ledgerOf n' = ledgerOf n \<or> ledgerOf n' = ledgerOf n @ [baseOf b]
   | (n', Inr b') \<Rightarrow> ledgerOf n' = ledgerOf n @ [baseOf b] \<and> baseOf b' = baseOf b)"

lemma afterStore_commits:
  assumes "commitToBlockStore env n b = (n1, r)"
  shows "commits n b (sbind (n1, wrap msg r) (\<lambda>n _. sbind (commitToDBs env n es b) (\<lambda>n _.
    sbind (if trieOff env n then (n, Inr ()) else commitTrie env n k) (\<lambda>n _. (n, Inr b)))))"
proof (cases r)
  case (Inl e)
  then show ?thesis
    using commitToBlockStore_history[OF assms] by (simp add: commits_def ledgerOf_def)
next
  case (Inr u)
  then have h1: "ledgerOf n1 = ledgerOf n @ [baseOf b]"
    using commitToBlockStore_history[OF assms] by (simp add: ledgerOf_def)
  obtain n2 r2 where db: "commitToDBs env n1 es b = (n2, r2)"
    by fastforce
  have h2: "history n2 = history n1"
    using commitToDBs_history[of env n1 es b] db by simp
  obtain n3 r3 where t: "(if trieOff env n2 then (n2, Inr ()) else commitTrie env n2 k) = (n3, r3)"
    by fastforce
  have "history n3 = history n2"
    using t history_frames(3)[of _ n2] by (auto simp: commitTrie_def split: if_splits) (metis fst_conv)
  then show ?thesis
    using h1 h2 db t Inr by (cases r2; cases r3) (simp_all add: commits_def ledgerOf_def)
qed

lemma committer_commits: "commits n b (committer_commitBlock env n b)"
proof (cases "entriesFor env n b")
  case (Inl e)
  then show ?thesis
    by (simp add: committer_commitBlock_def commits_def)
next
  case (Inr x)
  obtain es b1 where x: "x = (es, b1)"
    by fastforce
  have b1: "baseOf b1 = baseOf b"
    using entries_base Inr x by blast
  obtain n1 r1 where t: "(if trieOff env n then (n, Inr ()) else panicSnd (applyBlockOnStateTrie env n (fst es))) = (n1, r1)"
    by fastforce
  have h1: "history n1 = history n"
    using t history_frames(3)[of _ n] by (auto simp: applyBlockOnStateTrie_def panicSnd_def split: if_splits)
  show ?thesis
  proof (cases r1)
    case (Inl e)
    then show ?thesis
      using Inr x t h1 by (simp add: committer_commitBlock_def commits_def ledgerOf_def)
  next
    case (Inr u)
    show ?thesis
    proof (cases "MPTrie_Hash (neHash env) (stateTrie n1)")
      case (Inl e)
      then show ?thesis
        using \<open>entriesFor env n b = Inr x\<close> x t h1 Inr by (simp add: committer_commitBlock_def commits_def ledgerOf_def)
    next
      case hash: (Inr rootHash)
      let ?b = "b1\<lparr>Header := (Header b1)\<lparr>StateMerkleTreeRootHash := rootHash\<rparr>\<rparr>"
      obtain n2 r2 where st: "commitToBlockStore env n1 ?b = (n2, r2)"
        by fastforce
      have "committer_commitBlock env n b = sbind (n2, wrap ''error while committing block to the block store'' r2) (\<lambda>n _. sbind (commitToDBs env n es ?b) (\<lambda>n _.
          sbind (if trieOff env n then (n, Inr ()) else commitTrie env n (block_number ?b)) (\<lambda>n _. (n, Inr ?b))))"
        using \<open>entriesFor env n b = Inr x\<close> x t Inr hash st by (simp add: committer_commitBlock_def Let_def)
      moreover have "commits n1 ?b \<dots>"
        by (rule afterStore_commits[OF st])
      ultimately show ?thesis
        using b1 h1 by (simp add: commits_def ledgerOf_def split: prod.splits sum.splits)
    qed
  qed
qed

lemma commits_panic: "commits n b x \<Longrightarrow> commits n b (case x of (n, r) \<Rightarrow> (n, panicOn r))"
  by (auto simp: commits_def panicOn_def split: prod.splits sum.splits)

lemma panicOn_Inr [simp]: "panicOn r = Inr x \<longleftrightarrow> r = Inr x"
  by (simp add: panicOn_def split: sum.splits)

lemma validateAndCommit_commits: "commits n b (validateAndCommit env n b)"
proof -
  have links: "baseOf b' = baseOf c" if "AddSkipListLinks e s c = Inr b'" for e and s :: "'x Store" and b' c
    using that by (auto simp: AddSkipListLinks_def rbind_Inr_iff split: option.splits)
  have stay: "commits n b (n, Inl e)" for e
    by (simp add: commits_def)
  have go: "commits n b (case committer_commitBlock env n c of (n, r) \<Rightarrow> (n, panicOn r))" if "baseOf c = baseOf b" for c
    using commits_panic[OF committer_commits[of n c env]] that by (auto simp: commits_def split: prod.splits sum.splits)
  show ?thesis
    by (auto simp: validateAndCommit_def Let_def stay panicOn_def[of "Inl _"] intro!: go dest!: links split: sum.splits)
qed

interpretation node_processor: block_processor "processBlock env" ledgerOf baseOf for env
proof
  fix w w' :: "('a, 'b, 'c, 'd) node" and b b' c e
  note v = validateAndCommit_commits[of w b env]
  show "processBlock env w b = (w', Inr (b', c)) \<Longrightarrow> ledgerOf w' = ledgerOf w @ [baseOf b] \<and> baseOf b' = baseOf b"
    using v by (auto simp: processBlock_def commits_def panicOn_def split: prod.splits sum.splits)
  show "processBlock env w b = (w', Inl e) \<Longrightarrow> ledgerOf w' = ledgerOf w \<or> ledgerOf w' = ledgerOf w @ [baseOf b]"
    using v by (auto simp: processBlock_def commits_def split: prod.splits sum.splits)
qed

end
