(* ===== verification/Sample_Node.thy ===== *)
theory Sample_Node
  imports Block_Processor Block_Properties Validation_Properties Index_Properties Trie_Properties
begin

text \<open>
  A node on in-memory stores, composed of the concrete instances of its components, and one that validates
  and commits a block.
\<close>

definition sample_env :: "(memdb, memdb, memdb Trie_Store.Store, unit, bytes) node_env" where
  "sample_env = \<lparr>neStore = tiny_env 0, neLdb = mem_ldb, neCodec = pb_state_codec, neUnmarshalConfig = (\<lambda>b. Inl (Err ''cannot decode'')),
     neFiles = mem_files, neTrie = store_ops pb_codec mem_ldb, neTrieFuel = 100,
     neEntries = \<lparr>eeIds = sample_codec, eeMarshalConfig = (\<lambda>c. Inl (Err ''cannot encode'')), eeMarshalIndex = (\<lambda>i. Inl (Err ''cannot encode'')), eeProvenance = False\<rparr>,
     neJson = idx_parsers, neValidator = sample_validator, neProvCommit = (\<lambda>p n d. (p, Inr ())),
     neTxJson = (\<lambda>t. Inr []), neInfoJson = (\<lambda>v. Inr [])\<rparr>"

definition sample_node :: "(memdb, memdb, memdb Trie_Store.Store, unit) node" where
  "sample_node = \<lparr>blockStore = \<lparr>chunkDir = [], filePos = 0, currentOffset = 0, currentChunkNum = 0, lastCommittedBlockNum = 0,
       blockIndexDB = RBT.empty, blockHeaderDB = RBT.empty, txValidationInfoDB = RBT.empty\<rparr>,
     worldState = new_world, provenanceStore = None,
     trieStore = \<lparr>disabled = True, trieDataDB = RBT.empty, inMemoryNodes = [], inMemoryValues = [], nodesToPersist = [], valuesToPersist = []\<rparr>,
     stateTrie = None, history = []\<rparr>"

section \<open>A node that processes a block\<close>

text \<open>The serialisation of \<open>tiny_env\<close> made total, and a node that has the first block.\<close>

definition wide_store :: "memdb store_env" where
  "wide_store = (tiny_env 0)\<lparr>seCodec := (tiny_codec 0)\<lparr>MarshalBlock := (\<lambda>b. Inr []), MarshalHeader := (\<lambda>h. Inr []), MarshalTxInfo := (\<lambda>t. Inr [])\<rparr>\<rparr>"

definition wide_env :: "(memdb, memdb, memdb Trie_Store.Store, unit, bytes) node_env" where
  "wide_env = sample_env\<lparr>neStore := wide_store\<rparr>"

definition joining_node :: "(memdb, memdb, memdb Trie_Store.Store, unit) node" where
  "joining_node = sample_node\<lparr>blockStore := (openNewStore RBT.empty)\<lparr>lastCommittedBlockNum := 1,
       blockHeaderDB := RBT.insert (constructHeaderHashKey wide_store 1) [9] RBT.empty\<rparr>, history := [tiny_block 1]\<rparr>"

lemma two_word: "1 < (2 :: 64 word)" "(2 :: 64 word) \<noteq> 1"
  by (simp_all add: word_less_nat_alt)

text \<open>The second block is validated and committed to all stores.\<close>

lemma wide_validate: "ValidateBlock (sample_validator\<lparr>VDB := db\<rparr>) (tiny_block 2) = Inr [valid_info]"
  by (simp add: ValidateBlock_def tiny_block_def tiny_header_def two_word parallelSigValidation_def validateSignatures_def sample_validator_def dataTx_validate_def)

lemma wide_links:
  assumes "block_number b = 2"
  shows "AddSkipListLinks wide_store (blockStore joining_node) b = Inr (b\<lparr>Header := (Header b)\<lparr>SkipchainHashes := [Some [9]]\<rparr>\<rparr>)"
proof -
  have "CalculateSkipListLinks 2 = Some [1]"
    using two_word by (simp add: CalculateSkipListLinks_def, subst skipListHeight.simps) (simp add: SkipListBase_def)
  moreover have "Store_GetHash wide_store (blockStore joining_node) 1 = Inr [9]"
    by (simp add: Store_GetHash_def headerDBGet_def joining_node_def Let_def mem_Get_def wrap_def) (simp add: wide_store_def mem_Get_def)
  ultimately show ?thesis
    using assms by (simp add: AddSkipListLinks_def)
qed

lemma wide_state: "\<exists>l. LevelDB_Commit mem_ldb pb_state_codec mem_files new_world [] n = (l, Inr ())"
proof -
  have "map_of new_world MetadataDBName \<noteq> None"
    by code_simp
  then show ?thesis
    by (auto simp: LevelDB_Commit_def mem_Write_def)
qed

lemma wide_commit:
  assumes "block_number b = 2" "BPayload b = BPayload (tiny_block 2)" "HValidationInfo (Header b) = [valid_info]"
  shows "\<exists>s. Store_Commit wide_store (blockStore joining_node) (Some b) = (s, Inr ())"
proof -
  obtain c where c: "blockRecord wide_store b = Inr c"
    by (simp add: blockRecord_def wide_store_def Let_def)
  have len: "length c < 1000"
    using c by (auto simp: blockRecord_def wide_store_def tiny_codec_def Let_def varint.simps)
  obtain hb where "headerBatch wide_store b = Inr hb"
    using assms(2) by (simp add: headerBatch_def wide_store_def ComputeBlockHash_def ComputeBlockBaseHash_def BlockPayloadToTxIDs_def tiny_block_def tiny_codec_def Let_def)
  moreover obtain vb where "validationBatch wide_store b = Inr vb"
    using assms(2,3) by (simp add: validationBatch_def validationAt_def wide_store_def tiny_block_def)
  ultimately show ?thesis
    using assms(1) c len by (simp add: Store_Commit_def joining_node_def canCurrentFileChunkHold_def chunkSizeLimit_def openNewStore_def)
      (simp add: appendBlock_def calm_def storeMetadataInDB_def storeIndexForBlock_def storeBlockValidationInfo_def storeBlockHeaders_def
       wide_store_def tiny_codec_def mem_Write_def firstError_def Let_def)
qed

lemma wide_hashes:
  assumes "BPayload b = BPayload (tiny_block 2)" "HValidationInfo (Header b) = [valid_info]"
  shows "\<exists>t. BuildTreeForBlockTx wide_env b = Inr t"
  using assms by (simp add: BuildTreeForBlockTx_def calculateBlockTxHashes_def tiny_block_def calculateTxHash_def wide_env_def sample_env_def)

lemma wide_entries:
  assumes "BPayload b = BPayload (tiny_block 2)" "HValidationInfo (Header b) = [valid_info]"
  shows "entriesFor wide_env joining_node b = Inr (([], []), b)"
  using assms by (simp add: entriesFor_def constructDBAndProvenanceEntries_def tiny_block_def wide_env_def sample_env_def joining_node_def sample_node_def
    AddDBEntriesForDataTx_def)

lemma wide_committer:
  assumes "block_number b = 2" "BPayload b = BPayload (tiny_block 2)" "HValidationInfo (Header b) = [valid_info]"
  shows "\<exists>n. committer_commitBlock wide_env joining_node b = (n, Inr (b\<lparr>Header := (Header b)\<lparr>StateMerkleTreeRootHash := None\<rparr>\<rparr>))"
proof -
  let ?b = "b\<lparr>Header := (Header b)\<lparr>StateMerkleTreeRootHash := None\<rparr>\<rparr>"
  have off: "trieOff wide_env (joining_node\<lparr>blockStore := s, history := h\<rparr>)" "trieOff wide_env joining_node" for s h
    by (simp_all add: trieOff_def wide_env_def sample_env_def joining_node_def sample_node_def store_ops_def)
  obtain s where s: "Store_Commit wide_store (blockStore joining_node) (Some ?b) = (s, Inr ())"
    using wide_commit[of ?b] assms by auto
  obtain l where l: "LevelDB_Commit mem_ldb pb_state_codec mem_files new_world [] 2 = (l, Inr ())"
    using wide_state by blast
  have off3: "trieOff wide_env (joining_node\<lparr>blockStore := s, history := h, worldState := w\<rparr>)" for s h w
    by (simp add: trieOff_def wide_env_def sample_env_def joining_node_def sample_node_def store_ops_def)
  have nd: "worldState joining_node = new_world" "provenanceStore joining_node = None" "stateTrie joining_node = None"
    "neStore wide_env = wide_store" "neLdb wide_env = mem_ldb" "neCodec wide_env = pb_state_codec" "neFiles wide_env = mem_files"
    by (simp_all add: joining_node_def sample_node_def wide_env_def sample_env_def)
  have ix: "ConstructIndexEntries jp [] db = Inr []" for jp db
    by (simp add: ConstructIndexEntries_def)
  show ?thesis
    using assms s l
    by (simp add: committer_commitBlock_def wide_entries off off3 MPTrie_Hash_def nd ix commitToBlockStore_def commitToDBs_def commitToProvenanceStore_def commitToStateDB_def Let_def)
qed

lemma wide_process: "\<exists>n' b'. processBlock wide_env joining_node (tiny_block 2) = (n', Inr (b', None))"
proof -
  let ?b = "(tiny_block 2)\<lparr>Header := (Header (tiny_block 2))\<lparr>HValidationInfo := [valid_info], SkipchainHashes := [Some [9]]\<rparr>\<rparr>"
  have nd: "neStore wide_env = wide_store" "neValidator wide_env = sample_validator"
    by (simp_all add: wide_env_def sample_env_def)
  obtain t where t: "BuildTreeForBlockTx wide_env ?b = Inr t"
    using wide_hashes[of ?b] by auto
  let ?c = "?b\<lparr>Header := (Header ?b)\<lparr>TxMerkleTreeRootHash := Hash t\<rparr>\<rparr>"
  obtain n where "committer_commitBlock wide_env joining_node ?c = (n, Inr (?c\<lparr>Header := (Header ?c)\<lparr>StateMerkleTreeRootHash := None\<rparr>\<rparr>))"
    using wide_committer[of ?c] by auto
  moreover obtain es where "BPayload (tiny_block 2) = Some (Block_DataTxEnvelopes es)"
    by (simp add: tiny_block_def)
  ultimately show ?thesis
    using t by (simp add: processBlock_def validateAndCommit_def nd wide_validate wide_links panicOn_def reConfigOf_def)
qed

end
