(* ===== verification/Replicator_Properties.thy ===== *)
theory Replicator_Properties
  imports Replicator_Start Sample_Node
begin

text \<open>
  Properties of the block replicator: the ledger follows the Raft log, the blocks a leader proposes form a
  chain, what an early commit of a configuration block does to the propose loop, where a snapshot is
  taken, and that on-boarding fetches what is missing.
\<close>

section \<open>Proposing and committing as a leader\<close>

text \<open>
  The propose loop and the event loop of a node that leads. Between the preparation of a proposal and
  \<^verbatim>\<open>updateLastProposal\<close> the loop holds the proposed block (\<open>inHand\<close>) while other go-routines run; after it the loop waits
  until there is room and no configuration block is in flight (\<open>waiting\<close>). \<open>proposed\<close> records the blocks Raft has
  taken. The answers of Raft and of the validator, and the blocks that commit, are arbitrary.
\<close>

record proposer =
  replicator :: BlockReplicator
  pending :: PendingTxs
  inHand :: "Block option"
  waiting :: bool
  proposed :: "Block list"

definition proposer_start :: "BlockReplicator \<Rightarrow> PendingTxs \<Rightarrow> proposer" where
  "proposer_start br p = \<lparr>replicator = br, pending = p, inHand = None, waiting = False, proposed = []\<rparr>"

inductive leaderStep :: "'d store_env \<Rightarrow> proposer \<Rightarrow> proposer \<Rightarrow> bool" for env where
  propose: "inHand s = None \<Longrightarrow> \<not> waiting s \<Longrightarrow> proposeBlock env raft validate (replicator s) (pending s) b = Inr (p, r) \<Longrightarrow>
    leaderStep env s (s\<lparr>pending := p, inHand := r, proposed := proposed s @ (case r of None \<Rightarrow> [] | Some b' \<Rightarrow> [b'])\<rparr>)"
| record_proposal: "inHand s = Some b \<Longrightarrow> updateLastProposal env (replicator s) b = Inr br \<Longrightarrow>
    leaderStep env s (s\<lparr>replicator := br, inHand := None, waiting := True\<rparr>)"
| wake: "waiting s \<Longrightarrow> proposeLoopWaits (replicator s) = Inr False \<Longrightarrow> leaderStep env s (s\<lparr>waiting := False\<rparr>)"
| commit_block: "setLastCommittedBlock (replicator s) b = Inr br \<Longrightarrow> leaderStep env s (s\<lparr>replicator := br\<rparr>)"
| reconfigure: "updateClusterConfig updatePeers (replicator s) config = Inr br \<Longrightarrow> leaderStep env s (s\<lparr>replicator := br\<rparr>)"

inductive leaderReach :: "'d store_env \<Rightarrow> proposer \<Rightarrow> proposer \<Rightarrow> bool" for env s0 where
  leader_init: "leaderReach env s0 s0"
| leader_next: "leaderReach env s0 s \<Longrightarrow> leaderStep env s s' \<Longrightarrow> leaderReach env s0 s'"

text \<open>The blocks continue a chain: numbers in sequence, each with the hash of the base header before it.\<close>

fun baseChain :: "'d store_env \<Rightarrow> 64 word \<Rightarrow> slice \<Rightarrow> Block list \<Rightarrow> bool" where
  "baseChain env n hs [] = True"
| "baseChain env n hs (b # bs) \<longleftrightarrow> block_number b = n + 1 \<and> PreviousBaseHeaderHash (BaseHeader (Header b)) = hs
     \<and> (\<exists>x. ComputeBlockBaseHash env b = Inr x \<and> baseChain env (n + 1) (Some x) bs)"

definition headersMarshal :: "'d store_env \<Rightarrow> bool" where
  "headersMarshal env \<longleftrightarrow> (\<forall>b. \<not> isl (ComputeBlockHash env b)) \<and> (\<forall>b. \<not> isl (ComputeBlockBaseHash env b))"

lemma headersMarshal_hashes:
  assumes "headersMarshal env"
  obtains x y where "ComputeBlockHash env b = Inr x" "ComputeBlockBaseHash env b = Inr y"
  using assms that
  by (cases "ComputeBlockHash env b"; cases "ComputeBlockBaseHash env b") (auto simp: headersMarshal_def dest: spec[of _ b])

definition readyLeader :: "BlockReplicator \<Rightarrow> bool" where
  "readyLeader br \<longleftrightarrow> isLeaderReady br = None \<and> lastCommittedBlock br \<noteq> None"

lemma insertBlockBaseHeader_ok:
  assumes "headersMarshal env" "lastCommittedBlock br \<noteq> None"
  obtains b' where "insertBlockBaseHeader env br b = Inr b'" "block_number b' = lastProposedBlockNumber br + 1"
    "PreviousBaseHeaderHash (BaseHeader (Header b')) = lastProposedBlockHeaderBaseHash br" "BPayload b' = BPayload b"
proof -
  obtain c where c: "lastCommittedBlock br = Some c"
    using assms(2) by blast
  obtain x where "ComputeBlockHash env c = Inr x"
    using headersMarshal_hashes[OF assms(1)] by blast
  then show ?thesis
    using that c by (cases "1 < lastProposedBlockNumber br + 1") (simp_all add: insertBlockBaseHeader_def Let_def)
qed

lemma proposeWith_block:
  assumes "proposeWith env raft msg br p b = Inr (p', Some b')"
  shows "insertBlockBaseHeader env br b = Inr b'"
proof -
  obtain q prep where q: "prepareProposal env br p b = Inr (q, prep)"
    using assms by (auto simp: proposeWith_def rbind_Inr_iff)
  then obtain bs where "prep = Some (b', bs)"
    using assms by (auto simp: proposeWith_def rbind_Inr_iff split: option.splits)
  moreover obtain b1 where b1: "insertBlockBaseHeader env br b = Inr b1"
    using q \<open>prep = Some (b', bs)\<close> by (auto simp: prepareProposal_def rbind_Inr_iff split: option.splits)
  ultimately show ?thesis
    using q by (cases "MarshalBlock (seCodec env) b1") (auto simp: prepareProposal_def rbind_Inr_iff split: option.splits)
qed

lemma proposeBlock_block:
  assumes "proposeBlock env raft validate br p b = Inr (p', Some b')"
  shows "insertBlockBaseHeader env br b = Inr b'"
  using assms proposeWith_block
  by (auto simp: proposeBlock_def proposeRegular_def proposeMembershipConfigChange_def declineProposal_def rbind_Inr_iff nilPointer_def Let_def
      split: option.splits Payload.splits sum.splits if_splits prod.splits go_error.splits)

lemma updateLastProposal_ok:
  assumes "headersMarshal env" "readyLeader br" "inFlightConfigBlockNumber br = 0"
  obtains br' x where "updateLastProposal env br b = Inr br'" "ComputeBlockBaseHash env b = Inr x" "readyLeader br'"
    "lastProposedBlockNumber br' = block_number b" "lastProposedBlockHeaderBaseHash br' = Some x"
proof -
  obtain x where "ComputeBlockBaseHash env b = Inr x"
    using headersMarshal_hashes[OF assms(1)] by blast
  then show ?thesis
    using that assms(2,3)
    by (cases "IsConfigBlock b") (auto simp: updateLastProposal_def readyLeader_def isLeader_def isLeaderReady_def Let_def split: if_splits)
qed

lemma setLastCommittedBlock_ok:
  assumes "readyLeader br" "setLastCommittedBlock br b = Inr br'"
  shows "readyLeader br'" "lastProposedBlockNumber br' = lastProposedBlockNumber br"
    "lastProposedBlockHeaderBaseHash br' = lastProposedBlockHeaderBaseHash br"
    "inFlightConfigBlockNumber br' = 0 \<or> inFlightConfigBlockNumber br' = inFlightConfigBlockNumber br"
  using assms by (auto simp: setLastCommittedBlock_def readyLeader_def isLeaderReady_def Let_def split: if_splits)

text \<open>The end of the chain so far: the number and base hash after which the next block is numbered.\<close>

fun chainEnd :: "'d store_env \<Rightarrow> 64 word \<Rightarrow> slice \<Rightarrow> Block list \<Rightarrow> 64 word \<times> slice" where
  "chainEnd env n hs [] = (n, hs)"
| "chainEnd env n hs (b # bs) = (case ComputeBlockBaseHash env b of Inl _ \<Rightarrow> (n, hs) | Inr x \<Rightarrow> chainEnd env (block_number b) (Some x) bs)"

lemma baseChain_prefix: "baseChain env n hs (bs @ cs) \<Longrightarrow> baseChain env n hs bs"
  by (induction bs arbitrary: n hs) auto

lemma chainEnd_snoc:
  assumes "ComputeBlockBaseHash env b = Inr x" "baseChain env n hs bs"
  shows "chainEnd env n hs (bs @ [b]) = (block_number b, Some x)"
  using assms by (induction bs arbitrary: n hs) auto

lemma baseChain_snoc:
  assumes "baseChain env n hs bs" "chainEnd env n hs bs = (m, hm)" "block_number b = m + 1"
    and "PreviousBaseHeaderHash (BaseHeader (Header b)) = hm" "ComputeBlockBaseHash env b = Inr x"
  shows "baseChain env n hs (bs @ [b])"
  using assms by (induction bs arbitrary: n hs) auto

text \<open>
  A block in hand is the last of the chain and the replicator still has the end before it; a
  configuration block is in flight only while the loop waits.
\<close>

definition leaderInv :: "'d store_env \<Rightarrow> 64 word \<Rightarrow> slice \<Rightarrow> proposer \<Rightarrow> bool" where
  "leaderInv env n hs s \<longleftrightarrow> readyLeader (replicator s) \<and> baseChain env n hs (proposed s)
     \<and> (waiting s \<longrightarrow> inHand s = None) \<and> (inFlightConfigBlockNumber (replicator s) \<noteq> 0 \<longrightarrow> waiting s)
     \<and> (case inHand s of
          None \<Rightarrow> chainEnd env n hs (proposed s) = (lastProposedBlockNumber (replicator s), lastProposedBlockHeaderBaseHash (replicator s))
        | Some b \<Rightarrow> proposed s \<noteq> [] \<and> last (proposed s) = b)"

lemma leaderInv_step:
  assumes "headersMarshal env" "leaderStep env s s'" "leaderInv env n hs s"
  shows "leaderInv env n hs s'"
  using assms(2)
proof cases
  case (propose raft validate b p r)
  show ?thesis
  proof (cases r)
    case None
    then show ?thesis
      using propose assms(3) by (simp add: leaderInv_def)
  next
    case (Some b')
    have lc: "lastCommittedBlock (replicator s) \<noteq> None"
      using assms(3) by (simp add: leaderInv_def readyLeader_def)
    obtain b1 where b1: "insertBlockBaseHeader env (replicator s) b = Inr b1" "block_number b1 = lastProposedBlockNumber (replicator s) + 1"
        "PreviousBaseHeaderHash (BaseHeader (Header b1)) = lastProposedBlockHeaderBaseHash (replicator s)"
      by (rule insertBlockBaseHeader_ok[OF assms(1) lc, of b]) (rule that)
    have "b1 = b'"
      using proposeBlock_block propose(4) Some b1(1) by fastforce
    moreover obtain x where "ComputeBlockBaseHash env b' = Inr x"
      using headersMarshal_hashes[OF assms(1)] by blast
    ultimately have "baseChain env n hs (proposed s @ [b'])"
      using assms(3) propose(2) b1 by (intro baseChain_snoc) (auto simp: leaderInv_def)
    then show ?thesis
      using propose Some assms(3) by (simp add: leaderInv_def)
  qed
next
  case (record_proposal b br)
  have "readyLeader (replicator s)" "inFlightConfigBlockNumber (replicator s) = 0" and b: "proposed s \<noteq> []" "last (proposed s) = b"
    and chain: "baseChain env n hs (proposed s)"
    using assms(3) record_proposal(2) by (auto simp: leaderInv_def)
  from updateLastProposal_ok[OF assms(1) this(1,2), of b] record_proposal(3)
  obtain x where x: "ComputeBlockBaseHash env b = Inr x" "readyLeader br" "lastProposedBlockNumber br = block_number b"
      "lastProposedBlockHeaderBaseHash br = Some x"
    by auto
  obtain bs where bs: "proposed s = bs @ [b]"
    using b by (metis append_butlast_last_id)
  then have "chainEnd env n hs (proposed s) = (block_number b, Some x)"
    using chainEnd_snoc[OF x(1) baseChain_prefix] chain by metis
  then show ?thesis
    using record_proposal(1) x(2-4) chain by (simp add: leaderInv_def)
next
  case wake
  have "inFlightConfigBlockNumber (replicator s) = 0"
    using wake(3) by (auto simp: proposeLoopWaits_def rbind_Inr_iff inFlightConfig_def word_gt_0)
  then show ?thesis
    using wake assms(3) by (auto simp: leaderInv_def)
next
  case (commit_block b br)
  have "readyLeader (replicator s)"
    using assms(3) by (simp add: leaderInv_def)
  from setLastCommittedBlock_ok[OF this commit_block(2)] show ?thesis
    using assms(3) commit_block(1) by (auto simp: leaderInv_def split: option.splits)
next
  case (reconfigure updatePeers config br)
  have "readyLeader br = readyLeader (replicator s)"
    unfolding updateClusterConfig_frame[OF reconfigure(2)] by (simp add: readyLeader_def isLeaderReady_def)
  then show ?thesis
    using updateClusterConfig_frame[OF reconfigure(2)] assms(3) reconfigure(1) by (auto simp: leaderInv_def split: option.splits)
qed

text \<open>
  C37. The proposals of a leader. A node that leads and has no configuration block in flight handles
  data, administration and configuration blocks one after the other, while blocks commit and the
  cluster configuration is updated at any time, also between the preparation of a proposal and its
  record. As long as it leads, the blocks Raft has taken from it form one chain: their numbers follow
  the last one proposed before without a gap, and each carries the hash of the base header of the one
  before. Moreover the propose loop does not panic: a block it has in hand can be recorded, in
  particular there is no second configuration block in flight, and the next block can be numbered.
\<close>

theorem proposals_form_chain:
  assumes "headersMarshal env" "readyLeader br" "inFlightConfigBlockNumber br = 0" "leaderReach env (proposer_start br p) s"
  shows "baseChain env (lastProposedBlockNumber br) (lastProposedBlockHeaderBaseHash br) (proposed s)
    \<and> (\<forall>b. inHand s = Some b \<longrightarrow> (\<exists>br'. updateLastProposal env (replicator s) b = Inr br'))
    \<and> (\<forall>b. \<exists>b'. insertBlockBaseHeader env (replicator s) b = Inr b')"
proof -
  have inv: "leaderInv env (lastProposedBlockNumber br) (lastProposedBlockHeaderBaseHash br) s"
    using assms(4)
  proof induction
    case leader_init
    then show ?case
      using assms(2,3) by (simp add: leaderInv_def proposer_start_def)
  next
    case (leader_next s s')
    then show ?case
      using leaderInv_step[OF assms(1)] by blast
  qed
  have "\<exists>br'. updateLastProposal env (replicator s) b = Inr br'" if "inHand s = Some b" for b
    using inv that updateLastProposal_ok[OF assms(1), of "replicator s" b] by (auto simp: leaderInv_def)
  moreover have "\<exists>b'. insertBlockBaseHeader env (replicator s) b = Inr b'" for b
    using inv insertBlockBaseHeader_ok[OF assms(1), of "replicator s" b] by (metis leaderInv_def readyLeader_def)
  ultimately show ?thesis
    using inv by (simp add: leaderInv_def)
qed

text \<open>The codec of the witnesses, with every block and header accepted.\<close>

definition total_env :: "memdb store_env" where
  "total_env = \<lparr>seDB = mem_ldb, seCodec = (tiny_codec 0)\<lparr>MarshalBlock := (\<lambda>b. Inr []), MarshalHeader := (\<lambda>g. Inr (varint (unat (Number (BaseHeader g)))))\<rparr>, seIO = calm, seHash = checksum\<rparr>"

definition block_with :: "64 word \<Rightarrow> Payload option \<Rightarrow> Block" where
  "block_with n p = (tiny_block n)\<lparr>BPayload := p\<rparr>"

definition sample_leader :: BlockReplicator where
  "sample_leader = \<lparr>raftID = 1, clusterConfig = \<lparr>Nodes = [], Admins = [], CertAuthConfig = None, ConsensusConf = None, LedgerConf = None\<rparr>,
     joinExistingCluster = False, finishedJoin = False, lastKnownLeader = 1, lastKnownLeaderHost = ''host:1'', justElectedInFlightBlocks = False,
     lastProposedBlockNumber = 7, lastProposedBlockHeaderBaseHash = Some [7], lastCommittedBlock = Some (tiny_block 6),
     numInFlightBlocks = 1, inFlightConfigBlockNumber = 0, appliedIndex = 9, sizeLimit = 1, accDataSize = 0, lastSnapBlockNum = 0, confState = [1]\<rparr>"

lemma total_env_marshal: "headersMarshal total_env"
  by (simp add: headersMarshal_def ComputeBlockHash_def ComputeBlockBaseHash_def total_env_def tiny_codec_def)

definition sample_pending :: PendingTxs where
  "sample_pending = \<lparr>ptxs = [], pheap = \<lambda>_. \<lparr>resultCh = None, promiseClosed = False, promiseTimeout = 0\<rparr>\<rparr>"

lemma propose_sample:
  "\<exists>b. proposeBlock total_env (\<lambda>_. None) (\<lambda>_. Inr valid_info) sample_leader p (tiny_block 0) = Inr (p, Some b)"
proof -
  have "lastCommittedBlock sample_leader \<noteq> None"
    by (simp add: sample_leader_def)
  then obtain b where "insertBlockBaseHeader total_env sample_leader (tiny_block 0) = Inr b"
    using insertBlockBaseHeader_ok[OF total_env_marshal] by blast
  moreover have "isLeaderReady sample_leader = None" "MarshalBlock (seCodec total_env) b = Inr []"
    by (simp_all add: isLeaderReady_def sample_leader_def total_env_def)
  moreover obtain es where "BPayload (tiny_block 0) = Some (Block_DataTxEnvelopes es)"
    by (simp add: tiny_block_def)
  ultimately show ?thesis
    by (simp add: proposeBlock_def proposeRegular_def proposeWith_def prepareProposal_def)
qed

text \<open>A block is proposed and, before it is recorded, the block before it commits.\<close>

theorem proposals_form_chain_witness:
  "\<exists>s b. leaderReach total_env (proposer_start sample_leader sample_pending) s \<and> inHand s = Some b
    \<and> lastCommittedBlock (replicator s) = Some (tiny_block 7) \<and> baseChain total_env 7 (Some [7]) [b]
    \<and> (\<exists>br'. updateLastProposal total_env (replicator s) b = Inr br')"
proof -
  let ?p = sample_pending
  let ?s = "proposer_start sample_leader ?p"
  have l: "readyLeader sample_leader" "inFlightConfigBlockNumber sample_leader = 0" "isLeaderReady sample_leader = None"
    by (simp_all add: readyLeader_def isLeaderReady_def sample_leader_def)
  obtain b where b: "proposeBlock total_env (\<lambda>_. None) (\<lambda>_. Inr valid_info) sample_leader ?p (tiny_block 0) = Inr (?p, Some b)"
    using propose_sample by blast
  let ?s1 = "?s\<lparr>pending := ?p, inHand := Some b, proposed := [b]\<rparr>"
  have s1: "leaderStep total_env ?s ?s1"
    using leaderStep.propose[of ?s total_env "\<lambda>_. None" "\<lambda>_. Inr valid_info" "tiny_block 0" ?p "Some b"] b by (simp add: proposer_start_def)
  obtain br where br: "setLastCommittedBlock sample_leader (tiny_block 7) = Inr br" "lastCommittedBlock br = Some (tiny_block 7)"
    by (simp add: setLastCommittedBlock_def sample_leader_def Let_def)
  have "leaderStep total_env ?s1 (?s1\<lparr>replicator := br\<rparr>)"
    using br(1) by (intro leaderStep.commit_block) (simp add: proposer_start_def)
  then have reach: "leaderReach total_env ?s (?s1\<lparr>replicator := br\<rparr>)"
    using leader_next[OF leader_next[OF leader_init s1]] by blast
  show ?thesis
    using proposals_form_chain[OF total_env_marshal l(1,2) reach] reach br(2)
    by (intro exI[of _ "?s1\<lparr>replicator := br\<rparr>"] exI[of _ b]) (simp add: sample_leader_def proposer_start_def)
qed

section \<open>A configuration block in flight\<close>

definition leading :: "BlockReplicator \<Rightarrow> bool" where
  "leading br \<longleftrightarrow> isLeader br = None \<and> lastCommittedBlock br \<noteq> None \<and> inFlightConfigBlockNumber br = 0"

lemma leading_commit:
  assumes "leading br"
  shows "\<exists>br'. setLastCommittedBlock br b = Inr br' \<and> leading br'"
  using assms by (cases "0 < numInFlightBlocks br") (simp_all add: setLastCommittedBlock_def leading_def isLeader_def Let_def split: if_splits)

fun commitAll :: "BlockReplicator \<Rightarrow> Block list \<Rightarrow> BlockReplicator res" where
  "commitAll br [] = Inr br"
| "commitAll br (b # bs) = rbind (setLastCommittedBlock br b) (\<lambda>br. commitAll br bs)"

lemma commitAll_keeps_config:
  assumes "\<forall>c \<in> set cs. \<not> IsConfigBlock c"
  shows "\<exists>br'. commitAll br cs = Inr br' \<and> inFlightConfigBlockNumber br' = inFlightConfigBlockNumber br \<and> clusterConfig br' = clusterConfig br"
  using assms
proof (induction cs arbitrary: br)
  case (Cons c cs)
  then obtain br1 where "setLastCommittedBlock br c = Inr br1" "inFlightConfigBlockNumber br1 = inFlightConfigBlockNumber br" "clusterConfig br1 = clusterConfig br"
    by (simp add: setLastCommittedBlock_def Let_def)
  then show ?case
    using Cons.IH[of br1] Cons.prems by auto
qed simp

lemma inFlight_waits: "inFlightConfig br \<Longrightarrow> proposeLoopWaits br \<noteq> Inr False"
  by (cases "tooManyInFlightBlocks br") (simp_all add: proposeLoopWaits_def)

text \<open>
  C38. When the propose loop records a configuration block as proposed before the block is committed,
  its commit clears the record and the loop goes on. When the commit comes first, because the event loop
  is faster than the propose loop between \<^verbatim>\<open>Propose\<close> and \<^verbatim>\<open>updateLastProposal\<close>, the block is recorded as
  in flight after it was committed: no later commit of other blocks clears the record, and the propose
  loop waits as long as the node stays the leader.
\<close>

theorem early_config_commit_stops_proposals:
  assumes "headersMarshal env" "leading br" "IsConfigBlock b" "block_number b \<noteq> 0" "\<forall>c \<in> set cs. \<not> IsConfigBlock c"
  shows "(\<exists>br'. rbind (updateLastProposal env br b) (\<lambda>br. setLastCommittedBlock br b) = Inr br' \<and> \<not> inFlightConfig br')
    \<and> (\<exists>br'. rbind (setLastCommittedBlock br b) (\<lambda>br. rbind (updateLastProposal env br b) (\<lambda>br. commitAll br cs)) = Inr br'
        \<and> inFlightConfig br' \<and> proposeLoopWaits br' \<noteq> Inr False)"
proof
  obtain x where x: "ComputeBlockBaseHash env b = Inr x"
    using assms(1) by (cases "ComputeBlockBaseHash env b") (auto simp: headersMarshal_def dest: spec[of _ b])
  have pos: "0 < block_number b" "isLeader br = None"
    using assms(2,4) by (auto simp: leading_def word_gt_0)
  let ?br = "br\<lparr>lastProposedBlockNumber := block_number b, lastProposedBlockHeaderBaseHash := Some x,
      numInFlightBlocks := numInFlightBlocks br + 1, inFlightConfigBlockNumber := block_number b\<rparr>"
  have "updateLastProposal env br b = Inr ?br"
    using assms(2,3) x pos(2) by (simp add: updateLastProposal_def leading_def Let_def)
  then show "\<exists>br'. rbind (updateLastProposal env br b) (\<lambda>br. setLastCommittedBlock br b) = Inr br' \<and> \<not> inFlightConfig br'"
    using assms(3) pos by (simp add: setLastCommittedBlock_def inFlightConfig_def Let_def)
  obtain br1 where br1: "setLastCommittedBlock br b = Inr br1" "leading br1"
    using leading_commit[OF assms(2)] by blast
  obtain br2 where br2: "updateLastProposal env br1 b = Inr br2" "inFlightConfigBlockNumber br2 = block_number b"
    using br1(2) assms(3) x by (simp add: updateLastProposal_def leading_def Let_def)
  obtain br3 where "commitAll br2 cs = Inr br3" "inFlightConfigBlockNumber br3 = block_number b"
    using commitAll_keeps_config[OF assms(5), of br2] br2(2) by auto
  then show "\<exists>br'. rbind (setLastCommittedBlock br b) (\<lambda>br. rbind (updateLastProposal env br b) (\<lambda>br. commitAll br cs)) = Inr br'
      \<and> inFlightConfig br' \<and> proposeLoopWaits br' \<noteq> Inr False"
    using br1 br2 pos(1) inFlight_waits[of br3] by (simp add: inFlightConfig_def)
qed

definition sample_config_block :: Block where
  "sample_config_block = block_with 7 (Some (Block_ConfigTxEnvelope \<lparr>CPayload = \<lparr>CUserId = ''admin'', CTxId = ''t'', ReadOldConfigVersion = None, NewConfig = None\<rparr>, CSignature = None\<rparr>))"

theorem early_config_commit_stops_proposals_witness:
  "IsConfigBlock sample_config_block
    \<and> (\<exists>br'. rbind (updateLastProposal total_env sample_leader sample_config_block) (\<lambda>br. setLastCommittedBlock br sample_config_block) = Inr br' \<and> \<not> inFlightConfig br')
    \<and> (\<exists>br'. rbind (setLastCommittedBlock sample_leader sample_config_block) (\<lambda>br. rbind (updateLastProposal total_env br sample_config_block)
          (\<lambda>br. commitAll br [tiny_block 8, tiny_block 9])) = Inr br' \<and> inFlightConfig br' \<and> proposeLoopWaits br' \<noteq> Inr False)"
proof -
  have "leading sample_leader"
    by (simp add: leading_def isLeader_def sample_leader_def)
  then show ?thesis
    using early_config_commit_stops_proposals[OF total_env_marshal, of sample_leader sample_config_block "[tiny_block 8, tiny_block 9]"]
    by (simp add: IsConfigBlock_def tiny_block_def tiny_header_def sample_config_block_def block_with_def)
qed

section \<open>The ledger and the Raft log\<close>

text \<open>Batches of committed entries, as the event loop delivers them; the batch \<open>(i, j)\<close> is \<open>j\<close> entries from position \<open>i\<close>.\<close>

fun deliverBatches ::
  "'d store_env \<Rightarrow> raft_node \<Rightarrow> 'm raft_libs \<Rightarrow> 'w processor \<Rightarrow> (ClusterConfig \<Rightarrow> go_error option) \<Rightarrow> ('m, 'w) delivery \<Rightarrow> raft_entry list list
   \<Rightarrow> ('m, 'w) delivery \<times> bool res" where
  "deliverBatches env node libs process u s [] = (s, Inr True)"
| "deliverBatches env node libs process u s (es # ess) =
     sbind (deliverEntries env node libs process u s es) (\<lambda>s ok.
     if ok then deliverBatches env node libs process u s ess else (s, Inr False))"

fun gapless :: "nat \<Rightarrow> nat \<Rightarrow> (nat \<times> nat) list \<Rightarrow> bool" where
  "gapless len n [] = True"
| "gapless len n ((i, j) # bs) \<longleftrightarrow> i \<le> n \<and> 0 < j \<and> i + j \<le> len \<and> gapless len (max n (i + j)) bs"

definition reach :: "nat \<Rightarrow> (nat \<times> nat) list \<Rightarrow> nat" where
  "reach n bs = fold (\<lambda>(i, j) n. max n (i + j)) bs n"

definition batches :: "raft_entry list \<Rightarrow> (nat \<times> nat) list \<Rightarrow> raft_entry list list" where
  "batches L bs = map (\<lambda>(i, j). take j (drop i L)) bs"

context block_processor
begin

lemma deliverBatches_follows:
  assumes "raftLog node L" "followsLog env node L ledger key base n s" "gapless (length L) n bs"
    "deliverBatches env node libs process u s (batches L bs) = (s', r)"
  shows "(r = Inr True \<longrightarrow> followsLog env node L ledger key base (reach n bs) s')
    \<and> (\<exists>m. n \<le> m \<and> m \<le> length L \<and> ledger (world s') = base @ map key (logBlocks env node L m))"
  using assms(2-)
proof (induction bs arbitrary: n s)
  case Nil
  then show ?case
    by (auto simp: batches_def reach_def followsLog_def)
next
  case (Cons b bs)
  obtain i j where b: "b = (i, j)"
    by fastforce
  have bounds: "i \<le> n" "0 < j" "i + j \<le> length L"
    using Cons.prems(2) b by simp_all
  obtain s1 r1 where d: "deliverEntries env node libs process u s (take j (drop i L)) = (s1, r1)"
    by fastforce
  note f = deliverEntries_follows[OF Cons.prems(1) assms(1) bounds d]
  show ?case
  proof (cases "r1 = Inr True")
    case True
    then have "deliverBatches env node libs process u s1 (batches L bs) = (s', r)"
      using Cons.prems(3) d b by (simp add: batches_def)
    moreover have "gapless (length L) (max n (i + j)) bs"
      using Cons.prems(2) b by simp
    ultimately show ?thesis
      using Cons.IH[OF f(1)[OF True]] b by (auto simp: reach_def)
  next
    case False
    then have "s' = s1" "r \<noteq> Inr True"
      using Cons.prems(3) d b by (cases r1; auto simp: batches_def)+
    then show ?thesis
      using f(2) by simp
  qed
qed

end

text \<open>
  C35. The Raft log decides the ledger. However the log is cut into batches, and however often a prefix
  is delivered again, the blocks the block store of the node has accepted are the blocks of a prefix of
  the log, each once and in the order of the log; when every delivery succeeds the prefix is the longest
  one delivered. Blocks are compared by their base header, the part of a block that is fixed when it is
  proposed.
\<close>

theorem ledger_follows_raft_log:
  assumes "raftLog node L" "followsLog (neStore env) node L ledgerOf baseOf base n s" "gapless (length L) n bs"
    "deliverBatches (neStore env) node libs (processBlock env) u s (batches L bs) = (s', r)"
  shows "(r = Inr True \<longrightarrow> followsLog (neStore env) node L ledgerOf baseOf base (reach n bs) s')
    \<and> (\<exists>m. n \<le> m \<and> m \<le> length L \<and> ledgerOf (world s') = base @ map baseOf (logBlocks (neStore env) node L m))"
  using assms by (rule node_processor.deliverBatches_follows)

text \<open>A log that begins like every log: a peer, and the empty entry of a new leader.\<close>

definition sample_raft :: raft_node where
  "sample_raft = \<lparr>unmarshalCC = (\<lambda>b. Inr (0, of_nat (length b))), unmarshalCCV2 = (\<lambda>b. Inr \<lparr>ccChanges = [], ccContext = Some b\<rparr>),
     applyCC = (\<lambda>vs c. vs @ [snd c]), applyCCV2 = (\<lambda>vs cs. vs)\<rparr>"

definition sample_libs :: "unit raft_libs" where
  "sample_libs = \<lparr>walSave = (\<lambda>es. None), walSaveSnapshot = (\<lambda>i t. None), snapSave = (\<lambda>s. None), walReleaseLockTo = (\<lambda>i. None),
     msSnapshot = (\<lambda>m. \<lparr>snapData = None, snapVoters = [], snapIndex = 0, snapTerm = 0\<rparr>), msLastIndex = (\<lambda>m. 0),
     msCreateSnapshot = (\<lambda>m i cs d. (m, Inr \<lparr>snapData = d, snapVoters = cs, snapIndex = i, snapTerm = 1\<rparr>)),
     msApplySnapshot = (\<lambda>m s. (m, Inr ())), msAppend = (\<lambda>m es. (m, Inr ())),
     msCompact = (\<lambda>m i. (m, Inr ())), IsEmptySnap = (\<lambda>s. snapIndex s = 0), ErrSnapOutOfDate = Err ''out of date'', ErrCompacted = Err ''compacted''\<rparr>"

definition sample_log :: "raft_entry list" where
  "sample_log = [\<lparr>eTerm = 1, eIndex = 1, eType = EntryConfChange, eData = Some [1]\<rparr>, \<lparr>eTerm = 2, eIndex = 2, eType = EntryNormal, eData = None\<rparr>]"

definition sample_start :: "(unit, (memdb, memdb, memdb Trie_Store.Store, unit) node) delivery" where
  "sample_start = \<lparr>rep = sample_leader\<lparr>appliedIndex := 0\<rparr>, storage = \<lparr>SnapshotCatchUpEntries = 4, MemoryStorage = (), snapshotIndex = []\<rparr>, world = sample_node\<rparr>"

theorem ledger_follows_raft_log_witness:
  "\<exists>s'. deliverBatches (neStore sample_env) sample_raft sample_libs (processBlock sample_env) (\<lambda>c. None) sample_start (batches sample_log [(0, 1), (0, 2)]) = (s', Inr True)
    \<and> followsLog (neStore sample_env) sample_raft sample_log ledgerOf baseOf [] 2 s'"
proof -
  have log: "raftLog sample_raft sample_log"
    by (simp add: raftLog_def sample_log_def decodable_def sample_raft_def less_Suc_eq)
  have start: "followsLog (neStore sample_env) sample_raft sample_log ledgerOf baseOf [] 0 sample_start"
    by (simp add: followsLog_def sample_start_def ledgerOf_def sample_node_def logBlocks_def)
  obtain s' where run: "deliverBatches (neStore sample_env) sample_raft sample_libs (processBlock sample_env) (\<lambda>c. None) sample_start
      (batches sample_log [(0, 1), (0, 2)]) = (s', Inr True)"
    by (simp add: batches_def sample_log_def deliverEntries_def applyEntry_def applyConfChange_def applyNormal_def sample_start_def sample_raft_def
        ConfChangeAddNode_def snapshotIfNeeded_def sample_leader_def slen_def Let_def)
  show ?thesis
    using run ledger_follows_raft_log[OF log start _ run] by (simp add: reach_def sample_log_def numeral_2_eq_2)
qed

section \<open>On-boarding\<close>

text \<open>
  C40. On-boarding. A node that joins the cluster, whose last block is \<open>i\<close> and whose join block is \<open>T\<close>, ends its
  on-boarding when the members serve the chain, each request with at least one of the blocks asked for:
  the loop returns, and the stores of the node are as if the block processor had been given the blocks
  from \<open>i + 1\<close> to \<open>T\<close> in order, up to the first it fails on. If it fails on none, on-boarding succeeds, the ledger
  has grown by exactly these blocks, and the applied index is the Raft index in the last of them; otherwise
  the error of the processor is returned, and the ledger has grown by the blocks up to some point.
\<close>

theorem onboarding_completes:
  assumes "servesChain pull chain T" "T < 2 ^ 64 - 1" "block_number joinBlock = of_nat T" "lastBlockNumber s = of_nat i" "i < T"
    "inFlightConfigBlockNumber (rep s) = 0"
  shows "\<exists>s' r. onBoard pull (processBlock env) u s joinBlock = Some (s', r)
    \<and> world s' = fst (processAll (processBlock env) (world s) (map chain [Suc i..<Suc T]))
    \<and> (case snd (processAll (processBlock env) (world s) (map chain [Suc i..<Suc T])) of
         Inl e \<Rightarrow> r = Inl e \<and> (\<exists>k \<le> T. ledgerOf (world s') = ledgerOf (world s) @ map (\<lambda>j. baseOf (chain j)) [Suc i..<Suc k])
       | Inr bs \<Rightarrow> r = Inr () \<and> ledgerOf (world s') = ledgerOf (world s) @ map (\<lambda>j. baseOf (chain j)) [Suc i..<Suc T]
           \<and> lastCommittedBlock (rep s') = Some (last bs) \<and> baseOf (last bs) = baseOf (chain T)
           \<and> (\<forall>m. block_number (last bs) > 1 \<and> BConsensusMetadata (last bs) = Some m \<longrightarrow> appliedIndex (rep s') = RaftIndex m))"
proof -
  let ?bs = "map chain [Suc i..<Suc T]" and ?P = "processBlock env"
  have go: "\<not> lastBlockNumber s \<ge> block_number joinBlock"
    using of_nat_less_64(1)[of i T] assms(2-5) by (simp add: not_le)
  have next_i: "lastBlockNumber s + 1 = of_nat (Suc i)"
    using assms(4) by (simp add: add.commute)
  have "0 < Suc i" "Suc i \<le> Suc T"
    using assms(5) by simp_all
  from catchUpToBlock_onboarding[OF assms(1,2,6) this, of ?P u 0] obtain s1 r where s1:
      "catchUpToBlock pull ?P u False (of_nat T) 0 (of_nat (Suc i)) s = Some (s1, r)" "onboarded ?P s ?bs s1 r ()"
    by blast
  obtain w x where p: "processAll ?P (world s) ?bs = (w, x)"
    by fastforce
  note led = node_processor.processAll_ledger[OF p]
  have step: "onBoard pull ?P u s joinBlock = (case r of Inl e \<Rightarrow> Some (s1, Inl e) | Inr _ \<Rightarrow>
      Some (if lastBlockNumber s1 > 1 then s1\<lparr>rep := (rep s1)\<lparr>appliedIndex := (case lastCommittedBlock (rep s1) of None \<Rightarrow> 0
        | Some b \<Rightarrow> (case BConsensusMetadata b of None \<Rightarrow> 0 | Some m \<Rightarrow> RaftIndex m))\<rparr>\<rparr> else s1, Inr ()))"
    using go by (simp add: onBoard_def next_i assms(3) s1(1) del: of_nat_Suc split: sum.split)
  show ?thesis
  proof (cases x)
    case (Inl e)
    then obtain k where k: "k \<le> T - i" "ledgerOf w = ledgerOf (world s) @ map baseOf (take k ?bs)"
      using led assms(5) by (auto simp del: upt_Suc)
    have "take k ?bs = map chain [Suc i..<Suc (i + k)]"
      using k(1) assms(5) by (simp add: take_map del: upt_Suc)
    then show ?thesis
      using Inl k p s1(2) step assms(5) by (auto simp: onboarded_def comp_def simp del: upt_Suc intro!: exI[of _ "i + k"])
  next
    case (Inr cs)
    have len: "length cs = length ?bs"
      using processAll_length[of ?P "world s" ?bs w cs] p Inr by simp
    then have cs: "cs \<noteq> []" "baseOf (last cs) = baseOf (chain T)"
    proof -
      show ne: "cs \<noteq> []"
        using len assms(5) by auto
      have "last (map baseOf cs) = last (map baseOf ?bs)"
        using led Inr by simp
      then show "baseOf (last cs) = baseOf (chain T)"
        using ne assms(5) by (simp add: last_map)
    qed
    have r: "r = Inr ()" "lastCommittedBlock (rep s1) = Some (last cs)" "world s1 = w"
      using s1(2) p Inr cs(1) by (simp_all add: onboarded_def)
    have "lastBlockNumber s1 = block_number (last cs)"
      using r(2) by (simp add: lastBlockNumber_def blockNumberOf_def)
    then show ?thesis
      using Inr p r step cs(2) led by (cases "block_number (last cs) > 1") (simp_all add: comp_def del: upt_Suc)
  qed
qed

text \<open>A processor that only keeps the blocks, a cluster that sends one block at a time, and a node that has the first block.\<close>

definition keep_process :: "Block list processor" where
  "keep_process w b = (w @ [b], Inr (b, None))"

lemma keep_processor: "block_processor keep_process (\<lambda>w. w) (\<lambda>b. b)"
  by unfold_locales (auto simp: keep_process_def)

definition one_block :: "nat \<Rightarrow> 64 word \<Rightarrow> 64 word \<Rightarrow> Block list res" where
  "one_block k i t = Inr [tiny_block i]"

definition wide_joiner :: "(unit, (memdb, memdb, memdb Trie_Store.Store, unit) node) delivery" where
  "wide_joiner = \<lparr>rep = sample_leader\<lparr>lastCommittedBlock := Some (tiny_block 1)\<rparr>, storage = \<lparr>SnapshotCatchUpEntries = 4, MemoryStorage = (), snapshotIndex = []\<rparr>, world = joining_node\<rparr>"

definition sample_joiner :: "(unit, Block list) delivery" where
  "sample_joiner = \<lparr>rep = sample_leader\<lparr>lastCommittedBlock := None\<rparr>, storage = \<lparr>SnapshotCatchUpEntries = 4, MemoryStorage = (), snapshotIndex = []\<rparr>, world = []\<rparr>"

theorem onboarding_completes_witness:
  "\<exists>s' b. onBoard one_block (processBlock wide_env) (\<lambda>c. None) wide_joiner (tiny_block 2) = Some (s', Inr ())
    \<and> ledgerOf (world s') = [baseOf (tiny_block 1), baseOf (tiny_block 2)]
    \<and> lastCommittedBlock (rep s') = Some b \<and> baseOf b = baseOf (tiny_block 2)"
proof -
  obtain n' b' where p: "processBlock wide_env joining_node (tiny_block 2) = (n', Inr (b', None))"
    using wide_process by blast
  have pre: "servesChain one_block (\<lambda>i. tiny_block (of_nat i)) 2" "(2 :: nat) < 2 ^ 64 - 1" "block_number (tiny_block 2) = of_nat 2"
      "lastBlockNumber wide_joiner = of_nat 1" "(1 :: nat) < 2" "inFlightConfigBlockNumber (rep wide_joiner) = 0"
    unfolding servesChain_def
    by (intro allI impI exI[of _ 1]) (simp_all add: one_block_def lastBlockNumber_def blockNumberOf_def wide_joiner_def sample_leader_def)
  have w: "world wide_joiner = joining_node" "ledgerOf joining_node = [baseOf (tiny_block 1)]"
    by (simp_all add: wide_joiner_def ledgerOf_def joining_node_def)
  show ?thesis
    using onboarding_completes[OF pre, of wide_env "\<lambda>c. None"] p by (auto simp: w upt_rec)
qed

section \<open>Snapshots\<close>

lemma setLastCommittedBlock_sizes:
  "setLastCommittedBlock br b = Inr br' \<Longrightarrow> sizeLimit br' = sizeLimit br \<and> accDataSize br' = accDataSize br"
  by (auto simp: setLastCommittedBlock_def Let_def split: if_splits)

lemma updateClusterConfig_sizes:
  "updateClusterConfig u br c = Inr br' \<Longrightarrow> sizeLimit br' = sizeLimit br \<and> accDataSize br' = accDataSize br"
  by (auto dest: updateClusterConfig_frame)

lemma commitBlock_frame:
  assumes "commitBlock process u uc s b = (s', r)"
  shows "storage s' = storage s" "sizeLimit (rep s') = sizeLimit (rep s)" "accDataSize (rep s') = accDataSize (rep s)"
    "appliedIndex (rep s') = appliedIndex (rep s)"
  using assms commitBlock_applied[OF assms]
  by (auto simp: commitBlock_def Let_def dest!: setLastCommittedBlock_sizes updateClusterConfig_sizes split: prod.splits sum.splits option.splits if_splits)

lemma commitEntry_frame:
  assumes "commitEntry env process u s e bs = (s', r)"
  shows "storage s' = storage s \<and> sizeLimit (rep s') = sizeLimit (rep s) \<and> accDataSize (rep s') = accDataSize (rep s) \<and> appliedIndex (rep s') = appliedIndex (rep s)"
proof (cases "UnmarshalBlock (seCodec env) bs")
  case (Inr b)
  obtain s1 r1 where c: "commitBlock process u True s (withMetadata b e) = (s1, r1)"
    by fastforce
  then have "s' = s1"
    using assms Inr by (auto simp: commitEntry_def split: sum.splits go_error.splits)
  then show ?thesis
    using commitBlock_frame[OF c] by simp
qed (use assms in \<open>simp add: commitEntry_def\<close>)

lemma applyEntry_frame:
  assumes "applyEntry env node process u s e = (s', r)"
  shows "storage s' = storage s \<and> sizeLimit (rep s') = sizeLimit (rep s) \<and> appliedIndex (rep s') = appliedIndex (rep s)
    \<and> accDataSize (rep s') = accDataSize (rep s) + (if eType e = EntryNormal then of_nat (slen (eData e)) else 0)"
proof (cases "eType e")
  case EntryNormal
  then show ?thesis
    using assms by (auto simp: applyEntry_def applyNormal_def Let_def dest!: commitEntry_frame split: if_splits)
next
  case EntryConfChange
  then show ?thesis
    using assms by (auto simp: applyEntry_def applyConfChange_def Let_def split: if_splits sum.splits)
next
  case EntryConfChangeV2
  then show ?thesis
    using assms by (auto simp: applyEntry_def applyConfChangeV2_def sbind_def Let_def dest!: commitEntry_frame split: if_splits sum.splits prod.splits option.splits)
qed

lemma commitPulled_applied:
  "commitPulled process u uc n s bs = (s', r) \<Longrightarrow> appliedIndex (rep s') = appliedIndex (rep s)"
proof (induction bs arbitrary: n s)
  case (Cons b bs)
  obtain s1 r1 where c: "commitBlock process u uc s b = (s1, r1)"
    by fastforce
  then show ?case
    using Cons commitBlock_frame(4)[OF c] by (cases r1) auto
qed simp

lemma catchUpToBlock_applied:
  assumes "catchUpToBlock pull process u uc t k n s = Some (s', r)"
  shows "appliedIndex (rep s') = appliedIndex (rep s)"
  using catchUpToBlock.raw_induct[of "\<lambda>pull process u uc t k n s y. appliedIndex (rep (fst y)) = appliedIndex (rep s)", OF _ assms]
  by (fastforce dest: commitPulled_applied split: if_splits sum.splits prod.splits)

lemma deliver_pair:
  assumes e: "eType e1 = EntryNormal" "slen (eData e1) \<noteq> 0" "eType e2 = EntryConfChangeV2" "\<not> isl (unmarshalCCV2 node (content (eData e2)))"
    and i: "appliedIndex (rep s) < eIndex e1" "eIndex e1 < eIndex e2"
    and run: "deliverEntries env node libs process u s [e1, e2] = (s', Inr True)"
  obtains s2 where "deliverLoop env node process u 0 0 s [e1, e2] = (s2, Inr (0, True))" "snapshotIfNeeded env node libs s2 e1 = (s', Inr ())"
    "storage s2 = storage s" "sizeLimit (rep s2) = sizeLimit (rep s)" "appliedIndex (rep s2) = eIndex e2"
    "accDataSize (rep s2) = accDataSize (rep s) + of_nat (slen (eData e1))"
proof -
  obtain s2 q where l: "deliverLoop env node process u 0 0 s [e1, e2] = (s2, Inr (q, True))" "snapshotIfNeeded env node libs s2 ([e1, e2] ! q) = (s', Inr ())"
    using run by (auto simp: deliverEntries_def sbind_def simp del: deliverLoop.simps split: prod.splits sum.splits if_splits)
  obtain t1 r1 where a1: "applyEntry env node process u s e1 = (t1, r1)"
    by fastforce
  have d: "decodable node e1" "decodable node e2"
    using e by (auto simp: decodable_def split: sum.splits)
  have r1: "r1 = Inr Applied"
    using l(1) a1 not_skipped[OF d(1) a1] by (cases r1; cases "projr r1") (simp_all add: Let_def)
  let ?t = "if appliedIndex (rep t1) < eIndex e1 then t1\<lparr>rep := (rep t1)\<lparr>appliedIndex := eIndex e1\<rparr>\<rparr> else t1"
  obtain t2 r2 where a2: "applyEntry env node process u ?t e2 = (t2, r2)"
    by fastforce
  have r2: "r2 = Inr Applied" "q = 0" "s2 = (if appliedIndex (rep t2) < eIndex e2 then t2\<lparr>rep := (rep t2)\<lparr>appliedIndex := eIndex e2\<rparr>\<rparr> else t2)"
    using l(1) a1 r1 a2 not_skipped[OF d(2) a2] e by (cases r2; cases "projr r2"; simp add: Let_def)+
  have "appliedIndex (rep ?t) = eIndex e1" "accDataSize (rep ?t) = accDataSize (rep s) + of_nat (slen (eData e1))"
      "storage ?t = storage s" "sizeLimit (rep ?t) = sizeLimit (rep s)"
    using applyEntry_frame[OF a1] i(1) e(1) by simp_all
  then have "storage s2 = storage s" "sizeLimit (rep s2) = sizeLimit (rep s)" "appliedIndex (rep s2) = eIndex e2"
      "accDataSize (rep s2) = accDataSize (rep s) + of_nat (slen (eData e1))"
    using applyEntry_frame[OF a2] i(2) e(3) unfolding r2(3) by simp_all
  then show ?thesis
    using that l r2(2) by simp
qed

lemma catchUp_applied:
  assumes "catchUp env pull process u f sn = Some (f', r)" "UnmarshalBlock (seCodec env) (content (snapData sn)) = Inr b"
    "appliedIndex (rep f) < snapIndex sn" "lastBlockNumber f < block_number b"
  shows "appliedIndex (rep f') = snapIndex sn"
proof -
  let ?f = "f\<lparr>rep := (rep f)\<lparr>confState := snapVoters sn, appliedIndex := snapIndex sn\<rparr>\<rparr>"
  have go: "\<not> snapIndex sn \<le> appliedIndex (rep f)" "\<not> block_number b \<le> lastBlockNumber f"
    using assms(3,4) by (simp_all add: not_le)
  have "(case catchUpToBlock pull process u True (block_number b) 0 (lastBlockNumber f + 1) ?f of
      None \<Rightarrow> None | Some (s, Inl (ClosedError _)) \<Rightarrow> Some (s, Inr ()) | Some r \<Rightarrow> Some r) = Some (f', r)"
    using assms(1) unfolding catchUp_def assms(2) sum.case if_not_P[OF go(1)] if_not_P[OF go(2)] Let_def .
  then obtain r' where "catchUpToBlock pull process u True (block_number b) 0 (lastBlockNumber f + 1) ?f = Some (f', r')"
    by (auto split: option.splits prod.splits sum.splits go_error.splits)
  then show ?thesis
    using catchUpToBlock_applied by fastforce
qed

lemma redelivered_change_skipped:
  assumes "eType e = EntryConfChangeV2" "eIndex e \<le> appliedIndex (rep f)"
  shows "world (fst (deliverEntries env node libs process u f [e])) = world f"
proof -
  have a: "world (fst (applyEntry env node process u f e)) = world f"
    using assms by (cases "unmarshalCCV2 node (content (eData e))") (auto simp: applyEntry_def applyConfChangeV2_def Let_def)
  obtain f1 r1 where f1: "applyEntry env node process u f e = (f1, r1)"
    by fastforce
  obtain f2 r2 where l: "deliverLoop env node process u 0 0 f [e] = (f2, r2)"
    by fastforce
  have "world f2 = world f"
    using l f1 a by (cases r1; cases "projr r1") (auto simp: Let_def split: if_splits)
  then show ?thesis
    using l by (auto simp: deliverEntries_def sbind_def simp del: deliverLoop.simps dest!: snapshot_frame(1) split: prod.splits sum.splits)
qed


definition snap_e1 :: raft_entry where
  "snap_e1 = \<lparr>eTerm = 1, eIndex = 1, eType = EntryNormal, eData = Some (varint (unat (1 :: 64 word)))\<rparr>"

definition snap_e2 :: raft_entry where
  "snap_e2 = \<lparr>eTerm = 1, eIndex = 2, eType = EntryConfChangeV2, eData = Some (varint (unat (2 :: 64 word)))\<rparr>"

definition snap_start :: "(unit, Block list) delivery" where
  "snap_start = sample_joiner\<lparr>rep := (rep sample_joiner)\<lparr>appliedIndex := 0\<rparr>\<rparr>"

lemma varint_small: "varint (Suc 0) = [1]" "varint 2 = [2]"
  by code_simp+

lemma tiny_decodes: "UnmarshalBlock (seCodec (tiny_env 0)) (varint (unat n)) = Inr (tiny_block n)"
  by (simp add: tiny_env_def tiny_codec_def)


section \<open>Restart\<close>

lemma entryBlock_cases: "entryBlock env node e = [] \<or> (\<exists>b. entryBlock env node e = [withMetadata b e])"
  by (auto simp: entryBlock_def decodedBlock_def split: entry_type.splits option.splits sum.splits)

text \<open>The metadata of the last block of a prefix of the log tells where the log continues.\<close>

lemma last_block_entry:
  assumes "raftLog node L" "n \<le> length L" "logBlocks env node L n \<noteq> []"
  shows "\<exists>k m. k \<le> n \<and> BConsensusMetadata (last (logBlocks env node L n)) = Some m \<and> RaftIndex m = of_nat k
    \<and> logBlocks env node L k = logBlocks env node L n"
  using assms(2,3)
proof (induction n)
  case 0
  then show ?case
    by (simp add: logBlocks_def)
next
  case (Suc n)
  have n: "n < length L"
    using Suc.prems(1) by simp
  consider "entryBlock env node (L ! n) = []" | b where "entryBlock env node (L ! n) = [withMetadata b (L ! n)]"
    using entryBlock_cases by blast
  then show ?case
  proof cases
    case 1
    then have "logBlocks env node L (Suc n) = logBlocks env node L n"
      using logBlocks_Suc[OF n, of env node] by simp
    then show ?thesis
      using Suc by (metis le_SucI less_imp_le_nat n)
  next
    case 2
    then have "last (logBlocks env node L (Suc n)) = withMetadata b (L ! n)"
      using logBlocks_Suc[OF n, of env node] by simp
    then show ?thesis
      using assms(1) n by (intro exI[of _ "Suc n"]) (auto simp: withMetadata_def raftLog_def)
  qed
qed

lemma resumeFrom_applied:
  assumes "resumeFrom env conf br = Inr (h, br')" "rcHeight conf = Inr h" "1 < h" "rcGet conf h = Inr b" "BConsensusMetadata b = Some m"
  shows "appliedIndex br' = RaftIndex m"
  using assms by (auto simp: resumeFrom_def Let_def split: sum.splits if_splits)

lemma NewBlockReplicator_applied:
  assumes "NewBlockReplicator env d libs setHS mem conf f = (f', Inr st)" "rcHeight conf = Inr h" "1 < h" "rcGet conf h = Inr b"
    "BConsensusMetadata b = Some m"
  shows "appliedIndex (rsRep st) = RaftIndex m"
proof -
  obtain raftId haveWAL rs where "newReplicator env libs conf raftId haveWAL rs = Inr st"
    using assms(1) by (auto simp: NewBlockReplicator_def split: sum.splits prod.splits go_error.splits)
  moreover obtain c raft where "ConsensusConf (rcCluster conf) = Some c" "RaftConf c = Some raft"
    using calculation by (auto simp: newReplicator_def rbind_Inr_iff nilPointer_def split: option.splits)
  ultimately have "\<exists>br br' h'. resumeFrom env conf br = Inr (h', br') \<and> appliedIndex (rsRep st) = appliedIndex br'"
    by (auto simp: newReplicator_def Let_def rbind_Inr_iff; fastforce)
  then obtain br br' h' where r: "resumeFrom env conf br = Inr (h', br')" "appliedIndex (rsRep st) = appliedIndex br'"
    by blast
  moreover have "h' = h"
    using r(1) assms(2) by (auto simp: resumeFrom_def Let_def split: sum.splits if_splits)
  ultimately show ?thesis
    using resumeFrom_applied assms(2-) by metis
qed

text \<open>
  C36. A node that restarts with a ledger that holds the blocks of the first \<open>n\<close> entries of the log
  continues where it stopped: the Raft index in the metadata of its last block is the position of that
  block in the log, and everything up to it has been applied. Entries delivered again after the restart
  are recognised, and the ledger goes on following the log.
\<close>

theorem restart_follows_raft_log:
  assumes "raftLog node L" "n \<le> length L" "logBlocks (neStore env) node L n \<noteq> []"
    "ledgerOf w = base @ map baseOf (logBlocks (neStore env) node L n)"
    "rcHeight conf = Inr h" "1 < h" "rcGet conf h = Inr b" "BConsensusMetadata b = BConsensusMetadata (last (logBlocks (neStore env) node L n))"
    "NewBlockReplicator (neStore env) d libs setHS mem conf f = (f', Inr st)"
  shows "\<exists>k \<le> n. followsLog (neStore env) node L ledgerOf baseOf base k \<lparr>rep = rsRep st, storage = rsStorage st, world = w\<rparr>"
proof -
  obtain k m where k: "k \<le> n" "BConsensusMetadata (last (logBlocks (neStore env) node L n)) = Some m" "RaftIndex m = of_nat k"
      "logBlocks (neStore env) node L k = logBlocks (neStore env) node L n"
    using last_block_entry[OF assms(1-3)] by blast
  have "appliedIndex (rsRep st) = of_nat k"
    using NewBlockReplicator_applied[OF assms(9,5-7)] k(2,3) assms(8) by simp
  then show ?thesis
    using k assms(2,4) by (intro exI[of _ k]) (simp add: followsLog_def)
qed

definition sample_disk :: "unit disk_ops" where
  "sample_disk = \<lparr>walExist = (\<lambda>f. True), walCreate = (\<lambda>f. (f, Inr ())), walOpen = (\<lambda>f w. (f, Inr ())),
     walReadAll = (\<lambda>f. Inr (\<lparr>hsTerm = 1, hsVote = 1, hsCommit = 1\<rparr>, [])), walClose = (\<lambda>f. (f, Inr ())), walRepair = (\<lambda>f. (f, False)),
     ErrExist = Err ''exists'', ErrUnexpectedEOF = Err ''unexpected EOF'', mkSnapDir = (\<lambda>f. (f, Inr ())), snapLoad = (\<lambda>f. Inl (Err ''no snapshot'')),
     ErrNoSnapshot = Err ''no snapshot'', snapFiles = (\<lambda>f. Inr []), snapRead = (\<lambda>f n. Inl (Err ''corrupt'')), renameSnap = (\<lambda>f a b. (f, Inr ()))\<rparr>"

definition restart_entry :: raft_entry where
  "restart_entry = \<lparr>eTerm = 1, eIndex = 1, eType = EntryNormal, eData = Some (varint (unat (2 :: 64 word)))\<rparr>"

definition restart_block :: Block where
  "restart_block = withMetadata (tiny_block 2) restart_entry"

definition sample_conf :: replicator_conf where
  "sample_conf = \<lparr>rcIdentity = ''n1'', rcCluster = (clusterConfig sample_leader)\<lparr>ConsensusConf := Some \<lparr>Algorithm = ''raft'',
       Members = [Some \<lparr>NodeId = ''n1'', RaftId = 1, PeerHost = ''h'', PeerPort = 1\<rparr>], Observers = [],
       RaftConf = Some \<lparr>TickInterval = ''1s'', ElectionTicks = 10, HeartbeatTicks = 1, MaxInflightBlocks = 5, SnapshotIntervalSize = 100, MaxRaftId = 1\<rparr>\<rparr>\<rparr>,
     rcJoinBlock = None, rcHeight = Inr 2, rcGet = (\<lambda>h. Inr restart_block), rcMarshal = (\<lambda>b. Inr []), rcChecksum = (\<lambda>b. 0)\<rparr>"

theorem restart_follows_raft_log_witness:
  "\<exists>st k. NewBlockReplicator (neStore sample_env) sample_disk sample_libs (\<lambda>m s. m) () sample_conf () = ((), Inr st) \<and> k \<le> 1
    \<and> followsLog (neStore sample_env) sample_raft [restart_entry] ledgerOf baseOf [baseOf (tiny_block 1)] k
        \<lparr>rep = rsRep st, storage = rsStorage st, world = sample_node\<lparr>history := [tiny_block 1, restart_block]\<rparr>\<rparr>"
proof -
  have env: "neStore sample_env = tiny_env 0"
    by (simp add: sample_env_def)
  have log: "raftLog sample_raft [restart_entry]"
    by (simp add: raftLog_def restart_entry_def decodable_def)
  have "entryBlock (tiny_env 0) sample_raft restart_entry = [restart_block]"
    using tiny_decodes[of 2] by (simp add: entryBlock_def decodedBlock_def restart_entry_def restart_block_def slen_def varint_small)
  then have blocks: "logBlocks (tiny_env 0) sample_raft [restart_entry] (Suc 0) = [restart_block]"
    by (simp add: logBlocks_def)
  have "\<not> isl (ComputeBlockBaseHash (tiny_env 0) restart_block)"
    by (simp add: ComputeBlockBaseHash_def tiny_codec_def)
  then obtain st where st: "NewBlockReplicator (neStore sample_env) sample_disk sample_libs (\<lambda>m s. m) () sample_conf () = ((), Inr st)"
    by (cases "ComputeBlockBaseHash (tiny_env 0) restart_block")
      (simp_all add: env NewBlockReplicator_def MemberRaftID_def sample_conf_def CreateStorage_def createOrReadWAL_def readWAL.simps sample_disk_def ListSnapshots_def
        newReplicator_def snapshotState_def sample_libs_def resumeFrom_def startMode_def Let_def)
  show ?thesis
    using restart_follows_raft_log[OF log, of 1 sample_env "sample_node\<lparr>history := [tiny_block 1, restart_block]\<rparr>" "[baseOf (tiny_block 1)]" sample_conf 2 restart_block,
        OF _ _ _ _ _ _ _ st] st
    by (simp add: env blocks ledgerOf_def sample_conf_def)
qed

end
