(* ===== verification/Commit_Properties.thy ===== *)
theory Commit_Properties
  imports Sample_Node
begin

text \<open>
  Properties of the commit of a block: what recovery computes from a stored block, and how the state trie
  depends on the order in which the databases of a block are visited.
\<close>

section \<open>Recovery from the stored block\<close>

text \<open>The block creates no database together with an index for it.\<close>

definition noNewIndex :: "Block \<Rightarrow> bool" where
  "noNewIndex block \<longleftrightarrow> (case BPayload block of
     Some (Block_DbAdministrationTxEnvelope e) \<Rightarrow> \<forall>d \<in> set (CreateDbs (DAPayload e)). map_of (DbsIndex (DAPayload e)) d = None
   | _ \<Rightarrow> True)"

text \<open>What the entries of a block are computed from.\<close>

definition sameContent :: "Block \<Rightarrow> Block \<Rightarrow> bool" where
  "sameContent b c \<longleftrightarrow> block_number b = block_number c \<and> BPayload b = BPayload c \<and> HValidationInfo (Header b) = HValidationInfo (Header c)"

lemma dataEntries_same:
  assumes "versionAt b = versionAt c"
  shows "dataEntries env db b txs i vs acc = dataEntries env db c txs i vs acc"
proof (induction vs arbitrary: i acc)
  case (Cons v vs)
  then show ?case
    by (cases acc) (simp add: Let_def assms)
qed simp

lemma createEntriesForNewDBs_rest:
  assumes "\<forall>d \<in> set dbs. map_of ix d = None" "createEntriesForNewDBs marshal dbs ix v = Inr (kvs, rest)"
  shows "rest = ix"
  using assms by (induction dbs arbitrary: kvs) (auto simp: rbind_Inr_iff)

lemma dbAdmin_unchanged:
  assumes "\<forall>d \<in> set (CreateDbs tx). map_of (DbsIndex tx) d = None" "constructDBEntriesForDBAdminTx marshal tx v db = Inr (u, tx')"
  shows "tx' = tx"
  using assms by (auto simp: constructDBEntriesForDBAdminTx_def rbind_Inr_iff dest: createEntriesForNewDBs_rest)

lemma payload_same: "BPayload b = p \<Longrightarrow> b\<lparr>BPayload := p\<rparr> = b"
  by (cases b) simp

lemma entries_unchanged:
  assumes "constructDBAndProvenanceEntries env db b = Inr (es, b')" "noNewIndex b"
  shows "b' = b"
proof (cases "\<exists>e. BPayload b = Some (Block_DbAdministrationTxEnvelope e)")
  case True
  then obtain e where e: "BPayload b = Some (Block_DbAdministrationTxEnvelope e)"
    by blast
  obtain v where v: "firstInfo b = Inr v"
    using assms(1) e by (auto simp: constructDBAndProvenanceEntries_def rbind_Inr_iff)
  show ?thesis
  proof (cases "VFlag v = VALID")
    case True
    then obtain u tx where "constructDBEntriesForDBAdminTx (eeMarshalIndex env) (DAPayload e) (versionAt b 0) db = Inr (u, tx)"
        "b' = b\<lparr>BPayload := Some (Block_DbAdministrationTxEnvelope (e\<lparr>DAPayload := tx\<rparr>))\<rparr>"
      using assms(1) e v by (auto simp: constructDBAndProvenanceEntries_def rbind_Inr_iff)
    then show ?thesis
      using dbAdmin_unchanged assms(2) e by (fastforce simp: noNewIndex_def intro: payload_same)
  qed (use assms(1) e v in \<open>simp add: constructDBAndProvenanceEntries_def\<close>)
next
  case False
  then show ?thesis
    using assms(1) by (auto simp: constructDBAndProvenanceEntries_def rbind_Inr_iff split: option.splits Payload.splits)
qed

lemma entries_same:
  assumes "constructDBAndProvenanceEntries env db b = Inr (es, b)" "sameContent c b"
  shows "constructDBAndProvenanceEntries env db c = Inr (es, c)"
proof -
  have v: "versionAt c = versionAt b" "firstInfo c = firstInfo b" "BPayload c = BPayload b" "HValidationInfo (Header c) = HValidationInfo (Header b)"
    using assms(2) by (auto simp: sameContent_def versionAt_def firstInfo_def)
  have d: "dataEntries env db c txs i vs acc = dataEntries env db b txs i vs acc" for txs i vs acc
    by (intro dataEntries_same) (simp add: v)
  have u: "userAdminEntries env db c = userAdminEntries env db b" "configEntries env db c = configEntries env db b"
    by (intro ext; unfold userAdminEntries_def configEntries_def v(1); rule refl)+
  have same: "c\<lparr>BPayload := p\<rparr> = c \<longleftrightarrow> b\<lparr>BPayload := p\<rparr> = b" for p
    using v(3) by (cases b; cases c) simp
  show ?thesis
    using assms(1) unfolding constructDBAndProvenanceEntries_def v d u
    by (auto simp: rbind_Inr_iff same split: option.splits Payload.splits if_splits)
qed

lemma chain_read_last:
  assumes "block_store env view beq" "commitBlocks env (openNewStore d) bs = (s, Inr ())" "view d = Map.empty" "\<forall>b \<in> set bs. storable env b"
    "length bs < 2 ^ 64" "\<forall>p. ioOpen (seIO env) p = None \<and> ioRead (seIO env) p = None" "bs \<noteq> []"
  obtains s' b where "Block_Store.Store_Height s = of_nat (length bs)" "Store_Get env s (of_nat (length bs)) = (s', Inr b)" "beq (last bs) b"
proof -
  note chain = block_store.committed_chain(1)[OF assms(1-5)]
  let ?i = "length bs - 1"
  have b: "block_number (bs ! ?i) = of_nat (length bs)" "storable env (bs ! ?i)" "holdsBlock env view s (bs ! ?i)" "lastCommittedBlockNum s = of_nat (length bs)"
    using chain assms(7) by (auto simp: holdsChain_def simp del: of_nat_Suc dest: spec[of _ ?i])
  then have "\<exists>s' b'. Store_Get env s (block_number (bs ! ?i)) = (s', Inr b') \<and> beq (bs ! ?i) b'"
    using block_store.holds_read[OF assms(1) b(3,2)] assms(6) by simp
  then show ?thesis
    using that b assms(7) by (auto simp: Block_Store.Store_Height_def last_conv_nth)
qed

text \<open>
  C22. Recovery completes an interrupted commit. When a node stops after a block went to the block store
  and before its updates went to the databases, the recovery at the next start computes, from the block
  read back from the block store, the same updates, and commits them: the databases end as they would
  have without the interruption. The block must not create a database together with an index.
\<close>

theorem recovery_completes_commit:
  assumes store: "block_store (neStore env) view beq" "commitBlocks (neStore env) (openNewStore d) bs = (blockStore m, Inr ())" "view d = Map.empty"
      "\<forall>b \<in> set bs. storable (neStore env) b" "length bs < 2 ^ 64" "\<forall>p. ioOpen (seIO (neStore env)) p = None \<and> ioRead (seIO (neStore env)) p = None" "bs \<noteq> []"
    and codec: "\<And>b c. beq b c \<Longrightarrow> sameContent c b"
    and commit: "entriesFor env n block = Inr (es, block')" "noNewIndex block" "sameContent (last bs) block'"
    and crash: "worldState m = worldState n" "provenanceStore m = provenanceStore n"
      "LevelDB_Height (neLdb env) (worldState m) = Inr (of_nat (length bs - 1))"
  shows "\<exists>s stored. recoverWorldStateDBIfNeeded env m = commitToDBs env (m\<lparr>blockStore := s\<rparr>) es stored \<and> block_number stored = block_number block"
proof -
  obtain s b where s: "Block_Store.Store_Height (blockStore m) = of_nat (length bs)" "Store_Get (neStore env) (blockStore m) (of_nat (length bs)) = (s, Inr b)" "beq (last bs) b"
    using chain_read_last[OF store] by blast
  have k: "(of_nat (length bs) :: 64 word) - of_nat (length bs - 1) = 1" "(of_nat (length bs - 1) :: 64 word) < of_nat (length bs)"
      "\<not> (of_nat (length bs) :: 64 word) < of_nat (length bs - 1)" "(of_nat (length bs - 1) :: 64 word) \<noteq> of_nat (length bs)"
    using store(5,7) of_nat_less_64[of "length bs - 1" "length bs"] of_nat_less_64(1)[of "length bs" "length bs - 1"] by (cases "length bs"; auto)+
  have e: "constructDBAndProvenanceEntries ((neEntries env)\<lparr>eeProvenance := provenanceStore n \<noteq> None\<rparr>) (worldDB env n) block = Inr (es, block)" "block' = block"
    using commit(1) entries_unchanged[OF _ commit(2)] unfolding entriesFor_def by blast+
  have c: "sameContent b block"
    using codec[OF s(3)] commit(3) e(2) by (simp add: sameContent_def)
  have "entriesFor env (m\<lparr>blockStore := s\<rparr>) b = Inr (es, b)"
    using entries_same[OF e(1) c] crash(1,2) by (simp add: entriesFor_def worldDB_def)
  then have "recoverWorldStateDBIfNeeded env m = commitToDBs env (m\<lparr>blockStore := s\<rparr>) es b"
    using k s crash(3) by (simp add: recoverWorldStateDBIfNeeded_def Let_def)
  then show ?thesis
    using c by (auto simp: sameContent_def)
qed

text \<open>A block store with one block, beside databases without it.\<close>

theorem recovery_completes_commit_witness:
  "\<exists>bst s stored. Block_Store.Store_Height bst = 1 \<and> recoverWorldStateDBIfNeeded sample_env (sample_node\<lparr>blockStore := bst\<rparr>) =
      commitToDBs sample_env (sample_node\<lparr>blockStore := s\<rparr>) ([], []) stored \<and> block_number stored = 1"
proof -
  have env: "neStore sample_env = tiny_env 0"
    by (simp add: sample_env_def)
  obtain bst where bst: "commitBlocks (tiny_env 0) (openNewStore RBT.empty) [tiny_block 1] = (bst, Inr ())" "lastCommittedBlockNum bst = 1"
    by (rule tiny_one)
  have pre: "\<forall>b \<in> set [tiny_block 1]. storable (tiny_env 0) b" "\<forall>p. ioOpen (seIO (tiny_env 0)) p = None \<and> ioRead (seIO (tiny_env 0)) p = None"
    by (simp_all add: tiny_storable calm_def)
  have ent: "entriesFor sample_env sample_node (tiny_block 1) = Inr (([], []), tiny_block 1)"
    by (simp add: entriesFor_def constructDBAndProvenanceEntries_def sample_node_def tiny_block_def tiny_header_def valid_info_def
        AddDBEntriesForDataTx_def Let_def)
  have h: "LevelDB_Height (neLdb sample_env) (worldState sample_node) = Inr (of_nat (length [tiny_block 1] - 1))"
    by code_simp
  have "\<exists>s stored. recoverWorldStateDBIfNeeded sample_env (sample_node\<lparr>blockStore := bst\<rparr>) =
      commitToDBs sample_env (sample_node\<lparr>blockStore := bst, blockStore := s\<rparr>) ([], []) stored \<and> block_number stored = block_number (tiny_block 1)"
    by (rule recovery_completes_commit[of sample_env RBT.lookup "(=)" RBT.empty "[tiny_block 1]" "sample_node\<lparr>blockStore := bst\<rparr>" sample_node "tiny_block 1" "([], [])" "tiny_block 1"])
      (use tiny_store.block_store_axioms[of 0] bst(1) pre ent h in \<open>simp_all add: env sameContent_def noNewIndex_def del: commitBlocks.simps, simp_all add: tiny_block_def\<close>)
  then show ?thesis
    using bst(2) by - (rule exI[of _ bst], simp add: Block_Store.Store_Height_def)
qed

section \<open>The index of a new database\<close>

lemma newDBs_rest:
  "createEntriesForNewDBs marshal dbs ix v = Inr (kvs, rest) \<Longrightarrow> map_of rest = (\<lambda>d. if d \<in> set dbs then None else map_of ix d)"
proof (induction dbs arbitrary: ix kvs)
  case (Cons a dbs)
  then show ?case
    by (cases "map_of ix a") (auto simp: rbind_Inr_iff fun_eq_iff dest!: Cons.IH split: if_splits)
qed simp

lemma newDBs_index:
  assumes "createEntriesForNewDBs marshal dbs ix v = Inr (kvs, rest)" "d \<in> set dbs" "distinct dbs" "map_of ix d = Some i"
  shows "\<exists>bs. marshal (attributesOf i) = Inr bs \<and> dbEntry d (Some bs) v \<in> set kvs \<and> dbEntry (IndexDB d) None v \<in> set kvs"
  using assms
proof (induction dbs arbitrary: ix kvs)
  case (Cons a dbs)
  show ?case
  proof (cases "a = d")
    case True
    then show ?thesis
      using Cons.prems by (auto simp: rbind_Inr_iff indexValue_def)
  next
    case False
    then have "map_of (gomap_delete ix a) d = Some i"
      using Cons.prems(4) by simp
    then show ?thesis
      using Cons.prems False Cons.IH[of ix] Cons.IH[of "gomap_delete ix a"]
      by (cases "map_of ix a") (fastforce simp: rbind_Inr_iff)+
  qed
qed simp

lemma newDBs_no_index:
  assumes "createEntriesForNewDBs marshal dbs ix v = Inr (kvs, rest)" "\<forall>d \<in> set dbs. map_of ix d = None"
  shows "kvs = map (\<lambda>d. dbEntry d None v) dbs"
  using assms by (induction dbs arbitrary: kvs) (auto simp: rbind_Inr_iff)

lemma indexUpdates_keys:
  assumes "createEntriesForIndexUpdates marshal ix db v = Inr (kvs, dels)" "kv \<in> set kvs" "KVValue kv \<noteq> None"
  shows "KVKey kv \<in> fst ` set ix"
  using assms
proof (induction ix arbitrary: kvs dels)
  case (Cons e ix)
  then show ?case
    by (cases e) (auto simp: rbind_Inr_iff Let_def dbEntry_def split: if_splits)
qed simp

text \<open>
  C23. A transaction that creates a database with an index writes the definition of the index, and at the
  same time removes it from the transaction, which is the one in the block. The block is stored after
  this. When the updates are computed again from the stored block, as recovery does, the database is
  created without an index.
\<close>

theorem new_index_lost_on_recovery:
  assumes "constructDBEntriesForDBAdminTx marshal tx v db = Inr (u, tx')" "d \<in> set (CreateDbs tx)" "distinct (CreateDbs tx)" "map_of (DbsIndex tx) d = Some i"
    and "constructDBEntriesForDBAdminTx marshal tx' v db = Inr (u', tx'')"
  shows "(\<exists>bs. marshal (attributesOf i) = Inr bs \<and> dbEntry d (Some bs) v \<in> set (Writes u) \<and> dbEntry (IndexDB d) None v \<in> set (Writes u))
    \<and> dbEntry d None v \<in> set (Writes u') \<and> (\<forall>kv \<in> set (Writes u'). KVKey kv = d \<longrightarrow> KVValue kv = None)"
proof -
  obtain kvs rest kvs2 dels where f: "createEntriesForNewDBs marshal (CreateDbs tx) (DbsIndex tx) v = Inr (kvs, rest)"
      "Writes u = kvs @ kvs2" "tx' = tx\<lparr>DbsIndex := rest\<rparr>"
    using assms(1) by (auto simp: constructDBEntriesForDBAdminTx_def rbind_Inr_iff)
  have none: "\<forall>x \<in> set (CreateDbs tx). map_of rest x = None"
    using newDBs_rest[OF f(1)] by simp
  obtain kvs' rest' kvs2' dels' where g: "createEntriesForNewDBs marshal (CreateDbs tx) rest v = Inr (kvs', rest')"
      "createEntriesForIndexUpdates marshal rest' db v = Inr (kvs2', dels')" "Writes u' = kvs' @ kvs2'"
    using assms(5) f(3) by (auto simp: constructDBEntriesForDBAdminTx_def rbind_Inr_iff)
  have kvs': "kvs' = map (\<lambda>d. dbEntry d None v) (CreateDbs tx)"
    using newDBs_no_index[OF g(1) none] .
  have "d \<notin> fst ` set rest'"
    using none assms(2) createEntriesForNewDBs_rest[OF none g(1)] by (auto simp: map_of_eq_None_iff)
  then have "\<forall>kv \<in> set kvs2'. KVKey kv = d \<longrightarrow> KVValue kv = None"
    using indexUpdates_keys[OF g(2)] by blast
  then show ?thesis
    using newDBs_index[OF f(1) assms(2-4)] f(2) g(3) kvs' assms(2) by (auto simp: dbEntry_def)
qed

definition sample_index_tx :: DBAdministrationTx where
  "sample_index_tx = \<lparr>DAUserId = ''admin'', DATxId = ''t'', CreateDbs = [''bdb''], DeleteDbs = [], DbsIndex = [(''bdb'', Some \<lparr>AttributeAndType = [(''name'', 1)]\<rparr>)]\<rparr>"

theorem new_index_lost_on_recovery_witness:
  "\<exists>u tx' u' tx''. constructDBEntriesForDBAdminTx (\<lambda>m. Inr [7]) sample_index_tx \<lparr>BlockNum = 2, TxNum = 0\<rparr> idx_db = Inr (u, tx')
    \<and> dbEntry ''bdb'' (Some [7]) \<lparr>BlockNum = 2, TxNum = 0\<rparr> \<in> set (Writes u)
    \<and> constructDBEntriesForDBAdminTx (\<lambda>m. Inr [7]) tx' \<lparr>BlockNum = 2, TxNum = 0\<rparr> idx_db = Inr (u', tx'') \<and> dbEntry ''bdb'' None \<lparr>BlockNum = 2, TxNum = 0\<rparr> \<in> set (Writes u')"
proof -
  obtain u tx' where f: "constructDBEntriesForDBAdminTx (\<lambda>m. Inr [7]) sample_index_tx \<lparr>BlockNum = 2, TxNum = 0\<rparr> idx_db = Inr (u, tx')" "tx' = sample_index_tx\<lparr>DbsIndex := []\<rparr>"
    by (simp add: constructDBEntriesForDBAdminTx_def sample_index_tx_def indexValue_def gomap_delete_def)
  obtain u' tx'' where g: "constructDBEntriesForDBAdminTx (\<lambda>m. Inr [7]) tx' \<lparr>BlockNum = 2, TxNum = 0\<rparr> idx_db = Inr (u', tx'')"
    using f(2) by (simp add: constructDBEntriesForDBAdminTx_def sample_index_tx_def)
  show ?thesis
    using new_index_lost_on_recovery[OF f(1) _ _ _ g, of "''bdb''"] f(1) g by (auto simp: sample_index_tx_def)
qed

section \<open>The order of the databases of a block\<close>

lemma trie_delete_step:
  assumes "node_serialization c" "fixed_digest h n" "trie_rep (store_ops c db) h L t T M" "length k = L" "M k = Some (v, d)"
    "update_safe h T k (CalculateKeyValueHash h (Some k) v) True" "k = content (ConstructCompositeKey h dbName key)"
  obtains t' T' where "trieDelete (store_ops c db) h dbName t key = (t', Inr ())" "trie_rep (store_ops c db) h L t' T' (M(k \<mapsto> (v, True)))"
    "pupdate T (convertByteToHex k) (CalculateKeyValueHash h (Some k) v) True = Inr T'"
  using hashed_trie.Delete_refines[OF trie_hashed[OF assms(1,2)] assms(3-6)] that assms(7) by (auto simp: trieDelete_def)

text \<open>
  C9. The state trie after a block depends on the order in which the databases of the block are visited,
  which is the random order of a Go map. Take a trie with one key, and a block that deletes this key in
  one database and writes a key with the same first nibble in another. When the deletion is applied
  first, the old value can be read again at the end; when the write is applied first, it is deleted. Two
  nodes can so have different state roots for the same block.
\<close>

theorem trie_depends_on_map_order:
  assumes S: "node_serialization c" "fixed_digest h n"
    and T: "T = PBranch (pchildren[unat x := PVal r (CalculateKeyValueHash h (Some k1) v) False]) None False"
      "T1 = PBranch (pchildren[unat x := PVal r (CalculateKeyValueHash h (Some k1) v) True]) None False"
    and rep: "trie_rep (store_ops c db) h L t T M" "M k1 = Some (v, False)"
    and keys: "k1 = content (ConstructCompositeKey h d1 key1)" "k2 = content (ConstructCompositeKey h d2 (KVKey kv))"
      "convertByteToHex k1 = x # r" "convertByteToHex k2 = x # r2" "r \<noteq> r2" "length k1 = L" "length k2 = L"
    and safe1: "update_safe h T k1 (CalculateKeyValueHash h (Some k1) v) True"
      "update_safe h T1 k2 (CalculateKeyValueHash h (Some k2) (KVValue kv)) False"
      "value_safe h (M(k1 \<mapsto> (v, True))) k2 (KVValue kv)"
    and safe2: "update_safe h T k2 (CalculateKeyValueHash h (Some k2) (KVValue kv)) False" "value_safe h M k2 (KVValue kv)"
      "\<And>T2. pupdate T (convertByteToHex k2) (CalculateKeyValueHash h (Some k2) (KVValue kv)) False = Inr T2 \<Longrightarrow>
         update_safe h T2 k1 (CalculateKeyValueHash h (Some k1) v) True"
  shows "\<exists>t1 t2.
      ApplyBlockOnStateTrie (store_ops c db) h t [(d1, \<lparr>Writes = [], Deletes = [key1]\<rparr>), (d2, \<lparr>Writes = [kv], Deletes = []\<rparr>)] = (t1, Inr ())
    \<and> ApplyBlockOnStateTrie (store_ops c db) h t [(d2, \<lparr>Writes = [kv], Deletes = []\<rparr>), (d1, \<lparr>Writes = [], Deletes = [key1]\<rparr>)] = (t2, Inr ())
    \<and> MPTrie_Get (store_ops c db) t1 k1 = Inr v \<and> MPTrie_Get (store_ops c db) t2 k1 = Inr None"
proof -
  let ?ops = "store_ops c db"
  note H = trie_hashed[OF S]
  have x: "unat x < 16" "k1 \<noteq> k2"
    using nibbles_convertByteToHex[of k1] keys(3-5) by auto
  obtain ta Ta where a: "trieDelete ?ops h d1 t key1 = (ta, Inr ())" "trie_rep ?ops h L ta Ta (M(k1 \<mapsto> (v, True)))"
      "pupdate T (convertByteToHex k1) (CalculateKeyValueHash h (Some k1) v) True = Inr Ta"
    by (rule trie_delete_step[OF S rep(1) keys(6) rep(2) safe1(1) keys(1)])
  have Ta: "Ta = T1"
    using a(3) x(1) unfolding T keys(3) by simp
  obtain t1 where t1: "MPTrie_Update ?ops h ta k2 (KVValue kv) = (t1, Inr ())" "MPTrie_Get ?ops t1 k1 = Inr v"
    using deleted_key_returns[OF S a(2)[unfolded Ta T] keys(3-7)] safe1(2,3) unfolding T by auto
  obtain tb Tb M' where b: "MPTrie_Update ?ops h t k2 (KVValue kv) = (tb, Inr ())" "trie_rep ?ops h L tb Tb M'"
      "pupdate T (convertByteToHex k2) (CalculateKeyValueHash h (Some k2) (KVValue kv)) False = Inr Tb" "others_kept M k2 M'"
    using hashed_trie.Update_refines[OF H rep(1) keys(7) safe2(1,2)] by blast
  have M': "M' k1 = Some (v, False)"
    using b(4) rep(2) x(2) unfolding others_kept_def by fastforce
  obtain t2 T2 where t2: "trieDelete ?ops h d1 tb key1 = (t2, Inr ())" "trie_rep ?ops h L t2 T2 (M'(k1 \<mapsto> (v, True)))"
    by (rule trie_delete_step[OF S b(2) keys(6) M' safe2(3)[OF b(3)] keys(1)])
  have "MPTrie_Get ?ops t2 k1 = Inr None"
    using hashed_trie.Get_refines[OF H t2(2) keys(6)] by (simp add: visible_def)
  moreover have "trieWrite ?ops h d2 ta kv = (t1, Inr ())" "trieWrite ?ops h d2 t kv = (tb, Inr ())"
    using t1(1) b(1) keys(2) by (simp_all add: trieWrite_def)
  ultimately show ?thesis
    using a(1) t1(2) t2(1) by (simp add: ApplyBlockOnStateTrie_def)
qed

theorem trie_depends_on_map_order_witness:
  "\<exists>t t1 t2. ApplyBlockOnStateTrie (store_ops pb_codec mem_ldb) checksum t
        [(''a'', \<lparr>Writes = [], Deletes = [''VV'']\<rparr>), (''b'', \<lparr>Writes = [\<lparr>KVKey = ''VV'', KVValue = Some [9], KVMetadata = None\<rparr>], Deletes = []\<rparr>)] = (t1, Inr ())
    \<and> ApplyBlockOnStateTrie (store_ops pb_codec mem_ldb) checksum t
        [(''b'', \<lparr>Writes = [\<lparr>KVKey = ''VV'', KVValue = Some [9], KVMetadata = None\<rparr>], Deletes = []\<rparr>), (''a'', \<lparr>Writes = [], Deletes = [''VV'']\<rparr>)] = (t2, Inr ())
    \<and> MPTrie_Get (store_ops pb_codec mem_ldb) t1 [0x12] = Inr (Some [7]) \<and> MPTrie_Get (store_ops pb_codec mem_ldb) t2 [0x12] = Inr None"
proof -
  let ?kv = "\<lparr>KVKey = ''VV'', KVValue = Some [9], KVMetadata = None\<rparr> :: KVWithMetadata"
  let ?T1 = "PBranch (pchildren[unat (1 :: byte) := PVal [2] (CalculateKeyValueHash checksum (Some [0x12]) (Some [7])) True]) None False"
  obtain t where t: "trie_rep (store_ops pb_codec mem_ldb) checksum 1 t tree1 [[0x12] \<mapsto> (Some [7], False)]"
    using trie1_exists by blast
  have T: "tree1 = PBranch (pchildren[unat (1 :: byte) := PVal [2] (CalculateKeyValueHash checksum (Some [0x12]) (Some [7])) False]) None False"
    by (simp add: tree1_def)
  have k: "[0x12] = content (ConstructCompositeKey checksum ''a'' ''VV'')" "[0x13] = content (ConstructCompositeKey checksum ''b'' (KVKey ?kv))"
      "convertByteToHex [0x12] = 1 # [2]" "convertByteToHex [0x13] = 1 # [3]"
    by code_simp+
  have s1: "update_safe checksum tree1 [0x12] (CalculateKeyValueHash checksum (Some [0x12]) (Some [7])) True"
      "update_safe checksum ?T1 [0x13] (CalculateKeyValueHash checksum (Some [0x13]) (KVValue ?kv)) False"
      "update_safe checksum tree1 [0x13] (CalculateKeyValueHash checksum (Some [0x13]) (KVValue ?kv)) False"
    by code_simp+
  have "CalculateKeyValueHash checksum (Some [0x12]) (Some [7]) \<noteq> CalculateKeyValueHash checksum (Some [0x13]) (KVValue ?kv)"
    by code_simp
  then have vs: "value_safe checksum ([[0x12] \<mapsto> (Some [7], b)]) [0x13] (KVValue ?kv)" for b
    by (auto simp: value_safe_def split: if_splits)
  have s2: "update_safe checksum T2 [0x12] (CalculateKeyValueHash checksum (Some [0x12]) (Some [7])) True"
    if "pupdate tree1 (convertByteToHex [0x13]) (CalculateKeyValueHash checksum (Some [0x13]) (KVValue ?kv)) False = Inr T2" for T2
  proof -
    have "case pupdate tree1 (convertByteToHex [0x13]) (CalculateKeyValueHash checksum (Some [0x13]) (KVValue ?kv)) False of
        Inl _ \<Rightarrow> True | Inr T2 \<Rightarrow> update_safe checksum T2 [0x12] (CalculateKeyValueHash checksum (Some [0x12]) (Some [7])) True"
      by code_simp
    then show ?thesis
      using that by simp
  qed
  show ?thesis
    using trie_depends_on_map_order[OF pb.node_serialization_axioms checksum.fixed_digest_axioms T refl t _ k _ _ _ s1(1,2) _ s1(3) vs s2] vs by auto
qed

end
