(* ===== verification/Spec2Isabelle.thy ===== *)
theory Spec2Isabelle
  imports Sha256 MTree Trie_Properties Worldstate_Properties Validation_Properties Index_Properties Block_Properties Tx_Properties
    Replicator_Properties Commit_Properties
begin

text \<open>
  A verification of the Orion blockchain database server. This theory imports the whole library and says
  what it holds.

  \<^bold>\<open>The program.\<close> A server accepts signed transactions, orders them into blocks, replicates the blocks with
  Raft, validates and commits them, and answers queries with proofs. A transaction passes the following
  parts, each of which is one component of the library.

  \<^item> \<^verbatim>\<open>internal/bcdb/transaction_processor.go\<close>, \<^verbatim>\<open>internal/queue\<close>, \<^verbatim>\<open>internal/txreorderer\<close>, \<^verbatim>\<open>internal/blockcreator\<close>: submission,
    batches and blocks. Theories \<open>Tx_Queues\<close> (queue, promises, pending transactions), \<open>Queue_Barrier\<close>
    (\<^verbatim>\<open>OneQueueBarrier\<close>), \<open>Tx_Pipeline\<close> (\<open>SubmitTransaction\<close>, \<open>reorderTx\<close>, \<open>PostBlockCommitProcessing\<close>) and \<open>Tx_Flow\<close>,
    which interleaves the go-routines as a step relation, with blocks of other leaders as steps of the surroundings.
  \<^item> \<^verbatim>\<open>internal/replication\<close>: the block replicator. Theories \<open>Cluster_Config\<close> (\<^verbatim>\<open>utils.go\<close>), \<open>Raft_Storage\<close> (\<^verbatim>\<open>storage.go\<close>),
    \<open>Block_Replicator\<close> (leadership and proposing), \<open>Replicator_Delivery\<close> (\<open>deliverEntries\<close>, \<open>catchUp\<close>, \<open>onBoard\<close>,
    \<open>handleReady\<close>), \<open>Replicator_Start\<close> (\<open>CreateStorage\<close>, \<open>NewBlockReplicator\<close>, \<open>startOnBoarding\<close>) and \<open>Replicator_Log\<close>, the relation
    of the ledger to the Raft log.
  \<^item> \<^verbatim>\<open>internal/txvalidation\<close>, \<^verbatim>\<open>internal/identity\<close>, \<^verbatim>\<open>pkg/certificateauthority\<close>: validation. Theories \<open>Identity\<close>,
    \<open>Certificate_Authority\<close>, \<open>Validate_Data\<close>, \<open>Validate_Admin\<close>, \<open>Validate_Config\<close> and \<open>Validator\<close>, one definition for each check
    of the code in its order.
  \<^item> \<^verbatim>\<open>internal/blockprocessor\<close>: commit and recovery. Theories \<open>Identity_Entries\<close> (\<^verbatim>\<open>internal/identity/db_entries.go\<close>),
    \<open>Committer\<close> (the updates of a block) and \<open>Block_Processor\<close> (\<open>validateAndCommit\<close>, \<open>processBlock\<close>,
    \<open>recoverWorldStateDBIfNeeded\<close>, \<open>initAndRecoverStateTrieIfNeeded\<close>). The record \<open>node\<close> holds the stores of a server; it
    is what the replicator drives through the barrier.
  \<^item> \<^verbatim>\<open>internal/blockstore\<close>: the ledger. Theories \<open>Block_Encoding\<close>, \<open>Block_Files\<close>, \<open>Block_Store\<close>, \<open>Block_Chain\<close>, \<open>Block_Recovery\<close>
    and \<open>Block_Crash\<close>.
  \<^item> \<^verbatim>\<open>internal/worldstate\<close> and \<^verbatim>\<open>internal/stateindex\<close>: the current values and their index. Theories \<open>Worldstate\<close>,
    \<open>Index_Encoding\<close> and \<open>State_Index\<close>.
  \<^item> \<^verbatim>\<open>internal/mptrie\<close>, \<^verbatim>\<open>pkg/state\<close> and \<^verbatim>\<open>internal/mtree\<close>: the authenticated structures. Theories \<open>Trie_Node\<close>, \<open>MPTrie\<close>,
    \<open>Trie_Store\<close>, \<open>State_Proof\<close> and \<open>MTree\<close>; \<open>Pure_Trie\<close>, \<open>MPTrie_Refine\<close> and \<open>MPTrie_Map\<close> are the specification of the trie
    and the refinement.
  \<^item> \<^verbatim>\<open>protos\<close>: the messages, theory \<open>Types\<close>.

  \<^bold>\<open>How code becomes definitions.\<close> A struct is a record and a tagged union a datatype, with the names of the source. A
  pointer the code tests for nil is an option, a byte slice an option of a byte list, a Go map an
  association list in iteration order, a fixed-width integer a word. An operation that can fail returns
  \<open>go_error + 'a\<close>, an operation on a state returns the state beside that; \<open>Panic\<close> and \<open>OutOfFuel\<close> are
  constructors of \<open>go_error\<close>, so every panic of the source is a branch. A channel operation that would block has
  no result in that state. Where go-routines interleave, each of their channel operations is a step of an
  inductive relation. \<open>Orion_Prelude\<close> holds this vocabulary.

  \<^bold>\<open>Interfaces.\<close> What the server takes from elsewhere is an argument: a record of operations, with the laws the
  code relies on in a locale. \<open>leveldb\<close> is goleveldb, met by \<open>Mem_DB\<close>; \<open>block_serialization\<close>, \<open>state_serialization\<close> and
  \<open>node_serialization\<close> are protocol buffers, met by codecs on \<open>Pb_Wire\<close>; \<open>fixed_digest\<close> is the hash, met by SHA-256 in
  \<open>Sha256\<close> and by a short checksum for runs; \<open>trie_store\<close> is the store below the trie, met by \<open>Trie_Store\<close>;
  \<open>block_processor\<close> is what the replicator expects behind the barrier, met by \<open>processBlock\<close> of \<open>Block_Processor\<close>. X.509, JSON,
  Raft, the write-ahead log, the provenance store and the network are arguments without laws, or with the
  laws in the statement that needs them. \<open>Sample_Node\<close> composes the concrete instances into one node.

  \<^bold>\<open>What is shown.\<close>
  \<^item> \<open>MTree\<close>: the tree gives every transaction a proof that verifies, and only transactions of the block have one
    unless hashes collide or a transaction is exactly as long as two hashes.
  \<^item> \<open>Trie_Properties\<close>: reading, writing, deleting and proving a key act on a map from keys to values; and three
    behaviours that break this outside its conditions. \<open>Commit_Properties\<close>: the trie after a block depends on the
    order of a Go map.
  \<^item> \<open>Worldstate_Properties\<close> and \<open>Index_Properties\<close>: a commit changes exactly the keys of the updates, databases appear and
    disappear as asked, the index follows the values, and index keys sort as the numbers they encode.
  \<^item> \<open>Block_Properties\<close>: the block store is the list of committed blocks; a crash at any point of a commit loses at
    most the block being committed, except that the store cannot be opened when the index has outrun the chunk
    file in a failure of the machine, or when the very first block is torn; a failed write keeps the chain; and
    the ways a committed block is lost. The crash model keeps the records of earlier blocks, and of an
    unflushed record a prefix.
    \<open>Commit_Properties\<close>: recovery finishes an interrupted commit, except for the index of a new database.
  \<^item> \<open>Validation_Properties\<close>: each validator accepts exactly the transactions a declarative predicate describes, valid
    transactions of one block do not conflict, and quorums before and after a change of the members meet.
  \<^item> \<open>Tx_Properties\<close>: batches keep the order, a transaction id commits at most once unless another leader's block or a
    released block carries it too, receipts are those of the block, every call on the barrier returns; and the
    promise that a fast commit strands.
  \<^item> \<open>Replicator_Properties\<close>: the ledger is a prefix of the Raft log through batches, repetitions and restarts, the
    proposals of a leader form a chain for the time it leads, on-boarding ends and does what the block processor
    does on the missing blocks; and two ways the loops go wrong.

  \<^bold>\<open>Bounds.\<close> The recursions of the trie that follow pointers take fuel, one more than the number of nibbles of the
  key; the refinement shows that this is enough. Persisting a trie takes the fuel \<open>neTrieFuel\<close>, which has to exceed the
  depth of the trie, at most 65 for keys of 32 bytes. \<open>skipListHeight\<close> and \<open>catchUpToBlock\<close> are partial functions; they
  are shown to return, the second when the members answer. All other loops are total by structure or by a
  termination proof. Lengths are assumed below \<open>2 ^ 64\<close> where the code counts with 64 bits.

  \<^bold>\<open>Not modelled.\<close> The provenance store (a graph in the cayley library) and its queries, the rich query planner, the
  query processors and the facade \<^verbatim>\<open>internal/bcdb/db.go\<close>, which assemble and sign responses; the HTTP handlers, the
  transports of \<^verbatim>\<open>internal/comm\<close> and the server, which are network code; snapshots of the world state, file
  operations, signing, configuration files, commands and logging, which are calls of libraries and of the
  operating system; in the modelled parts, timers, the campaign loop and the signalling at start and stop.
\<close>

end
